(* ===== verification/Prelude.thy ===== *)
theory Prelude
  imports Main "HOL-Library.Word" "HOL-Library.AList" "HOL-Library.List_Lexorder"
begin

text \<open>
  Shared vocabulary of the development: the exceptions of the Python code as values, the
  result type and its sequencing, Python dictionaries as association lists, byte strings and
  fixed-width big-endian integers, and the interfaces (locales) that the byte codecs of the
  code satisfy.
\<close>

section \<open>Collections of facts\<close>

named_theorems result_simps \<open>sequencing of fallible computations\<close>
named_theorems dict_simps \<open>lookups in updated dictionaries\<close>
named_theorems bytes_simps \<open>lengths and slices of byte strings\<close>

section \<open>Exceptions as values\<close>

text \<open>The exception classes that the modelled code raises.\<close>

datatype py_error =
    ValueError
  | AssertionError
  | KeyError
  | IndexError
  | AttributeError
  | TypeError
  | StructError
  | NotImplementedError
  | RuntimeError
  | CryptoError
  | OSError
  | OverflowError
  | Finished
  | Blocked
  | BadValsizeError
  | GenericException

type_synonym 'a result = "py_error + 'a"

fun bindr :: "'e + 'a \<Rightarrow> ('a \<Rightarrow> 'e + 'b) \<Rightarrow> 'e + 'b" where
  "bindr (Inl e) f = Inl e"
| "bindr (Inr x) f = f x"

declare bindr.simps [result_simps]

lemma bindr_Inr_iff [result_simps]: "bindr m f = Inr y \<longleftrightarrow> (\<exists>x. m = Inr x \<and> f x = Inr y)"
  by (cases m) auto

lemma bindr_Inl_iff:
  "bindr m f = Inl e \<longleftrightarrow> m = Inl e \<or> (\<exists>x. m = Inr x \<and> f x = Inl e)"
  by (cases m) auto

lemma bindr_assoc: "bindr (bindr m f) g = bindr m (\<lambda>x. bindr (f x) g)"
  by (cases m) auto

text \<open>\<open>assert b\<close> and \<open>if not b: raise e\<close>.\<close>

definition require :: "bool \<Rightarrow> 'e \<Rightarrow> 'e + unit" where
  "require b e = (if b then Inr () else Inl e)"

lemma require_simps [simp]: "require True e = Inr ()" "require False e = Inl e"
  by (simp_all add: require_def)

lemma require_Inr_iff [result_simps, simp]: "require b e = Inr u \<longleftrightarrow> b"
  by (simp add: require_def)

text \<open>A comprehension \<open>[f(x) for x in xs]\<close> that stops at the first exception.\<close>

fun mapr :: "('a \<Rightarrow> 'e + 'b) \<Rightarrow> 'a list \<Rightarrow> 'e + 'b list" where
  "mapr f [] = Inr []"
| "mapr f (x # xs) = bindr (f x) (\<lambda>y. bindr (mapr f xs) (\<lambda>ys. Inr (y # ys)))"

lemma mapr_cong [fundef_cong]:
  "xs = ys \<Longrightarrow> (\<And>x. x \<in> set ys \<Longrightarrow> f x = g x) \<Longrightarrow> mapr f xs = mapr g ys"
  by (induction ys arbitrary: xs) auto

lemma mapr_Inr_map: "(\<And>x. x \<in> set xs \<Longrightarrow> f x = Inr (g x)) \<Longrightarrow> mapr f xs = Inr (map g xs)"
  by (induction xs) auto

lemma mapr_length: "mapr f xs = Inr ys \<Longrightarrow> length ys = length xs"
  by (induction xs arbitrary: ys) (auto simp: result_simps)

section \<open>Dictionaries\<close>

text \<open>
  A Python \<open>dict\<close> keeps its insertion order, an assignment to a present key keeps the
  position, a new key goes to the end: an association list with distinct keys, updated by
  \<^const>\<open>AList.update\<close>.
\<close>

type_synonym ('k, 'v) dict = "('k \<times> 'v) list"

abbreviation dget :: "('k, 'v) dict \<Rightarrow> 'k \<Rightarrow> 'v option" where
  "dget d k \<equiv> map_of d k"

definition dput :: "'k \<Rightarrow> 'v \<Rightarrow> ('k, 'v) dict \<Rightarrow> ('k, 'v) dict" where
  "dput k v d = AList.update k v d"

definition dpop :: "'k \<Rightarrow> ('k, 'v) dict \<Rightarrow> ('k, 'v) dict" where
  "dpop k d = AList.delete k d"

abbreviation dkeys :: "('k, 'v) dict \<Rightarrow> 'k list" where
  "dkeys d \<equiv> map fst d"

definition dict_ok :: "('k, 'v) dict \<Rightarrow> bool" where
  "dict_ok d \<longleftrightarrow> distinct (dkeys d)"

text \<open>\<open>d[k]\<close> raises \<open>KeyError\<close> on a missing key.\<close>

definition dindex :: "('k, 'v) dict \<Rightarrow> 'k \<Rightarrow> 'v result" where
  "dindex d k = (case dget d k of None \<Rightarrow> Inl KeyError | Some v \<Rightarrow> Inr v)"

text \<open>\<open>d.pop(k)\<close> raises \<open>KeyError\<close> on a missing key.\<close>

definition dpop_key :: "'k \<Rightarrow> ('k, 'v) dict \<Rightarrow> ('v \<times> ('k, 'v) dict) result" where
  "dpop_key k d = (case dget d k of None \<Rightarrow> Inl KeyError | Some v \<Rightarrow> Inr (v, dpop k d))"

lemma dget_dput [dict_simps, simp]: "dget (dput k v d) k' = (if k' = k then Some v else dget d k')"
  by (simp add: dput_def update_conv')

lemma dget_dpop [dict_simps, simp]: "dget (dpop k d) k' = (if k' = k then None else dget d k')"
  by (simp add: dpop_def delete_conv')

lemma dkeys_dput [dict_simps, simp]: "set (dkeys (dput k v d)) = insert k (set (dkeys d))"
  by (simp add: dput_def dom_update)

lemma dkeys_dpop [dict_simps, simp]: "set (dkeys (dpop k d)) = set (dkeys d) - {k}"
  by (simp add: dpop_def delete_keys)

lemma dict_ok_empty [simp]: "dict_ok []"
  by (simp add: dict_ok_def)

lemma dict_ok_dput [simp]: "dict_ok d \<Longrightarrow> dict_ok (dput k v d)"
  by (simp add: dict_ok_def dput_def distinct_update)

lemma dict_ok_dpop [simp]: "dict_ok d \<Longrightarrow> dict_ok (dpop k d)"
  by (simp add: dict_ok_def dpop_def distinct_delete)

lemma dget_None_iff: "dget d k = None \<longleftrightarrow> k \<notin> set (dkeys d)"
  by (simp add: map_of_eq_None_iff)

lemma dget_Some_key: "dget d k = Some v \<Longrightarrow> k \<in> set (dkeys d)"
  by (metis dget_None_iff option.distinct(1))

lemma dkey_dget: "k \<in> set (dkeys d) \<Longrightarrow> \<exists>v. dget d k = Some v"
  by (metis dget_None_iff option.exhaust)

lemma dindex_Inr_iff [result_simps]: "dindex d k = Inr v \<longleftrightarrow> dget d k = Some v"
  by (auto simp: dindex_def split: option.splits)

lemma dpop_key_Inr_iff [result_simps]:
  "dpop_key k d = Inr (v, d') \<longleftrightarrow> dget d k = Some v \<and> d' = dpop k d"
  by (auto simp: dpop_key_def split: option.splits)


section \<open>Methods that mutate an object and may raise\<close>

text \<open>
  A method of a mutable object maps the state to its result and the new state. An exception leaves
  what was already written in place, as in Python, so the state is returned with the error too.
\<close>

type_synonym ('s, 'a) py = "'s \<Rightarrow> 'a result \<times> 's"

definition py_return :: "'a \<Rightarrow> ('s, 'a) py" where
  "py_return x = (\<lambda>s. (Inr x, s))"

definition py_raise :: "py_error \<Rightarrow> ('s, 'a) py" where
  "py_raise e = (\<lambda>s. (Inl e, s))"

definition py_lift :: "'a result \<Rightarrow> ('s, 'a) py" where
  "py_lift r = (\<lambda>s. (r, s))"

definition py_read :: "('s \<Rightarrow> 'a result) \<Rightarrow> ('s, 'a) py" where
  "py_read f = (\<lambda>s. (f s, s))"

definition py_modify :: "('s \<Rightarrow> 's) \<Rightarrow> ('s, unit) py" where
  "py_modify f = (\<lambda>s. (Inr (), f s))"

definition py_bind :: "('s, 'a) py \<Rightarrow> ('a \<Rightarrow> ('s, 'b) py) \<Rightarrow> ('s, 'b) py" where
  "py_bind m f = (\<lambda>s. case m s of (Inl e, s') \<Rightarrow> (Inl e, s') | (Inr x, s') \<Rightarrow> f x s')"

definition py_then :: "('s, 'a) py \<Rightarrow> ('s, 'b) py \<Rightarrow> ('s, 'b) py" where
  "py_then m m' = py_bind m (\<lambda>_. m')"

definition py_when :: "bool \<Rightarrow> ('s, unit) py \<Rightarrow> ('s, unit) py" where
  "py_when b m = (if b then m else py_return ())"

fun py_each :: "('a \<Rightarrow> ('s, unit) py) \<Rightarrow> 'a list \<Rightarrow> ('s, unit) py" where
  "py_each f [] = py_return ()"
| "py_each f (x # xs) = py_then (f x) (py_each f xs)"

named_theorems py_simps \<open>unfolding of methods\<close>

lemma py_apply [py_simps]:
  "py_return x s = (Inr x, s)"
  "py_raise e s = (Inl e, s)"
  "py_lift r s = (r, s)"
  "py_read f s = (f s, s)"
  "py_modify g s = (Inr (), g s)"
  by (simp_all add: py_return_def py_raise_def py_lift_def py_read_def py_modify_def)

lemma py_bind_apply [py_simps]:
  "py_bind m f s = (case m s of (Inl e, s') \<Rightarrow> (Inl e, s') | (Inr x, s') \<Rightarrow> f x s')"
  by (simp add: py_bind_def)

lemma py_then_apply [py_simps]:
  "py_then m m' s = (case m s of (Inl e, s') \<Rightarrow> (Inl e, s') | (Inr x, s') \<Rightarrow> m' s')"
  by (simp add: py_then_def py_bind_def)

lemma py_when_apply [py_simps]: "py_when b m s = (if b then m s else (Inr (), s))"
  by (simp add: py_when_def py_return_def)

lemma py_bind_Inr_iff:
  "py_bind m f s = (Inr y, t) \<longleftrightarrow> (\<exists>x s'. m s = (Inr x, s') \<and> f x s' = (Inr y, t))"
  by (auto simp: py_bind_def split: prod.splits sum.splits)

lemma py_then_Inr_iff:
  "py_then m m' s = (Inr y, t) \<longleftrightarrow> (\<exists>x s'. m s = (Inr x, s') \<and> m' s' = (Inr y, t))"
  by (simp add: py_then_def py_bind_Inr_iff)

lemma py_then_unit_iff:
  fixes m :: "('s, unit) py"
  shows "py_then m m' s = (Inr y, t) \<longleftrightarrow> (\<exists>s'. m s = (Inr (), s') \<and> m' s' = (Inr y, t))"
  by (simp add: py_then_Inr_iff)

lemma py_bind_step: "m s = (Inr x, s') \<Longrightarrow> py_bind m f s = f x s'"
  by (simp add: py_bind_def)

lemma py_then_step: "m s = (Inr x, s') \<Longrightarrow> py_then m m' s = m' s'"
  by (simp add: py_then_def py_bind_def)

text \<open>A method of a part of the object.\<close>

definition py_zoom :: "('s \<Rightarrow> 't) \<Rightarrow> ('t \<Rightarrow> 's \<Rightarrow> 's) \<Rightarrow> ('t, 'a) py \<Rightarrow> ('s, 'a) py" where
  "py_zoom get put m = (\<lambda>s. case m (get s) of (r, t) \<Rightarrow> (r, put t s))"

text \<open>\<open>try: m except e: h; raise\<close> for one exception.\<close>

definition py_on_error :: "py_error \<Rightarrow> ('s, unit) py \<Rightarrow> ('s, 'a) py \<Rightarrow> ('s, 'a) py" where
  "py_on_error e h m = (\<lambda>s. case m s of
      (Inl e', s') \<Rightarrow> if e' = e then (case h s' of (Inl e2, s2) \<Rightarrow> (Inl e2, s2) | (Inr _, s2) \<Rightarrow> (Inl e, s2)) else (Inl e', s')
    | (Inr x, s') \<Rightarrow> (Inr x, s'))"

text \<open>A property of the state that a method keeps, whether or not it raises.\<close>

definition py_keeps :: "('s \<Rightarrow> bool) \<Rightarrow> ('s, 'a) py \<Rightarrow> bool" where
  "py_keeps I m \<longleftrightarrow> (\<forall>s. I s \<longrightarrow> I (snd (m s)))"

lemma py_keeps_basic [intro]:
  "py_keeps I (py_return x)" "py_keeps I (py_raise e)" "py_keeps I (py_lift r)" "py_keeps I (py_read f)"
  by (simp_all add: py_keeps_def py_apply)

lemma py_keeps_modify: "(\<And>s. I s \<Longrightarrow> I (g s)) \<Longrightarrow> py_keeps I (py_modify g)"
  by (simp add: py_keeps_def py_apply)

lemma py_keeps_bind [intro]:
  "py_keeps I m \<Longrightarrow> (\<And>x. py_keeps I (f x)) \<Longrightarrow> py_keeps I (py_bind m f)"
  unfolding py_keeps_def py_bind_def by (auto split: prod.splits sum.splits)

lemma py_keeps_then [intro]: "py_keeps I m \<Longrightarrow> py_keeps I m' \<Longrightarrow> py_keeps I (py_then m m')"
  by (simp add: py_then_def py_keeps_bind)

lemma py_keeps_when [intro]: "py_keeps I m \<Longrightarrow> py_keeps I (py_when b m)"
  by (simp add: py_when_def py_keeps_basic)

lemma py_keeps_if [intro]: "py_keeps I m \<Longrightarrow> py_keeps I m' \<Longrightarrow> py_keeps I (if b then m else m')"
  by simp

lemma py_keeps_each: "(\<And>x. py_keeps I (f x)) \<Longrightarrow> py_keeps I (py_each f xs)"
  by (induction xs) auto

end
