(* ===== verification/Bytes.thy ===== *)
theory Bytes
  imports Prelude
begin

text \<open>
  Byte strings as lists of 8-bit words, in Python's (lexicographic) order, and the big-endian
  integers that \<open>struct.pack\<close> and \<open>int.to_bytes\<close> produce. The locale \<open>byte_codec\<close> states what
  a fixed-width encoding promises (a fixed length, a decoder that inverts it),
  \<open>ordered_codec\<close> adds that byte order is the order of the values; the range scans of the
  store are proved correct from these two contracts only.
\<close>

type_synonym byte = "8 word"
type_synonym bytes = "byte list"

section \<open>Lexicographic order\<close>

lemma Cons_less_Cons [simp]:
  fixes a b :: "'a::linorder"
  shows "a # x < b # y \<longleftrightarrow> a < b \<or> a = b \<and> x < y"
  by (auto simp: list_less_def)

lemma append_less_same [simp]:
  fixes p x y :: "'a::linorder list"
  shows "p @ x < p @ y \<longleftrightarrow> x < y"
  by (induction p) auto

lemma append_le_same [simp]:
  fixes p x y :: "'a::linorder list"
  shows "p @ x \<le> p @ y \<longleftrightarrow> x \<le> y"
  by (auto simp: le_less)

lemma append_less_split:
  fixes a b x y :: "'a::linorder list"
  shows "length a = length b \<Longrightarrow> a @ x < b @ y \<longleftrightarrow> a < b \<or> a = b \<and> x < y"
proof (induction a arbitrary: b)
  case Nil
  then show ?case by simp
next
  case (Cons u a)
  then show ?case by (cases b) auto
qed

lemma append_le_split:
  fixes a b x y :: "'a::linorder list"
  shows "length a = length b \<Longrightarrow> a @ x \<le> b @ y \<longleftrightarrow> a < b \<or> a = b \<and> x \<le> y"
  by (auto simp: le_less append_less_split)

lemma Nil_le [simp]: "[] \<le> (x :: 'a::linorder list)"
  by (cases x) (auto simp: list_le_def list_less_def)

lemma prefix_le [simp]:
  fixes p x :: "'a::linorder list"
  shows "p \<le> p @ x"
  using append_le_same [of p "[]" x] by simp

section \<open>Big-endian integers\<close>

fun be_bytes :: "nat \<Rightarrow> int \<Rightarrow> bytes" where
  "be_bytes 0 n = []"
| "be_bytes (Suc k) n = be_bytes k (n div 256) @ [word_of_int (n mod 256)]"

definition be_int :: "bytes \<Rightarrow> int" where
  "be_int bs = foldl (\<lambda>acc b. acc * 256 + uint b) 0 bs"

lemma length_be_bytes [simp, bytes_simps]: "length (be_bytes k n) = k"
  by (induction k arbitrary: n) auto

lemma uint_byte_range: "0 \<le> uint (b :: byte)" "uint (b :: byte) < 256"
proof -
  show "0 \<le> uint b" by simp
  show "uint b < 256" using uint_lt2p [of b] by simp
qed

lemma be_int_Nil [simp]: "be_int [] = 0"
  by (simp add: be_int_def)

lemma be_int_snoc [simp]: "be_int (bs @ [b]) = be_int bs * 256 + uint b"
  by (simp add: be_int_def)

lemma be_int_append: "be_int (xs @ ys) = be_int xs * 256 ^ length ys + be_int ys"
  by (induction ys rule: rev_induct) (auto simp: append_assoc [symmetric] algebra_simps simp del: append_assoc)

lemma be_int_nonneg [simp]: "0 \<le> be_int bs"
  by (induction bs rule: rev_induct) auto

lemma be_int_less: "be_int bs < 256 ^ length bs"
proof (induction bs rule: rev_induct)
  case Nil
  then show ?case by simp
next
  case (snoc b bs)
  then show ?case using uint_byte_range [of b] by simp
qed

lemma be_int_Cons: "be_int (b # bs) = uint b * 256 ^ length bs + be_int bs"
  using be_int_append [of "[b]" bs] by (simp add: be_int_def)

lemma be_int_be_bytes [simp]: "be_int (be_bytes k n) = n mod 256 ^ k"
proof (induction k arbitrary: n)
  case 0
  then show ?case by simp
next
  case (Suc k)
  have "n div 256 mod 256 ^ k * 256 + n mod 256 = n mod (256 * 256 ^ k)"
    by (simp add: zmod_zmult2_eq)
  with Suc show ?case by (simp add: uint_word_of_int)
qed

lemma be_bytes_be_int: "length bs = k \<Longrightarrow> be_bytes k (be_int bs) = bs"
proof (induction bs arbitrary: k rule: rev_induct)
  case Nil
  then show ?case by simp
next
  case (snoc b bs)
  have "(be_int bs * 256 + uint b) div 256 = be_int bs"
    and "(be_int bs * 256 + uint b) mod 256 = uint b"
    using uint_byte_range [of b] by simp_all
  with snoc show ?case by (cases k) simp_all
qed

lemma be_int_inj: "length xs = length ys \<Longrightarrow> be_int xs = be_int ys \<Longrightarrow> xs = ys"
  by (metis be_bytes_be_int)

lemma be_int_less_iff: "length xs = length ys \<Longrightarrow> be_int xs < be_int ys \<longleftrightarrow> xs < ys"
proof (induction xs ys rule: list_induct2)
  case Nil
  then show ?case by simp
next
  case (Cons x xs y ys)
  let ?m = "256 ^ length xs :: int"
  have bx: "0 \<le> be_int xs" "be_int xs < ?m" by (auto simp: be_int_less)
  have by': "0 \<le> be_int ys" "be_int ys < ?m"
    using Cons.hyps by (simp, metis be_int_less)
  have step: "a * ?m + p < b * ?m + q" if "a < b" "p < ?m" "0 \<le> q" for a b p q :: int
  proof -
    have "a * ?m + p < (a + 1) * ?m" using that by (simp add: algebra_simps)
    also have "\<dots> \<le> b * ?m" using that by (intro mult_right_mono) auto
    finally show ?thesis using that by linarith
  qed
  have lt: "uint x < uint y \<Longrightarrow> uint x * ?m + be_int xs < uint y * ?m + be_int ys"
    using step bx by' by blast
  have gt: "uint y < uint x \<Longrightarrow> \<not> uint x * ?m + be_int xs < uint y * ?m + be_int ys"
    using step [of "uint y" "uint x" "be_int ys" "be_int xs"] bx by' by linarith
  show ?case
  proof (cases "uint x" "uint y" rule: linorder_cases)
    case less
    with lt show ?thesis by (simp add: be_int_Cons Cons.hyps word_less_def)
  next
    case equal
    then have "x = y" by (simp add: word_uint_eq_iff)
    with Cons show ?thesis by (simp add: be_int_Cons)
  next
    case greater
    with gt show ?thesis by (auto simp: be_int_Cons Cons.hyps word_less_def)
  qed
qed

lemma be_bytes_less_iff:
  assumes "0 \<le> m" "m < 256 ^ k" "0 \<le> n" "n < 256 ^ k"
  shows "be_bytes k m < be_bytes k n \<longleftrightarrow> m < n"
  using assms be_int_less_iff [of "be_bytes k m" "be_bytes k n"] by simp

lemma be_bytes_eq_iff:
  assumes "0 \<le> m" "m < 256 ^ k" "0 \<le> n" "n < 256 ^ k"
  shows "be_bytes k m = be_bytes k n \<longleftrightarrow> m = n"
  using assms by (metis be_int_be_bytes mod_pos_pos_trivial)

section \<open>Fixed-width codecs\<close>

locale byte_codec =
  fixes enc :: "'a \<Rightarrow> bytes"
    and dec :: "bytes \<Rightarrow> 'a result"
    and ok :: "'a \<Rightarrow> bool"
    and width :: nat
  assumes enc_length: "ok x \<Longrightarrow> length (enc x) = width"
    and dec_enc: "ok x \<Longrightarrow> dec (enc x) = Inr x"
begin

lemma enc_inj: "ok x \<Longrightarrow> ok y \<Longrightarrow> enc x = enc y \<longleftrightarrow> x = y"
  by (metis dec_enc sum.inject(2))

lemma enc_append_eq: "ok x \<Longrightarrow> ok y \<Longrightarrow> enc x @ p = enc y @ q \<longleftrightarrow> x = y \<and> p = q"
  by (metis append_eq_append_conv enc_inj enc_length)

lemma dec_take: "ok x \<Longrightarrow> dec (take width (enc x @ p)) = Inr x"
  by (simp add: enc_length dec_enc)

lemma drop_enc: "ok x \<Longrightarrow> drop width (enc x @ p) = p"
  by (simp add: enc_length)

end

locale ordered_codec = byte_codec enc dec ok width
  for enc :: "'a \<Rightarrow> bytes" and dec :: "bytes \<Rightarrow> 'a result" and ok :: "'a \<Rightarrow> bool"
    and width :: nat +
  fixes lt :: "'a \<Rightarrow> 'a \<Rightarrow> bool"
  assumes enc_less: "ok x \<Longrightarrow> ok y \<Longrightarrow> enc x < enc y \<longleftrightarrow> lt x y"
begin

lemma enc_le: "ok x \<Longrightarrow> ok y \<Longrightarrow> enc x \<le> enc y \<longleftrightarrow> lt x y \<or> x = y"
  by (auto simp: le_less enc_less enc_inj)

lemma enc_append_less:
  "ok x \<Longrightarrow> ok y \<Longrightarrow> enc x @ p < enc y @ q \<longleftrightarrow> lt x y \<or> x = y \<and> p < q"
  by (simp add: append_less_split enc_length enc_less enc_inj)

lemma enc_append_le:
  "ok x \<Longrightarrow> ok y \<Longrightarrow> enc x @ p \<le> enc y @ q \<longleftrightarrow> lt x y \<or> x = y \<and> p \<le> q"
  by (simp add: append_le_split enc_length enc_less enc_inj)

lemma lt_irrefl: "ok x \<Longrightarrow> \<not> lt x x"
  using enc_less [of x x] by simp

lemma lt_trans: "ok x \<Longrightarrow> ok y \<Longrightarrow> ok z \<Longrightarrow> lt x y \<Longrightarrow> lt y z \<Longrightarrow> lt x z"
  using enc_less [of x y] enc_less [of y z] enc_less [of x z] by auto

lemma lt_linear: "ok x \<Longrightarrow> ok y \<Longrightarrow> lt x y \<or> x = y \<or> lt y x"
  using enc_less [of x y] enc_less [of y x] enc_inj [of x y] by auto

end

end
