(* ===== verification/Py_Text.thy ===== *)
theory Py_Text
  imports Bytes
begin

text \<open>
  The string operations of Python's standard library that the code uses: positional numerals
  (\<open>str(int)\<close>, \<open>hex\<close>, \<open>int(s, base)\<close>), \<open>upper\<close>, \<open>zfill\<close>, \<open>split\<close>, \<open>bytes.hex\<close> and
  \<open>bytes.fromhex\<close>. A \<open>str\<close> is the list of its UTF-8 bytes as \<^typ>\<open>char\<close>s, so \<open>encode()\<close> is a
  map over it.
\<close>

section \<open>Digits\<close>

fun digits_of :: "nat \<Rightarrow> nat \<Rightarrow> nat list" where
  "digits_of b n = (if n < b \<or> b < 2 then [n] else digits_of b (n div b) @ [n mod b])"

declare digits_of.simps [simp del]

definition digit_char :: "nat \<Rightarrow> char" where
  "digit_char d = (if d < 10 then char_of (48 + d) else char_of (87 + d))"

definition upper_char :: "char \<Rightarrow> char" where
  "upper_char c =
    (let n = of_char c :: nat in if 97 \<le> n \<and> n \<le> 122 then char_of (n - 32) else c)"

definition digit_val :: "char \<Rightarrow> nat option" where
  "digit_val c =
    (let n = of_char c :: nat in
      if 48 \<le> n \<and> n \<le> 57 then Some (n - 48)
      else if 97 \<le> n \<and> n \<le> 122 then Some (n - 87)
      else if 65 \<le> n \<and> n \<le> 90 then Some (n - 55)
      else None)"

lemma digit_val_digit_char [simp]: "d < 36 \<Longrightarrow> digit_val (digit_char d) = Some d"
  by (auto simp: digit_val_def digit_char_def Let_def)

lemma digit_val_upper_digit_char [simp]:
  "d < 36 \<Longrightarrow> digit_val (upper_char (digit_char d)) = Some d"
  by (auto simp: digit_val_def digit_char_def upper_char_def Let_def)

lemma digits_of_less: "2 \<le> b \<Longrightarrow> d \<in> set (digits_of b n) \<Longrightarrow> d < b"
proof (induction b n rule: digits_of.induct)
  case (1 b n)
  then show ?case by (subst (asm) (2) digits_of.simps) (auto split: if_splits)
qed

lemma digits_of_nonempty [simp]: "digits_of b n \<noteq> []"
  by (subst digits_of.simps) auto

lemma digits_of_length: "2 \<le> b \<Longrightarrow> n < b ^ k \<Longrightarrow> 0 < k \<Longrightarrow> length (digits_of b n) \<le> k"
proof (induction k arbitrary: n)
  case 0
  then show ?case by simp
next
  case (Suc k)
  show ?case
  proof (cases "n < b")
    case True
    then show ?thesis by (subst digits_of.simps) simp
  next
    case False
    then have "0 < k" using Suc.prems by (cases k) auto
    moreover have "n div b < b ^ k"
      using Suc.prems by (simp add: less_mult_imp_div_less mult.commute)
    ultimately have "length (digits_of b (n div b)) \<le> k" using Suc by blast
    with False Suc.prems show ?thesis by (subst digits_of.simps) simp
  qed
qed

section \<open>Parsing integers\<close>

definition is_space :: "char \<Rightarrow> bool" where
  "is_space c = (let n = of_char c :: nat in (9 \<le> n \<and> n \<le> 13) \<or> n = 32)"

definition py_strip :: "string \<Rightarrow> string" where
  "py_strip s = rev (dropWhile is_space (rev (dropWhile is_space s)))"

text \<open>
  \<open>int\<close> and the \<open>\d\<close> of a pattern know the decimal digits of all scripts: the code points of the zeros of
  Unicode 15, each followed by the other nine digits, and the white space beyond ASCII.
\<close>

definition digit_zeros :: "int list" where
  "digit_zeros = [48, 1632, 1776, 1984, 2406, 2534, 2662, 2790, 2918, 3046, 3174, 3302, 3430, 3558, 3664, 3792, 3872,
    4160, 4240, 6112, 6160, 6470, 6608, 6784, 6800, 6992, 7088, 7232, 7248, 42528, 43216, 43264, 43472, 43504, 43600,
    44016, 65296, 66720, 68912, 69734, 69872, 69942, 70096, 70384, 70736, 70864, 71248, 71360, 71472, 71904, 72016,
    72784, 73040, 73120, 73552, 92768, 92864, 93008, 120782, 120792, 120802, 120812, 120822, 123200, 123632, 124144,
    125264, 130032]"

definition wide_spaces :: "int list" where
  "wide_spaces = [133, 160, 5760, 8192, 8193, 8194, 8195, 8196, 8197, 8198, 8199, 8200, 8201, 8202, 8232, 8233, 8239,
    8287, 12288]"

text \<open>The code points of a text in UTF-8.\<close>

definition low_bits :: "int \<Rightarrow> char \<Rightarrow> int" where
  "low_bits m c = of_char c mod m"

fun code_points :: "string \<Rightarrow> int list" where
  "code_points [] = []"
| "code_points (a # b # c # d # s) =
    (if of_char a < (192 :: int) then of_char a # code_points (b # c # d # s)
     else if of_char a < (224 :: int) then (low_bits 32 a * 64 + low_bits 64 b) # code_points (c # d # s)
     else if of_char a < (240 :: int) then (low_bits 16 a * 4096 + low_bits 64 b * 64 + low_bits 64 c) # code_points (d # s)
     else (low_bits 8 a * 262144 + low_bits 64 b * 4096 + low_bits 64 c * 64 + low_bits 64 d) # code_points s)"
| "code_points (a # b # c # s) =
    (if of_char a < (192 :: int) then of_char a # code_points (b # c # s)
     else if of_char a < (224 :: int) then (low_bits 32 a * 64 + low_bits 64 b) # code_points (c # s)
     else (low_bits 16 a * 4096 + low_bits 64 b * 64 + low_bits 64 c) # code_points s)"
| "code_points (a # b # s) =
    (if of_char a < (192 :: int) then of_char a # code_points (b # s)
     else (low_bits 32 a * 64 + low_bits 64 b) # code_points s)"
| "code_points (a # s) = of_char a # code_points s"

definition ascii_char :: "int \<Rightarrow> char" where
  "ascii_char n =
    (if n < 127 then char_of n
     else if n \<in> set wide_spaces then CHR '' ''
     else case List.find (\<lambda>z. z \<le> n \<and> n < z + 10) digit_zeros of
       Some z \<Rightarrow> char_of (48 + (n - z))
     | None \<Rightarrow> CHR ''?'')"

definition is_ascii :: "string \<Rightarrow> bool" where
  "is_ascii s \<longleftrightarrow> (\<forall>c \<in> set s. of_char c < (128 :: int))"

text \<open>What \<open>int\<close> reads: an ASCII text as it is, any other with its digits and spaces replaced by those of ASCII.\<close>

definition to_ascii :: "string \<Rightarrow> string" where
  "to_ascii s = (if is_ascii s then s else map ascii_char (code_points s))"

text \<open>A run of digits in which single underscores may separate digits.\<close>

fun digit_run :: "nat \<Rightarrow> bool \<Rightarrow> int \<Rightarrow> string \<Rightarrow> int option" where
  "digit_run b seen acc [] = (if seen then Some acc else None)"
| "digit_run b seen acc (c # cs) =
    (if c = CHR ''_'' then (if seen then digit_run b False acc cs else None)
     else (case digit_val c of
        None \<Rightarrow> None
      | Some d \<Rightarrow> if d < b then digit_run b True (acc * int b + int d) cs else None))"

definition strip_radix :: "nat \<Rightarrow> string \<Rightarrow> string" where
  "strip_radix b s =
    (if b = 16 \<and> (take 2 s = ''0x'' \<or> take 2 s = ''0X'')
     then (case drop 2 s of [] \<Rightarrow> [] | c # cs \<Rightarrow> if c = CHR ''_'' then cs else c # cs)
     else s)"

text \<open>
  Since 3.12 Python converts between integers and decimal texts of at most 4300 digits
  (\<open>sys.get_int_max_str_digits\<close>), zeros at the front included, the sign and underscores not. Bases that are powers
  of two have no such limit.
\<close>

definition MAX_STR_DIGITS :: int where "MAX_STR_DIGITS = 4300"

definition too_long :: "nat \<Rightarrow> string \<Rightarrow> bool" where
  "too_long b s \<longleftrightarrow> b \<noteq> 16 \<and> MAX_STR_DIGITS < int (length (List.filter (\<lambda>c. c \<noteq> CHR ''_'') s))"

definition py_int :: "nat \<Rightarrow> string \<Rightarrow> int result" where
  "py_int b s =
    (let t = py_strip (to_ascii s);
         neg = (take 1 t = ''-'');
         u = strip_radix b (if take 1 t = ''-'' \<or> take 1 t = ''+'' then drop 1 t else t)
     in case digit_run b False 0 u of
          None \<Rightarrow> Inl ValueError
        | Some n \<Rightarrow> if too_long b u then Inl ValueError else Inr (if neg then - n else n))"

definition decimal_text :: "int \<Rightarrow> string" where
  "decimal_text n =
    (if n < 0 then ''-'' else []) @ map digit_char (digits_of 10 (nat \<bar>n\<bar>))"

definition fits_text :: "int \<Rightarrow> bool" where
  "fits_text n \<longleftrightarrow> int (length (digits_of 10 (nat \<bar>n\<bar>))) \<le> MAX_STR_DIGITS"

definition py_str_int :: "int \<Rightarrow> string result" where
  "py_str_int n = (if fits_text n then Inr (decimal_text n) else Inl ValueError)"

lemma py_str_int_Inr [result_simps]: "py_str_int n = Inr s \<longleftrightarrow> fits_text n \<and> s = decimal_text n"
  by (auto simp: py_str_int_def)

definition num_val :: "nat \<Rightarrow> string \<Rightarrow> int" where
  "num_val b s = foldl (\<lambda>a c. a * int b + int (the (digit_val c))) 0 s"

definition is_digits :: "nat \<Rightarrow> string \<Rightarrow> bool" where
  "is_digits b s \<longleftrightarrow> (\<forall>c \<in> set s. \<exists>d < b. digit_val c = Some d)"

lemma digit_run_foldl:
  "is_digits b s \<Longrightarrow> digit_run b seen acc s =
    (if s = [] \<and> \<not> seen then None
     else Some (foldl (\<lambda>a c. a * int b + int (the (digit_val c))) acc s))"
proof (induction s arbitrary: seen acc)
  case Nil
  then show ?case by simp
next
  case (Cons c s)
  moreover from Cons.prems obtain d where "d < b" "digit_val c = Some d"
    by (auto simp: is_digits_def)
  moreover have "c \<noteq> CHR ''_''" using calculation(4) by (auto simp: digit_val_def)
  ultimately show ?case by (auto simp: is_digits_def)
qed

lemma digit_not_space: "digit_val c = Some d \<Longrightarrow> \<not> is_space c"
  by (auto simp: digit_val_def is_space_def Let_def split: if_splits)

lemma dropWhile_no: "(\<And>c. c \<in> set s \<Longrightarrow> \<not> P c) \<Longrightarrow> dropWhile P s = s"
  by (cases s) auto

lemma py_strip_digits: "is_digits b s \<Longrightarrow> py_strip s = s"
  unfolding py_strip_def is_digits_def
  by (subst (1 2) dropWhile_no) (auto dest: digit_not_space)

lemma is_digits_hd: "is_digits b (c # s) \<Longrightarrow> c \<noteq> CHR ''-'' \<and> c \<noteq> CHR ''+''"
  by (auto simp: is_digits_def digit_val_def Let_def)

lemma not_digit_x: "b \<le> 16 \<Longrightarrow> is_digits b s \<Longrightarrow> take 2 s \<noteq> ''0x'' \<and> take 2 s \<noteq> ''0X''"
proof -
  have "c \<notin> set (take 2 s)" if "c \<notin> set s" for c using that by (auto dest: in_set_takeD)
  moreover assume "b \<le> 16" "is_digits b s"
  then have "CHR ''x'' \<notin> set s" "CHR ''X'' \<notin> set s"
    by (auto simp: is_digits_def digit_val_def)
  ultimately have "CHR ''x'' \<notin> set (take 2 s)" "CHR ''X'' \<notin> set (take 2 s)" by blast+
  then show ?thesis by force
qed

lemma digits_no_underscore: "is_digits b s \<Longrightarrow> List.filter (\<lambda>c. c \<noteq> CHR ''_'') s = s"
  by (rule filter_True) (auto simp: is_digits_def digit_val_def)

lemma digit_ascii:
  assumes "digit_val c = Some d"
  shows "of_char c < (128 :: int)"
proof -
  have "of_char c < (128 :: nat)" using assms by (auto simp: digit_val_def Let_def split: if_splits)
  then have "int (of_char c) < int 128" by (simp only: of_nat_less_iff)
  then show ?thesis by (simp add: of_nat_of_char)
qed

lemma digits_ascii: "is_digits b s \<Longrightarrow> is_ascii s"
  unfolding is_digits_def is_ascii_def using digit_ascii by blast

text \<open>Digits are read as the number they stand for, unless they are too many.\<close>

lemma py_int_digits_eq:
  assumes "is_digits b s" "s \<noteq> []" "b \<le> 16"
  shows "py_int b s = (if too_long b s then Inl ValueError else Inr (num_val b s))"
proof -
  have "take 1 s \<noteq> ''-''" "take 1 s \<noteq> ''+''"
    using assms by (cases s; use is_digits_hd in force)+
  moreover have "strip_radix b s = s"
    using not_digit_x [OF assms(3,1)] by (simp add: strip_radix_def)
  ultimately show ?thesis
    using assms digits_ascii [OF assms(1)]
    by (simp add: py_int_def py_strip_digits Let_def digit_run_foldl num_val_def to_ascii_def)
qed

lemma py_int_negative_eq:
  assumes "is_digits 10 s" "s \<noteq> []"
  shows "py_int 10 (CHR ''-'' # s) = (if too_long 10 s then Inl ValueError else Inr (- num_val 10 s))"
proof -
  have "\<forall>c \<in> set s. \<not> is_space c"
    using assms(1) unfolding is_digits_def by (blast dest: digit_not_space)
  moreover have "\<not> is_space CHR ''-''" by (simp add: is_space_def)
  ultimately have "py_strip (CHR ''-'' # s) = CHR ''-'' # s"
    unfolding py_strip_def by (subst (1 2) dropWhile_no) auto
  moreover have "is_ascii (CHR ''-'' # s)" using digits_ascii [OF assms(1)] by (simp add: is_ascii_def)
  ultimately show ?thesis
    using assms by (simp add: py_int_def Let_def strip_radix_def digit_run_foldl num_val_def to_ascii_def)
qed

lemma hex_never_long [simp]: "\<not> too_long 16 s"
  by (simp add: too_long_def)

lemma py_int_digits:
  assumes "is_digits b s" "s \<noteq> []" "b \<le> 16" "\<not> too_long b s"
  shows "py_int b s = Inr (num_val b s)"
  using assms by (simp add: py_int_digits_eq)

lemma num_val_snoc [simp]: "num_val b (s @ [c]) = num_val b s * int b + int (the (digit_val c))"
  by (simp add: num_val_def)

lemma num_val_Nil [simp]: "num_val b [] = 0"
  by (simp add: num_val_def)

lemma num_val_zeros [simp]: "num_val b (replicate k CHR ''0'' @ s) = num_val b s"
proof -
  have "foldl (\<lambda>a c. a * int b + int (the (digit_val c))) 0 (replicate k CHR ''0'') = 0"
    by (induction k) (auto simp: digit_val_def)
  then show ?thesis by (simp add: num_val_def)
qed

lemma num_val_digits_of:
  assumes "2 \<le> b" "\<And>d. d < b \<Longrightarrow> digit_val (f d) = Some d"
  shows "num_val b (map f (digits_of b n)) = int n"
  using assms
proof (induction b n rule: digits_of.induct)
  case (1 b n)
  show ?case
  proof (cases "n < b")
    case True
    with 1 show ?thesis by (subst digits_of.simps) (simp add: num_val_def)
  next
    case False
    with 1 have "num_val b (map f (digits_of b (n div b))) = int (n div b)" by simp
    moreover from False 1 have "digit_val (f (n mod b)) = Some (n mod b)" by simp
    ultimately show ?thesis using False 1
      by (subst digits_of.simps)
        (simp, metis of_nat_add of_nat_mult div_mult_mod_eq)
  qed
qed

lemma is_digits_digits_of:
  assumes "2 \<le> b" "\<And>d. d < b \<Longrightarrow> digit_val (f d) = Some d"
  shows "is_digits b (map f (digits_of b n))"
  using assms digits_of_less [OF assms(1)] by (auto simp: is_digits_def)

lemma is_digits_append [simp]: "is_digits b (s @ t) \<longleftrightarrow> is_digits b s \<and> is_digits b t"
  by (auto simp: is_digits_def)

lemma is_digits_zeros [simp]: "0 < b \<Longrightarrow> is_digits b (replicate k CHR ''0'')"
  by (auto simp: is_digits_def digit_val_def)

lemma decimal_text_val:
  "is_digits 10 (map digit_char (digits_of 10 n))" "num_val 10 (map digit_char (digits_of 10 n)) = int n"
  by (rule is_digits_digits_of num_val_digits_of; auto)+

text \<open>\<open>int(str(n)) = n\<close> when \<open>str(n)\<close> is possible, and \<open>int\<close> fails on the text when it is not.\<close>

lemma py_int_decimal_text: "py_int 10 (decimal_text n) = (if fits_text n then Inr n else Inl ValueError)"
proof -
  let ?ds = "map digit_char (digits_of 10 (nat \<bar>n\<bar>))"
  note d = decimal_text_val [of "nat \<bar>n\<bar>"]
  have long: "too_long 10 ?ds \<longleftrightarrow> \<not> fits_text n"
    using digits_no_underscore [OF d(1)] by (simp add: too_long_def fits_text_def not_le)
  show ?thesis
    using py_int_digits_eq [OF d(1)] py_int_negative_eq [OF d(1)] d(2) long
    by (auto simp: decimal_text_def)
qed

lemma py_int_py_str_int: "fits_text n \<Longrightarrow> py_int 10 (decimal_text n) = Inr n"
  by (simp add: py_int_decimal_text)

lemma fits_small: "\<bar>n\<bar> < 10 ^ k \<Longrightarrow> 0 < k \<Longrightarrow> int k \<le> MAX_STR_DIGITS \<Longrightarrow> fits_text n"
  using digits_of_length [of 10 "nat \<bar>n\<bar>" k] by (auto simp: fits_text_def nat_less_iff)

section \<open>Hexadecimal text\<close>

text \<open>\<open>hex(n)[2:].upper()\<close> for \<open>n \<ge> 0\<close>, and \<open>s.zfill(d)\<close> for a string without a sign.\<close>

definition hex_upper :: "int \<Rightarrow> string" where
  "hex_upper n = map upper_char (map digit_char (digits_of 16 (nat n)))"

definition zfill :: "nat \<Rightarrow> string \<Rightarrow> string" where
  "zfill d s = replicate (d - length s) CHR ''0'' @ s"

fun split_on :: "char \<Rightarrow> string \<Rightarrow> string list" where
  "split_on c [] = [[]]"
| "split_on c (x # xs) =
    (if x = c then [] # split_on c xs
     else (case split_on c xs of [] \<Rightarrow> [[x]] | p # ps \<Rightarrow> (x # p) # ps))"

lemma split_on_append:
  "c \<notin> set a \<Longrightarrow> split_on c (a @ c # b) = a # split_on c b"
  by (induction a) auto

lemma split_on_none: "c \<notin> set a \<Longrightarrow> split_on c a = [a]"
  by (induction a) auto

lemma hex_part:
  assumes "0 \<le> n" "n < 16 ^ d" "0 < d"
  shows "length (zfill d (hex_upper n)) = d"
    and "is_digits 16 (zfill d (hex_upper n))"
    and "num_val 16 (zfill d (hex_upper n)) = n"
proof -
  have "nat n < 16 ^ d" using assms by (simp add: nat_less_iff)
  then have "length (digits_of 16 (nat n)) \<le> d" using assms by (intro digits_of_length) auto
  then show "length (zfill d (hex_upper n)) = d" by (simp add: zfill_def hex_upper_def)
  have "is_digits 16 (map (upper_char \<circ> digit_char) (digits_of 16 (nat n)))"
    by (rule is_digits_digits_of) auto
  then show "is_digits 16 (zfill d (hex_upper n))"
    by (simp add: zfill_def hex_upper_def comp_def)
  have "num_val 16 (map (upper_char \<circ> digit_char) (digits_of 16 (nat n))) = int (nat n)"
    by (rule num_val_digits_of) auto
  then show "num_val 16 (zfill d (hex_upper n)) = n"
    using assms by (simp add: zfill_def hex_upper_def comp_def)
qed

lemma num_val_append: "num_val b (s @ t) = num_val b s * int b ^ length t + num_val b t"
proof (induction t rule: rev_induct)
  case Nil
  then show ?case by simp
next
  case (snoc c t)
  have "num_val b (s @ t @ [c]) = num_val b (s @ t) * int b + int (the (digit_val c))"
    by (metis append_assoc num_val_snoc)
  with snoc show ?case by (simp add: algebra_simps)
qed

text \<open>\<open>data.hex()\<close> and \<open>bytes.fromhex(s)\<close>.\<close>

definition byte_hex :: "byte \<Rightarrow> string" where
  "byte_hex b = [digit_char (unat b div 16), digit_char (unat b mod 16)]"

definition bytes_hex :: "bytes \<Rightarrow> string" where
  "bytes_hex bs = concat (map byte_hex bs)"

fun bytes_fromhex :: "string \<Rightarrow> bytes result" where
  "bytes_fromhex [] = Inr []"
| "bytes_fromhex [c] = (if is_space c then Inr [] else Inl ValueError)"
| "bytes_fromhex (c # d # s) =
    (if is_space c then bytes_fromhex (d # s)
     else (case (digit_val c, digit_val d) of
        (Some x, Some y) \<Rightarrow>
          if x < 16 \<and> y < 16
          then bindr (bytes_fromhex s) (\<lambda>bs. Inr (word_of_int (int (16 * x + y)) # bs))
          else Inl ValueError
      | _ \<Rightarrow> Inl ValueError))"

lemma unat_byte_less: "unat (b :: byte) < 256"
  using unsigned_less [of b, where 'a = nat] by simp

lemma byte_hex_digits:
  "digit_val (digit_char (unat (b :: byte) div 16)) = Some (unat b div 16)"
  "digit_val (digit_char (unat (b :: byte) mod 16)) = Some (unat b mod 16)"
  using unat_byte_less [of b] by simp_all

lemma bytes_fromhex_hex: "bytes_fromhex (bytes_hex bs) = Inr bs"
proof (induction bs)
  case Nil
  then show ?case by (simp add: bytes_hex_def)
next
  case (Cons b bs)
  have "unat b div 16 < 16" using unat_byte_less [of b] by simp
  moreover have "16 * (unat b div 16) + unat b mod 16 = unat b" by simp
  moreover have "\<not> is_space (digit_char (unat b div 16))"
    by (rule digit_not_space [OF byte_hex_digits(1)])
  ultimately show ?case using Cons by (simp add: bytes_hex_def byte_hex_def byte_hex_digits)
qed

lemma num_val_bytes_hex: "num_val 16 (bytes_hex bs) = be_int bs"
proof (induction bs rule: rev_induct)
  case Nil
  then show ?case by (simp add: bytes_hex_def)
next
  case (snoc b bs)
  have "num_val 16 (byte_hex b) = int (unat b div 16 * 16 + unat b mod 16)"
    by (simp only: num_val_def byte_hex_def byte_hex_digits foldl.simps option.sel
        of_nat_add of_nat_mult) simp
  also have "unat b div 16 * 16 + unat b mod 16 = unat b" by (rule div_mult_mod_eq)
  finally have "num_val 16 (byte_hex b) = uint b" by simp
  with snoc show ?case
    by (simp add: bytes_hex_def num_val_append) (simp add: byte_hex_def)
qed

lemma is_digits_bytes_hex: "is_digits 16 (bytes_hex bs)"
proof -
  have "unat b div 16 < 16" for b :: byte using unat_byte_less [of b] by simp
  then show ?thesis
    by (auto simp: is_digits_def bytes_hex_def byte_hex_def byte_hex_digits)
qed

lemma py_int_bytes_hex: "bs \<noteq> [] \<Longrightarrow> py_int 16 (bytes_hex bs) = Inr (be_int bs)"
proof -
  assume "bs \<noteq> []"
  then have "bytes_hex bs \<noteq> []" by (cases bs) (auto simp: bytes_hex_def byte_hex_def)
  then show ?thesis
    using py_int_digits [OF is_digits_bytes_hex] by (simp add: num_val_bytes_hex)
qed

text \<open>\<open>s.encode()\<close>.\<close>

definition str_encode :: "string \<Rightarrow> bytes" where
  "str_encode s = map (\<lambda>c. word_of_nat (of_char c)) s"

definition bytes_decode :: "bytes \<Rightarrow> string" where
  "bytes_decode bs = map (\<lambda>b. char_of (unat b)) bs"

lemma bytes_decode_encode [simp]: "bytes_decode (str_encode s) = s"
proof -
  have "char_of (unat (word_of_nat (of_char c) :: byte)) = c" for c
    by (simp add: unat_of_nat)
  then show ?thesis by (simp add: bytes_decode_def str_encode_def comp_def)
qed

lemma str_encode_inj: "str_encode s = str_encode t \<longleftrightarrow> s = t"
  by (metis bytes_decode_encode)

lemma str_encode_append [simp]: "str_encode (s @ t) = str_encode s @ str_encode t"
  by (simp add: str_encode_def)

lemma str_encode_Nil [simp]: "str_encode [] = []"
  by (simp add: str_encode_def)

lemma length_str_encode [simp]: "length (str_encode s) = length s"
  by (simp add: str_encode_def)

end
