(* ===== verification/Muids.thy ===== *)
theory Muids
  imports Py_Text
begin

unbundle bit_operations_syntax

text \<open>
  Gink's global addresses, \<open>python/gink/impl/muid.py\<close> (and the constants of \<open>typedefs.py\<close>): the
  constructor with its range checks and normalisation, the textual and the packed binary form with
  their parsers, the order, and the resolution of relative addresses (\<open>create\<close>). An address whose
  timestamp and medallion are still to be supplied by a bundler is \<open>muid_obj\<close>; everywhere else an
  address is the resolved triple \<open>muid\<close>.
\<close>

section \<open>Constants\<close>

definition TIMESTAMP_HEX_DIGITS :: nat where "TIMESTAMP_HEX_DIGITS = 13"
definition MEDALLION_HEX_DIGITS :: nat where "MEDALLION_HEX_DIGITS = 11"
definition OFFSET_HEX_DIGITS :: nat where "OFFSET_HEX_DIGITS = 8"

definition TIMESTAMP_MOD :: int where "TIMESTAMP_MOD = 16 ^ TIMESTAMP_HEX_DIGITS"
definition MEDALLION_MOD :: int where "MEDALLION_MOD = 16 ^ MEDALLION_HEX_DIGITS"
definition OFFSET_MOD :: int where "OFFSET_MOD = 16 ^ OFFSET_HEX_DIGITS"

lemmas muid_consts =
  TIMESTAMP_MOD_def MEDALLION_MOD_def OFFSET_MOD_def
  TIMESTAMP_HEX_DIGITS_def MEDALLION_HEX_DIGITS_def OFFSET_HEX_DIGITS_def

section \<open>Addresses\<close>

datatype muid = Muid (mu_timestamp: int) (mu_medallion: int) (mu_offset: int)

text \<open>The protobuf message \<open>Muid\<close>; a field that is not set reads as 0.\<close>

datatype muid_pb = MuidPb (pb_timestamp: int) (pb_medallion: int) (pb_offset: int)

text \<open>
  \<open>Muid.__init__\<close>. The object keeps the timestamp and medallion it was given, if any, and whether
  it has a bundler to ask for the missing ones.
\<close>

record muid_obj =
  mo_timestamp :: "int option"
  mo_medallion :: "int option"
  mo_offset :: int
  mo_has_bundler :: bool

definition norm_timestamp :: "int \<Rightarrow> int" where
  "norm_timestamp t = (if t = TIMESTAMP_MOD - 1 then -1 else t)"

definition norm_medallion :: "int \<Rightarrow> int" where
  "norm_medallion m = (if m = MEDALLION_MOD - 1 then -1 else m)"

definition norm_offset :: "int \<Rightarrow> int" where
  "norm_offset z = (if z < OFFSET_MOD div 2 then z else z - OFFSET_MOD)"

definition muid_init :: "int option \<Rightarrow> int option \<Rightarrow> int \<Rightarrow> bool \<Rightarrow> muid_obj result" where
  "muid_init ts med off has_bundler =
    (if \<not> has_bundler \<and> (ts = None \<or> med = None) then Inl ValueError
     else if (case ts of None \<Rightarrow> False | Some t \<Rightarrow> TIMESTAMP_MOD \<le> t \<or> t < -1) then Inl ValueError
     else if (case med of None \<Rightarrow> False | Some m \<Rightarrow> MEDALLION_MOD \<le> m \<or> m < -1) then Inl ValueError
     else if OFFSET_MOD \<le> off \<or> off \<le> - OFFSET_MOD then Inl ValueError
     else Inr \<lparr>mo_timestamp = map_option norm_timestamp ts,
               mo_medallion = map_option norm_medallion med,
               mo_offset = norm_offset off,
               mo_has_bundler = has_bundler\<rparr>)"

text \<open>What the object's bundler knows of itself: its timestamp and medallion, once committed.\<close>

type_synonym bundler_view = "int option \<times> int option"

definition obj_timestamp :: "muid_obj \<Rightarrow> bundler_view \<Rightarrow> int result" where
  "obj_timestamp ob b =
    (case mo_timestamp ob of
      Some t \<Rightarrow> Inr t
    | None \<Rightarrow> if mo_has_bundler ob
        then (case fst b of None \<Rightarrow> Inl ValueError | Some t \<Rightarrow> Inr t)
        else Inl ValueError)"

definition obj_medallion :: "muid_obj \<Rightarrow> bundler_view \<Rightarrow> int result" where
  "obj_medallion ob b =
    (case mo_medallion ob of
      Some m \<Rightarrow> Inr m
    | None \<Rightarrow> if mo_has_bundler ob
        then (case snd b of None \<Rightarrow> Inl ValueError | Some m \<Rightarrow> Inr m)
        else Inl ValueError)"

definition timestamp_or_zero :: "muid_obj \<Rightarrow> bundler_view \<Rightarrow> int" where
  "timestamp_or_zero ob b =
    (case mo_timestamp ob of Some t \<Rightarrow> t
     | None \<Rightarrow> if mo_has_bundler ob then (case fst b of Some t \<Rightarrow> t | None \<Rightarrow> 0) else 0)"

definition medallion_or_zero :: "muid_obj \<Rightarrow> bundler_view \<Rightarrow> int" where
  "medallion_or_zero ob b =
    (case mo_medallion ob of Some m \<Rightarrow> m
     | None \<Rightarrow> if mo_has_bundler ob then (case snd b of Some m \<Rightarrow> m | None \<Rightarrow> 0) else 0)"

definition obj_put_into :: "muid_obj \<Rightarrow> bundler_view \<Rightarrow> muid_pb" where
  "obj_put_into ob b = MuidPb (timestamp_or_zero ob b) (medallion_or_zero ob b) (mo_offset ob)"

text \<open>An address built from explicit numbers, and one resolved through its bundler.\<close>

definition mk_muid :: "int \<Rightarrow> int \<Rightarrow> int \<Rightarrow> muid result" where
  "mk_muid t m z =
    bindr (muid_init (Some t) (Some m) z False)
      (\<lambda>ob. Inr (Muid (the (mo_timestamp ob)) (the (mo_medallion ob)) (mo_offset ob)))"

definition resolve_obj :: "muid_obj \<Rightarrow> bundler_view \<Rightarrow> muid result" where
  "resolve_obj ob b =
    bindr (obj_timestamp ob b) (\<lambda>t. bindr (obj_medallion ob b) (\<lambda>m. Inr (Muid t m (mo_offset ob))))"

definition put_into :: "muid \<Rightarrow> muid_pb" where
  "put_into m = MuidPb (mu_timestamp m) (mu_medallion m) (mu_offset m)"

text \<open>The addresses that the constructor produces from offsets within the documented limits.\<close>

definition valid_muid :: "muid \<Rightarrow> bool" where
  "valid_muid m \<longleftrightarrow>
     -1 \<le> mu_timestamp m \<and> mu_timestamp m < TIMESTAMP_MOD - 1 \<and>
     -1 \<le> mu_medallion m \<and> mu_medallion m < MEDALLION_MOD - 1 \<and>
     - (OFFSET_MOD div 2) \<le> mu_offset m \<and> mu_offset m < OFFSET_MOD div 2"

lemma mk_muid_eq:
  "mk_muid t m z =
    (if TIMESTAMP_MOD \<le> t \<or> t < -1 \<or> MEDALLION_MOD \<le> m \<or> m < -1 \<or> OFFSET_MOD \<le> z \<or> z \<le> - OFFSET_MOD
     then Inl ValueError
     else Inr (Muid (norm_timestamp t) (norm_medallion m) (norm_offset z)))"
  by (simp add: mk_muid_def muid_init_def)

lemma mk_muid_valid:
  "mk_muid t m z = Inr u \<Longrightarrow> - (OFFSET_MOD div 2) \<le> z \<Longrightarrow> valid_muid u"
  by (auto simp: mk_muid_eq valid_muid_def norm_timestamp_def norm_medallion_def norm_offset_def
      muid_consts split: if_splits)

lemma mk_muid_self:
  "valid_muid m \<Longrightarrow> mk_muid (mu_timestamp m) (mu_medallion m) (mu_offset m) = Inr m"
  by (cases m) (auto simp: mk_muid_eq valid_muid_def norm_timestamp_def norm_medallion_def
      norm_offset_def muid_consts)

section \<open>Order, text and packed bytes\<close>

text \<open>\<open>__lt__\<close>: the triples reduced to their unsigned digits, compared lexicographically.\<close>

definition muid_lt :: "muid \<Rightarrow> muid \<Rightarrow> bool" where
  "muid_lt a b \<longleftrightarrow>
    (let (t, m, z) = (mu_timestamp a mod TIMESTAMP_MOD, mu_medallion a mod MEDALLION_MOD, mu_offset a mod OFFSET_MOD);
         (t', m', z') = (mu_timestamp b mod TIMESTAMP_MOD, mu_medallion b mod MEDALLION_MOD, mu_offset b mod OFFSET_MOD)
     in t < t' \<or> t = t' \<and> (m < m' \<or> m = m' \<and> z < z'))"

definition muid_str :: "muid \<Rightarrow> string result" where
  "muid_str u =
    (let time_part = zfill TIMESTAMP_HEX_DIGITS (hex_upper (mu_timestamp u mod TIMESTAMP_MOD));
         medallion_part = zfill MEDALLION_HEX_DIGITS (hex_upper (mu_medallion u mod MEDALLION_MOD));
         offset_part = zfill OFFSET_HEX_DIGITS (hex_upper (mu_offset u mod OFFSET_MOD));
         res = time_part @ ''-'' @ medallion_part @ ''-'' @ offset_part
     in bindr (require (length res = 34) AssertionError) (\<lambda>_. Inr res))"

text \<open>\<open>UUID(text).bytes\<close> of the standard library, for a text without braces or a URN prefix.\<close>

definition uuid_bytes :: "string \<Rightarrow> bytes result" where
  "uuid_bytes s =
    (let h = List.filter (\<lambda>c. c \<noteq> CHR ''-'') s
     in if length h \<noteq> 32 then Inl ValueError
        else bindr (py_int 16 h) (\<lambda>n. Inr (be_bytes 16 n)))"

definition muid_to_bytes :: "muid \<Rightarrow> bytes result" where
  "muid_to_bytes u = bindr (muid_str u) uuid_bytes"

definition muid_from_str :: "string \<Rightarrow> muid result" where
  "muid_from_str hexed =
    (if length (List.filter (\<lambda>c. c \<noteq> CHR ''-'') hexed) \<noteq> 32 then Inl ValueError
     else (case split_on CHR ''-'' hexed of
        [a, b, c] \<Rightarrow> bindr (py_int 16 a) (\<lambda>t. bindr (py_int 16 b) (\<lambda>m. bindr (py_int 16 c)
          (\<lambda>z. mk_muid t m z)))
      | _ \<Rightarrow> Inl AssertionError))"

definition muid_from_bytes :: "bytes \<Rightarrow> muid result" where
  "muid_from_bytes data =
    (if length data \<noteq> 16 then Inl ValueError
     else bindr (py_int 16 (bytes_hex data)) (\<lambda>total.
       let z = total AND (OFFSET_MOD - 1);
           total1 = drop_bit (OFFSET_HEX_DIGITS * 4) total;
           m = total1 AND (MEDALLION_MOD - 1);
           t = drop_bit (MEDALLION_HEX_DIGITS * 4) total1
       in mk_muid t m z))"

text \<open>The 128-bit number behind both forms.\<close>

definition packed :: "muid \<Rightarrow> int" where
  "packed u = (mu_timestamp u mod TIMESTAMP_MOD) * 2 ^ 76
     + (mu_medallion u mod MEDALLION_MOD) * 2 ^ 32 + mu_offset u mod OFFSET_MOD"

lemma packed_range: "0 \<le> packed u" "packed u < 256 ^ 16"
proof -
  have "mu_timestamp u mod TIMESTAMP_MOD < TIMESTAMP_MOD" "0 \<le> mu_timestamp u mod TIMESTAMP_MOD"
    "mu_medallion u mod MEDALLION_MOD < MEDALLION_MOD" "0 \<le> mu_medallion u mod MEDALLION_MOD"
    "mu_offset u mod OFFSET_MOD < OFFSET_MOD" "0 \<le> mu_offset u mod OFFSET_MOD"
    by (simp_all add: muid_consts)
  then show "0 \<le> packed u" "packed u < 256 ^ 16"
    unfolding packed_def by (simp_all add: muid_consts)
qed

lemma lex3:
  fixes t m z t' m' z' M Z :: int
  assumes "0 \<le> m" "m < M" "0 \<le> m'" "m' < M" "0 \<le> z" "z < Z" "0 \<le> z'" "z' < Z"
  shows "(t * M + m) * Z + z < (t' * M + m') * Z + z' \<longleftrightarrow> t < t' \<or> t = t' \<and> (m < m' \<or> m = m' \<and> z < z')"
proof -
  have one: "a * B + p < b * B + q \<longleftrightarrow> a < b \<or> a = b \<and> p < q"
    if "0 \<le> p" "p < B" "0 \<le> q" "q < B" for a b p q B :: int
  proof (cases a b rule: linorder_cases)
    case less
    then have "(a + 1) * B \<le> b * B" using that by (intro mult_right_mono) auto
    with less that show ?thesis by (simp add: algebra_simps)
  next
    case greater
    then have "(b + 1) * B \<le> a * B" using that by (intro mult_right_mono) auto
    with greater that show ?thesis by (simp add: algebra_simps)
  qed simp
  have "t * M + m = t' * M + m' \<longleftrightarrow> t = t' \<and> m = m'"
    using one [of m M m' t t'] one [of m' M m t' t] assms by auto
  with one [of z Z z' "t * M + m" "t' * M + m'"] one [of m M m' t t'] assms show ?thesis by auto
qed

lemma packed_less_iff: "packed a < packed b \<longleftrightarrow> muid_lt a b"
proof -
  have "packed u = ((mu_timestamp u mod TIMESTAMP_MOD) * MEDALLION_MOD + mu_medallion u mod MEDALLION_MOD)
      * OFFSET_MOD + mu_offset u mod OFFSET_MOD" for u
    by (simp add: packed_def muid_consts algebra_simps)
  then show ?thesis
    unfolding muid_lt_def
    by (simp only: Let_def prod.case) (intro lex3; simp add: muid_consts)
qed

section \<open>The textual and the packed form agree\<close>

lemma muid_str_parts:
  obtains a b c where
    "muid_str u = Inr (a @ ''-'' @ b @ ''-'' @ c)"
    "length a = 13" "length b = 11" "length c = 8"
    "is_digits 16 a" "is_digits 16 b" "is_digits 16 c"
    "num_val 16 a = mu_timestamp u mod TIMESTAMP_MOD"
    "num_val 16 b = mu_medallion u mod MEDALLION_MOD"
    "num_val 16 c = mu_offset u mod OFFSET_MOD"
proof -
  let ?a = "zfill TIMESTAMP_HEX_DIGITS (hex_upper (mu_timestamp u mod TIMESTAMP_MOD))"
  let ?b = "zfill MEDALLION_HEX_DIGITS (hex_upper (mu_medallion u mod MEDALLION_MOD))"
  let ?c = "zfill OFFSET_HEX_DIGITS (hex_upper (mu_offset u mod OFFSET_MOD))"
  have a: "length ?a = 13" "is_digits 16 ?a" "num_val 16 ?a = mu_timestamp u mod TIMESTAMP_MOD"
    using hex_part [of "mu_timestamp u mod TIMESTAMP_MOD" TIMESTAMP_HEX_DIGITS]
    by (simp_all add: muid_consts)
  have b: "length ?b = 11" "is_digits 16 ?b" "num_val 16 ?b = mu_medallion u mod MEDALLION_MOD"
    using hex_part [of "mu_medallion u mod MEDALLION_MOD" MEDALLION_HEX_DIGITS]
    by (simp_all add: muid_consts)
  have c: "length ?c = 8" "is_digits 16 ?c" "num_val 16 ?c = mu_offset u mod OFFSET_MOD"
    using hex_part [of "mu_offset u mod OFFSET_MOD" OFFSET_HEX_DIGITS]
    by (simp_all add: muid_consts)
  have "muid_str u = Inr (?a @ ''-'' @ ?b @ ''-'' @ ?c)"
    using a(1) b(1) c(1) by (simp add: muid_str_def Let_def)
  then show thesis using that a b c by blast
qed

lemma digits_no_dash: "is_digits b s \<Longrightarrow> CHR ''-'' \<notin> set s"
  by (auto simp: is_digits_def digit_val_def)

lemma filter_dash_digits: "is_digits b s \<Longrightarrow> List.filter (\<lambda>c. c \<noteq> CHR ''-'') s = s"
  using digits_no_dash [of b s] by (intro filter_True) auto

text \<open>
  Printing through hexadecimal text and \<open>UUID\<close> never fails, and yields the big-endian bytes of the
  packed number.
\<close>

lemma muid_to_bytes_packed: "muid_to_bytes u = Inr (be_bytes 16 (packed u))"
proof -
  obtain a b c where s: "muid_str u = Inr (a @ ''-'' @ b @ ''-'' @ c)"
    "length a = 13" "length b = 11" "length c = 8"
    "is_digits 16 a" "is_digits 16 b" "is_digits 16 c"
    "num_val 16 a = mu_timestamp u mod TIMESTAMP_MOD"
    "num_val 16 b = mu_medallion u mod MEDALLION_MOD"
    "num_val 16 c = mu_offset u mod OFFSET_MOD"
    by (rule muid_str_parts)
  have f: "List.filter (\<lambda>c. c \<noteq> CHR ''-'') (a @ ''-'' @ b @ ''-'' @ c) = a @ b @ c"
    using s by (simp add: filter_dash_digits)
  have "py_int 16 (a @ b @ c) = Inr (num_val 16 (a @ b @ c))"
    using s by (intro py_int_digits) auto
  also have "num_val 16 (a @ b @ c) = packed u"
    using s by (simp add: num_val_append packed_def muid_consts algebra_simps)
  finally show ?thesis
    using s f by (simp add: muid_to_bytes_def uuid_bytes_def Let_def)
qed

text \<open>Since \<open>bytes(muid)\<close> never raises, its callers have just the bytes; they are computed from the number.\<close>

definition muid_bytes :: "muid \<Rightarrow> bytes" where
  "muid_bytes u = (case muid_to_bytes u of Inr bs \<Rightarrow> bs | Inl _ \<Rightarrow> [])"

lemma muid_bytes_packed [code]: "muid_bytes u = be_bytes 16 (packed u)"
  by (simp add: muid_bytes_def muid_to_bytes_packed)

lemma muid_to_bytes_bytes: "muid_to_bytes u = Inr (muid_bytes u)"
  by (simp add: muid_to_bytes_packed muid_bytes_packed)

lemma length_muid_bytes [simp, bytes_simps]: "length (muid_bytes u) = 16"
  by (simp add: muid_bytes_packed)

lemma muid_bytes_less_iff: "muid_bytes a < muid_bytes b \<longleftrightarrow> muid_lt a b"
  using packed_range [of a] packed_range [of b]
  by (simp add: muid_bytes_packed be_bytes_less_iff packed_less_iff)

lemma norm_mod:
  "-1 \<le> t \<Longrightarrow> t < TIMESTAMP_MOD - 1 \<Longrightarrow> norm_timestamp (t mod TIMESTAMP_MOD) = t"
  "-1 \<le> m \<Longrightarrow> m < MEDALLION_MOD - 1 \<Longrightarrow> norm_medallion (m mod MEDALLION_MOD) = m"
  "- (OFFSET_MOD div 2) \<le> z \<Longrightarrow> z < OFFSET_MOD div 2 \<Longrightarrow> norm_offset (z mod OFFSET_MOD) = z"
proof -
  have wrap: "i mod N = (if i < 0 then i + N else i)" if "- N \<le> i" "i < N" for i N :: int
    using that mod_pos_pos_trivial [of "i + N" N] by (auto simp: mod_pos_pos_trivial)
  show "-1 \<le> t \<Longrightarrow> t < TIMESTAMP_MOD - 1 \<Longrightarrow> norm_timestamp (t mod TIMESTAMP_MOD) = t"
    by (subst wrap) (auto simp: norm_timestamp_def muid_consts)
  show "-1 \<le> m \<Longrightarrow> m < MEDALLION_MOD - 1 \<Longrightarrow> norm_medallion (m mod MEDALLION_MOD) = m"
    by (subst wrap) (auto simp: norm_medallion_def muid_consts)
  show "- (OFFSET_MOD div 2) \<le> z \<Longrightarrow> z < OFFSET_MOD div 2 \<Longrightarrow> norm_offset (z mod OFFSET_MOD) = z"
    by (subst wrap) (auto simp: norm_offset_def muid_consts)
qed

lemma mod_in_range:
  fixes N :: int
  assumes "0 < N"
  shows "\<not> N \<le> i mod N" "\<not> i mod N < -1" "\<not> i mod N \<le> - N"
  using pos_mod_bound [OF assms, of i] pos_mod_sign [OF assms, of i] assms by linarith+

lemma mk_muid_mod:
  assumes "valid_muid u"
  shows "mk_muid (mu_timestamp u mod TIMESTAMP_MOD) (mu_medallion u mod MEDALLION_MOD)
    (mu_offset u mod OFFSET_MOD) = Inr u"
proof -
  let ?t = "mu_timestamp u mod TIMESTAMP_MOD"
  let ?m = "mu_medallion u mod MEDALLION_MOD"
  let ?z = "mu_offset u mod OFFSET_MOD"
  have "0 < TIMESTAMP_MOD" "0 < MEDALLION_MOD" "0 < OFFSET_MOD"
    by (simp_all add: muid_consts)
  then have "\<not> (TIMESTAMP_MOD \<le> ?t \<or> ?t < -1 \<or> MEDALLION_MOD \<le> ?m \<or> ?m < -1 \<or>
      OFFSET_MOD \<le> ?z \<or> ?z \<le> - OFFSET_MOD)"
    by (simp add: mod_in_range)
  then have "mk_muid ?t ?m ?z = Inr (Muid (norm_timestamp ?t) (norm_medallion ?m) (norm_offset ?z))"
    by (simp only: mk_muid_eq if_False)
  then show ?thesis using assms by (simp add: valid_muid_def norm_mod)
qed

text \<open>The textual form of an address, as \<open>str(muid)\<close> prints it, is read back by
  \<open>from_str\<close> as the same address.\<close>

lemma muid_from_str_str:
  assumes "valid_muid u" "muid_str u = Inr s"
  shows "muid_from_str s = Inr u"
proof -
  obtain a b c where s: "muid_str u = Inr (a @ ''-'' @ b @ ''-'' @ c)"
    "length a = 13" "length b = 11" "length c = 8"
    "is_digits 16 a" "is_digits 16 b" "is_digits 16 c"
    "num_val 16 a = mu_timestamp u mod TIMESTAMP_MOD"
    "num_val 16 b = mu_medallion u mod MEDALLION_MOD"
    "num_val 16 c = mu_offset u mod OFFSET_MOD"
    by (rule muid_str_parts)
  have sp: "split_on CHR ''-'' (a @ CHR ''-'' # b @ CHR ''-'' # c) = [a, b, c]"
    using s by (simp add: split_on_append split_on_none digits_no_dash)
  have "a \<noteq> []" "b \<noteq> []" "c \<noteq> []" using s by auto
  then have "py_int 16 a = Inr (mu_timestamp u mod TIMESTAMP_MOD)"
    "py_int 16 b = Inr (mu_medallion u mod MEDALLION_MOD)"
    "py_int 16 c = Inr (mu_offset u mod OFFSET_MOD)"
    using s by (simp_all add: py_int_digits)
  then have "muid_from_str (a @ ''-'' @ b @ ''-'' @ c) = Inr u"
    using s(2-7) sp by (simp add: muid_from_str_def filter_dash_digits mk_muid_mod assms(1))
  then show ?thesis using assms(2) s(1) by simp
qed

lemma muid_from_str_str_witness:
  "\<exists>s. muid_str (Muid 16 255 3) = Inr s \<and> muid_from_str s = Inr (Muid 16 255 3)"
proof -
  obtain s where "muid_str (Muid 16 255 3) = Inr s" by (metis muid_str_parts)
  then show ?thesis using muid_from_str_str [of "Muid 16 255 3" s] by (simp add: valid_muid_def muid_consts)
qed

lemma and_mask: "x AND (16 ^ k - 1) = x mod 16 ^ k" for x :: int
proof -
  have "(16 :: int) ^ k = 2 ^ (4 * k)" by (simp add: power_mult)
  then show ?thesis by (metis mask_eq_exp_minus_1 take_bit_eq_mask take_bit_eq_mod)
qed

lemma muid_from_bytes_be:
  assumes "length data = 16"
  shows "muid_from_bytes data =
    mk_muid (be_int data div 2 ^ 76) (be_int data div 2 ^ 32 mod MEDALLION_MOD) (be_int data mod OFFSET_MOD)"
proof -
  have p: "py_int 16 (bytes_hex data) = Inr (be_int data)"
    using assms by (intro py_int_bytes_hex) auto
  have d: "be_int data div 2 ^ 32 div 2 ^ 44 = be_int data div 2 ^ 76"
    by (simp add: zdiv_zmult2_eq [symmetric])
  show ?thesis
    unfolding muid_from_bytes_def using assms p d
    by (simp add: drop_bit_eq_div muid_consts
        and_mask [of _ 8, simplified] and_mask [of _ 11, simplified])
qed

lemma packed_split:
  "packed u div 2 ^ 76 = mu_timestamp u mod TIMESTAMP_MOD"
  "packed u div 2 ^ 32 mod MEDALLION_MOD = mu_medallion u mod MEDALLION_MOD"
  "packed u mod OFFSET_MOD = mu_offset u mod OFFSET_MOD"
proof -
  define t where "t = mu_timestamp u mod TIMESTAMP_MOD"
  define m where "m = mu_medallion u mod MEDALLION_MOD"
  define z where "z = mu_offset u mod OFFSET_MOD"
  have r: "0 \<le> m" "m < 17592186044416" "0 \<le> z" "z < 4294967296"
    by (simp_all add: m_def z_def muid_consts)
  have pk: "packed u = (t * 17592186044416 + m) * 4294967296 + z"
    by (simp add: packed_def t_def m_def z_def)
  have d32: "packed u div 4294967296 = t * 17592186044416 + m"
    using r unfolding pk by simp
  have "packed u div 2 ^ 76 = packed u div 4294967296 div 17592186044416"
    by (simp add: zdiv_zmult2_eq [symmetric])
  then show "packed u div 2 ^ 76 = mu_timestamp u mod TIMESTAMP_MOD"
    using r d32 by (simp add: t_def)
  show "packed u div 2 ^ 32 mod MEDALLION_MOD = mu_medallion u mod MEDALLION_MOD"
    using r d32 by (simp add: muid_consts) (simp add: m_def muid_consts)
  show "packed u mod OFFSET_MOD = mu_offset u mod OFFSET_MOD"
  proof -
    have "packed u mod 4294967296 = z"
      unfolding pk mod_mult_self3 using r by (simp only: mod_pos_pos_trivial)
    then show ?thesis by (simp add: z_def muid_consts)
  qed
qed

lemma muid_from_bytes_bytes: "valid_muid u \<Longrightarrow> muid_from_bytes (muid_bytes u) = Inr u"
  using packed_range [of u]
  by (simp only: muid_from_bytes_be length_be_bytes muid_bytes_packed be_int_be_bytes
      mod_pos_pos_trivial packed_split mk_muid_mod)

lemma norm_range:
  "0 \<le> t \<Longrightarrow> t < TIMESTAMP_MOD \<Longrightarrow> -1 \<le> norm_timestamp t \<and> norm_timestamp t < TIMESTAMP_MOD - 1"
  "0 \<le> m \<Longrightarrow> m < MEDALLION_MOD \<Longrightarrow> -1 \<le> norm_medallion m \<and> norm_medallion m < MEDALLION_MOD - 1"
  "0 \<le> z \<Longrightarrow> z < OFFSET_MOD \<Longrightarrow>
    - (OFFSET_MOD div 2) \<le> norm_offset z \<and> norm_offset z < OFFSET_MOD div 2"
  by (simp_all add: norm_timestamp_def norm_medallion_def norm_offset_def muid_consts)

lemma norm_mod_back:
  "0 \<le> t \<Longrightarrow> t < TIMESTAMP_MOD \<Longrightarrow> norm_timestamp t mod TIMESTAMP_MOD = t"
  "0 \<le> m \<Longrightarrow> m < MEDALLION_MOD \<Longrightarrow> norm_medallion m mod MEDALLION_MOD = m"
  "0 \<le> z \<Longrightarrow> z < OFFSET_MOD \<Longrightarrow> norm_offset z mod OFFSET_MOD = z"
  by (simp_all add: norm_timestamp_def norm_medallion_def norm_offset_def mod_pos_pos_trivial
      zmod_minus1 muid_consts)

text \<open>Every 16 bytes are the packed form of a valid address.\<close>

lemma muid_bytes_from_bytes:
  assumes "length data = 16"
  shows "\<exists>u. muid_from_bytes data = Inr u \<and> valid_muid u \<and> muid_bytes u = data"
proof -
  let ?n = "be_int data"
  have n: "0 \<le> ?n" "?n < 2 ^ 128" using be_int_less [of data] assms by simp_all
  let ?t = "?n div 2 ^ 76" and ?m = "?n div 2 ^ 32 mod MEDALLION_MOD" and ?z = "?n mod OFFSET_MOD"
  have t: "0 \<le> ?t" "?t < TIMESTAMP_MOD"
    using n by (simp_all add: muid_consts pos_imp_zdiv_nonneg_iff)
  have m: "0 \<le> ?m" "?m < MEDALLION_MOD" by (simp_all add: muid_consts)
  have z: "0 \<le> ?z" "?z < OFFSET_MOD" "0 < OFFSET_MOD" by (simp_all add: muid_consts)
  let ?u = "Muid (norm_timestamp ?t) (norm_medallion ?m) (norm_offset ?z)"
  have u: "muid_from_bytes data = Inr ?u"
    using t m z mod_in_range [OF z(3), of ?n]
    by (simp add: muid_from_bytes_be [OF assms] mk_muid_eq)
  have v: "valid_muid ?u"
    using norm_range t m z by (simp add: valid_muid_def)
  have "norm_timestamp ?t mod TIMESTAMP_MOD = ?t" "norm_medallion ?m mod MEDALLION_MOD = ?m"
    "norm_offset ?z mod OFFSET_MOD = ?z"
    using norm_mod_back t m z by blast+
  then have "packed ?u = ?t * 2 ^ 76 + ?m * 2 ^ 32 + ?z" by (simp add: packed_def)
  also have "\<dots> = ?n"
  proof -
    have d: "?n div 2 ^ 32 div MEDALLION_MOD = ?t"
      by (simp add: muid_consts zdiv_zmult2_eq [symmetric])
    have q: "?n div 2 ^ 32 = ?t * MEDALLION_MOD + ?m"
      using div_mult_mod_eq [of "?n div 2 ^ 32" MEDALLION_MOD, symmetric] unfolding d .
    have "?n = ?n div 2 ^ 32 * 2 ^ 32 + ?z"
      using div_mult_mod_eq [of ?n "2 ^ 32"] by (simp add: muid_consts)
    also have "\<dots> = (?t * MEDALLION_MOD + ?m) * 2 ^ 32 + ?z"
      by (rule arg_cong [OF q, of "\<lambda>v. v * 2 ^ 32 + ?z"])
    also have "\<dots> = ?t * 2 ^ 76 + ?m * 2 ^ 32 + ?z"
      by (simp add: muid_consts algebra_simps)
    finally show ?thesis by simp
  qed
  finally have "muid_bytes ?u = data" using assms by (simp add: muid_bytes_packed be_bytes_be_int)
  with u v show ?thesis by blast
qed

interpretation muid_codec: ordered_codec muid_bytes muid_from_bytes valid_muid 16 muid_lt
  by unfold_locales (simp_all add: muid_from_bytes_bytes muid_bytes_less_iff)

section \<open>Relative addresses\<close>

text \<open>
  The context of \<open>Muid.create\<close>: a bundle's metadata (timestamp and medallion), another address, or
  an object that has neither.
\<close>

datatype muid_ctx = CtxInfo int int | CtxMuid muid | CtxNone

fun ctx_timestamp :: "muid_ctx \<Rightarrow> int result" where
  "ctx_timestamp (CtxInfo t m) = Inr t"
| "ctx_timestamp (CtxMuid u) = Inr (mu_timestamp u)"
| "ctx_timestamp CtxNone = Inl AttributeError"

fun ctx_medallion :: "muid_ctx \<Rightarrow> int result" where
  "ctx_medallion (CtxInfo t m) = Inr m"
| "ctx_medallion (CtxMuid u) = Inr (mu_medallion u)"
| "ctx_medallion CtxNone = Inl AttributeError"

text \<open>The placeholder builder, all of whose fields are \<open>None\<close> and hence falsy like 0.\<close>

definition dummy_builder :: muid_pb where
  "dummy_builder = MuidPb 0 0 0"

definition muid_create :: "muid_ctx \<Rightarrow> muid_pb \<Rightarrow> int option \<Rightarrow> muid result" where
  "muid_create ctx builder off =
    bindr (if pb_timestamp builder \<noteq> 0 then Inr (pb_timestamp builder) else ctx_timestamp ctx) (\<lambda>t.
    bindr (if pb_medallion builder \<noteq> 0 then Inr (pb_medallion builder) else ctx_medallion ctx) (\<lambda>m.
    let z = (case off of None \<Rightarrow> pb_offset builder | Some v \<Rightarrow> if v \<noteq> 0 then v else pb_offset builder)
    in bindr (if z < 0
              then (case ctx of CtxMuid u \<Rightarrow> Inr (mu_offset u + z) | _ \<Rightarrow> Inl ValueError)
              else Inr z) (\<lambda>z'.
       bindr (require (m \<noteq> 0) AssertionError) (\<lambda>_.
       bindr (require (t \<noteq> 0) AssertionError) (\<lambda>_. mk_muid t m z')))))"

text \<open>An absolute reference resolves to itself in every context.\<close>

lemma muid_create_put_into:
  assumes "valid_muid u" "mu_timestamp u \<noteq> 0" "mu_medallion u \<noteq> 0" "0 \<le> mu_offset u"
  shows "muid_create ctx (put_into u) None = Inr u"
  using assms mk_muid_self [OF assms(1)]
  by (simp add: muid_create_def put_into_def result_simps)

text \<open>A change of a bundle is addressed by the bundle's time and medallion and its position.\<close>

lemma muid_create_offset:
  assumes "t \<noteq> 0" "m \<noteq> 0" "0 < z"
  shows "muid_create (CtxInfo t m) dummy_builder (Some z) = mk_muid t m z"
  using assms by (simp add: muid_create_def dummy_builder_def)

text \<open>A negative offset in an entry counts back from the entry's own position.\<close>

lemma muid_create_relative:
  assumes "z < 0" "mu_timestamp e \<noteq> 0" "mu_medallion e \<noteq> 0"
  shows "muid_create (CtxMuid e) (MuidPb 0 0 z) None
    = mk_muid (mu_timestamp e) (mu_medallion e) (mu_offset e + z)"
  using assms by (simp add: muid_create_def)

text \<open>Whatever the builder, context and offset, an address that \<open>Muid.create\<close> returns has
  a time and a medallion within their digits, with the all-ones value read as \<open>-1\<close>; only the offset may
  leave the signed range, and then it is the raw sum of the builder's offset and the context's.\<close>

lemma muid_create_bounds:
  assumes "muid_create ctx b off = Inr u"
  shows "-1 \<le> mu_timestamp u \<and> mu_timestamp u < TIMESTAMP_MOD - 1
    \<and> -1 \<le> mu_medallion u \<and> mu_medallion u < MEDALLION_MOD - 1
    \<and> - OFFSET_MOD < mu_offset u \<and> mu_offset u < OFFSET_MOD div 2"
proof -
  obtain t m z where "mk_muid t m z = Inr u"
    using assms by (auto simp: muid_create_def Let_def result_simps)
  then show ?thesis
    by (auto simp: mk_muid_eq norm_timestamp_def norm_medallion_def norm_offset_def muid_consts
        split: if_splits)
qed

lemma muid_create_bounds_witness:
  "muid_create (CtxInfo 1000 77) dummy_builder (Some 2) = Inr (Muid 1000 77 2) \<and> (2::int) < OFFSET_MOD div 2"
  using muid_create_bounds [of "CtxInfo 1000 77" dummy_builder "Some 2" "Muid 1000 77 2"]
  by (simp add: muid_create_offset mk_muid_eq muid_consts norm_timestamp_def norm_medallion_def norm_offset_def)

text \<open>C33: \<open>bytes(muid)\<close>, which goes through the hexadecimal text of an address, never raises and gives 16
  bytes, from which \<open>from_bytes\<close> reads the address back; and the order of these bytes is the order of the addresses
  themselves, so that a sorted map of packed keys scans in time order.\<close>

lemma muid_packing:
  assumes "valid_muid u"
  shows "\<exists>bs. muid_to_bytes u = Inr bs \<and> length bs = 16 \<and> muid_from_bytes bs = Inr u \<and>
    (\<forall>v. \<exists>bs'. muid_to_bytes v = Inr bs' \<and> (bs' < bs \<longleftrightarrow> muid_lt v u))"
  using assms by (simp add: muid_to_bytes_bytes muid_from_bytes_bytes muid_bytes_less_iff)

lemma muid_packing_witness:
  "\<exists>bs. muid_to_bytes (Muid 1700000000000000 5 (-3)) = Inr bs \<and> muid_from_bytes bs = Inr (Muid 1700000000000000 5 (-3))"
  using muid_packing [of "Muid 1700000000000000 5 (-3)"] by (auto simp: valid_muid_def muid_consts)

end
