(* ===== verification/Messages.thy ===== *)
theory Messages
  imports Muids
begin

text \<open>
  The protocol messages (\<open>python/gink/impl/builders.py\<close> and the \<open>.proto\<close> files it names): what
  the code reads and writes of them. A \<open>oneof\<close> is a datatype with a constructor for "not set", so
  \<open>HasField\<close> is a test of the constructor; a scalar that is not set reads as 0 or empty. The wire
  format itself belongs to protobuf, so the functions that serialize and parse are parameters (see
  the theory \<open>External\<close>).
\<close>

section \<open>Behaviors\<close>

definition UNSPECIFIED :: int where "UNSPECIFIED = 0"
definition BOX :: int where "BOX = 1"
definition SEQUENCE :: int where "SEQUENCE = 2"
definition PAIR_MAP :: int where "PAIR_MAP = 3"
definition DIRECTORY :: int where "DIRECTORY = 4"
definition KEY_SET :: int where "KEY_SET = 5"
definition GROUP :: int where "GROUP = 6"
definition VERTEX :: int where "VERTEX = 7"
definition PAIR_SET :: int where "PAIR_SET = 8"
definition EVENT_TYPE :: int where "EVENT_TYPE = 9"
definition PROPERTY :: int where "PROPERTY = 10"
definition EDGE_TYPE :: int where "EDGE_TYPE = 11"
definition TABLE :: int where "TABLE = 12"
definition BRAID :: int where "BRAID = 13"
definition ACCUMULATOR :: int where "ACCUMULATOR = 14"

lemmas behavior_defs =
  UNSPECIFIED_def BOX_def SEQUENCE_def PAIR_MAP_def DIRECTORY_def KEY_SET_def GROUP_def VERTEX_def
  PAIR_SET_def EVENT_TYPE_def PROPERTY_def EDGE_TYPE_def TABLE_def BRAID_def ACCUMULATOR_def

section \<open>Keys, values, entries, changes, bundles\<close>

text \<open>A Python \<open>float\<close> is its 64-bit pattern; the modelled code only stores and returns it.\<close>

type_synonym double = "64 word"

datatype key_pb =
    KeyUnset
  | KeyNumber int
  | KeyOctets bytes
  | KeyCharacters string

text \<open>\<open>Value.Special\<close> as the runtime enumerates it (\<open>value.proto\<close>).\<close>

definition SPECIAL_TRUE :: int where "SPECIAL_TRUE = 1"
definition SPECIAL_FALSE :: int where "SPECIAL_FALSE = 2"
definition SPECIAL_NULL :: int where "SPECIAL_NULL = 3"

datatype value_pb =
    ValUnset
  | ValInteger string
  | ValFloating double
  | ValCharacters string
  | ValSpecial int
  | ValTimestamp int
  | ValDocument "key_pb list" "value_pb list"
  | ValTuple "value_pb list"
  | ValOctets bytes

datatype subject_pb =
    SubNone
  | SubKey key_pb
  | SubPair muid_pb muid_pb
  | SubDescribing muid_pb

datatype contains_pb =
    ConNone
  | ConValue value_pb
  | ConDeletion bool
  | ConPointee muid_pb

record entry_pb =
  en_container :: "muid_pb option"
  en_behavior :: int
  en_subject :: subject_pb
  en_contains :: contains_pb
  en_expiry :: int
  en_effective :: int
  en_purge :: bool

definition empty_entry :: entry_pb where
  "empty_entry = \<lparr>en_container = None, en_behavior = UNSPECIFIED, en_subject = SubNone,
     en_contains = ConNone, en_expiry = 0, en_effective = 0, en_purge = False\<rparr>"

record movement_pb =
  mv_container :: muid_pb
  mv_entry :: muid_pb
  mv_dest :: int
  mv_purge :: bool

record clearance_pb =
  cl_container :: muid_pb
  cl_purge :: bool

datatype change_pb =
    ChUnset
  | ChContainer int
  | ChEntry entry_pb
  | ChMovement movement_pb
  | ChClearance clearance_pb

record bundle_pb =
  bn_identity :: string
  bn_changes :: "change_pb list"
  bn_verify_key :: bytes
  bn_timestamp :: int
  bn_chain_start :: int
  bn_medallion :: int
  bn_previous :: int
  bn_prior_hash :: bytes
  bn_key_id :: int
  bn_encrypted :: bytes
  bn_comment :: string

definition empty_bundle :: bundle_pb where
  "empty_bundle = \<lparr>bn_identity = [], bn_changes = [], bn_verify_key = [], bn_timestamp = 0,
     bn_chain_start = 0, bn_medallion = 0, bn_previous = 0, bn_prior_hash = [], bn_key_id = 0,
     bn_encrypted = [], bn_comment = []\<rparr>"

text \<open>The chain greeting entry and the acknowledgement of \<open>SyncMessage\<close>.\<close>

record greeting_entry =
  ge_medallion :: int
  ge_chain_start :: int
  ge_seen_through :: int

record ack_pb =
  ack_medallion :: int
  ack_chain_start :: int
  ack_timestamp :: int
  ack_previous :: int

datatype sync_message =
    MsgUnset
  | MsgBundle bytes
  | MsgGreeting "greeting_entry list"
  | MsgAck ack_pb
  | MsgSignal int

definition SIGNAL_INITIAL_BUNDLES_SENT :: int where "SIGNAL_INITIAL_BUNDLES_SENT = 1"
definition SIGNAL_READ_ONLY_CONNECTION :: int where "SIGNAL_READ_ONLY_CONNECTION = 2"

section \<open>Reading an entry\<close>

text \<open>The sub-messages of an entry; one that is not set reads as the default instance.\<close>

definition container_of :: "entry_pb \<Rightarrow> muid_pb" where
  "container_of e = (case en_container e of None \<Rightarrow> dummy_builder | Some m \<Rightarrow> m)"

definition describing_of :: "entry_pb \<Rightarrow> muid_pb" where
  "describing_of e = (case en_subject e of SubDescribing m \<Rightarrow> m | _ \<Rightarrow> dummy_builder)"

definition pair_left :: "entry_pb \<Rightarrow> muid_pb" where
  "pair_left e = (case en_subject e of SubPair l r \<Rightarrow> l | _ \<Rightarrow> dummy_builder)"

definition pair_rite :: "entry_pb \<Rightarrow> muid_pb" where
  "pair_rite e = (case en_subject e of SubPair l r \<Rightarrow> r | _ \<Rightarrow> dummy_builder)"

definition key_of :: "entry_pb \<Rightarrow> key_pb" where
  "key_of e = (case en_subject e of SubKey k \<Rightarrow> k | _ \<Rightarrow> KeyUnset)"

definition value_of :: "entry_pb \<Rightarrow> value_pb" where
  "value_of e = (case en_contains e of ConValue v \<Rightarrow> v | _ \<Rightarrow> ValUnset)"

definition has_key :: "entry_pb \<Rightarrow> bool" where
  "has_key e = (case en_subject e of SubKey _ \<Rightarrow> True | _ \<Rightarrow> False)"

definition has_pair :: "entry_pb \<Rightarrow> bool" where
  "has_pair e = (case en_subject e of SubPair _ _ \<Rightarrow> True | _ \<Rightarrow> False)"

definition has_describing :: "entry_pb \<Rightarrow> bool" where
  "has_describing e = (case en_subject e of SubDescribing _ \<Rightarrow> True | _ \<Rightarrow> False)"

definition has_value :: "entry_pb \<Rightarrow> bool" where
  "has_value e = (case en_contains e of ConValue _ \<Rightarrow> True | _ \<Rightarrow> False)"

definition has_deletion :: "entry_pb \<Rightarrow> bool" where
  "has_deletion e = (case en_contains e of ConDeletion _ \<Rightarrow> True | _ \<Rightarrow> False)"

definition has_pointee :: "entry_pb \<Rightarrow> bool" where
  "has_pointee e = (case en_contains e of ConPointee _ \<Rightarrow> True | _ \<Rightarrow> False)"

definition deletion_of :: "entry_pb \<Rightarrow> bool" where
  "deletion_of e = (case en_contains e of ConDeletion b \<Rightarrow> b | _ \<Rightarrow> False)"

lemmas entry_reads =
  container_of_def describing_of_def pair_left_def pair_rite_def key_of_def value_of_def
  has_key_def has_pair_def has_describing_def has_value_def has_deletion_def has_pointee_def
  deletion_of_def

text \<open>The decimal text of an accumulator entry's increment; not set reads as the empty text.\<close>

definition integer_text :: "entry_pb \<Rightarrow> string" where
  "integer_text e = (case value_of e of ValInteger s \<Rightarrow> s | _ \<Rightarrow> [])"

end
