(* ===== verification/External.thy ===== *)
theory External
  imports Messages "HOL-Library.Sublist"
begin

text \<open>
  The code that Gink calls and does not contain, as one record of functions that every definition
  using it takes as an argument: the ordered scan of \<open>sortedcontainers.SortedDict\<close>, the protobuf
  serialization of keys and bundles, the \<open>nacl\<close> hashes, signatures and secret boxes, and the
  floating point conversion of \<open>datetime\<close>, \<open>dateutil\<close>'s reading of a date (in microseconds), and
  the shortest decimal of a \<open>float\<close> (its \<open>str\<close>, as coefficient and exponent). What the development relies on is stated by
  \<open>scan_ok\<close> and \<open>key_codec_ok\<close>, the documented behaviour of these functions; the record
  \<open>ref_ext\<close> at the end is one concrete instance (a sorting scan, the protobuf wire format of keys)
  used by the closed examples.
\<close>

datatype datetime = Naive int | Zoned int int

datatype location_key = LocationKey (lk_entry: muid) (lk_placement: muid)

datatype chain = Chain (ch_medallion: int) (ch_start: int)

type_synonym 'k scan = "'k list \<Rightarrow> 'k option \<Rightarrow> 'k option \<Rightarrow> bool \<Rightarrow> 'k list"

record ext =
  x_scan_bytes :: "bytes scan"
  x_scan_loc :: "location_key scan"
  x_scan_chain :: "chain scan"
  x_scan_muid :: "muid scan"
  x_scan_ints :: "int list scan"
  x_key_ser :: "key_pb \<Rightarrow> bytes"
  x_key_parse :: "bytes \<Rightarrow> key_pb result"
  x_bundle_ser :: "bundle_pb \<Rightarrow> bytes"
  x_bundle_parse :: "bytes \<Rightarrow> bundle_pb result"
  x_sync_ser :: "sync_message \<Rightarrow> bytes"
  x_sync_parse :: "bytes \<Rightarrow> sync_message result"
  x_blake2b :: "bytes \<Rightarrow> bytes"
  x_shorthash :: "bytes \<Rightarrow> bytes"
  x_sign :: "bytes \<Rightarrow> bytes \<Rightarrow> bytes"
  x_verify_key :: "bytes \<Rightarrow> bytes"
  x_load_verify_key :: "bytes \<Rightarrow> bytes result"
  x_verify :: "bytes \<Rightarrow> bytes \<Rightarrow> unit result"
  x_decrypt :: "bytes \<Rightarrow> bytes \<Rightarrow> bytes result"
  x_dt_to_micros :: "datetime \<Rightarrow> int"
  x_dt_from_micros :: "int \<Rightarrow> datetime"
  x_date_parse :: "string \<Rightarrow> int result"
  x_float_decimal :: "double \<Rightarrow> (int \<times> int) option"

section \<open>Ordered scans\<close>

text \<open>
  \<open>irange(minimum, maximum, reverse)\<close>: the keys within the inclusive bounds, in ascending order of
  their comparison key, or descending when reversed.
\<close>

definition in_bounds :: "('k \<Rightarrow> 'o::linorder) \<Rightarrow> 'k option \<Rightarrow> 'k option \<Rightarrow> 'k \<Rightarrow> bool" where
  "in_bounds f lo hi k \<longleftrightarrow>
    (case lo of None \<Rightarrow> True | Some l \<Rightarrow> f l \<le> f k) \<and> (case hi of None \<Rightarrow> True | Some h \<Rightarrow> f k \<le> f h)"

definition scan_ok :: "('k \<Rightarrow> 'o::linorder) \<Rightarrow> 'k scan \<Rightarrow> bool" where
  "scan_ok f scan \<longleftrightarrow> (\<forall>ks lo hi r. distinct ks \<longrightarrow>
     distinct (scan ks lo hi r) \<and>
     set (scan ks lo hi r) = {k \<in> set ks. in_bounds f lo hi k} \<and>
     sorted (map f (if r then rev (scan ks lo hi r) else scan ks lo hi r)))"

definition loc_order :: "location_key \<Rightarrow> bytes" where
  "loc_order k = muid_bytes (lk_entry k) @ muid_bytes (lk_placement k)"

definition chain_order :: "chain \<Rightarrow> int list" where
  "chain_order c = [ch_medallion c, ch_start c]"

definition scans_ok :: "ext \<Rightarrow> bool" where
  "scans_ok E \<longleftrightarrow> scan_ok id (x_scan_bytes E) \<and> scan_ok loc_order (x_scan_loc E)
     \<and> scan_ok chain_order (x_scan_chain E) \<and> scan_ok packed (x_scan_muid E)
     \<and> scan_ok id (x_scan_ints E)"

lemma scan_set:
  "scan_ok f scan \<Longrightarrow> distinct ks \<Longrightarrow> set (scan ks lo hi r) = {k \<in> set ks. in_bounds f lo hi k}"
  by (simp add: scan_ok_def)

lemma scan_distinct: "scan_ok f scan \<Longrightarrow> distinct ks \<Longrightarrow> distinct (scan ks lo hi r)"
  by (simp add: scan_ok_def)

lemma scan_asc: "scan_ok f scan \<Longrightarrow> distinct ks \<Longrightarrow> sorted (map f (scan ks lo hi False))"
  unfolding scan_ok_def by (metis (full_types))

lemma scan_desc: "scan_ok f scan \<Longrightarrow> distinct ks \<Longrightarrow> sorted (map f (rev (scan ks lo hi True)))"
  unfolding scan_ok_def by (metis (full_types))

lemma scan_Nil:
  "scan_ok f scan \<Longrightarrow> distinct ks \<Longrightarrow> scan ks lo hi r = [] \<longleftrightarrow> (\<forall>k \<in> set ks. \<not> in_bounds f lo hi k)"
  using scan_set [of f scan ks lo hi r] by (metis (mono_tags, lifting) empty_iff empty_set mem_Collect_eq set_empty equals0I)

text \<open>The first key of a reversed scan is the greatest one within the bounds.\<close>

lemma scan_rev_hd:
  assumes "scan_ok f scan" "distinct ks" "scan ks lo hi True = k # rest"
  shows "k \<in> set ks" "in_bounds f lo hi k"
    "\<And>k'. k' \<in> set ks \<Longrightarrow> in_bounds f lo hi k' \<Longrightarrow> f k' \<le> f k"
proof -
  have s: "set (k # rest) = {k \<in> set ks. in_bounds f lo hi k}"
    using scan_set [OF assms(1,2), of lo hi True] assms(3) by simp
  then show "k \<in> set ks" "in_bounds f lo hi k" by auto
  fix k' assume "k' \<in> set ks" "in_bounds f lo hi k'"
  with s have "k' \<in> set (k # rest)" by blast
  moreover have "sorted (map f (rev (k # rest)))"
    using scan_desc [OF assms(1,2), of lo hi] assms(3) by simp
  ultimately show "f k' \<le> f k" by (auto simp: sorted_append)
qed

lemma scan_asc_hd:
  assumes "scan_ok f scan" "distinct ks" "scan ks lo hi False = k # rest"
  shows "k \<in> set ks" "in_bounds f lo hi k"
    "\<And>k'. k' \<in> set ks \<Longrightarrow> in_bounds f lo hi k' \<Longrightarrow> f k \<le> f k'"
proof -
  have s: "set (k # rest) = {k \<in> set ks. in_bounds f lo hi k}"
    using scan_set [OF assms(1,2), of lo hi False] assms(3) by simp
  then show "k \<in> set ks" "in_bounds f lo hi k" by auto
  fix k' assume "k' \<in> set ks" "in_bounds f lo hi k'"
  with s have "k' \<in> set (k # rest)" by blast
  moreover have "sorted (map f (k # rest))"
    using scan_asc [OF assms(1,2), of lo hi] assms(3) by simp
  ultimately show "f k \<le> f k'" by auto
qed

text \<open>Scans depend on the set of keys only, when the comparison key tells keys apart.\<close>

lemma scan_determined:
  assumes ok: "scan_ok f scan" and d: "distinct ks" "distinct ks'" and s: "set ks = set ks'"
    and inj: "inj_on f (set ks)"
  shows "scan ks lo hi r = scan ks' lo hi r"
proof -
  let ?x = "scan ks lo hi r" and ?y = "scan ks' lo hi r"
  let ?flip = "\<lambda>xs. if r then rev xs else xs"
  have eq: "set ?x = set ?y" using scan_set [OF ok] d s by simp
  have sub: "set ?x \<subseteq> set ks" using scan_set [OF ok] d by auto
  have "map f (?flip ?x) = map f (?flip ?y)"
  proof (rule sorted_distinct_set_unique)
    show "sorted (map f (?flip ?x))" "sorted (map f (?flip ?y))"
      using ok d unfolding scan_ok_def by blast+
    have "distinct (map f xs)" if "distinct xs" "set xs = set ?x" for xs
      using that sub inj by (simp add: distinct_map inj_on_subset)
    moreover have "distinct ?x" "distinct ?y" using scan_distinct [OF ok] d by blast+
    ultimately show "distinct (map f (?flip ?x))" "distinct (map f (?flip ?y))"
      using eq by auto
    show "set (map f (?flip ?x)) = set (map f (?flip ?y))" using eq by auto
  qed
  moreover have "inj_on f (set (?flip ?x) \<union> set (?flip ?y))"
    using inj sub eq by (auto intro: inj_on_subset)
  ultimately have "?flip ?x = ?flip ?y" by (simp add: inj_on_map_eq_map)
  then show ?thesis by (cases r) auto
qed

section \<open>Serialized keys\<close>

text \<open>
  Protobuf: parsing inverts serialization, and since every field of \<open>Key\<close> is self-delimiting, no
  serialized key is a proper prefix of another.
\<close>

definition key_codec_ok :: "ext \<Rightarrow> bool" where
  "key_codec_ok E \<longleftrightarrow>
     (\<forall>k. k \<noteq> KeyUnset \<longrightarrow> x_key_parse E (x_key_ser E k) = Inr k) \<and>
     (\<forall>k k'. k \<noteq> KeyUnset \<longrightarrow> k' \<noteq> KeyUnset \<longrightarrow> k \<noteq> k' \<longrightarrow> \<not> prefix (x_key_ser E k) (x_key_ser E k'))"

lemma prefix_free_less:
  fixes u v a b :: "'a::linorder list"
  assumes "\<not> prefix u v" "\<not> prefix v u"
  shows "u @ a < v @ b \<longleftrightarrow> u < v"
  using assms
proof (induction u arbitrary: v)
  case Nil
  then show ?case by simp
next
  case (Cons x u)
  then show ?case by (cases v) auto
qed

lemma prefix_free_between:
  fixes u v a b c :: "'a::linorder list"
  assumes "u @ a \<le> v @ b" "v @ b \<le> u @ c"
  shows "prefix u v \<or> prefix v u"
proof (rule ccontr)
  assume "\<not> ?thesis"
  then have n: "\<not> prefix u v" "\<not> prefix v u" by auto
  then have "u @ a \<noteq> v @ b" "v @ b \<noteq> u @ c"
    by (metis append_eq_append_conv2 prefixI)+
  with assms have "u @ a < v @ b" "v @ b < u @ c" by auto
  with n show False by (simp add: prefix_free_less)
qed


section \<open>A concrete instance\<close>

definition ref_scan :: "('k \<Rightarrow> 'o::linorder) \<Rightarrow> 'k scan" where
  "ref_scan f ks lo hi r =
    (let xs = sort_key f (List.filter (in_bounds f lo hi) ks) in if r then rev xs else xs)"

lemma ref_scan_ok: "scan_ok f (ref_scan f)"
  by (auto simp: scan_ok_def ref_scan_def Let_def)

fun varint :: "nat \<Rightarrow> bytes" where
  "varint n = (if n < 128 then [word_of_nat n] else word_of_nat (128 + n mod 128) # varint (n div 128))"

declare varint.simps [simp del]

fun parse_varint :: "bytes \<Rightarrow> (nat \<times> bytes) option" where
  "parse_varint [] = None"
| "parse_varint (b # bs) =
    (if unat b < 128 then Some (unat b, bs)
     else (case parse_varint bs of
        None \<Rightarrow> None
      | Some (n, r) \<Rightarrow> Some (n * 128 + (unat b - 128), r)))"

lemma unat_byte_of_nat: "m < 256 \<Longrightarrow> unat (word_of_nat m :: byte) = m"
  by (simp add: unat_of_nat)

lemma parse_varint_varint: "parse_varint (varint n @ r) = Some (n, r)"
proof (induction n arbitrary: r rule: varint.induct)
  case (1 n)
  show ?case
  proof (cases "n < 128")
    case True
    then show ?thesis by (subst varint.simps) (simp add: unat_of_nat)
  next
    case False
    have "unat (word_of_nat (128 + n mod 128) :: byte) = 128 + n mod 128"
      by (rule unat_byte_of_nat) linarith
    then show ?thesis using 1 False by (subst varint.simps) simp
  qed
qed

definition zigzag :: "int \<Rightarrow> nat" where
  "zigzag n = (if 0 \<le> n then nat (2 * n) else nat (- 2 * n - 1))"

definition unzigzag :: "nat \<Rightarrow> int" where
  "unzigzag n = (if even n then int (n div 2) else - int ((n + 1) div 2))"

lemma unzigzag_zigzag: "unzigzag (zigzag n) = n"
proof (cases "0 \<le> n")
  case True
  then obtain k where "n = int k" using nonneg_int_cases by blast
  then show ?thesis by (simp add: zigzag_def unzigzag_def nat_mult_distrib)
next
  case False
  then obtain k where k: "n = - int (Suc k)" by (cases n) auto
  have "zigzag n = 2 * k + 1" unfolding k zigzag_def by simp
  then show ?thesis unfolding k unzigzag_def by simp
qed

fun wire_key :: "key_pb \<Rightarrow> bytes" where
  "wire_key KeyUnset = []"
| "wire_key (KeyNumber n) = 8 # varint (zigzag n)"
| "wire_key (KeyOctets bs) = 18 # varint (length bs) @ bs"
| "wire_key (KeyCharacters s) = 26 # varint (length s) @ str_encode s"

definition wire_take :: "(bytes \<Rightarrow> key_pb) \<Rightarrow> bytes \<Rightarrow> (key_pb \<times> bytes) option" where
  "wire_take f bs =
    (case parse_varint bs of
      None \<Rightarrow> None
    | Some (n, r) \<Rightarrow> if n \<le> length r then Some (f (take n r), drop n r) else None)"

definition wire_parse1 :: "bytes \<Rightarrow> (key_pb \<times> bytes) option" where
  "wire_parse1 bs =
    (case bs of
      [] \<Rightarrow> None
    | b # r \<Rightarrow>
        if b = 8 then map_option (\<lambda>(n, q). (KeyNumber (unzigzag n), q)) (parse_varint r)
        else if b = 18 then wire_take KeyOctets r
        else if b = 26 then wire_take (\<lambda>d. KeyCharacters (bytes_decode d)) r
        else None)"

definition wire_parse :: "bytes \<Rightarrow> key_pb result" where
  "wire_parse bs =
    (if bs = [] then Inr KeyUnset
     else (case wire_parse1 bs of Some (k, []) \<Rightarrow> Inr k | _ \<Rightarrow> Inl ValueError))"

lemma wire_parse1_key: "k \<noteq> KeyUnset \<Longrightarrow> wire_parse1 (wire_key k @ r) = Some (k, r)"
  by (cases k) (simp_all add: wire_parse1_def wire_take_def parse_varint_varint unzigzag_zigzag)

lemma wire_key_prefix:
  assumes "k \<noteq> KeyUnset" "k' \<noteq> KeyUnset" "prefix (wire_key k) (wire_key k')"
  shows "k = k'"
proof -
  from assms(3) obtain r where "wire_key k' = wire_key k @ r" by (auto simp: prefix_def)
  then show ?thesis using wire_parse1_key [OF assms(1), of r] wire_parse1_key [OF assms(2), of "[]"] by simp
qed

definition ref_ext :: ext where
  "ref_ext = \<lparr>x_scan_bytes = ref_scan id, x_scan_loc = ref_scan loc_order,
     x_scan_chain = ref_scan chain_order, x_scan_muid = ref_scan packed, x_scan_ints = ref_scan id,
     x_key_ser = wire_key, x_key_parse = wire_parse,
     x_bundle_ser = (\<lambda>_. []), x_bundle_parse = (\<lambda>_. Inr empty_bundle),
     x_sync_ser = (\<lambda>m. case m of MsgBundle b \<Rightarrow> 10 # b | _ \<Rightarrow> []),
     x_sync_parse = (\<lambda>bs. case bs of b # r \<Rightarrow> if b = 10 then Inr (MsgBundle r) else Inl ValueError | [] \<Rightarrow> Inr MsgUnset),
     x_blake2b = (\<lambda>bs. be_bytes 32 (be_int bs)), x_shorthash = (\<lambda>bs. be_bytes 8 (be_int bs)),
     x_sign = (\<lambda>k bs. be_bytes 64 (be_int k) @ bs), x_verify_key = (\<lambda>k. k), x_load_verify_key = Inr,
     x_verify = (\<lambda>k bs. if take 64 bs = be_bytes 64 (be_int k) then Inr () else Inl CryptoError),
     x_decrypt = (\<lambda>k bs. Inr bs),
     x_dt_to_micros = (\<lambda>d. case d of Naive n \<Rightarrow> n | Zoned n z \<Rightarrow> n - z), x_dt_from_micros = Naive,
     x_date_parse = (\<lambda>_. Inl ValueError),
     x_float_decimal = (\<lambda>_. None)\<rparr>"

lemma ref_ext_scans [simp]: "scans_ok ref_ext"
  by (simp add: scans_ok_def ref_ext_def ref_scan_ok)

lemma ref_ext_keys [simp]: "key_codec_ok ref_ext"
proof -
  have "wire_parse (wire_key k) = Inr k" if "k \<noteq> KeyUnset" for k
    using wire_parse1_key [OF that, of "[]"] that by (cases k) (simp_all add: wire_parse_def)
  then show ?thesis by (auto simp: key_codec_ok_def ref_ext_def dest: wire_key_prefix)
qed

end
