(* ===== verification/Infos.thy ===== *)
theory Infos
  imports External
begin

text \<open>
  Chains and bundle metadata: \<open>Chain\<close> of \<open>python/gink/impl/tuples.py\<close> and \<open>BundleInfo\<close> of
  \<open>bundle_info.py\<close>, with their binary forms, the acknowledgement message and the order by which the
  store keeps its bundles.
\<close>

section \<open>Chains\<close>

text \<open>\<open>struct.pack(">Q", n)\<close> and its inverse on one 8-byte field.\<close>

definition pack_q :: "int \<Rightarrow> bytes result" where
  "pack_q n = (if 0 \<le> n \<and> n < 2 ^ 64 then Inr (be_bytes 8 n) else Inl StructError)"

lemma pack_q_Inr: "pack_q n = Inr bs \<longleftrightarrow> 0 \<le> n \<and> n < 2 ^ 64 \<and> bs = be_bytes 8 n"
  by (auto simp: pack_q_def)

definition chain_bytes :: "chain \<Rightarrow> bytes result" where
  "chain_bytes c = bindr (pack_q (ch_medallion c)) (\<lambda>m. bindr (pack_q (ch_start c)) (\<lambda>s. Inr (m @ s)))"

definition chain_from_bytes :: "bytes \<Rightarrow> chain result" where
  "chain_from_bytes data =
    (if length data \<noteq> 16 then Inl StructError
     else Inr (Chain (be_int (take 8 data)) (be_int (drop 8 data))))"

lemma chain_roundtrip: "chain_bytes c = Inr bs \<Longrightarrow> chain_from_bytes bs = Inr c"
  by (cases c) (auto simp: chain_bytes_def chain_from_bytes_def pack_q_Inr result_simps)

lemma chain_bytes_order:
  "chain_bytes a = Inr x \<Longrightarrow> chain_bytes b = Inr y \<Longrightarrow> x < y \<longleftrightarrow> chain_order a < chain_order b"
  by (auto simp: chain_bytes_def pack_q_Inr result_simps chain_order_def append_less_split
      be_bytes_less_iff be_bytes_eq_iff)

section \<open>Bundle metadata\<close>

record bundle_info =
  bi_timestamp :: int
  bi_medallion :: int
  bi_chain_start :: int
  bi_previous :: int
  bi_hex_hash :: "string option"
  bi_comment :: "string option"

text \<open>
  The constructor from 0, 32 or more encoded bytes (\<open>BundleInfo(encoded=...)\<close>), from a parsed bundle
  with its hash (\<open>BundleInfo(builder=..., hex_hash=...)\<close>), and from keyword arguments, where the
  fields not given are zero.
\<close>

definition info_from_bytes :: "bytes \<Rightarrow> bundle_info result" where
  "info_from_bytes data =
    (if length data < 32 then Inl ValueError
     else Inr \<lparr>bi_timestamp = be_int (take 8 data),
               bi_medallion = be_int (take 8 (drop 8 data)),
               bi_chain_start = be_int (take 8 (drop 16 data)),
               bi_previous = be_int (take 8 (drop 24 data)),
               bi_hex_hash = (if 32 < length data then Some (bytes_hex (take 32 (drop 32 data))) else None),
               bi_comment = (if 64 < length data then Some (bytes_decode (drop 64 data)) else None)\<rparr>)"

definition info_from_builder :: "bundle_pb \<Rightarrow> string \<Rightarrow> bundle_info" where
  "info_from_builder b hex_hash =
    \<lparr>bi_timestamp = bn_timestamp b, bi_medallion = bn_medallion b,
     bi_chain_start = bn_chain_start b, bi_previous = bn_previous b,
     bi_hex_hash = Some hex_hash, bi_comment = Some (bn_comment b)\<rparr>"

definition info_of :: "int \<Rightarrow> int \<Rightarrow> int \<Rightarrow> int \<Rightarrow> bundle_info" where
  "info_of ts med start prev =
    \<lparr>bi_timestamp = ts, bi_medallion = med, bi_chain_start = start, bi_previous = prev,
     bi_hex_hash = None, bi_comment = None\<rparr>"

definition info_bytes :: "bundle_info \<Rightarrow> bytes result" where
  "info_bytes i =
    (case bi_hex_hash i of
      None \<Rightarrow> Inl AssertionError
    | Some h \<Rightarrow>
        bindr (pack_q (bi_timestamp i)) (\<lambda>a.
        bindr (pack_q (bi_medallion i)) (\<lambda>b.
        bindr (pack_q (bi_chain_start i)) (\<lambda>c.
        bindr (pack_q (bi_previous i)) (\<lambda>d.
        bindr (bytes_fromhex h) (\<lambda>hash.
          Inr (a @ b @ c @ d @ hash
            @ (case bi_comment i of None \<Rightarrow> [] | Some s \<Rightarrow> str_encode s))))))))"

definition get_chain :: "bundle_info \<Rightarrow> chain" where
  "get_chain i = Chain (bi_medallion i) (bi_chain_start i)"

text \<open>\<open>_essential_tuple\<close>, on which equality, order and hash are defined.\<close>

definition essential :: "bundle_info \<Rightarrow> int list" where
  "essential i = [bi_timestamp i, bi_medallion i, bi_chain_start i]"

definition info_lt :: "bundle_info \<Rightarrow> bundle_info \<Rightarrow> bool" where
  "info_lt a b \<longleftrightarrow> essential a < essential b"

definition info_eq :: "bundle_info \<Rightarrow> bundle_info \<Rightarrow> bool" where
  "info_eq a b \<longleftrightarrow> essential a = essential b"

definition as_acknowledgement :: "bundle_info \<Rightarrow> sync_message" where
  "as_acknowledgement i =
    MsgAck \<lparr>ack_medallion = bi_medallion i, ack_chain_start = bi_chain_start i,
            ack_timestamp = bi_timestamp i, ack_previous = bi_previous i\<rparr>"

definition from_ack :: "sync_message \<Rightarrow> bundle_info result" where
  "from_ack msg =
    (case msg of
      MsgAck a \<Rightarrow> Inr (info_of (ack_timestamp a) (ack_medallion a) (ack_chain_start a) (ack_previous a))
    | _ \<Rightarrow> Inl AssertionError)"

text \<open>The metadata that a stored bundle has: a 32-byte hash in lower-case hexadecimal text.\<close>

definition info_ok :: "bundle_info \<Rightarrow> bool" where
  "info_ok i \<longleftrightarrow>
    (\<forall>n \<in> {bi_timestamp i, bi_medallion i, bi_chain_start i, bi_previous i}. 0 \<le> n \<and> n < 2 ^ 64)
    \<and> (\<exists>h. length h = 32 \<and> bi_hex_hash i = Some (bytes_hex h))"

text \<open>The metadata of a bundle is read back from its binary form, except that an empty
  comment comes back as no comment.\<close>

lemma info_roundtrip:
  assumes "info_ok i"
  shows "\<exists>bs. info_bytes i = Inr bs
    \<and> info_from_bytes bs = Inr (i\<lparr>bi_comment := (if bi_comment i = Some [] then None else bi_comment i)\<rparr>)"
proof -
  obtain h where h: "length h = 32" "bi_hex_hash i = Some (bytes_hex h)"
    using assms by (auto simp: info_ok_def)
  let ?tail = "case bi_comment i of None \<Rightarrow> [] | Some s \<Rightarrow> str_encode s"
  let ?bs = "be_bytes 8 (bi_timestamp i) @ be_bytes 8 (bi_medallion i) @ be_bytes 8 (bi_chain_start i)
    @ be_bytes 8 (bi_previous i) @ h @ ?tail"
  have r: "0 \<le> bi_timestamp i" "bi_timestamp i < 2 ^ 64" "0 \<le> bi_medallion i" "bi_medallion i < 2 ^ 64"
    "0 \<le> bi_chain_start i" "bi_chain_start i < 2 ^ 64" "0 \<le> bi_previous i" "bi_previous i < 2 ^ 64"
    using assms by (auto simp: info_ok_def)
  have "info_bytes i = Inr ?bs"
    using h r by (simp add: info_bytes_def pack_q_def bytes_fromhex_hex)
  moreover have "bi_comment i = (if 64 < length ?bs then Some (bytes_decode ?tail) else None)"
    if "bi_comment i \<noteq> Some []"
    using that h by (cases "bi_comment i") auto
  moreover have "length ?bs \<le> 64" if "bi_comment i = Some []" using that h by simp
  ultimately show ?thesis
    using h r by (cases i) (auto simp: info_from_bytes_def)
qed

lemma info_roundtrip_witness:
  "\<exists>bs. info_bytes \<lparr>bi_timestamp = 2000, bi_medallion = 88, bi_chain_start = 1000, bi_previous = 1000,
      bi_hex_hash = Some (bytes_hex (replicate 32 7)), bi_comment = Some ''hi''\<rparr> = Inr bs \<and>
    info_from_bytes bs = Inr \<lparr>bi_timestamp = 2000, bi_medallion = 88, bi_chain_start = 1000, bi_previous = 1000,
      bi_hex_hash = Some (bytes_hex (replicate 32 7)), bi_comment = Some ''hi''\<rparr>"
proof -
  have "\<exists>h::bytes. length h = 32 \<and> bytes_hex (replicate 32 7) = bytes_hex h"
    by (rule exI [of _ "replicate 32 7"]) simp
  then show ?thesis
    using info_roundtrip [of "\<lparr>bi_timestamp = 2000, bi_medallion = 88, bi_chain_start = 1000, bi_previous = 1000,
      bi_hex_hash = Some (bytes_hex (replicate 32 7)), bi_comment = Some ''hi''\<rparr>"]
    by (simp add: info_ok_def)
qed

text \<open>The binary form of the metadata sorts as \<open>BundleInfo.__lt__\<close> does, by time, then
  medallion.\<close>

lemma info_bytes_order:
  assumes "info_bytes a = Inr x" "info_bytes b = Inr y" "info_lt a b"
  shows "x < y"
proof -
  have f: "0 \<le> n \<and> n < 2 ^ 64 \<Longrightarrow> 0 \<le> m \<and> m < 2 ^ 64 \<Longrightarrow>
      be_bytes 8 n @ p < be_bytes 8 m @ q \<longleftrightarrow> n < m \<or> n = m \<and> p < q" for n m p q
    by (simp add: append_less_split be_bytes_less_iff be_bytes_eq_iff)
  show ?thesis
    using assms
    by (auto simp: info_bytes_def pack_q_Inr result_simps info_lt_def essential_def f split: option.splits)
qed

lemma info_bytes_order_witness:
  "\<exists>x y. info_bytes \<lparr>bi_timestamp = 1000, bi_medallion = 88, bi_chain_start = 1000, bi_previous = 0,
      bi_hex_hash = Some (bytes_hex (replicate 32 7)), bi_comment = None\<rparr> = Inr x \<and>
    info_bytes \<lparr>bi_timestamp = 2000, bi_medallion = 77, bi_chain_start = 2000, bi_previous = 0,
      bi_hex_hash = Some (bytes_hex (replicate 32 7)), bi_comment = None\<rparr> = Inr y \<and> x < y"
proof -
  let ?a = "\<lparr>bi_timestamp = 1000, bi_medallion = 88, bi_chain_start = 1000, bi_previous = 0,
      bi_hex_hash = Some (bytes_hex (replicate 32 7)), bi_comment = None\<rparr>"
  let ?b = "\<lparr>bi_timestamp = 2000, bi_medallion = 77, bi_chain_start = 2000, bi_previous = 0,
      bi_hex_hash = Some (bytes_hex (replicate 32 7)), bi_comment = None\<rparr>"
  obtain x y where "info_bytes ?a = Inr x" "info_bytes ?b = Inr y"
    by (simp add: info_bytes_def pack_q_def bytes_fromhex_hex)
  moreover have "info_lt ?a ?b" by (simp add: info_lt_def essential_def)
  ultimately show ?thesis using info_bytes_order [of ?a x ?b y] by blast
qed

lemma ack_roundtrip:
  "from_ack (as_acknowledgement i) = Inr (i\<lparr>bi_hex_hash := None, bi_comment := None\<rparr>)"
  by (cases i) (simp add: from_ack_def as_acknowledgement_def info_of_def)

end
