(* ===== verification/Has_Maps.thy ===== *)
theory Has_Maps
  imports Infos
begin

text \<open>
  \<open>python/gink/impl/has_map.py\<close>: how far along each chain an instance (this one, or a peer) has
  bundles. The map is the join of the bundles marked; the greeting message carries it to a peer.
\<close>

type_synonym has_map = "(chain, int) dict"

definition has_map_init :: "sync_message option \<Rightarrow> has_map result" where
  "has_map_init msg =
    (case msg of
      None \<Rightarrow> Inr []
    | Some (MsgGreeting es) \<Rightarrow>
        Inr (foldl (\<lambda>d e. dput (Chain (ge_medallion e) (ge_chain_start e)) (ge_seen_through e) d) [] es)
    | Some _ \<Rightarrow> Inl AssertionError)"

definition get_subset :: "has_map \<Rightarrow> chain list \<Rightarrow> has_map" where
  "get_subset h cs =
    foldl (\<lambda>d c. case dget h c of None \<Rightarrow> d | Some i_have \<Rightarrow> dput c i_have d) [] cs"

definition is_valid_extension :: "has_map \<Rightarrow> bundle_info \<Rightarrow> bool" where
  "is_valid_extension h i \<longleftrightarrow>
    (if bi_timestamp i = bi_chain_start i then True
     else dget h (get_chain i) = Some (bi_previous i))"

text \<open>\<open>self._data.get(chain, 0)\<close>.\<close>

definition seen :: "has_map \<Rightarrow> chain \<Rightarrow> int" where
  "seen h c = (case dget h c of None \<Rightarrow> 0 | Some t \<Rightarrow> t)"

definition mark_as_having :: "has_map \<Rightarrow> bundle_info \<Rightarrow> has_map" where
  "mark_as_having h i =
    (if seen h (get_chain i) < bi_timestamp i then dput (get_chain i) (bi_timestamp i) h else h)"

definition has_info :: "has_map \<Rightarrow> bundle_info \<Rightarrow> bool" where
  "has_info h i \<longleftrightarrow> bi_timestamp i \<le> seen h (get_chain i)"

text \<open>
  \<open>has\<close> of an address. The scan yields keys (chains), which the loop unpacks as if they were
  key-value pairs, so the assertion in its body fails on the first key.
\<close>

definition has_muid :: "ext \<Rightarrow> has_map \<Rightarrow> muid \<Rightarrow> bool result" where
  "has_muid E h u =
    (case x_scan_chain E (dkeys h) (Some (Chain (mu_medallion u) 0))
        (Some (Chain (mu_medallion u) (mu_timestamp u))) False of
      [] \<Rightarrow> Inr False
    | _ # _ \<Rightarrow> Inl AssertionError)"

definition to_greeting_message :: "ext \<Rightarrow> has_map \<Rightarrow> sync_message" where
  "to_greeting_message E h =
    MsgGreeting (map (\<lambda>c. \<lparr>ge_medallion = ch_medallion c, ge_chain_start = ch_start c,
                          ge_seen_through = seen h c\<rparr>)
      (x_scan_chain E (dkeys h) None None False))"

section \<open>Marking is a join\<close>

lemma seen_mark [simp]:
  "seen (mark_as_having h i) c = (if c = get_chain i then max (seen h c) (bi_timestamp i) else seen h c)"
  by (auto simp: mark_as_having_def seen_def)

lemma mark_dict_ok [simp]: "dict_ok h \<Longrightarrow> dict_ok (mark_as_having h i)"
  by (simp add: mark_as_having_def)

lemma seen_foldl:
  "seen (foldl mark_as_having h js) c =
    Max (insert (seen h c) (bi_timestamp ` {j \<in> set js. get_chain j = c}))"
proof (induction js arbitrary: h)
  case Nil
  then show ?case by simp
next
  case (Cons j js)
  let ?A = "bi_timestamp ` {j \<in> set js. get_chain j = c}"
  have fin: "finite ?A" by simp
  show ?case
  proof (cases "get_chain j = c")
    case True
    then have set: "bi_timestamp ` {i \<in> set (j # js). get_chain i = c} = insert (bi_timestamp j) ?A" by auto
    have "Max (insert (max (seen h c) (bi_timestamp j)) ?A)
        = Max (insert (seen h c) (insert (bi_timestamp j) ?A))"
    proof (cases "?A = {}")
      case True
      then show ?thesis by (simp only: True) simp
    next
      case False
      with fin show ?thesis by (simp add: max.assoc)
    qed
    then show ?thesis unfolding set using Cons True by simp
  next
    case False
    then have "{i \<in> set (j # js). get_chain i = c} = {i \<in> set js. get_chain i = c}" by auto
    with Cons False show ?thesis by simp
  qed
qed

text \<open>A has-map built by marking bundles, in any order and with repetitions, has exactly the
  bundles that are not later than a marked bundle of their chain: marking is a join.\<close>

lemma has_info_marked:
  "has_info (foldl mark_as_having [] js) i \<longleftrightarrow>
    bi_timestamp i \<le> 0 \<or> (\<exists>j \<in> set js. get_chain j = get_chain i \<and> bi_timestamp i \<le> bi_timestamp j)"
proof -
  have "seen [] c = 0" for c by (simp add: seen_def)
  then show ?thesis
    unfolding has_info_def seen_foldl
    by (subst Max_ge_iff) auto
qed


section \<open>Greetings\<close>

lemma dget_foldl_greeting:
  "distinct cs \<Longrightarrow>
    dget (foldl (\<lambda>d e. dput (Chain (ge_medallion e) (ge_chain_start e)) (ge_seen_through e) d) d
      (map (\<lambda>c. \<lparr>ge_medallion = ch_medallion c, ge_chain_start = ch_start c, ge_seen_through = f c\<rparr>) cs)) k
    = (if k \<in> set cs then Some (f k) else dget d k)"
  by (induction cs arbitrary: d) auto

text \<open>C38: A greeting message carries a has-map to the peer: the map that the receiver builds from
  it answers alike for every chain.\<close>

lemma greeting_roundtrip:
  assumes "scans_ok E" "dict_ok h"
  shows "\<exists>h'. has_map_init (Some (to_greeting_message E h)) = Inr h' \<and> dget h' = dget h"
proof -
  let ?cs = "x_scan_chain E (dkeys h) None None False"
  have ok: "scan_ok chain_order (x_scan_chain E)" using assms(1) by (simp add: scans_ok_def)
  have d: "distinct (dkeys h)" using assms(2) by (simp add: dict_ok_def)
  have cs: "distinct ?cs" "set ?cs = set (dkeys h)"
    using scan_distinct [OF ok d] scan_set [OF ok d, of None None False]
    by (auto simp: in_bounds_def)
  have "(if k \<in> set ?cs then Some (seen h k) else dget [] k) = dget h k" for k
    using cs(2) dget_None_iff [of h k] dget_Some_key [of h k]
    by (cases "dget h k") (auto simp: seen_def)
  then show ?thesis
    using dget_foldl_greeting [OF cs(1), of "[]" "seen h"]
    by (auto simp: has_map_init_def to_greeting_message_def fun_eq_iff)
qed

lemma greeting_roundtrip_witness:
  "\<exists>h'. has_map_init (Some (to_greeting_message ref_ext [(Chain 88 2000, 2500), (Chain 77 1000, 1000)])) = Inr h' \<and>
    dget h' (Chain 88 2000) = Some 2500"
  using greeting_roundtrip [OF ref_ext_scans, of "[(Chain 88 2000, 2500), (Chain 77 1000, 1000)]"]
  by (auto simp: dict_ok_def)

lemma greeting_sorted:
  assumes "scans_ok E" "dict_ok h" "to_greeting_message E h = MsgGreeting es"
  shows "sorted (map (\<lambda>e. [ge_medallion e, ge_chain_start e]) es)"
proof -
  have ok: "scan_ok chain_order (x_scan_chain E)" using assms(1) by (simp add: scans_ok_def)
  have d: "distinct (dkeys h)" using assms(2) by (simp add: dict_ok_def)
  show ?thesis using scan_asc [OF ok d, of None None] assms(3)
    by (auto simp: to_greeting_message_def chain_order_def [abs_def] comp_def)
qed

section \<open>Looking up an address\<close>

text \<open>Asking a has-map for an address fails with an assertion error whenever it has a chain
  that could contain the address.\<close>

lemma has_muid_fails:
  assumes "scans_ok E" "dict_ok h" "c \<in> set (dkeys h)"
    and "ch_medallion c = mu_medallion u" "0 \<le> ch_start c" "ch_start c \<le> mu_timestamp u"
  shows "has_muid E h u = Inl AssertionError"
proof -
  have ok: "scan_ok chain_order (x_scan_chain E)" using assms(1) by (simp add: scans_ok_def)
  have d: "distinct (dkeys h)" using assms(2) by (simp add: dict_ok_def)
  have "[a, b] \<le> [a, b'] \<longleftrightarrow> b \<le> b'" for a b b' :: int by (auto simp: le_less)
  then have "in_bounds chain_order (Some (Chain (mu_medallion u) 0))
      (Some (Chain (mu_medallion u) (mu_timestamp u))) c"
    using assms by (auto simp: in_bounds_def chain_order_def)
  then have "x_scan_chain E (dkeys h) (Some (Chain (mu_medallion u) 0))
      (Some (Chain (mu_medallion u) (mu_timestamp u))) False \<noteq> []"
    using scan_Nil [OF ok d] assms(3) by blast
  then show ?thesis by (auto simp: has_muid_def split: list.splits)
qed

lemma has_muid_fails_witness:
  "has_muid ref_ext [(Chain 77 1000, 2500)] (Muid 1500 77 1) = Inl AssertionError"
  using has_muid_fails [OF ref_ext_scans, of "[(Chain 77 1000, 2500)]" "Chain 77 1000" "Muid 1500 77 1"]
  by (simp add: dict_ok_def)

section \<open>Subsets\<close>

lemma dget_get_subset: "dget (get_subset h cs) c = (if c \<in> set cs then dget h c else None)"
proof -
  have "dget (foldl (\<lambda>d c. case dget h c of None \<Rightarrow> d | Some i_have \<Rightarrow> dput c i_have d) d cs) c
      = (if c \<in> set cs \<and> dget h c \<noteq> None then dget h c else dget d c)" for d
    by (induction cs arbitrary: d) (auto split: option.splits)
  from this [of "[]"] show ?thesis by (auto simp: get_subset_def)
qed

end
