(* ===== verification/Codings.thy ===== *)
theory Codings
  imports External
begin

text \<open>
  \<open>python/gink/impl/coding.py\<close>, the part that builds the store's keys: timestamps packed in 8
  bytes, user keys, and the location, removal and placement keys with their parsers. A placement is
  stored under \<open>container ++ middle ++ placer ++ expiry\<close>; because the parts other than the
  middle have a fixed width and no middle of a kind is a prefix of another, the keys of one
  (container, middle) form an interval of the byte order, ordered by placer. That is what the
  range scans of the store depend on (\<open>placement_between\<close>).
\<close>

section \<open>Timestamps\<close>

definition INT_INF :: int where "INT_INF = 2 ^ 64 - 1"
definition KEY_MAX :: int where "KEY_MAX = 2 ^ 53 - 1"

text \<open>\<open>encode_muts\<close> for an integer or \<open>None\<close>.\<close>

definition encode_muts :: "int option \<Rightarrow> bytes result" where
  "encode_muts number =
    (case number of
      None \<Rightarrow> Inr (replicate 8 0)
    | Some n \<Rightarrow>
        if n = 0 then Inr (replicate 8 0)
        else let v = (if n = INT_INF then -1 else n)
          in if - (2 ^ 63) \<le> v \<and> v < 2 ^ 63 then Inr (be_bytes 8 v) else Inl StructError)"

definition decode_muts :: "bytes \<Rightarrow> int option result" where
  "decode_muts data =
    (if length data \<noteq> 8 then Inl StructError
     else let u = be_int data; v = (if 2 ^ 63 \<le> u then u - 2 ^ 64 else u)
       in Inr (if v = -1 then Some INT_INF else if v = 0 then None else Some v))"

text \<open>The times that survive the encoding, and the bytes of such a time.\<close>

definition valid_muts :: "int \<Rightarrow> bool" where
  "valid_muts t \<longleftrightarrow> t = INT_INF \<or> (t \<noteq> 0 \<and> t \<noteq> -1 \<and> - (2 ^ 63) \<le> t \<and> t < 2 ^ 63)"

definition valid_time :: "int option \<Rightarrow> bool" where
  "valid_time n \<longleftrightarrow> (case n of None \<Rightarrow> True | Some t \<Rightarrow> valid_muts t)"

definition muts_bytes :: "int option \<Rightarrow> bytes" where
  "muts_bytes n =
    be_bytes 8 (case n of None \<Rightarrow> 0 | Some t \<Rightarrow> if t = INT_INF then -1 else t)"

lemma be_bytes_zero: "be_bytes k 0 = replicate k 0"
  by (induction k) (simp_all add: replicate_append_same)

lemma length_muts_bytes [simp, bytes_simps]: "length (muts_bytes n) = 8"
  by (simp add: muts_bytes_def)

lemma encode_muts_valid: "valid_time n \<Longrightarrow> encode_muts n = Inr (muts_bytes n)"
  by (auto simp: encode_muts_def muts_bytes_def valid_time_def valid_muts_def INT_INF_def
      be_bytes_zero [of 8] Let_def split: option.splits)

lemma encode_muts_Inr: "encode_muts n = Inr bs \<Longrightarrow> bs = muts_bytes n"
  by (auto simp: encode_muts_def muts_bytes_def be_bytes_zero [of 8] Let_def INT_INF_def
      split: option.splits if_splits)

lemma decode_muts_bytes: "valid_time n \<Longrightarrow> decode_muts (muts_bytes n) = Inr n"
proof -
  assume v: "valid_time n"
  have b: "be_int (muts_bytes n) =
      (case n of None \<Rightarrow> 0 | Some t \<Rightarrow> if t = INT_INF then -1 else t) mod 2 ^ 64"
    by (simp add: muts_bytes_def)
  show ?thesis
  proof (cases n)
    case None
    with b show ?thesis by (simp add: decode_muts_def)
  next
    case (Some t)
    show ?thesis
    proof (cases "t = INT_INF")
      case True
      with Some b show ?thesis by (simp add: decode_muts_def INT_INF_def zmod_minus1)
    next
      case False
      then have t: "t \<noteq> 0" "t \<noteq> -1" "- (2 ^ 63) \<le> t" "t < 2 ^ 63"
        using v Some by (auto simp: valid_time_def valid_muts_def)
      have "t mod 2 ^ 64 = (if 0 \<le> t then t else t + 2 ^ 64)"
        using t mod_pos_pos_trivial [of "t + 2 ^ 64" "2 ^ 64"] by auto
      then show ?thesis using t False Some b by (auto simp: decode_muts_def Let_def)
    qed
  qed
qed

text \<open>
  Byte order on packed times is the order of the times as unsigned 64-bit numbers, so the times of
  the past sort before the infinite one, and negative positions after every positive one.
\<close>

definition muts_unsigned :: "int option \<Rightarrow> int" where
  "muts_unsigned n = (case n of None \<Rightarrow> 0 | Some t \<Rightarrow> t mod 2 ^ 64)"

lemma muts_bytes_unsigned: "muts_bytes n = be_bytes 8 (muts_unsigned n)"
proof -
  have "\<And>k t. be_bytes k (t mod 256 ^ k) = be_bytes k t"
    by (rule be_int_inj) simp_all
  moreover from this [of 8 "-1"] have "be_bytes 8 (-1) = be_bytes 8 18446744073709551615"
    by simp
  ultimately show ?thesis
    using \<open>\<And>k t. be_bytes k (t mod 256 ^ k) = be_bytes k t\<close> [of 8]
    by (auto simp: muts_bytes_def muts_unsigned_def INT_INF_def zmod_minus1 split: option.splits)
qed

lemma muts_bytes_less_iff: "muts_bytes a < muts_bytes b \<longleftrightarrow> muts_unsigned a < muts_unsigned b"
  unfolding muts_bytes_unsigned
  by (rule be_bytes_less_iff) (auto simp: muts_unsigned_def split: option.splits)

interpretation muts_codec: ordered_codec muts_bytes decode_muts valid_time 8
    "\<lambda>a b. muts_unsigned a < muts_unsigned b"
  by unfold_locales (simp_all add: decode_muts_bytes muts_bytes_less_iff)

section \<open>User keys\<close>

datatype ukey = KInt int | KStr string | KBytes bytes

definition encode_key :: "ukey \<Rightarrow> key_pb result" where
  "encode_key key =
    (case key of
      KStr s \<Rightarrow> Inr (KeyCharacters s)
    | KInt n \<Rightarrow> if KEY_MAX < \<bar>n\<bar> then Inl ValueError else Inr (KeyNumber n)
    | KBytes bs \<Rightarrow> Inr (KeyOctets bs))"

fun decode_key :: "key_pb \<Rightarrow> ukey option" where
  "decode_key (KeyNumber n) = Some (KInt n)"
| "decode_key (KeyCharacters s) = Some (KStr s)"
| "decode_key (KeyOctets bs) = Some (KBytes bs)"
| "decode_key KeyUnset = None"

definition decode_key_bytes :: "ext \<Rightarrow> bytes \<Rightarrow> ukey option result" where
  "decode_key_bytes E bs = bindr (x_key_parse E bs) (\<lambda>k. Inr (decode_key k))"

definition valid_ukey :: "ukey \<Rightarrow> bool" where
  "valid_ukey k \<longleftrightarrow> (case k of KInt n \<Rightarrow> \<bar>n\<bar> \<le> KEY_MAX | _ \<Rightarrow> True)"

definition key_msg :: "ukey \<Rightarrow> key_pb" where
  "key_msg k = (case k of KStr s \<Rightarrow> KeyCharacters s | KInt n \<Rightarrow> KeyNumber n | KBytes bs \<Rightarrow> KeyOctets bs)"

lemma encode_key_valid: "encode_key k = (if valid_ukey k then Inr (key_msg k) else Inl ValueError)"
  by (cases k) (auto simp: encode_key_def valid_ukey_def key_msg_def)

lemma key_msg_facts [simp]: "decode_key (key_msg k) = Some k" "key_msg k \<noteq> KeyUnset"
  by (cases k; simp add: key_msg_def)+

lemma key_msg_inj: "key_msg k = key_msg k' \<longleftrightarrow> k = k'"
  by (metis key_msg_facts(1) option.inject)

section \<open>Location and removal keys\<close>

definition location_bytes :: "location_key \<Rightarrow> bytes" where
  "location_bytes k = muid_bytes (lk_entry k) @ muid_bytes (lk_placement k)"

definition location_from_bytes :: "bytes \<Rightarrow> location_key result" where
  "location_from_bytes data =
    bindr (muid_from_bytes (take 16 data)) (\<lambda>e.
    bindr (muid_from_bytes (take 16 (drop 16 data))) (\<lambda>p. Inr (LocationKey e p)))"

datatype removal_key = RemovalKey (rk_container: muid) (rk_removing: muid) (rk_movement: muid)

definition removal_bytes :: "removal_key \<Rightarrow> bytes" where
  "removal_bytes k = muid_bytes (rk_container k) @ muid_bytes (rk_removing k) @ muid_bytes (rk_movement k)"

definition removal_from_bytes :: "bytes \<Rightarrow> removal_key result" where
  "removal_from_bytes data =
    bindr (muid_from_bytes (take 16 data)) (\<lambda>c.
    bindr (muid_from_bytes (take 16 (drop 16 data))) (\<lambda>r.
    bindr (muid_from_bytes (drop 32 data)) (\<lambda>m. Inr (RemovalKey c r m))))"

lemma location_roundtrip:
  "valid_muid (lk_entry k) \<Longrightarrow> valid_muid (lk_placement k) \<Longrightarrow>
    location_from_bytes (location_bytes k) = Inr k"
  by (cases k) (simp add: location_from_bytes_def location_bytes_def muid_from_bytes_bytes)

lemma removal_roundtrip:
  "valid_muid (rk_container k) \<Longrightarrow> valid_muid (rk_removing k) \<Longrightarrow> valid_muid (rk_movement k) \<Longrightarrow>
    removal_from_bytes (removal_bytes k) = Inr k"
  by (cases k) (simp add: removal_from_bytes_def removal_bytes_def muid_from_bytes_bytes)

section \<open>Placements\<close>

text \<open>
  The middle of a placement: nothing (box, vertex, accumulator), a user key (directory, key set), a
  queue position (sequence, edge type), an address (property, group, braid) or a pair of addresses.
\<close>

datatype middle =
    MidNone
  | MidKey ukey
  | MidQueue int
  | MidMuid muid
  | MidPair muid muid

datatype placement =
  Placement (pl_container: muid) (pl_middle: middle) (pl_placer: muid) (pl_expiry: "int option")

definition queue_from_bytes :: "bytes \<Rightarrow> int result" where
  "queue_from_bytes data =
    bindr (decode_muts (take 8 data)) (\<lambda>t.
      case t of
        None \<Rightarrow> Inl AssertionError
      | Some n \<Rightarrow> if length data = 8 then Inr n else Inl AssertionError)"

fun middle_bytes :: "ext \<Rightarrow> middle \<Rightarrow> bytes result" where
  "middle_bytes E MidNone = Inr []"
| "middle_bytes E (MidKey k) = bindr (encode_key k) (\<lambda>pb. Inr (x_key_ser E pb))"
| "middle_bytes E (MidQueue t) = encode_muts (Some t)"
| "middle_bytes E (MidMuid u) = Inr (muid_bytes u)"
| "middle_bytes E (MidPair l r) = Inr (muid_bytes l @ muid_bytes r)"

definition placement_bytes :: "ext \<Rightarrow> placement \<Rightarrow> bytes result" where
  "placement_bytes E p =
    bindr (middle_bytes E (pl_middle p)) (\<lambda>mid.
    bindr (encode_muts (pl_expiry p)) (\<lambda>ex.
      Inr (muid_bytes (pl_container p) @ mid @ muid_bytes (pl_placer p) @ ex)))"

text \<open>\<open>Placement.from_builder\<close>: the middle by behavior, then the whole placement.\<close>

definition builder_middle :: "muid \<Rightarrow> entry_pb \<Rightarrow> middle result" where
  "builder_middle entry_muid builder =
    (let behavior = en_behavior builder; position = en_effective builder in
     if behavior = DIRECTORY \<or> behavior = KEY_SET
     then Inr (case decode_key (key_of builder) of None \<Rightarrow> MidNone | Some k \<Rightarrow> MidKey k)
     else if behavior = BOX \<or> behavior = VERTEX \<or> behavior = ACCUMULATOR then Inr MidNone
     else if behavior = SEQUENCE \<or> behavior = EDGE_TYPE
     then Inr (MidQueue (if position \<noteq> 0 then position else mu_timestamp entry_muid))
     else if behavior = PROPERTY \<or> behavior = GROUP \<or> behavior = BRAID
     then bindr (muid_create (CtxMuid entry_muid) (describing_of builder) None) (\<lambda>d. Inr (MidMuid d))
     else if behavior = PAIR_SET \<or> behavior = PAIR_MAP
     then bindr (muid_create (CtxMuid entry_muid) (pair_left builder) None) (\<lambda>l.
          bindr (muid_create (CtxMuid entry_muid) (pair_rite builder) None) (\<lambda>r. Inr (MidPair l r)))
     else Inl ValueError)"

definition placement_from_builder :: "entry_pb \<Rightarrow> int \<Rightarrow> int \<Rightarrow> int \<Rightarrow> placement result" where
  "placement_from_builder builder ts med off =
    bindr (muid_create (CtxInfo ts med) dummy_builder (Some off)) (\<lambda>entry_muid.
    bindr (muid_create (CtxMuid entry_muid) (container_of builder) None) (\<lambda>container.
    bindr (builder_middle entry_muid builder) (\<lambda>middle.
      Inr (Placement container middle entry_muid
        (if en_expiry builder \<noteq> 0 then Some (en_expiry builder) else None)))))"

definition middle_from_bytes :: "ext \<Rightarrow> int \<Rightarrow> bytes \<Rightarrow> middle result" where
  "middle_from_bytes E behavior mid =
    (if behavior = DIRECTORY \<or> behavior = KEY_SET
     then bindr (decode_key_bytes E mid) (\<lambda>k. Inr (case k of None \<Rightarrow> MidNone | Some k \<Rightarrow> MidKey k))
     else if behavior = SEQUENCE \<or> behavior = EDGE_TYPE
     then bindr (queue_from_bytes mid) (\<lambda>t. Inr (MidQueue t))
     else if behavior = PROPERTY \<or> behavior = GROUP \<or> behavior = BRAID
     then bindr (muid_from_bytes mid) (\<lambda>u. Inr (MidMuid u))
     else if behavior = PAIR_SET \<or> behavior = PAIR_MAP
     then bindr (muid_from_bytes (take 16 mid)) (\<lambda>l.
          bindr (muid_from_bytes (drop 16 mid)) (\<lambda>r. Inr (MidPair l r)))
     else if behavior = BOX \<or> behavior = VERTEX \<or> behavior = ACCUMULATOR then Inr MidNone
     else Inl ValueError)"

text \<open>\<open>data[0:16]\<close>, \<open>data[16:-24]\<close>, \<open>data[-24:-8]\<close>, \<open>data[-8:]\<close>.\<close>

definition placement_from_bytes :: "ext \<Rightarrow> bytes \<Rightarrow> int \<Rightarrow> placement result" where
  "placement_from_bytes E data behavior =
    (let n = length data;
         container_bytes = take 16 data;
         middle_key_bytes = drop 16 (take (n - 24) data);
         entry_muid_bytes = drop (n - 24) (take (n - 8) data);
         expiry_bytes = drop (n - 8) data
     in bindr (muid_from_bytes entry_muid_bytes) (\<lambda>entry_muid.
        bindr (middle_from_bytes E behavior middle_key_bytes) (\<lambda>middle.
        bindr (muid_from_bytes container_bytes) (\<lambda>container.
        bindr (decode_muts expiry_bytes) (\<lambda>expiry.
          Inr (Placement container middle entry_muid expiry))))))"

text \<open>The last 24 bytes: what \<open>placement_bytes[:-24]\<close> cuts off.\<close>

definition cut_tail :: "bytes \<Rightarrow> bytes" where
  "cut_tail data = take (length data - 24) data"


section \<open>Well-formed placements\<close>

text \<open>
  A middle of valid parts, the behaviors that use its kind, and the total encoding of a well-formed
  placement, on which the (fallible) code of \<open>__bytes__\<close> never raises.
\<close>

fun middle_ok :: "middle \<Rightarrow> bool" where
  "middle_ok MidNone = True"
| "middle_ok (MidKey k) = valid_ukey k"
| "middle_ok (MidQueue t) = valid_muts t"
| "middle_ok (MidMuid u) = valid_muid u"
| "middle_ok (MidPair l r) = (valid_muid l \<and> valid_muid r)"

fun middle_kind :: "middle \<Rightarrow> nat" where
  "middle_kind MidNone = 0"
| "middle_kind (MidKey k) = 1"
| "middle_kind (MidQueue t) = 2"
| "middle_kind (MidMuid u) = 3"
| "middle_kind (MidPair l r) = 4"

definition behavior_kind :: "int \<Rightarrow> nat option" where
  "behavior_kind b =
    (if b = DIRECTORY \<or> b = KEY_SET then Some 1
     else if b = BOX \<or> b = VERTEX \<or> b = ACCUMULATOR then Some 0
     else if b = SEQUENCE \<or> b = EDGE_TYPE then Some 2
     else if b = PROPERTY \<or> b = GROUP \<or> b = BRAID then Some 3
     else if b = PAIR_SET \<or> b = PAIR_MAP then Some 4
     else None)"

fun middle_enc :: "ext \<Rightarrow> middle \<Rightarrow> bytes" where
  "middle_enc E MidNone = []"
| "middle_enc E (MidKey k) = x_key_ser E (key_msg k)"
| "middle_enc E (MidQueue t) = muts_bytes (Some t)"
| "middle_enc E (MidMuid u) = muid_bytes u"
| "middle_enc E (MidPair l r) = muid_bytes l @ muid_bytes r"

definition placement_ok :: "placement \<Rightarrow> bool" where
  "placement_ok p \<longleftrightarrow> valid_muid (pl_container p) \<and> valid_muid (pl_placer p)
     \<and> middle_ok (pl_middle p) \<and> valid_time (pl_expiry p)"

definition place_key :: "ext \<Rightarrow> placement \<Rightarrow> bytes" where
  "place_key E p = muid_bytes (pl_container p) @ middle_enc E (pl_middle p)
     @ muid_bytes (pl_placer p) @ muts_bytes (pl_expiry p)"

lemma middle_bytes_ok: "middle_ok m \<Longrightarrow> middle_bytes E m = Inr (middle_enc E m)"
  by (cases m) (auto simp: encode_key_valid encode_muts_valid valid_time_def)

lemma placement_bytes_ok: "placement_ok p \<Longrightarrow> placement_bytes E p = Inr (place_key E p)"
  by (simp add: placement_bytes_def placement_ok_def place_key_def middle_bytes_ok encode_muts_valid)

lemma middle_bytes_Inr: "middle_bytes E m = Inr bs \<Longrightarrow> bs = middle_enc E m"
  by (cases m) (auto simp: encode_key_valid result_simps dest: encode_muts_Inr split: if_splits)

lemma placement_bytes_Inr: "placement_bytes E p = Inr bs \<Longrightarrow> bs = place_key E p"
  by (auto simp: placement_bytes_def place_key_def result_simps dest!: middle_bytes_Inr encode_muts_Inr)

lemma middle_from_bytes_enc:
  assumes "key_codec_ok E" "middle_ok m" "behavior_kind b = Some (middle_kind m)"
  shows "middle_from_bytes E b (middle_enc E m) = Inr m"
  using assms
proof (cases m)
  case (MidQueue t)
  then have "valid_time (Some t)" using assms by (simp add: valid_time_def)
  from decode_muts_bytes [OF this] MidQueue assms(3) show ?thesis
    by (auto simp: middle_from_bytes_def queue_from_bytes_def behavior_kind_def behavior_defs
        split: if_splits)
next
  case (MidKey k)
  with assms show ?thesis
    by (auto simp: middle_from_bytes_def decode_key_bytes_def key_codec_ok_def behavior_kind_def
        behavior_defs split: if_splits)
qed (auto simp: middle_from_bytes_def behavior_kind_def behavior_defs muid_from_bytes_bytes
    split: if_splits)

lemma placement_from_bytes_key:
  assumes "key_codec_ok E" "placement_ok p" "behavior_kind b = Some (middle_kind (pl_middle p))"
  shows "placement_from_bytes E (place_key E p) b = Inr p"
proof -
  let ?m = "middle_enc E (pl_middle p)"
  have n: "length (place_key E p) = 40 + length ?m" by (simp add: place_key_def)
  have "take 16 (place_key E p) = muid_bytes (pl_container p)" by (simp add: place_key_def)
  moreover have "drop 16 (take (length (place_key E p) - 24) (place_key E p)) = ?m"
    using n by (simp add: place_key_def)
  moreover have "drop (length (place_key E p) - 24)
      (take (length (place_key E p) - 8) (place_key E p)) = muid_bytes (pl_placer p)"
    using n by (simp add: place_key_def)
  moreover have "drop (length (place_key E p) - 8) (place_key E p) = muts_bytes (pl_expiry p)"
    using n by (simp add: place_key_def)
  ultimately show ?thesis
    using assms middle_from_bytes_enc [OF assms(1) _ assms(3)]
    by (cases p) (simp add: placement_from_bytes_def Let_def placement_ok_def muid_from_bytes_bytes
        decode_muts_bytes)
qed

lemma prefix_same_length: "prefix u v \<Longrightarrow> length u = length v \<Longrightarrow> u = v"
  by (auto simp: prefix_def)

lemma middle_prefix_free:
  assumes "key_codec_ok E" "middle_ok m" "middle_ok m'" "middle_kind m = middle_kind m'"
    and "prefix (middle_enc E m) (middle_enc E m')"
  shows "m = m'"
  using assms
proof (cases m; cases m')
  fix k k' assume mk: "m = MidKey k" "m' = MidKey k'"
  then have "\<not> key_msg k \<noteq> key_msg k'"
    using assms unfolding key_codec_ok_def by (metis key_msg_facts(2) middle_enc.simps(2))
  then show ?thesis using mk by (simp add: key_msg_inj)
next
  fix t t' assume mt: "m = MidQueue t" "m' = MidQueue t'"
  then have "muts_bytes (Some t) = muts_bytes (Some t')"
    using assms(5) by (simp add: prefix_same_length)
  then show ?thesis using mt assms muts_codec.enc_inj [of "Some t" "Some t'"]
    by (simp add: valid_time_def)
next
  fix u u' assume mu: "m = MidMuid u" "m' = MidMuid u'"
  then have "muid_bytes u = muid_bytes u'" using assms(5) by (simp add: prefix_same_length)
  then show ?thesis using mu assms muid_codec.enc_inj by simp
next
  fix l r l' r' assume mp: "m = MidPair l r" "m' = MidPair l' r'"
  then have "muid_bytes l @ muid_bytes r = muid_bytes l' @ muid_bytes r'"
    using assms(5) by (simp add: prefix_same_length)
  then show ?thesis using mp assms by (simp add: append_eq_append_conv muid_codec.enc_inj)
qed auto

lemma muts_unsigned_zero: "valid_time n \<Longrightarrow> muts_unsigned n \<le> 0 \<longleftrightarrow> n = None"
proof -
  assume v: "valid_time n"
  have "t mod 2 ^ 64 \<noteq> 0" if "valid_muts t" for t
  proof -
    have "t mod 2 ^ 64 = (if 0 \<le> t then t else t + 2 ^ 64)"
      if "- (2 ^ 63) \<le> t" "t < 2 ^ 64"
      using that mod_pos_pos_trivial [of "t + 2 ^ 64" "2 ^ 64"] by auto
    moreover from that have "- (2 ^ 63) \<le> t" "t < 2 ^ 64" "t \<noteq> 0"
      by (auto simp: valid_muts_def INT_INF_def)
    ultimately show ?thesis by (auto split: if_splits)
  qed
  moreover have "0 \<le> t mod 2 ^ 64" for t :: int by simp
  ultimately show ?thesis using v
    by (auto simp: muts_unsigned_def valid_time_def order_le_less split: option.splits)
qed

text \<open>
  The interval of the byte order that belongs to one container and middle, from one placer to
  another: it holds exactly the placements of that container and middle, by placer. The other
  placements of the same container only have to use the same kind of middle.
\<close>

lemma placement_between:
  assumes k: "key_codec_ok E" and p: "placement_ok p"
    and c: "valid_muid c" and m: "middle_ok m" and lo: "valid_muid lo" and hi: "valid_muid hi"
    and kind: "pl_container p = c \<Longrightarrow> middle_kind (pl_middle p) = middle_kind m"
  shows "place_key E (Placement c m lo None) \<le> place_key E p
      \<and> place_key E p \<le> place_key E (Placement c m hi None) \<longleftrightarrow>
    pl_container p = c \<and> pl_middle p = m \<and> (muid_lt lo (pl_placer p) \<or> lo = pl_placer p)
      \<and> (muid_lt (pl_placer p) hi \<or> pl_placer p = hi \<and> pl_expiry p = None)" (is "?L \<longleftrightarrow> ?R")
proof -
  obtain c' m' a x where pp: "p = Placement c' m' a x" by (cases p)
  have v: "valid_muid c'" "middle_ok m'" "valid_muid a" "valid_time x"
    using p pp by (auto simp: placement_ok_def)
  have n0: "valid_time None" by (simp add: valid_time_def)
  have nx: "muts_bytes None \<le> muts_bytes x" "muts_bytes x \<le> muts_bytes None \<longleftrightarrow> x = None"
    using v(4) muts_unsigned_zero [OF v(4)] muts_codec.enc_le [OF n0 v(4)] muts_codec.enc_le [OF v(4) n0]
    by (auto simp: muts_unsigned_def split: option.splits)
  have eq: "?L \<longleftrightarrow> ?R" if "c' = c" "m' = m"
    using that lo hi v nx pp
    by (auto simp: place_key_def muid_codec.enc_append_le)
  show ?thesis
  proof (cases "c' = c")
    case False
    then have "\<not> ?L"
      using c v pp muid_codec.lt_trans [of c c' c] muid_codec.lt_irrefl [of c]
      by (auto simp: place_key_def muid_codec.enc_append_le)
    then show ?thesis using False pp by simp
  next
    case True
    have "m' = m" if ?L
    proof -
      have "middle_kind m' = middle_kind m" using kind True pp by simp
      moreover have "prefix (middle_enc E m) (middle_enc E m') \<or> prefix (middle_enc E m') (middle_enc E m)"
        using that True pp by (intro prefix_free_between) (auto simp: place_key_def)
      ultimately show ?thesis using middle_prefix_free k v(2) m by metis
    qed
    then show ?thesis using eq True pp by (cases "m' = m") auto
  qed
qed

lemma place_key_inj:
  assumes k: "key_codec_ok E" and p: "placement_ok p" and q: "placement_ok q"
    and kind: "pl_container p = pl_container q \<Longrightarrow> middle_kind (pl_middle p) = middle_kind (pl_middle q)"
    and eq: "place_key E p = place_key E q"
  shows "p = q"
proof -
  have c: "pl_container p = pl_container q"
    using eq p q by (simp add: place_key_def placement_ok_def muid_codec.enc_inj)
  have len: "length (middle_enc E (pl_middle p)) = length (middle_enc E (pl_middle q))"
    using arg_cong [OF eq, of length] by (simp add: place_key_def)
  with eq c have "middle_enc E (pl_middle p) = middle_enc E (pl_middle q)"
    and rest: "muid_bytes (pl_placer p) @ muts_bytes (pl_expiry p)
      = muid_bytes (pl_placer q) @ muts_bytes (pl_expiry q)"
    by (auto simp: place_key_def append_eq_append_conv)
  then have "pl_middle p = pl_middle q"
    using middle_prefix_free [OF k] p q kind [OF c] by (simp add: placement_ok_def)
  with c rest p q show ?thesis
    by (cases p; cases q)
      (simp add: placement_ok_def muid_codec.enc_inj muts_codec.enc_inj)
qed


lemma builder_middle_kind:
  assumes "builder_middle u e = Inr m"
    and "en_behavior e = DIRECTORY \<or> en_behavior e = KEY_SET \<Longrightarrow> key_of e \<noteq> KeyUnset"
  shows "behavior_kind (en_behavior e) = Some (middle_kind m)"
proof -
  consider "en_behavior e = DIRECTORY \<or> en_behavior e = KEY_SET"
    | "en_behavior e = BOX \<or> en_behavior e = VERTEX \<or> en_behavior e = ACCUMULATOR"
    | "en_behavior e = SEQUENCE \<or> en_behavior e = EDGE_TYPE"
    | "en_behavior e = PROPERTY \<or> en_behavior e = GROUP \<or> en_behavior e = BRAID"
    | "en_behavior e = PAIR_SET \<or> en_behavior e = PAIR_MAP"
    using assms(1) by (auto simp: builder_middle_def Let_def split: if_splits)
  then show ?thesis
  proof cases
    case 1
    with assms(2) obtain k where "decode_key (key_of e) = Some k" by (cases "key_of e") auto
    with 1 assms(1) show ?thesis by (auto simp: builder_middle_def behavior_kind_def)
  next
    case 2
    with assms(1) show ?thesis
      by (auto simp: builder_middle_def Let_def behavior_kind_def behavior_defs)
  next
    case 3
    with assms(1) show ?thesis
      by (auto simp: builder_middle_def Let_def behavior_kind_def behavior_defs)
  next
    case 4
    with assms(1) show ?thesis
      by (auto simp: builder_middle_def behavior_kind_def behavior_defs result_simps)
  next
    case 5
    with assms(1) show ?thesis
      by (auto simp: builder_middle_def behavior_kind_def behavior_defs result_simps)
  qed
qed

text \<open>C34: The byte form of a placement is read back as the same placement, given the behavior of
  its container, and no other placement of a container of that kind has these bytes.\<close>

lemma placement_codec:
  assumes "key_codec_ok E" "placement_ok p" "behavior_kind b = Some (middle_kind (pl_middle p))"
  shows "\<exists>bs. placement_bytes E p = Inr bs \<and> placement_from_bytes E bs b = Inr p \<and>
    (\<forall>q. placement_ok q \<and> middle_kind (pl_middle q) = middle_kind (pl_middle p) \<and> q \<noteq> p \<longrightarrow>
      placement_bytes E q \<noteq> Inr bs)"
proof -
  have "q = p" if "placement_ok q" "middle_kind (pl_middle q) = middle_kind (pl_middle p)"
    "place_key E q = place_key E p" for q
    using place_key_inj [OF assms(1) that(1) assms(2)] that by blast
  then show ?thesis using assms by (auto simp: placement_bytes_ok placement_from_bytes_key)
qed

lemma placement_codec_witness:
  "\<exists>bs. placement_bytes ref_ext (Placement (Muid (-1) (-1) 4) (MidKey (KStr ''a'')) (Muid 1000 77 1) None) = Inr bs \<and>
    placement_from_bytes ref_ext bs DIRECTORY =
      Inr (Placement (Muid (-1) (-1) 4) (MidKey (KStr ''a'')) (Muid 1000 77 1) None)"
proof -
  have "middle_ok (MidKey (KStr ''a''))" by code_simp
  then show ?thesis
    using placement_codec [OF ref_ext_keys, of "Placement (Muid (-1) (-1) 4) (MidKey (KStr ''a'')) (Muid 1000 77 1) None" DIRECTORY]
    by (auto simp: placement_ok_def valid_muid_def muid_consts valid_time_def behavior_kind_def)
qed

text \<open>C35: A scan of a table of placements between the byte forms of two placements of one container and one key,
  as the stores build them for their lookups, yields exactly the placements of this container and key whose placer
  lies between the two: no placement of another key or container falls into the scan, and none is missed.\<close>

lemma placement_scan:
  assumes "scans_ok E" "key_codec_ok E" "placement_ok p" "valid_muid c" "middle_ok m" "valid_muid lo" "valid_muid hi"
    and "pl_container p = c \<Longrightarrow> middle_kind (pl_middle p) = middle_kind m"
    and "placement_bytes E p = Inr b" "b \<in> set table" "distinct table"
  shows "\<exists>l h. placement_bytes E (Placement c m lo None) = Inr l \<and> placement_bytes E (Placement c m hi None) = Inr h \<and>
    (b \<in> set (x_scan_bytes E table (Some l) (Some h) reversed) \<longleftrightarrow>
      pl_container p = c \<and> pl_middle p = m \<and> (muid_lt lo (pl_placer p) \<or> lo = pl_placer p)
        \<and> (muid_lt (pl_placer p) hi \<or> pl_placer p = hi \<and> pl_expiry p = None))"
proof -
  have ok: "scan_ok id (x_scan_bytes E)" using assms(1) by (simp add: scans_ok_def)
  have "placement_ok (Placement c m lo None)" "placement_ok (Placement c m hi None)"
    using assms by (simp_all add: placement_ok_def valid_time_def)
  then show ?thesis
    using placement_between [OF assms(2-8)] scan_set [OF ok assms(11)] assms(9,10) placement_bytes_ok [OF assms(3)]
    by (simp add: placement_bytes_ok in_bounds_def)
qed

lemma placement_scan_witness:
  "\<exists>b l h. placement_bytes ref_ext (Placement (Muid (-1) (-1) 5) MidNone (Muid 1000 77 1) None) = Inr b \<and>
    placement_bytes ref_ext (Placement (Muid (-1) (-1) 5) MidNone (Muid 0 0 0) None) = Inr l \<and>
    placement_bytes ref_ext (Placement (Muid (-1) (-1) 5) MidNone (Muid 2000 0 0) None) = Inr h \<and>
    b \<in> set (x_scan_bytes ref_ext [b] (Some l) (Some h) True)"
proof -
  let ?p = "Placement (Muid (-1) (-1) 5) MidNone (Muid 1000 77 1) None"
  have ok: "placement_ok ?p" by (simp add: placement_ok_def valid_muid_def muid_consts valid_time_def)
  then obtain b where b: "placement_bytes ref_ext ?p = Inr b" by (simp add: placement_bytes_ok)
  show ?thesis
    using placement_scan [OF ref_ext_scans ref_ext_keys ok, of "Muid (-1) (-1) 5" MidNone "Muid 0 0 0" "Muid 2000 0 0" b "[b]" True] b
    by (simp add: valid_muid_def muid_consts muid_lt_def)
qed

text \<open>A microsecond time, infinity and the absent time included, is read back from its eight
  bytes.\<close>

lemma muts_roundtrip:
  assumes "valid_time n"
  shows "\<exists>bs. encode_muts n = Inr bs \<and> length bs = 8 \<and> decode_muts bs = Inr n"
  using assms by (simp add: encode_muts_valid decode_muts_bytes)

lemma muts_roundtrip_witness:
  "\<exists>bs. encode_muts (Some 1700000000000000) = Inr bs \<and> decode_muts bs = Inr (Some 1700000000000000)"
  using muts_roundtrip [of "Some 1700000000000000"] by (auto simp: valid_time_def valid_muts_def)

end
