(* ===== verification/Entry_Values.thy ===== *)
theory Entry_Values
  imports Codings
begin

text \<open>
  \<open>python/gink/impl/coding.py\<close>, the part that deals with what an entry contains: user values and
  their protobuf form, the reading of an entry's contents, deleting entries, and the conversion of
  relative references to absolute ones.
\<close>

section \<open>User values\<close>

text \<open>
  What a container can hold. Containers themselves are refused before \<open>encode_value\<close> runs (its
  argument is type-checked), so they are no case here; a named tuple passes that check.
\<close>

datatype uvalue =
    UNone
  | UBool bool
  | UInt int
  | UFloat double
  | UStr string
  | UBytes bytes
  | UDatetime datetime
  | UTuple "uvalue list"
  | UNamedTuple "uvalue list"
  | UList "uvalue list"
  | UDict "(ukey \<times> uvalue) list"

function encode_value :: "ext \<Rightarrow> uvalue \<Rightarrow> value_pb result" where
  "encode_value E (UNamedTuple vs) = Inl TypeError"
| "encode_value E (UDatetime d) =
    (case d of Zoned _ _ \<Rightarrow> Inl ValueError | Naive _ \<Rightarrow> Inr (ValTimestamp (x_dt_to_micros E d)))"
| "encode_value E (UBytes bs) = Inr (ValOctets bs)"
| "encode_value E (UStr s) = Inr (ValCharacters s)"
| "encode_value E (UBool b) = Inr (ValSpecial (if b then SPECIAL_TRUE else SPECIAL_FALSE))"
| "encode_value E (UFloat d) = Inr (ValFloating d)"
| "encode_value E (UInt n) = bindr (py_str_int n) (\<lambda>s. Inr (ValInteger s))"
| "encode_value E UNone = Inr (ValSpecial SPECIAL_NULL)"
| "encode_value E (UTuple vs) = bindr (mapr (encode_value E) vs) (\<lambda>ps. Inr (ValTuple ps))"
| "encode_value E (UList vs) = bindr (mapr (encode_value E) vs) (\<lambda>ps. Inr (ValTuple ps))"
| "encode_value E (UDict items) =
    bindr (mapr (\<lambda>kv. bindr (encode_key (fst kv)) (\<lambda>k. bindr (encode_value E (snd kv)) (\<lambda>v. Inr (k, v)))) items)
      (\<lambda>ps. Inr (ValDocument (map fst ps) (map snd ps)))"
  by pat_completeness auto
termination
proof (relation "measure (size \<circ> snd)", goal_cases)
  case (4 E items kv)
  obtain k v where kv: "kv = (k, v)" by (cases kv)
  have "size v < Suc (size_list (size_prod (\<lambda>_. 0) size) items)"
    using 4 kv size_list_estimation' [of "(k, v)" items "size v" "size_prod (\<lambda>_. 0) size"] by simp
  then show ?case using kv by simp
qed (auto simp: less_Suc_eq_le intro: size_list_estimation')

function decode_value :: "ext \<Rightarrow> value_pb \<Rightarrow> uvalue result"
  and decode_items :: "ext \<Rightarrow> key_pb list \<Rightarrow> value_pb list \<Rightarrow> (ukey \<times> uvalue) list
    \<Rightarrow> (ukey \<times> uvalue) list result" where
  "decode_value E (ValSpecial s) =
    (if s = SPECIAL_NULL then Inr UNone
     else if s = SPECIAL_TRUE then Inr (UBool True)
     else if s = SPECIAL_FALSE then Inr (UBool False)
     else Inl ValueError)"
| "decode_value E (ValCharacters s) = Inr (UStr s)"
| "decode_value E (ValOctets bs) = Inr (UBytes bs)"
| "decode_value E (ValFloating d) = Inr (UFloat d)"
| "decode_value E (ValInteger s) = bindr (py_int 10 s) (\<lambda>n. Inr (UInt n))"
| "decode_value E (ValTimestamp t) = Inr (UDatetime (x_dt_from_micros E t))"
| "decode_value E (ValTuple vs) = bindr (mapr (decode_value E) vs) (\<lambda>xs. Inr (UTuple xs))"
| "decode_value E (ValDocument ks vs) = bindr (decode_items E ks vs []) (\<lambda>d. Inr (UDict d))"
| "decode_value E ValUnset = Inl ValueError"
| "decode_items E [] vs d = Inr d"
| "decode_items E (k # ks) [] d = Inl IndexError"
| "decode_items E (k # ks) (v # vs) d =
    (case decode_key k of
      None \<Rightarrow> Inl AssertionError
    | Some u \<Rightarrow> bindr (decode_value E v) (\<lambda>x. decode_items E ks vs (dput u x d)))"
  by pat_completeness auto
termination
  by (relation "measure (\<lambda>x. case x of Inl (E, v) \<Rightarrow> size v | Inr (E, ks, vs, d) \<Rightarrow> size_list size vs)")
    (auto simp: less_Suc_eq_le intro: size_list_estimation')

text \<open>The values the encoding accepts, and what such a value reads back as.\<close>

fun encodable :: "uvalue \<Rightarrow> bool" where
  "encodable (UNamedTuple vs) = False"
| "encodable (UDatetime d) = (case d of Zoned _ _ \<Rightarrow> False | Naive _ \<Rightarrow> True)"
| "encodable (UTuple vs) = (\<forall>v \<in> set vs. encodable v)"
| "encodable (UList vs) = (\<forall>v \<in> set vs. encodable v)"
| "encodable (UDict items) = (\<forall>(k, v) \<in> set items. valid_ukey k \<and> encodable v)"
| "encodable (UInt n) = fits_text n"
| "encodable _ = True"

fun dicts_ok :: "uvalue \<Rightarrow> bool" where
  "dicts_ok (UTuple vs) = (\<forall>v \<in> set vs. dicts_ok v)"
| "dicts_ok (UList vs) = (\<forall>v \<in> set vs. dicts_ok v)"
| "dicts_ok (UNamedTuple vs) = (\<forall>v \<in> set vs. dicts_ok v)"
| "dicts_ok (UDict items) = (distinct (map fst items) \<and> (\<forall>(k, v) \<in> set items. dicts_ok v))"
| "dicts_ok _ = True"

fun read_back :: "ext \<Rightarrow> uvalue \<Rightarrow> uvalue" where
  "read_back E (UTuple vs) = UTuple (map (read_back E) vs)"
| "read_back E (UList vs) = UTuple (map (read_back E) vs)"
| "read_back E (UDict items) = UDict (map (\<lambda>(k, v). (k, read_back E v)) items)"
| "read_back E (UDatetime d) = UDatetime (x_dt_from_micros E (x_dt_to_micros E d))"
| "read_back E v = v"


lemma decode_items_append:
  assumes "length ks = length vs"
    and "\<And>i. i < length ks \<Longrightarrow> decode_key (ks ! i) = Some (us ! i) \<and> decode_value E (vs ! i) = Inr (xs ! i)"
    and "length us = length ks" "length xs = length ks"
    and "distinct us" "set us \<inter> set (dkeys d) = {}"
  shows "decode_items E ks vs d = Inr (d @ zip us xs)"
  using assms
proof (induction ks vs arbitrary: us xs d rule: list_induct2)
  case Nil
  then show ?case by simp
next
  case (Cons k ks v vs)
  obtain u us' where us: "us = u # us'" using Cons.prems by (cases us) auto
  obtain x xs' where xs: "xs = x # xs'" using Cons.prems by (cases xs) auto
  have hd: "decode_key k = Some u" "decode_value E v = Inr x" using Cons.prems(1) [of 0] us xs by auto
  have new: "dput u x d = d @ [(u, x)]"
  proof -
    have "u \<notin> set (dkeys d)" using Cons.prems us by auto
    then have "AList.update u x d = d @ [(u, x)]" by (induction d) auto
    then show ?thesis by (simp add: dput_def)
  qed
  have "decode_items E ks vs (d @ [(u, x)]) = Inr ((d @ [(u, x)]) @ zip us' xs')"
  proof (rule Cons.IH)
    fix i assume "i < length ks"
    then show "decode_key (ks ! i) = Some (us' ! i) \<and> decode_value E (vs ! i) = Inr (xs' ! i)"
      using Cons.prems(1) [of "Suc i"] us xs by simp
  qed (use Cons.prems us xs in auto)
  with hd new us xs show ?case by simp
qed

lemma mapr_encode:
  assumes "\<And>v. v \<in> set vs \<Longrightarrow> \<exists>pb. f v = Inr pb \<and> g pb = Inr (h v)"
  shows "\<exists>pbs. mapr f vs = Inr pbs \<and> mapr g pbs = Inr (map h vs)"
  using assms
proof (induction vs)
  case Nil
  then show ?case by simp
next
  case (Cons v vs)
  then obtain pb pbs where "f v = Inr pb" "g pb = Inr (h v)" "mapr f vs = Inr pbs"
    "mapr g pbs = Inr (map h vs)" by (metis list.set_intros)
  then show ?case by simp
qed

lemma mapr_items:
  assumes "\<And>k v. (k, v) \<in> set items \<Longrightarrow> valid_ukey k \<and> (\<exists>pb. encode_value E v = Inr pb \<and> decode_value E pb = Inr (h v))"
  shows "\<exists>ps. mapr (\<lambda>kv. bindr (encode_key (fst kv)) (\<lambda>k. bindr (encode_value E (snd kv)) (\<lambda>v. Inr (k, v)))) items = Inr ps
    \<and> length ps = length items
    \<and> (\<forall>i < length ps. decode_key (fst (ps ! i)) = Some (fst (items ! i))
        \<and> decode_value E (snd (ps ! i)) = Inr (h (snd (items ! i))))"
  using assms
proof (induction items)
  case Nil
  then show ?case by simp
next
  case (Cons kv items)
  obtain k v where kv: "kv = (k, v)" by (cases kv)
  obtain pb where pb: "valid_ukey k" "encode_value E v = Inr pb" "decode_value E pb = Inr (h v)"
    using Cons.prems kv by force
  obtain ps where ps: "mapr (\<lambda>kv. bindr (encode_key (fst kv)) (\<lambda>k. bindr (encode_value E (snd kv)) (\<lambda>v. Inr (k, v)))) items = Inr ps"
    "length ps = length items"
    "\<forall>i < length ps. decode_key (fst (ps ! i)) = Some (fst (items ! i))
      \<and> decode_value E (snd (ps ! i)) = Inr (h (snd (items ! i)))"
    using Cons by force
  show ?case
    using pb ps kv
    by (intro exI [of _ "(key_msg k, pb) # ps"])
      (auto simp: encode_key_valid nth_Cons split: nat.splits)
qed

lemma value_reads_back:
  "encodable v \<Longrightarrow> dicts_ok v \<Longrightarrow> \<exists>pb. encode_value E v = Inr pb \<and> decode_value E pb = Inr (read_back E v)"
proof (induction E v rule: encode_value.induct)
  case (2 E d)
  then show ?case by (cases d) auto
next
  case (9 E vs)
  then have "\<exists>pbs. mapr (encode_value E) vs = Inr pbs \<and> mapr (decode_value E) pbs = Inr (map (read_back E) vs)"
    by (intro mapr_encode) auto
  then show ?case by auto
next
  case (10 E vs)
  then have "\<exists>pbs. mapr (encode_value E) vs = Inr pbs \<and> mapr (decode_value E) pbs = Inr (map (read_back E) vs)"
    by (intro mapr_encode) auto
  then show ?case by auto
next
  case (11 E items)
  have "valid_ukey k \<and> (\<exists>pb. encode_value E v = Inr pb \<and> decode_value E pb = Inr (read_back E v))"
    if "(k, v) \<in> set items" for k v
    using "11.IH" [OF that] "11.prems" that by fastforce
  from mapr_items [of items E "read_back E", OF this] obtain ps where ps:
    "mapr (\<lambda>kv. bindr (encode_key (fst kv)) (\<lambda>k. bindr (encode_value E (snd kv)) (\<lambda>v. Inr (k, v)))) items = Inr ps"
    "length ps = length items"
    "\<forall>i < length ps. decode_key (fst (ps ! i)) = Some (fst (items ! i))
      \<and> decode_value E (snd (ps ! i)) = Inr (read_back E (snd (items ! i)))"
    by blast
  have "decode_items E (map fst ps) (map snd ps) [] =
      Inr ([] @ zip (map fst items) (map (\<lambda>kv. read_back E (snd kv)) items))"
    using ps "11.prems" by (intro decode_items_append) auto
  also have "zip (map fst items) (map (\<lambda>kv. read_back E (snd kv)) items)
      = map (\<lambda>(k, v). (k, read_back E v)) items"
    by (induction items) auto
  finally show ?case using ps by simp
qed (auto simp: SPECIAL_NULL_def SPECIAL_TRUE_def SPECIAL_FALSE_def py_int_py_str_int py_str_int_def)

text \<open>C36: A value that can be stored is encoded, and decoding gives it back, with lists read as
  tuples and times through the resolution of a microsecond count. Integers are those of at most 4300 digits, beyond
  which Python's conversion to text raises.\<close>

lemma value_roundtrip:
  assumes "encodable v" "dicts_ok v"
  shows "\<exists>pb. encode_value E v = Inr pb \<and> decode_value E pb = Inr (read_back E v)"
  using assms by (rule value_reads_back)

lemma value_roundtrip_witness:
  "\<exists>pb. encode_value ref_ext (UDict [(KInt 1, UTuple [UStr ''x'', UNone, UInt 7])]) = Inr pb \<and>
    decode_value ref_ext pb = Inr (UDict [(KInt 1, UTuple [UStr ''x'', UNone, UInt 7])])"
proof -
  have "valid_ukey (KInt 1)" "fits_text 7" by code_simp+
  then show ?thesis
    using value_roundtrip [of "UDict [(KInt 1, UTuple [UStr ''x'', UNone, UInt 7])]" ref_ext]
    by (simp del: encode_value.simps)
qed

text \<open>What is not encodable is refused with an exception, never stored in part.\<close>

lemma mapr_Inl_ex: "(\<exists>x \<in> set xs. \<exists>e. f x = Inl e) \<Longrightarrow> \<exists>e. mapr f xs = Inl e"
proof (induction xs)
  case Nil
  then show ?case by simp
next
  case (Cons x xs)
  then show ?case by (cases "f x"; cases "mapr f xs") auto
qed

text \<open>A value with a part that cannot be represented (a named tuple, an aware datetime, a
  dictionary key out of range), at any depth, is refused as a whole.\<close>

lemma value_refused: "\<not> encodable v \<Longrightarrow> \<exists>e. encode_value E v = Inl e"
proof (induction E v rule: encode_value.induct)
  case (2 E d)
  then show ?case by (cases d) auto
next
  case (9 E vs)
  then have "\<exists>e. mapr (encode_value E) vs = Inl e" by (intro mapr_Inl_ex) force
  then show ?case by auto
next
  case (10 E vs)
  then have "\<exists>e. mapr (encode_value E) vs = Inl e" by (intro mapr_Inl_ex) force
  then show ?case by auto
next
  case (11 E items)
  from "11.prems" obtain k v where kv: "(k, v) \<in> set items" "\<not> (valid_ukey k \<and> encodable v)"
    by auto
  have "\<exists>e. bindr (encode_key k) (\<lambda>k'. bindr (encode_value E v) (\<lambda>v'. Inr (k', v'))) = Inl e"
  proof (cases "valid_ukey k")
    case True
    with kv "11.IH" [OF kv(1)] show ?thesis by (auto simp: encode_key_valid)
  qed (simp add: encode_key_valid)
  with kv(1) have "\<exists>x \<in> set items. \<exists>e. bindr (encode_key (fst x)) (\<lambda>k'. bindr (encode_value E (snd x)) (\<lambda>v'. Inr (k', v'))) = Inl e"
    by force
  from mapr_Inl_ex [OF this] show ?case by auto
qed (auto simp: py_str_int_def)

lemma value_refused_witness:
  "\<exists>e. encode_value ref_ext (UList [UInt 1, UNamedTuple [UInt 2]]) = Inl e"
  using value_refused [of "UList [UInt 1, UNamedTuple [UInt 2]]" ref_ext] by simp

section \<open>What an entry contains\<close>

definition new_entries_replace :: "int \<Rightarrow> bool" where
  "new_entries_replace behavior \<longleftrightarrow>
    behavior \<in> {BOX, PAIR_MAP, DIRECTORY, KEY_SET, GROUP, PAIR_SET, PROPERTY, TABLE, BRAID}"

datatype occupant =
    OccDeletion
  | OccInclusion
  | OccMuid muid
  | OccPair muid muid
  | OccValue uvalue

definition decode_entry_occupant :: "ext \<Rightarrow> muid \<Rightarrow> entry_pb \<Rightarrow> occupant result" where
  "decode_entry_occupant E entry_muid builder =
    (if deletion_of builder then Inr OccDeletion
     else case en_contains builder of
       ConPointee p \<Rightarrow> bindr (muid_create (CtxMuid entry_muid) p None) (\<lambda>u. Inr (OccMuid u))
     | ConValue v \<Rightarrow> bindr (decode_value E v) (\<lambda>x. Inr (OccValue x))
     | _ \<Rightarrow>
       (case en_subject builder of
         SubPair l r \<Rightarrow>
           bindr (muid_create (CtxMuid entry_muid) l None) (\<lambda>a.
           bindr (muid_create (CtxMuid entry_muid) r None) (\<lambda>b. Inr (OccPair a b)))
       | _ \<Rightarrow> if en_behavior builder = GROUP \<or> en_behavior builder = KEY_SET then Inr OccInclusion
              else Inl ValueError))"

text \<open>The entry that deletes a key (\<open>create_deleting_entry\<close>); the key is a middle.\<close>

definition create_deleting_entry :: "muid \<Rightarrow> middle \<Rightarrow> int \<Rightarrow> entry_pb result" where
  "create_deleting_entry u key behavior =
    (let base = empty_entry\<lparr>en_behavior := behavior, en_container := Some (put_into u),
                            en_contains := ConDeletion True\<rparr>
     in if behavior = DIRECTORY \<or> behavior = KEY_SET
        then (case key of MidKey k \<Rightarrow> bindr (encode_key k) (\<lambda>pb. Inr (base\<lparr>en_subject := SubKey pb\<rparr>))
              | _ \<Rightarrow> Inl AssertionError)
        else if behavior = BOX
        then (case key of MidNone \<Rightarrow> Inr base | _ \<Rightarrow> Inl AssertionError)
        else if behavior = PROPERTY \<or> behavior = GROUP
        then (case key of MidMuid d \<Rightarrow> Inr (base\<lparr>en_subject := SubDescribing (put_into d)\<rparr>)
              | _ \<Rightarrow> Inl AssertionError)
        else if behavior = PAIR_SET \<or> behavior = PAIR_MAP
        then (case key of MidPair l r \<Rightarrow> Inr (base\<lparr>en_subject := SubPair (put_into l) (put_into r)\<rparr>)
              | _ \<Rightarrow> Inl AssertionError)
        else Inl GenericException)"

text \<open>\<open>normalize_entry_builder\<close>: relative references become absolute ones.\<close>

definition normalize_subject :: "muid \<Rightarrow> subject_pb \<Rightarrow> subject_pb result" where
  "normalize_subject entry_muid subj =
    (case subj of
      SubDescribing d \<Rightarrow>
        bindr (muid_create (CtxMuid entry_muid) d None) (\<lambda>u. Inr (SubDescribing (put_into u)))
    | SubPair l r \<Rightarrow>
        bindr (muid_create (CtxMuid entry_muid) l None) (\<lambda>a.
        bindr (muid_create (CtxMuid entry_muid) r None) (\<lambda>b. Inr (SubPair (put_into a) (put_into b))))
    | _ \<Rightarrow> Inr subj)"

definition normalize_contains :: "muid \<Rightarrow> contains_pb \<Rightarrow> contains_pb result" where
  "normalize_contains entry_muid c =
    (case c of
      ConPointee p \<Rightarrow>
        bindr (muid_create (CtxMuid entry_muid) p None) (\<lambda>u. Inr (ConPointee (put_into u)))
    | _ \<Rightarrow> Inr c)"

definition normalize_entry_builder :: "entry_pb \<Rightarrow> muid \<Rightarrow> entry_pb result" where
  "normalize_entry_builder builder entry_muid =
    bindr (muid_create (CtxMuid entry_muid) (container_of builder) None) (\<lambda>c.
    bindr (normalize_subject entry_muid (en_subject builder)) (\<lambda>subj.
    bindr (normalize_contains entry_muid (en_contains builder)) (\<lambda>con.
      Inr (builder\<lparr>en_container := Some (put_into c), en_subject := subj, en_contains := con\<rparr>))))"

text \<open>\<open>ensure_entry_is_valid\<close>, for an entry at the given position of a bundle.\<close>

definition ensure_entry_is_valid :: "entry_pb \<Rightarrow> int \<Rightarrow> int \<Rightarrow> int \<Rightarrow> unit result" where
  "ensure_entry_is_valid builder ts med off =
    (if en_behavior builder = UNSPECIFIED then Inl ValueError
     else if en_container builder = None then Inl ValueError
     else bindr (muid_create (CtxInfo ts med) dummy_builder (Some off)) (\<lambda>entry_muid.
          bindr (muid_create (CtxMuid entry_muid) (container_of builder) None) (\<lambda>c.
          if mu_timestamp c = -1 \<and> 0 < mu_medallion c \<and> med \<noteq> mu_medallion c
          then Inl ValueError else Inr ())))"

definition wrap_change :: "entry_pb \<Rightarrow> change_pb" where
  "wrap_change builder = ChEntry builder"

text \<open>
  A deleting entry lands on the key it deletes: read back from the builder, wherever in a bundle it
  is put, its placement has the container and the middle it was made for, and its content is a
  deletion.
\<close>

definition absolute_muid :: "muid \<Rightarrow> bool" where
  "absolute_muid u \<longleftrightarrow> valid_muid u \<and> mu_timestamp u \<noteq> 0 \<and> mu_medallion u \<noteq> 0 \<and> 0 \<le> mu_offset u"

fun middle_absolute :: "middle \<Rightarrow> bool" where
  "middle_absolute (MidMuid u) = absolute_muid u"
| "middle_absolute (MidPair l r) = (absolute_muid l \<and> absolute_muid r)"
| "middle_absolute (MidKey k) = valid_ukey k"
| "middle_absolute MidNone = True"
| "middle_absolute (MidQueue t) = True"

lemma create_absolute: "absolute_muid u \<Longrightarrow> muid_create ctx (put_into u) None = Inr u"
  by (simp add: absolute_muid_def muid_create_put_into)

definition deleting_base :: "muid \<Rightarrow> int \<Rightarrow> subject_pb \<Rightarrow> entry_pb" where
  "deleting_base c behavior subj = empty_entry\<lparr>en_behavior := behavior,
     en_container := Some (put_into c), en_contains := ConDeletion True, en_subject := subj\<rparr>"

lemma create_deleting_cases:
  assumes "create_deleting_entry c key b = Inr builder"
  obtains (keyed) k where "b = DIRECTORY \<or> b = KEY_SET" "key = MidKey k" "valid_ukey k"
      "builder = deleting_base c b (SubKey (key_msg k))"
  | (box) "b = BOX" "key = MidNone" "builder = deleting_base c b SubNone"
  | (describing) d where "b = PROPERTY \<or> b = GROUP" "key = MidMuid d"
      "builder = deleting_base c b (SubDescribing (put_into d))"
  | (pair) l r where "b = PAIR_SET \<or> b = PAIR_MAP" "key = MidPair l r"
      "builder = deleting_base c b (SubPair (put_into l) (put_into r))"
  using assms
  by (cases key) (auto simp: create_deleting_entry_def deleting_base_def empty_entry_def Let_def
      encode_key_valid split: if_splits)

text \<open>C37: The entry that deletes a key is placed in the container and at the key it was made
  for, and reads as a deletion.\<close>

lemma deletion_lands:
  assumes c: "absolute_muid c" and m: "middle_absolute key"
    and e: "create_deleting_entry c key behavior = Inr builder"
    and at: "muid_create (CtxInfo ts med) dummy_builder (Some off) = Inr entry_muid"
  shows "placement_from_builder builder ts med off = Inr (Placement c key entry_muid None)
    \<and> decode_entry_occupant E entry_muid builder = Inr OccDeletion"
proof -
  note reads = deleting_base_def empty_entry_def entry_reads placement_from_builder_def
    builder_middle_def Let_def decode_entry_occupant_def
  show ?thesis
    using e
  proof (cases rule: create_deleting_cases)
    case (keyed k)
    then show ?thesis using at create_absolute [OF c] by (auto simp: reads)
  next
    case box
    then show ?thesis using at create_absolute [OF c] by (simp add: reads behavior_defs)
  next
    case (describing d)
    then show ?thesis using at create_absolute [OF c] m by (auto simp: reads behavior_defs create_absolute)
  next
    case (pair l r)
    then show ?thesis using at create_absolute [OF c] m by (auto simp: reads behavior_defs create_absolute)
  qed
qed

lemma deletion_lands_witness:
  "\<exists>e. create_deleting_entry (Muid (-1) (-1) 4) (MidKey (KStr ''a'')) DIRECTORY = Inr e \<and>
    placement_from_builder e 1000 77 1 =
      Inr (Placement (Muid (-1) (-1) 4) (MidKey (KStr ''a'')) (Muid 1000 77 1) None)"
proof -
  have "\<not> isl (create_deleting_entry (Muid (-1) (-1) 4) (MidKey (KStr ''a'')) DIRECTORY)
    \<and> muid_create (CtxInfo 1000 77) dummy_builder (Some 1) = Inr (Muid 1000 77 1)
    \<and> middle_absolute (MidKey (KStr ''a''))" by code_simp
  moreover from this obtain e where "create_deleting_entry (Muid (-1) (-1) 4) (MidKey (KStr ''a'')) DIRECTORY = Inr e"
    by (metis sum.collapse(2))
  ultimately show ?thesis
    using deletion_lands [of "Muid (-1) (-1) 4" "MidKey (KStr ''a'')" DIRECTORY e 1000 77 1 "Muid 1000 77 1" ref_ext]
    by (simp add: absolute_muid_def valid_muid_def muid_consts)
qed

end
