(* ===== verification/Bundle_Rules.thy ===== *)
theory Bundle_Rules
  imports Has_Maps Entry_Values
begin

text \<open>
  \<open>python/gink/impl/utilities.py\<close> and \<open>decomposition.py\<close>: what makes a bundle. Assembling and signing
  one, taking it apart again, deciding whether it is needed given the last bundle of its chain, and
  validating its entries against their behaviors; also the clock and the key hash.
\<close>

section \<open>Clock\<close>

text \<open>
  \<open>generate_timestamp\<close>: the global \<open>_last_time\<close> and the microsecond readings that successive
  iterations of the loop take. \<open>None\<close> is a loop still waiting when the readings end.
\<close>

fun generate_timestamp :: "int \<Rightarrow> int list \<Rightarrow> (int \<times> int list) option" where
  "generate_timestamp last_time [] = None"
| "generate_timestamp last_time (now # readings) =
    (if last_time < now then Some (now, readings) else generate_timestamp last_time readings)"

text \<open>Successive calls, each starting from the time the one before returned.\<close>

fun timestamps :: "nat \<Rightarrow> int \<Rightarrow> int list \<Rightarrow> int list" where
  "timestamps 0 last_time rs = []"
| "timestamps (Suc n) last_time rs =
    (case generate_timestamp last_time rs of
      None \<Rightarrow> []
    | Some (t, rs') \<Rightarrow> t # timestamps n t rs')"

lemma generate_timestamp_later: "generate_timestamp l rs = Some (t, rs') \<Longrightarrow> l < t"
  by (induction l rs rule: generate_timestamp.induct) (auto split: if_splits)

lemma timestamps_increasing: "sorted_wrt (<) (l # timestamps n l rs)"
proof (induction n l rs rule: timestamps.induct)
  case (1 l rs)
  then show ?case by simp
next
  case (2 n l rs)
  show ?case
  proof (cases "generate_timestamp l rs")
    case None
    then show ?thesis by simp
  next
    case (Some p)
    obtain t rs' where p: "p = (t, rs')" by (cases p)
    have "l < t" using Some p generate_timestamp_later by blast
    moreover have "sorted_wrt (<) (t # timestamps n t rs')" using 2 Some p by simp
    ultimately show ?thesis using Some p by auto
  qed
qed

section \<open>Symmetric key identifiers\<close>

definition le_int :: "bytes \<Rightarrow> int" where
  "le_int bs = be_int (rev bs)"

definition shorter_hash :: "ext \<Rightarrow> bytes \<Rightarrow> int result" where
  "shorter_hash E data =
    (let h = x_shorthash E data in
     bindr (require (length h = 8) AssertionError) (\<lambda>_.
       let u = le_int h; n = (if 2 ^ 63 \<le> u then u - 2 ^ 64 else u)
       in Inr (n AND (2 ^ 52 - 1))))"

text \<open>The identifier of a symmetric key is a non-negative number below \<open>2 ^ 52\<close>.\<close>

lemma shorter_hash_range:
  assumes "shorter_hash E data = Inr n"
  shows "0 \<le> n \<and> n < 2 ^ 52"
proof -
  obtain m :: int where "n = m AND (2 ^ 52 - 1)"
    using assms by (auto simp: shorter_hash_def Let_def result_simps)
  then have "n = m mod 2 ^ 52" by (metis mask_eq_exp_minus_1 take_bit_eq_mask take_bit_eq_mod)
  then show ?thesis by simp
qed

lemma shorter_hash_range_witness: "\<exists>n. shorter_hash ref_ext [1, 2, 3] = Inr n \<and> 0 \<le> n \<and> n < 2 ^ 52"
proof -
  obtain n where "shorter_hash ref_ext [1, 2, 3] = Inr n"
    by (simp add: shorter_hash_def ref_ext_def Let_def require_def)
  then show ?thesis using shorter_hash_range by blast
qed

section \<open>Assembling a bundle\<close>

datatype prior_hash = NoPrior | PriorHex string | PriorBytes bytes

definition prior_bytes :: "prior_hash \<Rightarrow> bytes option result" where
  "prior_bytes h =
    (let check = (\<lambda>bs. bindr (require (length bs = 32) AssertionError) (\<lambda>_. Inr (Some bs)))
     in case h of
       NoPrior \<Rightarrow> Inr None
     | PriorHex s \<Rightarrow> if s = [] then Inr None else bindr (bytes_fromhex s) check
     | PriorBytes bs \<Rightarrow> if bs = [] then Inr None else check bs)"

definition combine_builder ::
  "ext \<Rightarrow> chain \<Rightarrow> int \<Rightarrow> bytes \<Rightarrow> change_pb list \<Rightarrow> string option \<Rightarrow> string option \<Rightarrow> int option
    \<Rightarrow> prior_hash \<Rightarrow> bool \<Rightarrow> bundle_pb result" where
  "combine_builder E chain ts signing_key changes comment identity prev prior check =
    bindr
     (case prev of
       None \<Rightarrow>
         bindr (require (\<not> check \<or> ts = ch_start chain) AssertionError) (\<lambda>_.
         bindr (require (\<not> check \<or> identity \<noteq> None) AssertionError) (\<lambda>_.
           Inr (empty_bundle\<lparr>bn_identity := (case identity of None \<Rightarrow> [] | Some s \<Rightarrow> s),
                             bn_verify_key := x_verify_key E signing_key\<rparr>)))
     | Some p \<Rightarrow>
         bindr (require (\<not> check \<or> (ch_start chain \<le> p \<and> p < ts)) AssertionError) (\<lambda>_.
         bindr (require (\<not> check \<or> identity = None) AssertionError) (\<lambda>_.
           Inr (empty_bundle\<lparr>bn_previous := p\<rparr>))))
     (\<lambda>b. bindr (prior_bytes prior) (\<lambda>h.
       Inr (b\<lparr>bn_chain_start := ch_start chain, bn_medallion := ch_medallion chain, bn_timestamp := ts,
              bn_comment := (case comment of None \<Rightarrow> [] | Some s \<Rightarrow> s),
              bn_prior_hash := (case h of None \<Rightarrow> [] | Some bs \<Rightarrow> bs),
              bn_changes := changes\<rparr>)))"

definition combine ::
  "ext \<Rightarrow> chain \<Rightarrow> int \<Rightarrow> bytes \<Rightarrow> change_pb list \<Rightarrow> string option \<Rightarrow> string option \<Rightarrow> int option
    \<Rightarrow> prior_hash \<Rightarrow> bool \<Rightarrow> bytes result" where
  "combine E chain ts signing_key changes comment identity prev prior check =
    bindr (combine_builder E chain ts signing_key changes comment identity prev prior check)
      (\<lambda>b. Inr (x_sign E signing_key (x_bundle_ser E b)))"

section \<open>Taking a bundle apart\<close>

text \<open>\<open>Decomposition\<close>: the signature is the first 64 bytes, the body the rest.\<close>

definition get_builder :: "ext \<Rightarrow> bytes \<Rightarrow> bundle_pb result" where
  "get_builder E bundle_bytes = x_bundle_parse E (drop 64 bundle_bytes)"

definition get_info :: "ext \<Rightarrow> bytes \<Rightarrow> bundle_info result" where
  "get_info E bundle_bytes =
    bindr (get_builder E bundle_bytes) (\<lambda>b.
      Inr (info_from_builder b (bytes_hex (x_blake2b E bundle_bytes))))"

section \<open>Is a bundle needed?\<close>

definition is_needed :: "bundle_info \<Rightarrow> bundle_info option \<Rightarrow> bool result" where
  "is_needed new_info old_info =
    bindr (case old_info of
        None \<Rightarrow> Inr 0
      | Some old \<Rightarrow> bindr (require (get_chain old = get_chain new_info) AssertionError)
          (\<lambda>_. Inr (bi_timestamp old)))
     (\<lambda>seen_through.
       if bi_timestamp new_info \<le> seen_through then Inr False
       else if bi_timestamp new_info \<noteq> bi_chain_start new_info \<and> bi_previous new_info = 0
       then Inl ValueError
       else if (bi_previous new_info \<noteq> 0 \<or> seen_through \<noteq> 0) \<and> bi_previous new_info \<noteq> seen_through
       then Inl ValueError
       else Inr True)"

text \<open>The relation between a bundle and the last one of its chain that makes it the next one.\<close>

definition extends_chain :: "bundle_info \<Rightarrow> bundle_info option \<Rightarrow> bool" where
  "extends_chain new_info old_info \<longleftrightarrow>
    (case old_info of
      None \<Rightarrow> bi_timestamp new_info = bi_chain_start new_info \<and> bi_previous new_info = 0
    | Some old \<Rightarrow> get_chain old = get_chain new_info \<and> bi_previous new_info = bi_timestamp old)"

text \<open>A bundle is needed exactly when it extends what is known of its chain, as its first
  bundle or as the successor of the last one, and is newer.\<close>

lemma is_needed_iff:
  assumes "0 < bi_timestamp new_info" "\<And>old. old_info = Some old \<Longrightarrow> 0 < bi_timestamp old"
  shows "is_needed new_info old_info = Inr True \<longleftrightarrow>
    extends_chain new_info old_info
    \<and> (\<forall>old. old_info = Some old \<longrightarrow> bi_timestamp old < bi_timestamp new_info)"
  using assms by (cases old_info) (auto simp: is_needed_def extends_chain_def require_def)

lemma is_needed_iff_witness:
  "is_needed (info_of 2000 77 1000 1000) (Some (info_of 1000 77 1000 0)) = Inr True"
  by (subst is_needed_iff) (simp_all add: info_of_def extends_chain_def get_chain_def)

lemma is_needed_False:
  "is_needed new_info (Some old) = Inr False \<longleftrightarrow>
    get_chain old = get_chain new_info \<and> bi_timestamp new_info \<le> bi_timestamp old"
  by (auto simp: is_needed_def require_def)

text \<open>A newer bundle of a known chain that does not follow the last one is an error, never
  silently skipped or applied.\<close>

lemma is_needed_error:
  assumes "0 < bi_timestamp new_info" "\<And>old. old_info = Some old \<Longrightarrow> 0 < bi_timestamp old"
    and "\<And>old. old_info = Some old \<Longrightarrow> get_chain old = get_chain new_info \<and> bi_timestamp old < bi_timestamp new_info"
    and "\<not> extends_chain new_info old_info"
  shows "is_needed new_info old_info = Inl ValueError"
  using assms by (cases old_info) (auto simp: is_needed_def extends_chain_def)

lemma is_needed_error_witness:
  "is_needed (info_of 3000 77 1000 2000) (Some (info_of 1000 77 1000 0)) = Inl ValueError"
  by (rule is_needed_error) (simp_all add: info_of_def extends_chain_def get_chain_def)

section \<open>Validation\<close>

text \<open>\<open>fullmatch(r"-?\d+", s)\<close>, in the digits of any script.\<close>

definition is_decimal :: "string \<Rightarrow> bool" where
  "is_decimal s \<longleftrightarrow>
    (let u = to_ascii s; t = (if take 1 u = ''-'' then drop 1 u else u)
     in t \<noteq> [] \<and> (\<forall>c \<in> set t. 48 \<le> (of_char c :: nat) \<and> (of_char c :: nat) \<le> 57))"

text \<open>The digits of a decimal text.\<close>

definition digits_in :: "string \<Rightarrow> string" where
  "digits_in s = (let u = to_ascii s in if take 1 u = ''-'' then drop 1 u else u)"

text \<open>Whether the first set field of the entry's value (key) has a name in the user value (key) fields.\<close>

definition value_field_ok :: "entry_pb \<Rightarrow> bool" where
  "value_field_ok e \<longleftrightarrow> value_of e \<noteq> ValUnset"

definition key_field_ok :: "entry_pb \<Rightarrow> bool" where
  "key_field_ok e \<longleftrightarrow> key_of e \<noteq> KeyUnset"

definition value_is_integer :: "entry_pb \<Rightarrow> bool" where
  "value_is_integer e \<longleftrightarrow> (case value_of e of ValInteger _ \<Rightarrow> True | _ \<Rightarrow> False)"

definition value_is_number :: "entry_pb \<Rightarrow> bool" where
  "value_is_number e \<longleftrightarrow> (case value_of e of ValInteger _ \<Rightarrow> True | ValFloating _ \<Rightarrow> True | _ \<Rightarrow> False)"

definition validate_entry :: "entry_pb \<Rightarrow> unit result" where
  "validate_entry e =
    (let b = en_behavior e in
     if b = BOX \<or> b = SEQUENCE then
       (if has_key e then Inl ValueError
        else if \<not> (value_field_ok e \<or> has_pointee e) then Inl ValueError
        else Inr ())
     else if b = PAIR_MAP then
       (if \<not> has_pair e then Inl ValueError
        else if \<not> (value_field_ok e \<or> has_pointee e \<or> deletion_of e) then Inl ValueError
        else Inr ())
     else if b = DIRECTORY then
       (if \<not> key_field_ok e then Inl ValueError
        else if \<not> (value_field_ok e \<or> has_pointee e \<or> deletion_of e) then Inl ValueError
        else Inr ())
     else if b = KEY_SET then
       (if \<not> key_field_ok e then Inl ValueError
        else if has_value e then Inl ValueError
        else Inr ())
     else if b = GROUP then
       (if \<not> has_describing e then Inl ValueError
        else if has_value e then Inl ValueError
        else Inr ())
     else if b = PAIR_SET then
       (if \<not> has_pair e then Inl ValueError
        else if has_value e then Inl ValueError
        else Inr ())
     else if b = PROPERTY then
       (if \<not> has_describing e then Inl ValueError
        else if \<not> (value_field_ok e \<or> has_pointee e \<or> deletion_of e) then Inl ValueError
        else Inr ())
     else if b = BRAID then
       (if \<not> has_describing e then Inl ValueError
        else if \<not> (value_is_number e \<or> deletion_of e) then Inl ValueError
        else Inr ())
     else if b = VERTEX then
       (if en_container e = None then Inl ValueError else Inr ())
     else if b = EDGE_TYPE then
       (if \<not> has_pair e then Inl ValueError else Inr ())
     else if b = ACCUMULATOR then
       (if \<not> (has_value e \<and> value_is_integer e) then Inl ValueError
        else if \<not> is_decimal (integer_text e) then Inl ValueError
        else Inr ())
     else Inl ValueError)"

fun validate_changes :: "change_pb list \<Rightarrow> unit result" where
  "validate_changes [] = Inr ()"
| "validate_changes (ChEntry e # cs) = bindr (validate_entry e) (\<lambda>_. validate_changes cs)"
| "validate_changes (_ # cs) = validate_changes cs"

definition validate_bundle :: "bundle_pb \<Rightarrow> unit result" where
  "validate_bundle b = validate_changes (bn_changes b)"

lemma validate_changes_iff:
  "validate_changes cs = Inr () \<longleftrightarrow> (\<forall>e. ChEntry e \<in> set cs \<longrightarrow> validate_entry e = Inr ())"
  by (induction cs rule: validate_changes.induct) (auto simp: result_simps)

lemma decimal_digits: "\<forall>c \<in> set t. 48 \<le> (of_char c :: nat) \<and> (of_char c :: nat) \<le> 57 \<Longrightarrow> is_digits 10 t"
  by (auto simp: is_digits_def digit_val_def Let_def)

text \<open>A validated decimal text is one that \<open>int()\<close> accepts, if it is not too long.\<close>

lemma ascii_again: "is_ascii s \<Longrightarrow> to_ascii s = s"
  by (simp add: to_ascii_def)

lemma py_int_ascii: "is_ascii (to_ascii s) \<Longrightarrow> py_int b s = py_int b (to_ascii s)"
  by (simp add: py_int_def ascii_again)

lemma decimal_parses:
  assumes "is_decimal s"
  shows "py_int 10 s =
    (if int (length (digits_in s)) \<le> MAX_STR_DIGITS
     then Inr (if take 1 (to_ascii s) = ''-'' then - num_val 10 (digits_in s) else num_val 10 (digits_in s))
     else Inl ValueError)"
proof -
  let ?u = "to_ascii s" and ?t = "digits_in s"
  have d: "is_digits 10 ?t" "?t \<noteq> []"
    using assms decimal_digits [of ?t] by (simp_all add: is_decimal_def digits_in_def Let_def)
  have u: "?u = (if take 1 ?u = ''-'' then CHR ''-'' # ?t else ?t)" by (cases ?u) (auto simp: digits_in_def)
  have "is_ascii ?u" using digits_ascii [OF d(1)] by (subst u) (auto simp: is_ascii_def)
  then have "py_int 10 s = py_int 10 ?u" by (rule py_int_ascii)
  moreover have "too_long 10 ?t \<longleftrightarrow> \<not> int (length ?t) \<le> MAX_STR_DIGITS"
    using digits_no_underscore [OF d(1)] by (simp add: too_long_def not_le)
  ultimately show ?thesis
    using py_int_digits_eq [OF d] py_int_negative_eq [OF d] u by (cases "take 1 ?u = ''-''") simp_all
qed

text \<open>
  A validated entry has one of the twelve known behaviors, and its placement, when it has one, uses
  the kind of middle that its behavior calls for.
\<close>

lemma validate_behavior:
  assumes "validate_entry e = Inr ()"
  shows "\<exists>k. behavior_kind (en_behavior e) = Some k"
proof -
  have "en_behavior e \<in> {BOX, SEQUENCE, PAIR_MAP, DIRECTORY, KEY_SET, GROUP, PAIR_SET, PROPERTY,
      BRAID, VERTEX, EDGE_TYPE, ACCUMULATOR}"
  proof (rule ccontr)
    assume "\<not> ?thesis"
    then have "validate_entry e = Inl ValueError" by (simp add: validate_entry_def Let_def)
    with assms show False by simp
  qed
  then show ?thesis by (auto simp: behavior_kind_def behavior_defs)
qed

lemma placement_kind:
  assumes "placement_from_builder e ts med off = Inr p"
    and "en_behavior e = DIRECTORY \<or> en_behavior e = KEY_SET \<Longrightarrow> key_of e \<noteq> KeyUnset"
  shows "behavior_kind (en_behavior e) = Some (middle_kind (pl_middle p))"
proof -
  obtain u where "builder_middle u e = Inr (pl_middle p)"
    using assms(1) by (auto simp: placement_from_builder_def result_simps)
  then show ?thesis using assms(2) by (rule builder_middle_kind)
qed

lemma validate_placement_kind:
  assumes "validate_entry e = Inr ()" "placement_from_builder e ts med off = Inr p"
  shows "behavior_kind (en_behavior e) = Some (middle_kind (pl_middle p))"
proof (rule placement_kind [OF assms(2)])
  assume "en_behavior e = DIRECTORY \<or> en_behavior e = KEY_SET"
  then show "key_of e \<noteq> KeyUnset"
    using assms(1) by (auto simp: validate_entry_def key_field_ok_def behavior_defs Let_def split: if_splits)
qed

text \<open>C39: Every accumulator entry of a bundle that passes validation has an amount that Python's \<open>int\<close> reads as the
  number that its digits stand for, unless it has more than 4300 digits: validation lets these pass, and \<open>int\<close> then
  raises \<open>ValueError\<close> in the middle of the bundle.\<close>

lemma accumulator_parses:
  assumes "validate_bundle b = Inr ()" "ChEntry e \<in> set (bn_changes b)" "en_behavior e = ACCUMULATOR"
  shows "py_int 10 (integer_text e) =
    (if int (length (digits_in (integer_text e))) \<le> MAX_STR_DIGITS
     then Inr (if take 1 (to_ascii (integer_text e)) = ''-'' then - num_val 10 (digits_in (integer_text e))
               else num_val 10 (digits_in (integer_text e)))
     else Inl ValueError)"
proof -
  have "validate_entry e = Inr ()" using assms(1,2) by (simp add: validate_bundle_def validate_changes_iff)
  then show ?thesis
    using assms(3) by (intro decimal_parses) (auto simp: validate_entry_def behavior_defs Let_def split: if_splits)
qed

lemma accumulator_parses_witness: "py_int 10 ''-40'' = Inr (-40)"
proof -
  let ?e = "empty_entry\<lparr>en_behavior := ACCUMULATOR, en_contains := ConValue (ValInteger ''-40'')\<rparr>"
  have "validate_bundle (empty_bundle\<lparr>bn_changes := [ChEntry ?e]\<rparr>) = Inr ()" by code_simp
  moreover have "to_ascii ''-40'' = ''-40''" "num_val 10 ''40'' = 40" by code_simp+
  ultimately show ?thesis using accumulator_parses [of "empty_bundle\<lparr>bn_changes := [ChEntry ?e]\<rparr>" ?e]
    by (simp add: empty_bundle_def empty_entry_def integer_text_def value_of_def digits_in_def MAX_STR_DIGITS_def)
qed

text \<open>The clock loop returns a time as soon as the clock passes the last time given out, it
  waits for ever only when the clock never does, and successive times are strictly increasing.\<close>

lemma fresh_timestamps:
  "(generate_timestamp l rs = None \<longleftrightarrow> (\<forall>r \<in> set rs. r \<le> l)) \<and> sorted_wrt (<) (l # timestamps n l rs)"
proof
  show "generate_timestamp l rs = None \<longleftrightarrow> (\<forall>r \<in> set rs. r \<le> l)"
    by (induction l rs rule: generate_timestamp.induct) auto
  show "sorted_wrt (<) (l # timestamps n l rs)" by (rule timestamps_increasing)
qed

lemma fresh_timestamps_witness: "generate_timestamp 10 [7, 10, 12] \<noteq> None"
  using fresh_timestamps [of 10 "[7, 10, 12]"] by simp

end
