(* ===== verification/Connections.thy ===== *)
theory Connections
  imports Has_Maps Bundle_Rules
begin

text \<open>
  The websocket side of \<open>Connection\<close> (\<open>python/gink/impl/connection.py\<close>): the events that the
  websocket library reports, the sync messages received and sent, and what is known of the peer. The
  plain HTTP side (WSGI requests) is not modelled. What goes out on the socket is the list \<open>cn_sent\<close>.
\<close>

section \<open>State\<close>

definition AUTH_NONE :: int where "AUTH_NONE = 0"
definition AUTH_READ :: int where "AUTH_READ = 1"
definition AUTH_RITE :: int where "AUTH_RITE = 2"
definition AUTH_FULL :: int where "AUTH_FULL = 7"

datatype frame =
    FrBytes bytes
  | FrText string
  | FrRequest string "string list"
  | FrAccept
  | FrReject
  | FrPong
  | FrClose
  | FrCloseAck

record connection =
  cn_tracker :: "has_map option"
  cn_closed :: bool
  cn_ws_closed :: bool
  cn_ws_connected :: bool
  cn_pending :: bool
  cn_perms :: int
  cn_has_auth :: bool
  cn_path :: string
  cn_message_buffer :: bytes
  cn_broken :: bool
  cn_sent :: "frame list"

text \<open>
  A connection as the constructor leaves it; \<open>cn_broken\<close> is the state of the socket, not of the
  object: whether the operating system reports a broken pipe on the next write.
\<close>

definition new_connection :: "bool \<Rightarrow> connection" where
  "new_connection has_auth =
    \<lparr>cn_tracker = None, cn_closed = False, cn_ws_closed = False, cn_ws_connected = False,
     cn_pending = False, cn_perms = (if has_auth then AUTH_NONE else AUTH_FULL), cn_has_auth = has_auth,
     cn_path = [], cn_message_buffer = [], cn_broken = False, cn_sent = []\<rparr>"

text \<open>A connection that this side opens: it sends the request, with the authentication data if any.\<close>

definition encode_to_hex :: "string \<Rightarrow> string" where
  "encode_to_hex s = ''0x'' @ bytes_hex (str_encode s)"

definition decode_from_hex :: "string \<Rightarrow> string result" where
  "decode_from_hex s = bindr (bytes_fromhex (drop 2 s)) (\<lambda>bs. Inr (bytes_decode bs))"

definition client_connection :: "string \<Rightarrow> string option \<Rightarrow> connection result" where
  "client_connection path auth_data =
    (let p = (if path = [] then ''/'' else path);
         subprotocols = ''gink'' # (case auth_data of None \<Rightarrow> [] | Some a \<Rightarrow> if a = [] then [] else [encode_to_hex a])
     in if take 1 p \<noteq> ''/'' then Inl AssertionError
        else Inr ((new_connection False)\<lparr>cn_path := p, cn_sent := [FrRequest p subprotocols]\<rparr>))"

section \<open>Sending\<close>

definition socket_send :: "frame \<Rightarrow> (connection, unit) py" where
  "socket_send f = (\<lambda>c. if cn_broken c then (Inl OSError, c) else (Inr (), c\<lparr>cn_sent := cn_sent c @ [f]\<rparr>))"

definition conn_close :: "(connection, unit) py" where
  "conn_close = py_modify (\<lambda>c.
    if cn_closed c then c
    else if cn_ws_connected c \<and> \<not> cn_ws_closed c \<and> \<not> cn_broken c
    then c\<lparr>cn_sent := cn_sent c @ [FrClose], cn_ws_closed := True, cn_closed := True\<rparr>
    else c\<lparr>cn_closed := True\<rparr>)"

definition conn_send :: "ext \<Rightarrow> sync_message \<Rightarrow> (connection, unit) py" where
  "conn_send E msg = (\<lambda>c.
    if cn_closed c then (Inl ValueError, c)
    else if cn_ws_closed c then (Inl ValueError, c)
    else if \<not> cn_ws_connected c then (Inl ValueError, c)
    else if cn_broken c then conn_close c
    else socket_send (FrBytes (x_sync_ser E msg)) c)"

text \<open>\<open>send_bundle\<close>: nothing before the peer's greeting, nothing the peer has, never out of order.\<close>

definition send_bundle :: "ext \<Rightarrow> bytes \<Rightarrow> (connection, unit) py" where
  "send_bundle E b =
    py_bind (py_lift (get_info E b)) (\<lambda>info.
    py_bind (py_read (\<lambda>c. Inr (cn_tracker c))) (\<lambda>tracker.
    case tracker of
      None \<Rightarrow> py_return ()
    | Some h \<Rightarrow>
        if has_info h info then py_return ()
        else if \<not> is_valid_extension h info then py_raise ValueError
        else py_then (conn_send E (MsgBundle b))
               (py_modify (\<lambda>c. c\<lparr>cn_tracker := Some (mark_as_having h info)\<rparr>))))"

section \<open>Receiving\<close>

text \<open>What the socket and the websocket library hand to one call of \<open>receive\<close>.\<close>

datatype ws_event =
    EvRequest (ev_target: string) (ev_subprotocols: "string list") (ev_granted: int)
  | EvClose
  | EvText string
  | EvBytes bytes bool
  | EvPing
  | EvPong
  | EvAccept
  | EvReject
  | EvOther

datatype incoming = InTimeout | InReset | InEof | InMalformed | InEvents "ws_event list"

definition receive_start :: "incoming \<Rightarrow> (connection, ws_event list) py" where
  "receive_start inp =
    py_bind (py_read (\<lambda>c. Inr c)) (\<lambda>c.
    if cn_closed c then py_raise Finished
    else
      let decode = (case inp of
          InEvents evs \<Rightarrow> py_return evs
        | InMalformed \<Rightarrow> py_then (socket_send FrReject) (py_raise Finished)
        | _ \<Rightarrow> py_return [])
      in if cn_pending c then py_then (py_modify (\<lambda>c. c\<lparr>cn_pending := False\<rparr>)) decode
         else (case inp of
            InTimeout \<Rightarrow> py_raise Finished
          | InReset \<Rightarrow> py_then (py_modify (\<lambda>c. c\<lparr>cn_ws_closed := True\<rparr>)) (py_raise Finished)
          | InEof \<Rightarrow> py_then (py_modify (\<lambda>c. c\<lparr>cn_ws_closed := True\<rparr>)) (py_raise Finished)
          | _ \<Rightarrow> decode))"

definition request_path :: "string \<Rightarrow> string result" where
  "request_path target =
    (case split_on CHR ''?'' target of
      [p] \<Rightarrow> Inr p
    | [p, _] \<Rightarrow> Inr p
    | _ \<Rightarrow> Inl ValueError)"

text \<open>
  A request to open the websocket. \<open>greeting\<close> is what the connection function gives (\<open>None\<close> when
  there is none, an exception when it fails).
\<close>

definition on_request :: "ext \<Rightarrow> sync_message result option \<Rightarrow> string \<Rightarrow> string list \<Rightarrow> int \<Rightarrow> (connection, unit) py" where
  "on_request E greeting target subprotocols granted =
    py_bind (py_lift (request_path target)) (\<lambda>path.
    py_then (py_modify (\<lambda>c. c\<lparr>cn_path := path,
        cn_perms := (if cn_has_auth c then cn_perms c OR granted else cn_perms c)\<rparr>))
   (py_bind (py_read (\<lambda>c. Inr (cn_perms c))) (\<lambda>perms.
    if perms = 0 then py_then (socket_send FrReject) (py_raise Finished)
    else if ''gink'' \<notin> set subprotocols then py_then (socket_send FrReject) (py_raise Finished)
    else case greeting of
      Some (Inl _) \<Rightarrow>
        py_then (socket_send FrReject)
          (py_then (py_modify (\<lambda>c. c\<lparr>cn_ws_closed := True\<rparr>)) (py_raise Finished))
    | _ \<Rightarrow>
        py_then (socket_send FrAccept)
       (py_then (py_modify (\<lambda>c. c\<lparr>cn_ws_connected := True\<rparr>))
         (case greeting of
            Some (Inr g) \<Rightarrow> if perms AND AUTH_RITE \<noteq> 0 then conn_send E g
              else conn_send E (MsgSignal SIGNAL_READ_ONLY_CONNECTION)
          | _ \<Rightarrow> conn_send E (MsgSignal SIGNAL_READ_ONLY_CONNECTION))))))"

fun conn_event :: "ext \<Rightarrow> sync_message result option \<Rightarrow> ws_event \<Rightarrow> (connection, sync_message option) py" where
  "conn_event E greeting (EvRequest target subprotocols granted) =
    py_then (on_request E greeting target subprotocols granted) (py_return None)"
| "conn_event E greeting EvClose =
    py_then (py_modify (\<lambda>c. c\<lparr>cn_sent := (if cn_broken c then cn_sent c else cn_sent c @ [FrCloseAck]),
                             cn_ws_closed := True\<rparr>)) (py_raise Finished)"
| "conn_event E greeting (EvText s) = py_then (socket_send (FrText s)) (py_return None)"
| "conn_event E greeting (EvBytes data finished) =
    py_bind (py_read (\<lambda>c. Inr (cn_message_buffer c))) (\<lambda>buffered.
    if \<not> finished
    then py_then (py_modify (\<lambda>c. c\<lparr>cn_message_buffer := buffered @ data\<rparr>)) (py_return None)
    else py_then (py_modify (\<lambda>c. c\<lparr>cn_message_buffer := []\<rparr>))
      (py_bind (py_lift (x_sync_parse E (buffered @ data))) (\<lambda>msg. py_return (Some msg))))"
| "conn_event E greeting EvPing = py_then (socket_send FrPong) (py_return None)"
| "conn_event E greeting EvPong = py_return None"
| "conn_event E greeting EvAccept =
    py_then (py_modify (\<lambda>c. c\<lparr>cn_ws_connected := True\<rparr>))
   (py_bind (py_read (\<lambda>c. Inr (cn_perms c))) (\<lambda>perms.
    py_then (case greeting of
        Some g \<Rightarrow> py_when (perms AND AUTH_RITE \<noteq> 0) (py_bind (py_lift g) (conn_send E))
      | None \<Rightarrow> py_return ())
      (py_return None)))"
| "conn_event E greeting EvReject =
    py_then (py_modify (\<lambda>c. c\<lparr>cn_ws_closed := True\<rparr>)) (py_raise Finished)"
| "conn_event E greeting EvOther = py_return None"

text \<open>\<open>receive_objects\<close> on one message: what it yields, if anything.\<close>

datatype thing = ThBundle bytes | ThGreeting has_map | ThAck bundle_info

definition receive_object :: "ext \<Rightarrow> sync_message \<Rightarrow> (connection, thing option) py" where
  "receive_object E msg =
    (case msg of
      MsgBundle b \<Rightarrow>
        py_bind (py_lift (get_info E b)) (\<lambda>info.
        py_then (py_modify (\<lambda>c. c\<lparr>cn_tracker := map_option (\<lambda>h. mark_as_having h info) (cn_tracker c)\<rparr>))
          (py_return (Some (ThBundle b))))
    | MsgGreeting es \<Rightarrow>
        py_bind (py_lift (has_map_init (Some msg))) (\<lambda>h.
        py_then (py_modify (\<lambda>c. c\<lparr>cn_tracker := Some h\<rparr>)) (py_return (Some (ThGreeting h))))
    | MsgAck a \<Rightarrow> py_bind (py_lift (from_ack msg)) (\<lambda>i. py_return (Some (ThAck i)))
    | MsgSignal _ \<Rightarrow> py_return None
    | MsgUnset \<Rightarrow> py_return None)"

section \<open>Message reassembly\<close>

fun conn_events :: "ext \<Rightarrow> sync_message result option \<Rightarrow> ws_event list \<Rightarrow> (connection, sync_message list) py" where
  "conn_events E greeting [] = py_return []"
| "conn_events E greeting (ev # evs) =
    py_bind (conn_event E greeting ev) (\<lambda>m.
    py_bind (conn_events E greeting evs) (\<lambda>ms.
      py_return (case m of None \<Rightarrow> ms | Some x \<Rightarrow> x # ms)))"

lemma partial_frames:
  "conn_events E g (map (\<lambda>d. EvBytes d False) ds @ evs) c =
    conn_events E g evs (c\<lparr>cn_message_buffer := cn_message_buffer c @ concat ds\<rparr>)"
  by (induction ds arbitrary: c) (simp_all add: py_simps split: prod.splits sum.splits)

text \<open>C31: However a message is cut into websocket frames, the connection yields it once, whole,
  when its last frame arrives, and leaves its buffer empty.\<close>

lemma message_reassembled:
  assumes "x_sync_parse E (x_sync_ser E msg) = Inr msg" "cn_message_buffer c = []" "concat ds @ d = x_sync_ser E msg"
  shows "conn_events E g (map (\<lambda>d. EvBytes d False) ds @ [EvBytes d True]) c = (Inr [msg], c)"
  using assms by (simp add: partial_frames py_simps)

lemma message_reassembled_witness:
  "conn_events ref_ext None [EvBytes [10, 1] False, EvBytes [2] False, EvBytes [3] True] (new_connection False)
    = (Inr [MsgBundle [1, 2, 3]], new_connection False)"
  using message_reassembled [of ref_ext "MsgBundle [1, 2, 3]" "new_connection False" "[[10, 1], [2]]" "[3]" None]
  by (simp add: ref_ext_def new_connection_def)

end
