(* ===== verification/Mem_Store.thy ===== *)
theory Mem_Store
  imports Bundle_Rules
begin

text \<open>
  The state of \<open>MemoryStore\<close> (\<open>python/gink/impl/memory_store.py\<close>) and the operations that write it:
  adding entries, movements and clearances, purging entries, applying a bundle. Dictionaries keyed
  by \<open>BundleInfo\<close> are keyed here by the tuple on which its equality and order are defined. The time
  readings that the code takes while it applies a change are the argument \<open>now\<close>.
\<close>

section \<open>State\<close>

record claim =
  cm_medallion :: int
  cm_chain_start :: int
  cm_process_id :: int
  cm_claim_time :: int

record mem_store =
  st_bundles :: "(int list, bundle_info \<times> bytes) dict"
  st_chain_infos :: "(chain, bundle_info) dict"
  st_claims :: "(int, claim) dict"
  st_entries :: "(muid, entry_pb) dict"
  st_identities :: "(chain, string) dict"
  st_placements :: "(bytes, muid) dict"
  st_containers :: "(muid, int) dict"
  st_locations :: "(location_key, bytes option) dict"
  st_removals :: "(bytes, movement_pb option) dict"
  st_clearances :: "(bytes, clearance_pb) dict"
  st_by_name :: "(bytes, bytes) dict"
  st_by_describing :: "(bytes, bytes) dict"
  st_verify_keys :: "(chain, bytes) dict"
  st_signing_keys :: "(bytes, bytes) dict"
  st_symmetric_keys :: "(int, bytes) dict"
  st_totals :: "(bytes, int) dict"
  st_retaining :: bool

definition empty_store :: "bool \<Rightarrow> mem_store" where
  "empty_store retain = \<lparr>st_bundles = [], st_chain_infos = [], st_claims = [], st_entries = [],
     st_identities = [], st_placements = [], st_containers = [], st_locations = [], st_removals = [],
     st_clearances = [], st_by_name = [], st_by_describing = [], st_verify_keys = [],
     st_signing_keys = [], st_symmetric_keys = [], st_totals = [], st_retaining = retain\<rparr>"

section \<open>Range scans\<close>

text \<open>\<open>irange\<close> on the dictionaries of the store; \<open>seek_last\<close> is the first key of a reversed scan.\<close>

abbreviation irange :: "ext \<Rightarrow> (bytes, 'v) dict \<Rightarrow> bytes option \<Rightarrow> bytes option \<Rightarrow> bool \<Rightarrow> bytes list" where
  "irange E d lo hi r \<equiv> x_scan_bytes E (dkeys d) lo hi r"

definition head_opt :: "'a list \<Rightarrow> 'a option" where
  "head_opt xs = (case xs of [] \<Rightarrow> None | x # _ \<Rightarrow> Some x)"

definition get_last_key :: "ext \<Rightarrow> (bytes, 'v) dict \<Rightarrow> bytes option \<Rightarrow> bytes option \<Rightarrow> bytes option" where
  "get_last_key E d lo hi = head_opt (irange E d lo hi True)"

definition FF16 :: bytes where
  "FF16 = replicate 16 255"

section \<open>Lookups used while writing\<close>

text \<open>
  \<open>_get_time_of_prior_clear\<close>: the loop over the reversed scan assigns the time of each key it visits
  and runs to the end.
\<close>

fun clear_loop :: "int \<Rightarrow> bytes list \<Rightarrow> int result" where
  "clear_loop clearance_time [] = Inr clearance_time"
| "clear_loop clearance_time (k # ks) =
    bindr (muid_from_bytes (take 16 (drop 16 k))) (\<lambda>u. clear_loop (mu_timestamp u) ks)"

definition get_time_of_prior_clear :: "ext \<Rightarrow> mem_store \<Rightarrow> muid \<Rightarrow> int \<Rightarrow> int result" where
  "get_time_of_prior_clear E st container as_of =
    bindr (mk_muid as_of 0 0) (\<lambda>as_of_muid.
      let container_bytes = muid_bytes container
      in clear_loop 0 (irange E (st_clearances st) (Some container_bytes)
           (Some (container_bytes @ muid_bytes as_of_muid)) True))"

definition get_entry_by_key ::
  "ext \<Rightarrow> mem_store \<Rightarrow> muid \<Rightarrow> middle \<Rightarrow> int \<Rightarrow> (muid \<times> entry_pb) option result" where
  "get_entry_by_key E st container key as_of =
    bindr (mk_muid as_of 0 0) (\<lambda>as_of_muid.
    bindr (get_time_of_prior_clear E st container as_of) (\<lambda>clearance_time.
    bindr (placement_bytes E (Placement container key (Muid 0 0 0) None)) (\<lambda>minimum.
    bindr (placement_bytes E (Placement container key as_of_muid None)) (\<lambda>maximum.
    case irange E (st_placements st) (Some minimum) (Some maximum) True of
      [] \<Rightarrow> Inr None
    | encoded # _ \<Rightarrow>
        bindr (dindex (st_placements st) encoded) (\<lambda>entry_muid.
        bindr (dindex (st_entries st) entry_muid) (\<lambda>builder.
        bindr (placement_from_bytes E encoded (en_behavior builder)) (\<lambda>storage.
        if mu_timestamp (pl_placer storage) < clearance_time then Inr None
        else Inr (Some (pl_placer storage, builder)))))))))"

text \<open>\<open>_get_location\<close>: the location with the greatest placement up to the given time.\<close>

definition get_location :: "ext \<Rightarrow> mem_store \<Rightarrow> muid \<Rightarrow> int \<Rightarrow> bytes option result" where
  "get_location E st entry_muid as_of =
    bindr (mk_muid as_of 0 0) (\<lambda>as_of_muid.
    case x_scan_loc E (dkeys (st_locations st)) (Some (LocationKey entry_muid (Muid 0 0 0)))
        (Some (LocationKey entry_muid as_of_muid)) True of
      [] \<Rightarrow> Inr None
    | k # _ \<Rightarrow> dindex (st_locations st) k)"

section \<open>Purging an entry\<close>

text \<open>The text that an entry of the name property gives its subject.\<close>

definition entry_name :: "ext \<Rightarrow> entry_pb \<Rightarrow> string option result" where
  "entry_name E e =
    (if has_value e \<and> has_describing e
     then bindr (decode_value E (value_of e)) (\<lambda>v. Inr (case v of UStr s \<Rightarrow> Some s | _ \<Rightarrow> None))
     else Inr None)"

definition name_key :: "string \<Rightarrow> muid \<Rightarrow> bytes" where
  "name_key name u = str_encode name @ [0] @ muid_bytes u"

definition name_property :: muid where
  "name_property = Muid (-1) (-1) PROPERTY"

definition py_pop :: "(mem_store \<Rightarrow> ('k, 'v) dict) \<Rightarrow> (('k, 'v) dict \<Rightarrow> mem_store \<Rightarrow> mem_store)
    \<Rightarrow> 'k \<Rightarrow> (mem_store, 'v) py" where
  "py_pop sel upd k = (\<lambda>s. case dpop_key k (sel s) of Inl e \<Rightarrow> (Inl e, s) | Inr (v, d) \<Rightarrow> (Inr v, upd d s))"

definition set_placements :: "(bytes, muid) dict \<Rightarrow> mem_store \<Rightarrow> mem_store" where
  "set_placements d s = s\<lparr>st_placements := d\<rparr>"

definition set_entries :: "(muid, entry_pb) dict \<Rightarrow> mem_store \<Rightarrow> mem_store" where
  "set_entries d s = s\<lparr>st_entries := d\<rparr>"

definition set_locations :: "(location_key, bytes option) dict \<Rightarrow> mem_store \<Rightarrow> mem_store" where
  "set_locations d s = s\<lparr>st_locations := d\<rparr>"

definition set_removals :: "(bytes, movement_pb option) dict \<Rightarrow> mem_store \<Rightarrow> mem_store" where
  "set_removals d s = s\<lparr>st_removals := d\<rparr>"

definition set_by_name :: "(bytes, bytes) dict \<Rightarrow> mem_store \<Rightarrow> mem_store" where
  "set_by_name d s = s\<lparr>st_by_name := d\<rparr>"

definition set_by_describing :: "(bytes, bytes) dict \<Rightarrow> mem_store \<Rightarrow> mem_store" where
  "set_by_describing d s = s\<lparr>st_by_describing := d\<rparr>"

lemmas store_setters =
  set_placements_def set_entries_def set_locations_def set_removals_def set_by_name_def
  set_by_describing_def

text \<open>
  \<open>_remove_entry\<close>. Only the first location of the entry is dropped, with the placement it names;
  a location that is \<open>None\<close> is no key of the placements.
\<close>

definition drop_first_location :: "ext \<Rightarrow> muid \<Rightarrow> (mem_store, unit) py" where
  "drop_first_location E entry_muid =
    py_bind (py_read (\<lambda>s. Inr (head_opt (x_scan_loc E (dkeys (st_locations s))
        (Some (LocationKey entry_muid (Muid 0 0 0))) None False)))) (\<lambda>first.
    case first of
      None \<Rightarrow> py_return ()
    | Some k \<Rightarrow>
        py_then (py_lift (require (lk_entry k = entry_muid) AssertionError))
       (py_bind (py_read (\<lambda>s. dindex (st_locations s) k)) (\<lambda>loc.
        py_then (case loc of
            None \<Rightarrow> py_raise KeyError
          | Some placement_key \<Rightarrow> py_then (py_pop st_placements set_placements placement_key) (py_return ()))
          (py_then (py_pop st_locations set_locations k) (py_return ())))))"

definition remove_entry :: "ext \<Rightarrow> muid \<Rightarrow> (mem_store, unit) py" where
  "remove_entry E entry_muid =
    py_bind (py_pop st_entries set_entries entry_muid) (\<lambda>builder.
    py_then (drop_first_location E entry_muid)
   (py_bind (py_lift (muid_create (CtxMuid entry_muid) (container_of builder) None)) (\<lambda>container_muid.
    py_when (container_muid = name_property)
     (py_bind (py_lift (entry_name E builder)) (\<lambda>name.
        case name of
          None \<Rightarrow> py_return ()
        | Some s \<Rightarrow> py_then (py_pop st_by_name set_by_name (name_key s entry_muid)) (py_return ()))))))"

section \<open>Adding an entry\<close>

text \<open>The running total of an accumulator; the result says whether to stop after it.\<close>

definition bump_total :: "entry_pb \<Rightarrow> muid \<Rightarrow> (mem_store, bool) py" where
  "bump_total e container =
    (if en_behavior e = ACCUMULATOR
     then py_bind (py_lift (py_int 10 (integer_text e))) (\<lambda>n.
          py_then (py_modify (\<lambda>s. s\<lparr>st_totals :=
             dput (muid_bytes container)
               ((case dget (st_totals s) (muid_bytes container) of None \<Rightarrow> 0 | Some t \<Rightarrow> t) + n) (st_totals s)\<rparr>))
          (py_read (\<lambda>s. Inr (\<not> st_retaining s))))
     else py_return False)"

text \<open>For the behaviors whose new entries replace: retire what the key held.\<close>

definition retire_previous :: "ext \<Rightarrow> int \<Rightarrow> entry_pb \<Rightarrow> placement \<Rightarrow> (mem_store, unit) py" where
  "retire_previous E now e p =
    py_when (new_entries_replace (en_behavior e))
     (py_then (py_lift (require (\<not> (case pl_middle p of MidQueue _ \<Rightarrow> True | _ \<Rightarrow> False)) AssertionError))
     (py_bind (py_read (\<lambda>s. get_entry_by_key E s (pl_container p) (pl_middle p) now)) (\<lambda>found.
        case found of
          None \<Rightarrow> py_return ()
        | Some (address, _) \<Rightarrow>
            py_bind (py_read (\<lambda>s. Inr (st_retaining s))) (\<lambda>retaining.
              if retaining
              then py_modify (\<lambda>s. s\<lparr>st_removals :=
                dput (removal_bytes (RemovalKey (pl_container p) address (pl_placer p))) None (st_removals s)\<rparr>)
              else remove_entry E address))))"

definition store_entry :: "entry_pb \<Rightarrow> placement \<Rightarrow> bytes \<Rightarrow> (mem_store, unit) py" where
  "store_entry e p encoded = py_modify (\<lambda>s. s
    \<lparr>st_entries := dput (pl_placer p) e (st_entries s),
     st_placements := dput encoded (pl_placer p) (st_placements s),
     st_locations := dput (LocationKey (pl_placer p) (pl_placer p)) (Some encoded) (st_locations s)\<rparr>)"

text \<open>The indexes by described address and by name.\<close>

definition index_describing :: "int \<Rightarrow> int \<Rightarrow> entry_pb \<Rightarrow> placement \<Rightarrow> (mem_store, unit) py" where
  "index_describing ts med e p =
    py_when (has_describing e)
     (py_bind (py_lift (muid_create (CtxInfo ts med) (describing_of e) None)) (\<lambda>d.
        py_modify (\<lambda>s. s\<lparr>st_by_describing :=
          dput (muid_bytes d @ muid_bytes (pl_placer p)) (muid_bytes (pl_container p)) (st_by_describing s)\<rparr>)))"

definition index_name :: "ext \<Rightarrow> int \<Rightarrow> int \<Rightarrow> entry_pb \<Rightarrow> placement \<Rightarrow> (mem_store, unit) py" where
  "index_name E ts med e p =
    py_when (pl_container p = name_property \<and> has_value e \<and> has_describing e)
     (py_bind (py_lift (muid_create (CtxInfo ts med) (describing_of e) None)) (\<lambda>d.
      py_bind (py_lift (entry_name E e)) (\<lambda>name.
        case name of
          None \<Rightarrow> py_return ()
        | Some s \<Rightarrow> py_modify (\<lambda>st. st\<lparr>st_by_name :=
            dput (name_key s (pl_placer p)) (muid_bytes d) (st_by_name st)\<rparr>))))"

definition unindex_deleted :: "ext \<Rightarrow> int \<Rightarrow> int \<Rightarrow> entry_pb \<Rightarrow> placement \<Rightarrow> (mem_store, unit) py" where
  "unindex_deleted E ts med e p =
    py_when (has_describing e \<and> has_deletion e)
     (py_then
       (py_when (pl_container p = name_property)
         (py_modify (\<lambda>s. case irange E (st_by_name s) (Some ([0] @ muid_bytes (pl_placer p)))
              (Some (FF16 @ [0] @ muid_bytes (pl_placer p))) True of
            [] \<Rightarrow> s
          | k # _ \<Rightarrow> s\<lparr>st_by_name := dpop k (st_by_name s)\<rparr>)))
       (py_bind (py_lift (muid_create (CtxInfo ts med) (describing_of e) None)) (\<lambda>d.
          py_then (py_pop st_by_describing set_by_describing (muid_bytes d @ muid_bytes (pl_placer p)))
            (py_return ()))))"

definition add_entry :: "ext \<Rightarrow> int \<Rightarrow> int \<Rightarrow> int \<Rightarrow> int \<Rightarrow> entry_pb \<Rightarrow> (mem_store, unit) py" where
  "add_entry E now ts med off e =
    py_bind (py_lift (placement_from_builder e ts med off)) (\<lambda>p.
    py_bind (bump_total e (pl_container p)) (\<lambda>stop.
    if stop then py_return ()
    else py_bind (py_lift (placement_bytes E p)) (\<lambda>encoded.
      py_then (retire_previous E now e p)
     (py_then (store_entry e p encoded)
     (py_then (index_describing ts med e p)
     (py_then (index_name E ts med e p)
       (unindex_deleted E ts med e p)))))))"

section \<open>Movements and clearances\<close>

definition add_clearance :: "int \<Rightarrow> int \<Rightarrow> int \<Rightarrow> clearance_pb \<Rightarrow> (mem_store, unit) py" where
  "add_clearance ts med off builder =
    py_bind (py_lift (muid_create (CtxInfo ts med) (cl_container builder) None)) (\<lambda>container_muid.
    py_bind (py_lift (muid_create (CtxInfo ts med) dummy_builder (Some off))) (\<lambda>clearance_muid.
    py_modify (\<lambda>s. s\<lparr>st_clearances :=
      dput (muid_bytes container_muid @ muid_bytes clearance_muid) builder (st_clearances s)\<rparr>)))"

text \<open>
  \<open>_add_movement\<close>: silently ignored when the entry has no location, has expired, or was placed later
  than the movement; otherwise the old placement is retired, and the entry gets a new placement or,
  when there is no destination, no location.
\<close>

definition add_movement :: "ext \<Rightarrow> int \<Rightarrow> int \<Rightarrow> int \<Rightarrow> movement_pb \<Rightarrow> (mem_store, unit) py" where
  "add_movement E ts med off builder =
    py_bind (py_lift (muid_create (CtxInfo ts med) (mv_container builder) None)) (\<lambda>container.
    py_bind (py_lift (muid_create (CtxInfo ts med) (mv_entry builder) None)) (\<lambda>entry_muid.
    py_bind (py_lift (muid_create (CtxInfo ts med) dummy_builder (Some off))) (\<lambda>movement_muid.
    let dest = mv_dest builder in
    py_bind (py_read (\<lambda>s. get_location E s entry_muid (-1))) (\<lambda>old.
    case old of
      None \<Rightarrow> py_return ()
    | Some old_serialized \<Rightarrow>
        if old_serialized = [] then py_return () else
        py_bind (py_lift (placement_from_bytes E old_serialized SEQUENCE)) (\<lambda>old_key.
        let expired = (case pl_expiry old_key of None \<Rightarrow> False
                       | Some x \<Rightarrow> x \<noteq> 0 \<and> x < mu_timestamp movement_muid)
        in if expired then py_return ()
        else if mu_timestamp movement_muid < mu_timestamp (pl_placer old_key) then py_return ()
        else py_then (py_modify (\<lambda>s. s\<lparr>st_removals :=
               dput (removal_bytes (RemovalKey container (pl_placer old_key) movement_muid)) (Some builder)
                 (st_removals s)\<rparr>))
          (let new_location_key = LocationKey entry_muid movement_muid in
           if dest \<noteq> 0
           then py_bind (py_lift (placement_bytes E
                    (Placement container (MidQueue dest) movement_muid (pl_expiry old_key)))) (\<lambda>esk.
                py_bind (py_read (\<lambda>s. dindex (st_placements s) old_serialized)) (\<lambda>placed.
                py_modify (\<lambda>s. s
                  \<lparr>st_placements := dput esk placed (st_placements s),
                   st_locations := dput new_location_key (Some esk) (st_locations s)\<rparr>)))
           else py_modify (\<lambda>s. s\<lparr>st_locations := dput new_location_key None (st_locations s)\<rparr>)))))))"

section \<open>Applying a bundle\<close>

text \<open>One change of a bundle, at its position in the bundle.\<close>

fun apply_change :: "ext \<Rightarrow> int \<Rightarrow> int \<Rightarrow> int \<Rightarrow> int \<Rightarrow> change_pb \<Rightarrow> (mem_store, unit) py" where
  "apply_change E now ts med off (ChContainer behavior) =
    py_bind (py_lift (muid_create (CtxInfo ts med) dummy_builder (Some off))) (\<lambda>u.
      py_modify (\<lambda>s. s\<lparr>st_containers := dput u behavior (st_containers s)\<rparr>))"
| "apply_change E now ts med off (ChEntry e) =
    py_bind (py_lift (mk_muid (pb_timestamp (container_of e)) (pb_medallion (container_of e))
        (pb_offset (container_of e)))) (\<lambda>u.
    py_then (py_modify (\<lambda>s.
        if mu_timestamp u \<noteq> -1 \<and> dget (st_containers s) u = None
        then s\<lparr>st_containers := dput u (en_behavior e) (st_containers s)\<rparr> else s))
      (add_entry E now ts med off e))"
| "apply_change E now ts med off (ChMovement m) = add_movement E ts med off m"
| "apply_change E now ts med off (ChClearance c) = add_clearance ts med off c"
| "apply_change E now ts med off ChUnset = py_raise ValueError"

text \<open>The loop over the changes, numbered from 1; \<open>now\<close> gives the clock at each.\<close>

fun apply_changes :: "ext \<Rightarrow> (int \<Rightarrow> int) \<Rightarrow> int \<Rightarrow> int \<Rightarrow> int \<Rightarrow> change_pb list \<Rightarrow> (mem_store, unit) py" where
  "apply_changes E now ts med off [] = py_return ()"
| "apply_changes E now ts med off (c # cs) =
    py_then (apply_change E (now off) ts med off c) (apply_changes E now ts med (off + 1) cs)"

text \<open>The verify key of the bundle's chain: from its first bundle, or as stored then.\<close>

definition chain_verify_key :: "ext \<Rightarrow> bundle_pb \<Rightarrow> bundle_info \<Rightarrow> bundle_info option \<Rightarrow> (mem_store, bytes) py" where
  "chain_verify_key E builder new_info old_info =
    (if bi_chain_start new_info = bi_timestamp new_info
     then py_then (py_modify (\<lambda>s. s\<lparr>st_identities :=
            dput (get_chain new_info) (bn_identity builder) (st_identities s)\<rparr>))
         (py_bind (py_lift (x_load_verify_key E (bn_verify_key builder))) (\<lambda>vk.
          py_then (py_modify (\<lambda>s. s\<lparr>st_verify_keys := dput (get_chain new_info) vk (st_verify_keys s)\<rparr>))
            (py_return vk)))
     else py_bind (py_read (\<lambda>s. dindex (st_verify_keys s) (get_chain new_info))) (\<lambda>vk.
          case old_info of
            None \<Rightarrow> py_raise AssertionError
          | Some old \<Rightarrow>
              (case bi_hex_hash old of
                None \<Rightarrow> py_raise AssertionError
              | Some h \<Rightarrow>
                  py_bind (py_lift (bytes_fromhex h)) (\<lambda>prior.
                    if bn_prior_hash builder \<noteq> prior then py_raise ValueError else py_return vk))))"

text \<open>The changes of a bundle, decrypted when they are encrypted.\<close>

definition plain_builder :: "ext \<Rightarrow> bundle_pb \<Rightarrow> (mem_store, bundle_pb) py" where
  "plain_builder E builder =
    (if bn_encrypted builder = [] then py_return builder
     else if bn_changes builder \<noteq> [] then py_raise ValueError
     else if bn_key_id builder = 0 then py_raise ValueError
     else py_bind (py_read (\<lambda>s. dindex (st_symmetric_keys s) (bn_key_id builder))) (\<lambda>key.
          if key = [] then py_raise KeyError
          else py_lift (bindr (x_decrypt E key (bn_encrypted builder)) (\<lambda>plain. x_bundle_parse E plain))))"

definition record_bundle :: "bundle_info \<Rightarrow> bytes \<Rightarrow> (mem_store, unit) py" where
  "record_bundle new_info bundle_bytes = py_modify (\<lambda>s. s
    \<lparr>st_bundles := dput (essential new_info) (new_info, bundle_bytes) (st_bundles s),
     st_chain_infos := dput (get_chain new_info) new_info (st_chain_infos s)\<rparr>)"

definition apply_bundle :: "ext \<Rightarrow> (int \<Rightarrow> int) \<Rightarrow> bytes \<Rightarrow> (mem_store, bool) py" where
  "apply_bundle E now bundle_bytes =
    py_bind (py_lift (get_builder E bundle_bytes)) (\<lambda>builder.
    py_bind (py_lift (get_info E bundle_bytes)) (\<lambda>new_info.
    py_bind (py_read (\<lambda>s. Inr (dget (st_chain_infos s) (get_chain new_info)))) (\<lambda>old_info.
    py_bind (py_lift (is_needed new_info old_info)) (\<lambda>needed.
    if \<not> needed then py_return False
    else
      py_bind (chain_verify_key E builder new_info old_info) (\<lambda>verify_key.
      py_then (py_lift (x_verify E verify_key bundle_bytes))
     (py_then (record_bundle new_info bundle_bytes)
     (py_bind (plain_builder E builder) (\<lambda>plain.
      py_then (apply_changes E now (bi_timestamp new_info) (bi_medallion new_info) 1 (bn_changes plain))
        (py_return True)))))))))"

end
