(* ===== verification/Mem_Queries.thy ===== *)
theory Mem_Queries
  imports Mem_Store
begin

text \<open>
  The reading operations of \<open>MemoryStore\<close> beyond the lookup by key, its key and claim tables, and the
  dropping of history. A generator of the code is the list of what it yields; an exception inside one
  is an exception of the whole.
\<close>

section \<open>Chains, identities and bundles\<close>

definition get_chains :: "ext \<Rightarrow> mem_store \<Rightarrow> chain list" where
  "get_chains E st = x_scan_chain E (dkeys (st_chain_infos st)) None None False"

definition get_last :: "mem_store \<Rightarrow> chain \<Rightarrow> bundle_info result" where
  "get_last st c = dindex (st_chain_infos st) c"

definition get_identity :: "mem_store \<Rightarrow> chain \<Rightarrow> string result" where
  "get_identity st c = dindex (st_identities st) c"

definition find_chain :: "ext \<Rightarrow> mem_store \<Rightarrow> int \<Rightarrow> int \<Rightarrow> chain result" where
  "find_chain E st medallion timestamp =
    (case List.find (\<lambda>c. ch_medallion c = medallion \<and> ch_start c \<le> timestamp)
        (x_scan_chain E (dkeys (st_identities st)) (Some (Chain medallion 0)) (Some (Chain (medallion + 1) 0)) True) of
      Some c \<Rightarrow> Inr c
    | None \<Rightarrow> Inl ValueError)"

text \<open>The bundle with the given time and medallion, when it is the first at or after that point.\<close>

definition bundle_at :: "ext \<Rightarrow> mem_store \<Rightarrow> int \<Rightarrow> int \<Rightarrow> (bundle_info \<times> bytes) option" where
  "bundle_at E st timestamp medallion =
    (case x_scan_ints E (dkeys (st_bundles st)) (Some [timestamp, medallion, 0]) None False of
      [] \<Rightarrow> None
    | k # _ \<Rightarrow>
        (case dget (st_bundles st) k of
          None \<Rightarrow> None
        | Some (i, b) \<Rightarrow> if bi_timestamp i = timestamp \<and> bi_medallion i = medallion then Some (i, b) else None))"

definition get_comment :: "ext \<Rightarrow> mem_store \<Rightarrow> int \<Rightarrow> int \<Rightarrow> string option" where
  "get_comment E st medallion timestamp =
    (case bundle_at E st timestamp medallion of None \<Rightarrow> None | Some (i, _) \<Rightarrow> bi_comment i)"

definition get_one_bundle :: "ext \<Rightarrow> mem_store \<Rightarrow> int \<Rightarrow> int \<Rightarrow> bytes option" where
  "get_one_bundle E st timestamp medallion = map_option snd (bundle_at E st timestamp medallion)"

text \<open>How far into a chain to go: a time, or without limit.\<close>

datatype limit = Upto int | Unlimited

fun within :: "int \<Rightarrow> limit \<Rightarrow> bool" where
  "within t (Upto n) = (t \<le> n)"
| "within t Unlimited = True"

definition limit_allows :: "(chain, limit) dict option \<Rightarrow> bundle_info \<Rightarrow> bool" where
  "limit_allows limit_to i =
    (case limit_to of
      None \<Rightarrow> True
    | Some d \<Rightarrow> within (bi_timestamp i) (case dget d (get_chain i) of None \<Rightarrow> Upto 0 | Some l \<Rightarrow> l))"

text \<open>The bundles that \<open>get_bundles\<close> hands to its callback, in the order it does.\<close>

definition get_bundles :: "ext \<Rightarrow> mem_store \<Rightarrow> (chain, limit) dict option \<Rightarrow> bytes list" where
  "get_bundles E st limit_to =
    concat (map (\<lambda>k. case dget (st_bundles st) k of
        Some (i, b) \<Rightarrow> if limit_allows limit_to i then [b] else []
      | None \<Rightarrow> [])
      (x_scan_ints E (dkeys (st_bundles st)) (Some [0, 0, 0]) None False))"

definition get_has_map :: "ext \<Rightarrow> mem_store \<Rightarrow> chain list option \<Rightarrow> has_map" where
  "get_has_map E st limit_to =
    (let full = foldl mark_as_having []
        (concat (map (\<lambda>c. case dget (st_chain_infos st) c of Some i \<Rightarrow> [i] | None \<Rightarrow> []) (get_chains E st)))
     in case limit_to of None \<Rightarrow> full | Some cs \<Rightarrow> get_subset full cs)"

section \<open>Containers, entries, keys and claims\<close>

definition get_container :: "mem_store \<Rightarrow> muid \<Rightarrow> int option" where
  "get_container st u = dget (st_containers st) u"

definition list_containers :: "ext \<Rightarrow> mem_store \<Rightarrow> (muid \<times> int) list" where
  "list_containers E st =
    concat (map (\<lambda>u. case dget (st_containers st) u of Some b \<Rightarrow> [(u, b)] | None \<Rightarrow> [])
      (x_scan_muid E (dkeys (st_containers st)) None None False))"

definition get_entry :: "mem_store \<Rightarrow> muid \<Rightarrow> entry_pb option" where
  "get_entry st u = dget (st_entries st) u"

definition save_symmetric_key :: "ext \<Rightarrow> bytes \<Rightarrow> (mem_store, int) py" where
  "save_symmetric_key E key =
    (if length key \<noteq> 32 then py_raise ValueError
     else py_bind (py_lift (shorter_hash E key)) (\<lambda>key_id.
       py_then (py_modify (\<lambda>s. s\<lparr>st_symmetric_keys := dput key_id key (st_symmetric_keys s)\<rparr>))
         (py_return key_id)))"

datatype key_selector = ByKeyId int | ByChain chain | AnyKey

definition get_symmetric_key :: "mem_store \<Rightarrow> key_selector \<Rightarrow> bytes option result" where
  "get_symmetric_key st sel =
    (case sel of
      ByChain _ \<Rightarrow> Inl NotImplementedError
    | AnyKey \<Rightarrow> Inr (map_option snd (head_opt (st_symmetric_keys st)))
    | ByKeyId n \<Rightarrow> bindr (dindex (st_symmetric_keys st) n) (\<lambda>k. Inr (Some k)))"

definition save_signing_key :: "ext \<Rightarrow> bytes \<Rightarrow> (mem_store, unit) py" where
  "save_signing_key E signing_key =
    py_modify (\<lambda>s. s\<lparr>st_signing_keys := dput (x_verify_key E signing_key) signing_key (st_signing_keys s)\<rparr>)"

definition get_signing_key :: "mem_store \<Rightarrow> bytes \<Rightarrow> bytes result" where
  "get_signing_key st verify_key = dindex (st_signing_keys st) verify_key"

definition get_verify_key :: "mem_store \<Rightarrow> chain \<Rightarrow> bytes result" where
  "get_verify_key st c = dindex (st_verify_keys st) c"

definition create_claim :: "int \<Rightarrow> int \<Rightarrow> chain \<Rightarrow> claim" where
  "create_claim now process_id c =
    \<lparr>cm_medallion = ch_medallion c, cm_chain_start = ch_start c, cm_process_id = process_id, cm_claim_time = now\<rparr>"

definition add_claim :: "int \<Rightarrow> int \<Rightarrow> chain \<Rightarrow> (mem_store, claim) py" where
  "add_claim now process_id c =
    py_then (py_modify (\<lambda>s. s\<lparr>st_claims := dput (ch_medallion c) (create_claim now process_id c) (st_claims s)\<rparr>))
      (py_return (create_claim now process_id c))"

section \<open>Accumulators\<close>

fun sum_billionths :: "mem_store \<Rightarrow> bytes list \<Rightarrow> int result" where
  "sum_billionths st [] = Inr 0"
| "sum_billionths st (b # bs) =
    bindr (dindex (st_placements st) b) (\<lambda>entry_key.
    bindr (dindex (st_entries st) entry_key) (\<lambda>e.
    bindr (require (en_behavior e = ACCUMULATOR) AssertionError) (\<lambda>_.
    bindr (py_int 10 (integer_text e)) (\<lambda>n.
    bindr (sum_billionths st bs) (\<lambda>rest. Inr (n + rest))))))"

definition get_billionths :: "ext \<Rightarrow> mem_store \<Rightarrow> muid \<Rightarrow> int \<Rightarrow> int result" where
  "get_billionths E st accumulator as_of =
    (if as_of = -1
     then Inr (case dget (st_totals st) (muid_bytes accumulator) of None \<Rightarrow> 0 | Some t \<Rightarrow> t)
     else bindr (mk_muid as_of (-1) (-1)) (\<lambda>hi.
       bindr (placement_bytes E (Placement accumulator MidNone (Muid 0 0 0) None)) (\<lambda>minimum.
       bindr (placement_bytes E (Placement accumulator MidNone hi None)) (\<lambda>maximum.
         sum_billionths st (irange E (st_placements st) (Some minimum) (Some maximum) False)))))"

section \<open>Keyed containers\<close>

text \<open>
  The loop of \<open>get_keyed_entries\<close>. The middle that was handled last starts as Python's \<open>None\<close>, which
  is also the middle of boxes, vertices and accumulators.
\<close>

fun keyed_loop ::
  "ext \<Rightarrow> mem_store \<Rightarrow> int \<Rightarrow> int \<Rightarrow> int \<Rightarrow> middle \<Rightarrow> bytes list \<Rightarrow> (muid \<times> entry_pb) list result" where
  "keyed_loop E st behavior as_of clearance_time last_middle [] = Inr []"
| "keyed_loop E st behavior as_of clearance_time last_middle (b # bs) =
    bindr (placement_from_bytes E b behavior) (\<lambda>p.
      let ts = mu_timestamp (pl_placer p) in
      if as_of \<le> ts \<and> 0 < as_of then keyed_loop E st behavior as_of clearance_time last_middle bs
      else if pl_middle p = last_middle then keyed_loop E st behavior as_of clearance_time last_middle bs
      else if clearance_time \<noteq> 0 \<and> ts < clearance_time
      then keyed_loop E st behavior as_of clearance_time (pl_middle p) bs
      else if (case pl_expiry p of None \<Rightarrow> False | Some x \<Rightarrow> x \<noteq> 0 \<and> x < as_of)
      then keyed_loop E st behavior as_of clearance_time (pl_middle p) bs
      else bindr (dindex (st_placements st) b) (\<lambda>u.
        bindr (dindex (st_entries st) u) (\<lambda>e.
        bindr (keyed_loop E st behavior as_of clearance_time (pl_middle p) bs) (\<lambda>rest.
          Inr ((pl_placer p, e) # rest)))))"

definition get_keyed_entries :: "ext \<Rightarrow> mem_store \<Rightarrow> muid \<Rightarrow> int \<Rightarrow> int \<Rightarrow> (muid \<times> entry_pb) list result" where
  "get_keyed_entries E st container behavior as_of =
    bindr (get_time_of_prior_clear E st container as_of) (\<lambda>clearance_time.
      keyed_loop E st behavior as_of clearance_time MidNone
        (irange E (st_placements st) (Some (muid_bytes container)) (Some (muid_bytes container @ FF16)) True))"

section \<open>Sequences and edges\<close>

definition get_last_removal_before_placer :: "ext \<Rightarrow> mem_store \<Rightarrow> muid \<Rightarrow> muid \<Rightarrow> bytes option" where
  "get_last_removal_before_placer E st container placer =
    (let p = muid_bytes container @ muid_bytes placer
     in head_opt (irange E (st_removals st) (Some p) (Some (p @ FF16)) True))"

record positioned_entry =
  pe_position :: int
  pe_positioner :: muid
  pe_entry_muid :: muid
  pe_builder :: entry_pb

text \<open>Whether the entry was moved away or removed before the time asked for.\<close>

definition removed_before :: "ext \<Rightarrow> mem_store \<Rightarrow> muid \<Rightarrow> muid \<Rightarrow> int \<Rightarrow> bool result" where
  "removed_before E st container placer as_of =
    (case get_last_removal_before_placer E st container placer of
      None \<Rightarrow> Inr False
    | Some r \<Rightarrow> bindr (muid_from_bytes (drop 32 r)) (\<lambda>m. Inr (mu_timestamp m < as_of)))"

fun ordered_loop ::
  "ext \<Rightarrow> mem_store \<Rightarrow> muid \<Rightarrow> int \<Rightarrow> int \<Rightarrow> int option \<Rightarrow> int \<Rightarrow> bytes list \<Rightarrow> positioned_entry list result" where
  "ordered_loop E st container as_of clearance_time limit off [] = Inr []"
| "ordered_loop E st container as_of clearance_time limit off (b # bs) =
    (if (case limit of None \<Rightarrow> False | Some n \<Rightarrow> n \<le> 0) then Inr []
     else case dget (st_placements st) b of
       None \<Rightarrow> Inl AssertionError
     | Some u \<Rightarrow>
         bindr (dindex (st_entries st) u) (\<lambda>e.
         bindr (placement_from_bytes E b SEQUENCE) (\<lambda>p.
           let placed = mu_timestamp (pl_placer p);
               go = (\<lambda>lim o'. ordered_loop E st container as_of clearance_time lim o' bs) in
           if as_of \<le> placed \<or> placed < clearance_time then go limit off
           else if (case pl_expiry p of None \<Rightarrow> False | Some x \<Rightarrow> x \<noteq> 0 \<and> x < as_of) then go limit off
           else bindr (removed_before E st container (pl_placer p) as_of) (\<lambda>gone.
             if gone then go limit off
             else if 0 < off then go limit (off - 1)
             else case pl_middle p of
               MidQueue t \<Rightarrow>
                 bindr (go (map_option (\<lambda>n. n - 1) limit) off) (\<lambda>rest.
                   Inr (\<lparr>pe_position = t, pe_positioner = pl_placer p, pe_entry_muid = u, pe_builder = e\<rparr> # rest))
             | _ \<Rightarrow> Inl AssertionError))))"

definition get_ordered_entries ::
  "ext \<Rightarrow> mem_store \<Rightarrow> muid \<Rightarrow> int \<Rightarrow> int option \<Rightarrow> int \<Rightarrow> bool \<Rightarrow> int \<Rightarrow> positioned_entry list result" where
  "get_ordered_entries E st container as_of limit off desc after =
    bindr (get_time_of_prior_clear E st container as_of) (\<lambda>clearance_time.
    bindr (encode_muts (Some after)) (\<lambda>after_bytes.
    bindr (encode_muts (Some as_of)) (\<lambda>before_bytes.
      ordered_loop E st container as_of clearance_time limit off
        (irange E (st_placements st) (Some (muid_bytes container @ after_bytes))
          (Some (muid_bytes container @ before_bytes)) desc))))"

definition get_positioned_entry :: "ext \<Rightarrow> mem_store \<Rightarrow> muid \<Rightarrow> int \<Rightarrow> positioned_entry option result" where
  "get_positioned_entry E st entry as_of =
    bindr (get_location E st entry as_of) (\<lambda>loc.
      case loc of
        None \<Rightarrow> Inr None
      | Some location \<Rightarrow>
          bindr (dindex (st_placements st) location) (\<lambda>u.
          bindr (dindex (st_entries st) u) (\<lambda>e.
          bindr (placement_from_bytes E location (en_behavior e)) (\<lambda>p.
            case pl_middle p of
              MidQueue t \<Rightarrow> Inr (Some \<lparr>pe_position = t, pe_positioner = pl_placer p,
                                       pe_entry_muid = pl_placer p, pe_builder = e\<rparr>)
            | _ \<Rightarrow> Inl AssertionError))))"

text \<open>\<open>get_edge_entries\<close>: the edges of a type that no removal hides, by source and target.\<close>

definition endpoint_differs :: "muid option \<Rightarrow> muid_pb \<Rightarrow> muid \<Rightarrow> bool result" where
  "endpoint_differs wanted pb entry_muid =
    (case wanted of
      None \<Rightarrow> Inr False
    | Some w \<Rightarrow> bindr (muid_create (CtxMuid entry_muid) pb None) (\<lambda>u. Inr (w \<noteq> u)))"

fun edge_loop ::
  "ext \<Rightarrow> mem_store \<Rightarrow> bytes \<Rightarrow> int \<Rightarrow> muid option \<Rightarrow> muid option \<Rightarrow> bytes list \<Rightarrow> (muid \<times> entry_pb) list result" where
  "edge_loop E st edge_type_bytes as_of source target [] = Inr []"
| "edge_loop E st edge_type_bytes as_of source target (b # bs) =
    (if take (length edge_type_bytes) b \<noteq> edge_type_bytes then Inr []
     else bindr (placement_from_bytes E b EDGE_TYPE) (\<lambda>p.
       if as_of < mu_timestamp (pl_placer p) then edge_loop E st edge_type_bytes as_of source target bs
       else bindr (dindex (st_placements st) b) (\<lambda>u.
         bindr (dindex (st_entries st) u) (\<lambda>e.
         case get_last_removal_before_placer E st (pl_container p) (pl_placer p) of
           Some _ \<Rightarrow> edge_loop E st edge_type_bytes as_of source target bs
         | None \<Rightarrow>
             bindr (endpoint_differs source (pair_left e) u) (\<lambda>sd.
             if sd then edge_loop E st edge_type_bytes as_of source target bs
             else bindr (endpoint_differs target (pair_rite e) u) (\<lambda>td.
               if td then edge_loop E st edge_type_bytes as_of source target bs
               else bindr (edge_loop E st edge_type_bytes as_of source target bs) (\<lambda>rest.
                 Inr ((u, e) # rest))))))))"

definition get_edge_entries ::
  "ext \<Rightarrow> mem_store \<Rightarrow> int \<Rightarrow> muid option \<Rightarrow> muid option \<Rightarrow> muid option \<Rightarrow> (muid \<times> entry_pb) list result" where
  "get_edge_entries E st as_of edge_type source target =
    (case edge_type of
      None \<Rightarrow> Inl NotImplementedError
    | Some t \<Rightarrow> edge_loop E st (muid_bytes t) as_of source target
        (irange E (st_placements st) (Some (muid_bytes t)) None False))"

section \<open>Names and descriptions\<close>

definition last16 :: "bytes \<Rightarrow> bytes" where
  "last16 bs = drop (length bs - 16) bs"

fun name_loop :: "mem_store \<Rightarrow> int \<Rightarrow> bytes list \<Rightarrow> (muid \<times> int) list result" where
  "name_loop st clearance_time [] = Inr []"
| "name_loop st clearance_time (k # ks) =
    bindr (dindex (st_by_name st) k) (\<lambda>d.
    bindr (muid_from_bytes d) (\<lambda>describing.
    bindr (if mu_timestamp describing = -1 then Inr (mu_offset describing)
           else dindex (st_containers st) describing) (\<lambda>behavior.
    bindr (muid_from_bytes (last16 k)) (\<lambda>entry_muid.
    bindr (name_loop st clearance_time ks) (\<lambda>rest.
      Inr (if mu_timestamp entry_muid < clearance_time then rest else (describing, behavior) # rest))))))"

definition get_by_name :: "ext \<Rightarrow> mem_store \<Rightarrow> string \<Rightarrow> int \<Rightarrow> (muid \<times> int) list result" where
  "get_by_name E st name as_of =
    bindr (mk_muid as_of (-1) (-1)) (\<lambda>as_of_muid.
    bindr (get_time_of_prior_clear E st name_property as_of) (\<lambda>clearance_time.
      name_loop st clearance_time
        (irange E (st_by_name st) (Some (str_encode name @ [0]))
          (Some (str_encode name @ [0] @ muid_bytes as_of_muid @ FF16)) True)))"

fun describing_loop :: "ext \<Rightarrow> mem_store \<Rightarrow> bytes \<Rightarrow> int \<Rightarrow> bytes list \<Rightarrow> (muid \<times> entry_pb) list result" where
  "describing_loop E st lowest as_of [] = Inr []"
| "describing_loop E st lowest as_of (k # ks) =
    (if \<not> sublist lowest k then Inr []
     else bindr (dindex (st_by_describing st) k) (\<lambda>c.
       bindr (muid_from_bytes c) (\<lambda>container.
       bindr (get_time_of_prior_clear E st container as_of) (\<lambda>clearance_time.
       bindr (muid_from_bytes (last16 k)) (\<lambda>entry_muid.
       bindr (dindex (st_entries st) entry_muid) (\<lambda>e.
       bindr (describing_loop E st lowest as_of ks) (\<lambda>rest.
         Inr (if mu_timestamp entry_muid < clearance_time then rest else (entry_muid, e) # rest))))))))"

definition get_by_describing :: "ext \<Rightarrow> mem_store \<Rightarrow> muid \<Rightarrow> int \<Rightarrow> (muid \<times> entry_pb) list result" where
  "get_by_describing E st desc as_of =
    bindr (mk_muid as_of (-1) (-1)) (\<lambda>as_of_muid.
      describing_loop E st (muid_bytes desc) as_of
        (irange E (st_by_describing st) (Some (muid_bytes desc))
          (Some (muid_bytes desc @ muid_bytes as_of_muid)) True))"

section \<open>Several items of a class\<close>

datatype some_class = ClsBundle | ClsEntry | ClsMovement | ClsInfo | ClsPlacement | ClsRemoval | ClsLocation

datatype some_item =
    ItInfo bundle_info
  | ItRemoval removal_key
  | ItLocation location_key
  | ItMovement "movement_pb option"

text \<open>
  The tables are not uniform: entries are kept in a plain dictionary (no scan), bundles are not
  protobuf messages, and a placement cannot be parsed without its behavior.
\<close>

definition some_items :: "ext \<Rightarrow> mem_store \<Rightarrow> some_class \<Rightarrow> bool \<Rightarrow> nat \<Rightarrow> some_item list result" where
  "some_items E st cls descending n =
    (case cls of
       ClsEntry \<Rightarrow> Inl AttributeError
     | ClsInfo \<Rightarrow> mapr (\<lambda>k. bindr (dindex (st_bundles st) k) (\<lambda>(i, _). Inr (ItInfo i)))
         (take n (x_scan_ints E (dkeys (st_bundles st)) None None descending))
     | ClsBundle \<Rightarrow> (case take n (x_scan_ints E (dkeys (st_bundles st)) None None descending) of
         [] \<Rightarrow> Inr [] | _ \<Rightarrow> Inl AssertionError)
     | ClsPlacement \<Rightarrow> (case take n (irange E (st_placements st) None None descending) of
         [] \<Rightarrow> Inr [] | _ \<Rightarrow> Inl TypeError)
     | ClsRemoval \<Rightarrow> mapr (\<lambda>k. bindr (removal_from_bytes k) (\<lambda>r. Inr (ItRemoval r)))
         (take n (irange E (st_removals st) None None descending))
     | ClsLocation \<Rightarrow> Inr (map ItLocation (take n (x_scan_loc E (dkeys (st_locations st)) None None descending)))
     | ClsMovement \<Rightarrow> mapr (\<lambda>k. bindr (dindex (st_removals st) k) (\<lambda>m. Inr (ItMovement m)))
         (take n (irange E (st_removals st) None None descending)))"

definition index_count :: "int \<Rightarrow> nat" where
  "index_count index = nat ((if 0 \<le> index then index else NOT index) + 1)"

definition get_some :: "ext \<Rightarrow> mem_store \<Rightarrow> some_class \<Rightarrow> int option \<Rightarrow> some_item list result" where
  "get_some E st cls last_index =
    (let i = (case last_index of None \<Rightarrow> 2 ^ 52 | Some n \<Rightarrow> n)
     in some_items E st cls (i < 0) (index_count i))"

definition get_one :: "ext \<Rightarrow> mem_store \<Rightarrow> some_class \<Rightarrow> int \<Rightarrow> some_item option result" where
  "get_one E st cls index =
    bindr (get_some E st cls (Some index)) (\<lambda>items.
      Inr (if length items = index_count index then Some (last items) else None))"

section \<open>History\<close>

text \<open>\<open>drop_history\<close> up to a resolved time: the loop over a copy of the removal keys, in order.\<close>

fun drop_loop :: "ext \<Rightarrow> int \<Rightarrow> bytes list \<Rightarrow> (mem_store, unit) py" where
  "drop_loop E as_of [] = py_return ()"
| "drop_loop E as_of (key # keys) =
    py_bind (py_lift (removal_from_bytes key)) (\<lambda>removal.
      if as_of < mu_timestamp (rk_movement removal) then py_return ()
      else py_then (remove_entry E (rk_removing removal))
        (py_then (py_then (py_pop st_removals set_removals key) (py_return ()))
          (drop_loop E as_of keys)))"

definition drop_history :: "ext \<Rightarrow> int \<Rightarrow> (mem_store, unit) py" where
  "drop_history E as_of =
    py_bind (py_read (\<lambda>s. Inr (irange E (st_removals s) None None False))) (drop_loop E as_of)"

definition start_history :: "(mem_store, unit) py" where
  "start_history = py_modify (\<lambda>s. s\<lparr>st_retaining := True\<rparr>)"

definition stop_history :: "ext \<Rightarrow> int \<Rightarrow> (mem_store, unit) py" where
  "stop_history E now =
    py_then (py_modify (\<lambda>s. s\<lparr>st_retaining := False\<rparr>)) (drop_history E now)"

end
