(* ===== verification/Relay.thy ===== *)
theory Relay
  imports Connections Mem_Queries
begin

text \<open>
  \<open>python/gink/impl/relay.py\<close>: the server that keeps a store and its peers in step. The relay is a
  record scheme, since \<open>Database\<close> extends it; \<open>_on_bundle\<close>, which the database overrides, is an
  argument (\<open>hook\<close>) of the operations that call it. Registered callbacks are numbered, and
  \<open>rl_called\<close> is the log of their calls. The connections are those of the memory-resident set, by an
  identity that stands for \<open>id(connection)\<close>.
\<close>

record relay =
  rl_store :: mem_store
  rl_conns :: "(nat, connection) dict"
  rl_not_acked :: "bundle_info list"
  rl_callbacks :: "nat list"
  rl_called :: "(nat \<times> bytes) list"

definition new_relay :: "mem_store \<Rightarrow> relay" where
  "new_relay st = \<lparr>rl_store = st, rl_conns = [], rl_not_acked = [], rl_callbacks = [], rl_called = []\<rparr>"

definition in_store :: "(mem_store, 'a) py \<Rightarrow> ('r relay_scheme, 'a) py" where
  "in_store m = py_zoom rl_store (\<lambda>s r. r\<lparr>rl_store := s\<rparr>) m"

text \<open>A method call on the connection with the given identity.\<close>

definition at_conn :: "nat \<Rightarrow> (connection, 'a) py \<Rightarrow> ('r relay_scheme, 'a) py" where
  "at_conn n m = (\<lambda>r. case dget (rl_conns r) n of
      None \<Rightarrow> (Inl KeyError, r)
    | Some c \<Rightarrow> (case m c of (x, c') \<Rightarrow> (x, r\<lparr>rl_conns := dput n c' (rl_conns r)\<rparr>)))"

definition add_callback :: "nat \<Rightarrow> ('r relay_scheme, unit) py" where
  "add_callback k = py_modify (\<lambda>r. r\<lparr>rl_callbacks := rl_callbacks r @ [k]\<rparr>)"

definition call_back :: "bytes \<Rightarrow> nat \<Rightarrow> ('r relay_scheme, unit) py" where
  "call_back b k = py_modify (\<lambda>r. r\<lparr>rl_called := rl_called r @ [(k, b)]\<rparr>)"

section \<open>Bundles\<close>

text \<open>\<open>_on_bundle\<close>: to every peer, then to every callback.\<close>

definition relay_on_bundle :: "ext \<Rightarrow> bytes \<Rightarrow> ('r relay_scheme, unit) py" where
  "relay_on_bundle E b =
    py_bind (py_read (\<lambda>r. Inr (dkeys (rl_conns r)))) (\<lambda>peers.
    py_then (py_each (\<lambda>n. at_conn n (send_bundle E b)) peers)
      (py_bind (py_read (\<lambda>r. Inr (rl_callbacks r))) (\<lambda>ks. py_each (call_back b) ks)))"

text \<open>\<open>apply_bundle\<close> of the store, which calls back for a bundle that it added.\<close>

definition store_apply :: "ext \<Rightarrow> (int \<Rightarrow> int) \<Rightarrow> (bytes \<Rightarrow> ('r relay_scheme, unit) py) \<Rightarrow> bytes \<Rightarrow> ('r relay_scheme, bool) py" where
  "store_apply E now hook b =
    py_bind (in_store (apply_bundle E now b)) (\<lambda>needed.
      py_then (py_when needed (hook b)) (py_return needed))"

definition relay_receive :: "ext \<Rightarrow> (int \<Rightarrow> int) \<Rightarrow> (bytes \<Rightarrow> ('r relay_scheme, unit) py) \<Rightarrow> bytes \<Rightarrow> ('r relay_scheme, bool) py" where
  "relay_receive E now hook b =
    py_then (py_lift (bindr (get_builder E b) validate_bundle)) (store_apply E now hook b)"

section \<open>Connections\<close>

definition relay_greeting :: "ext \<Rightarrow> 'r relay_scheme \<Rightarrow> sync_message" where
  "relay_greeting E r = to_greeting_message E (get_has_map E (rl_store r) None)"

text \<open>What a peer sent: a bundle, its greeting, or an acknowledgement.\<close>

definition handle_thing ::
  "ext \<Rightarrow> (int \<Rightarrow> int) \<Rightarrow> (bytes \<Rightarrow> ('r relay_scheme, unit) py) \<Rightarrow> nat \<Rightarrow> thing \<Rightarrow> ('r relay_scheme, unit) py" where
  "handle_thing E now hook n t =
    (case t of
      ThBundle b \<Rightarrow>
        py_then (relay_receive E now hook b)
          (py_bind (py_lift (get_info E b)) (\<lambda>info. at_conn n (conn_send E (as_acknowledgement info))))
    | ThGreeting h \<Rightarrow>
        py_bind (py_read (\<lambda>r. Inr (get_bundles E (rl_store r) None))) (\<lambda>bs.
          py_then (at_conn n (py_each (send_bundle E) bs))
            (at_conn n (conn_send E (MsgSignal SIGNAL_INITIAL_BUNDLES_SENT))))
    | ThAck i \<Rightarrow> py_modify (\<lambda>r. r\<lparr>rl_not_acked := List.filter (\<lambda>j. \<not> info_eq j i) (rl_not_acked r)\<rparr>))"

text \<open>One event of the websocket, up to the handling of what it completes.\<close>

definition relay_event ::
  "ext \<Rightarrow> (int \<Rightarrow> int) \<Rightarrow> (bytes \<Rightarrow> ('r relay_scheme, unit) py) \<Rightarrow> nat \<Rightarrow> ws_event \<Rightarrow> ('r relay_scheme, unit) py" where
  "relay_event E now hook n ev =
    py_bind (py_read (\<lambda>r. Inr (relay_greeting E r))) (\<lambda>greeting.
    py_bind (at_conn n (conn_event E (Some (Inr greeting)) ev)) (\<lambda>m.
    case m of
      None \<Rightarrow> py_return ()
    | Some msg \<Rightarrow> py_bind (at_conn n (receive_object E msg)) (\<lambda>t.
        case t of None \<Rightarrow> py_return () | Some thing \<Rightarrow> handle_thing E now hook n thing)))"

definition drop_connection :: "nat \<Rightarrow> ('r relay_scheme, unit) py" where
  "drop_connection n = py_modify (\<lambda>r. r\<lparr>rl_conns := dpop n (rl_conns r)\<rparr>)"

definition on_connection_ready ::
  "ext \<Rightarrow> (int \<Rightarrow> int) \<Rightarrow> (bytes \<Rightarrow> ('r relay_scheme, unit) py) \<Rightarrow> nat \<Rightarrow> incoming \<Rightarrow> ('r relay_scheme, unit) py" where
  "on_connection_ready E now hook n inp =
    py_bind (py_read (\<lambda>r. Inr (dget (rl_conns r) n))) (\<lambda>c.
    py_when (c \<noteq> None)
      (py_on_error Finished (drop_connection n)
        (py_bind (at_conn n (receive_start inp)) (\<lambda>evs. py_each (relay_event E now hook n) evs))))"

text \<open>\<open>_on_listener_ready\<close>, once the listener has accepted a socket under the identity \<open>n\<close>.\<close>

definition on_listener_ready :: "nat \<Rightarrow> bool \<Rightarrow> ('r relay_scheme, nat list) py" where
  "on_listener_ready n has_auth =
    py_then (py_modify (\<lambda>r. r\<lparr>rl_conns := dput n (new_connection has_auth) (rl_conns r)\<rparr>)) (py_return [n])"

section \<open>Connecting to a target\<close>

text \<open>
  The pattern \<open>(ws+://)?([a-z0-9.-]+)(?::(\d+))?(?:(/+.*))?$\<close>, matched in full and without regard to case:
  scheme, host, port and path. The alternatives of the pattern do not overlap, so it is read from left to
  right.
\<close>

definition lower :: "char \<Rightarrow> char" where
  "lower c = (let n = of_char c :: nat in if 65 \<le> n \<and> n \<le> 90 then char_of (n + 32) else c)"

definition host_char :: "char \<Rightarrow> bool" where
  "host_char c \<longleftrightarrow> (let n = of_char (lower c) :: nat in 97 \<le> n \<and> n \<le> 122 \<or> 48 \<le> n \<and> n \<le> 57 \<or> n = 45 \<or> n = 46)"

definition target_scheme :: "string \<Rightarrow> string option \<times> string" where
  "target_scheme t =
    (case t of
      w # rest \<Rightarrow>
        let ss = takeWhile (\<lambda>c. lower c = CHR ''s'') rest; after = drop (length ss) rest
        in if lower w = CHR ''w'' \<and> ss \<noteq> [] \<and> take 3 after = ''://''
           then (Some (w # ss @ ''://''), drop 3 after) else (None, t)
    | [] \<Rightarrow> (None, t))"

definition target_port :: "string \<Rightarrow> (string option \<times> string) option" where
  "target_port t =
    (if take 1 t = '':''
     then let ds = takeWhile (\<lambda>c. is_digits 10 [c]) (drop 1 t)
          in if ds = [] then None else Some (Some ds, drop (1 + length ds) t)
     else Some (None, t))"

definition target_path :: "string \<Rightarrow> string option option" where
  "target_path t =
    (if t = [] then Some None
     else if take 1 t = ''/'' \<and> CHR 0x0A \<notin> set t then Some (Some t) else None)"

definition parse_target :: "string \<Rightarrow> (bool \<times> string \<times> int \<times> string) result" where
  "parse_target target =
    (let (scheme, rest) = target_scheme target;
         host = takeWhile host_char rest
     in if host = [] then Inl AssertionError
        else case target_port (drop (length host) rest) of
          None \<Rightarrow> Inl AssertionError
        | Some (port, tail) \<Rightarrow>
            (case target_path tail of
              None \<Rightarrow> Inl AssertionError
            | Some path \<Rightarrow>
                if scheme = None \<or> scheme = Some ''ws://'' \<or> scheme = Some ''wss://''
                then bindr (py_int 10 (case port of None \<Rightarrow> ''8080'' | Some p \<Rightarrow> p)) (\<lambda>n.
                  Inr (scheme = Some ''wss://'', host, n, (case path of None \<Rightarrow> ''/'' | Some p \<Rightarrow> p)))
                else Inl NotImplementedError))"

definition connect_to :: "string \<Rightarrow> string option \<Rightarrow> nat \<Rightarrow> ('r relay_scheme, unit) py" where
  "connect_to target auth_data n =
    py_bind (py_lift (parse_target target)) (\<lambda>(secure, host, port, path).
    py_bind (py_lift (client_connection path auth_data)) (\<lambda>c.
      py_modify (\<lambda>r. r\<lparr>rl_conns := dput n c (rl_conns r)\<rparr>)))"

section \<open>What receiving a bundle does\<close>

text \<open>
  What becomes of the connection to a peer that is told of a bundle: nothing before its greeting or when it has the
  bundle, else the bundle goes out and the tracker knows of it, or the connection closes because the socket is broken.
\<close>

definition told :: "ext \<Rightarrow> bytes \<Rightarrow> bundle_info \<Rightarrow> connection \<Rightarrow> connection" where
  "told E b i c =
    (case cn_tracker c of
      None \<Rightarrow> c
    | Some h \<Rightarrow> if has_info h i then c
        else (if cn_broken c then snd (conn_close c) else c\<lparr>cn_sent := cn_sent c @ [FrBytes (x_sync_ser E (MsgBundle b))]\<rparr>)
          \<lparr>cn_tracker := Some (mark_as_having h i)\<rparr>)"

lemma mark_has: "has_info (mark_as_having h i) i"
  by (simp add: has_info_def)

lemma told_again: "told E b i (told E b i c) = told E b i c"
  by (auto simp: told_def mark_has conn_close_def py_apply split: option.split)

lemma send_bundle_tells:
  assumes "get_info E b = Inr i" "send_bundle E b c = (Inr (), c')"
  shows "c' = told E b i c"
  using assms
  by (auto simp: send_bundle_def told_def py_simps conn_send_def socket_send_def conn_close_def
      split: option.splits if_splits prod.splits sum.splits)

lemma at_conn_send:
  assumes "get_info E b = Inr i" "at_conn n (send_bundle E b) r = (Inr (), r')"
  shows "dget (rl_conns r') m = (if m = n then map_option (told E b i) (dget (rl_conns r) m) else dget (rl_conns r) m)"
    "rl_called r' = rl_called r" "rl_callbacks r' = rl_callbacks r"
  using assms send_bundle_tells [OF assms(1)]
  by (auto simp: at_conn_def split: option.splits prod.splits)

lemma each_told:
  assumes i: "get_info E b = Inr i"
  shows "py_each (\<lambda>n. at_conn n (send_bundle E b)) ns r = (Inr (), r') \<Longrightarrow>
    (\<forall>m. dget (rl_conns r') m = (if m \<in> set ns then map_option (told E b i) (dget (rl_conns r) m) else dget (rl_conns r) m)) \<and>
    rl_called r' = rl_called r \<and> rl_callbacks r' = rl_callbacks r"
proof (induction ns arbitrary: r)
  case Nil
  then show ?case by (simp add: py_apply)
next
  case (Cons n ns)
  obtain r1 where r1: "at_conn n (send_bundle E b) r = (Inr (), r1)"
    "py_each (\<lambda>n. at_conn n (send_bundle E b)) ns r1 = (Inr (), r')"
    using Cons.prems by (auto simp: py_then_unit_iff)
  show ?case
    using Cons.IH [OF r1(2)] at_conn_send [OF i r1(1)]
    by (auto simp: option.map_comp comp_def told_again)
qed

lemma each_call_back:
  "py_each (call_back b) ks r = (Inr (), r\<lparr>rl_called := rl_called r @ map (\<lambda>k. (k, b)) ks\<rparr>)"
  by (induction ks arbitrary: r) (simp_all add: call_back_def py_simps)

lemma relay_on_bundle_done:
  assumes i: "get_info E b = Inr i" and run: "relay_on_bundle E b r = (Inr (), r')"
  shows "dget (rl_conns r') n = map_option (told E b i) (dget (rl_conns r) n)"
    "rl_called r' = rl_called r @ map (\<lambda>k. (k, b)) (rl_callbacks r)"
proof -
  obtain r1 where r1: "py_each (\<lambda>n. at_conn n (send_bundle E b)) (dkeys (rl_conns r)) r = (Inr (), r1)"
    "r' = r1\<lparr>rl_called := rl_called r1 @ map (\<lambda>k. (k, b)) (rl_callbacks r1)\<rparr>"
    using run by (auto simp: relay_on_bundle_def py_bind_Inr_iff py_then_unit_iff py_apply each_call_back)
  note all = each_told [OF i r1(1)]
  show "rl_called r' = rl_called r @ map (\<lambda>k. (k, b)) (rl_callbacks r)" using all r1(2) by simp
  have "dget (rl_conns r) n = None" if "n \<notin> set (dkeys (rl_conns r))" using that by (simp only: dget_None_iff simp_thms)
  then show "dget (rl_conns r') n = map_option (told E b i) (dget (rl_conns r) n)" using all r1(2) by auto
qed

text \<open>Neither a call on a connection nor telling of a bundle touches the store.\<close>

lemma at_conn_store: "rl_store (snd (at_conn n m r)) = rl_store r"
  by (simp add: at_conn_def split: option.split prod.split)

lemma tells_keep_store: "py_keeps (\<lambda>r. rl_store r = s) (relay_on_bundle E b)"
proof -
  have "py_keeps (\<lambda>r. rl_store r = s) (at_conn n m)" for n and m :: "(connection, unit) py"
    by (simp add: py_keeps_def at_conn_store)
  moreover have "py_keeps (\<lambda>r. rl_store r = s) (call_back b k)" for b k
    by (simp add: py_keeps_def call_back_def py_apply)
  ultimately show ?thesis unfolding relay_on_bundle_def by (intro py_keeps_bind py_keeps_then py_keeps_each py_keeps_basic)
qed

lemma finished_dropped:
  assumes "on_connection_ready E now hook n inp r = (Inl Finished, r')"
  shows "dget (rl_conns r') n = None"
  using assms
  by (auto simp: on_connection_ready_def py_simps py_on_error_def drop_connection_def
      split: option.splits prod.splits sum.splits if_splits)

text \<open>A bundle in a frame that arrives whole is applied, whatever happens afterwards.\<close>

lemma bundle_arrives:
  assumes c: "dget (rl_conns r) n = Some c" "\<not> cn_closed c" "cn_message_buffer c = []"
    and data: "x_sync_parse E data = Inr (MsgBundle b)" "get_builder E b = Inr pb" "validate_bundle pb = Inr ()"
    and run: "apply_bundle E now b (rl_store r) = (Inr needed, s')"
  shows "rl_store (snd (on_connection_ready E now (relay_on_bundle E) n (InEvents [EvBytes data True]) r)) = s'"
proof -
  obtain i where i: "get_info E b = Inr i" using run data(2) by (auto simp: apply_bundle_def py_bind_Inr_iff py_apply)
  let ?start = "c\<lparr>cn_pending := False\<rparr>"
  have start: "receive_start (InEvents [EvBytes data True]) c = (Inr [EvBytes data True], ?start)"
    using c(2) by (cases c) (simp add: receive_start_def py_simps Let_def)
  obtain r1 where r1: "at_conn n (receive_start (InEvents [EvBytes data True])) r = (Inr [EvBytes data True], r1)"
    "dget (rl_conns r1) n = Some ?start" "rl_store r1 = rl_store r"
    using c(1) start by (simp add: at_conn_def)
  obtain r2 where r2: "at_conn n (conn_event E g (EvBytes data True)) r1 = (Inr (Some (MsgBundle b)), r2)"
    "dget (rl_conns r2) n \<noteq> None" "rl_store r2 = rl_store r" for g
    using r1 c data(1) by (auto simp: at_conn_def py_simps)
  obtain r3 where r3: "at_conn n (receive_object E (MsgBundle b)) r2 = (Inr (Some (ThBundle b)), r3)" "rl_store r3 = rl_store r"
    using r2 i by (auto simp: at_conn_def receive_object_def py_simps)
  have tail: "rl_store (snd (relay_receive E now (relay_on_bundle E) b r3)) = s'"
    using data run r3(2) tells_keep_store [of s' E b, unfolded py_keeps_def, rule_format, of "r3\<lparr>rl_store := s'\<rparr>"]
    by (auto simp: relay_receive_def store_apply_def in_store_def py_zoom_def py_simps split: prod.splits sum.splits)
  have "rl_store (snd (handle_thing E now (relay_on_bundle E) n (ThBundle b) r3)) = s'"
    using tail i at_conn_store [of n "conn_send E (as_acknowledgement i)"]
    by (auto simp: handle_thing_def py_simps split: prod.splits sum.splits)
  then show ?thesis
    using c r1 r2 r3
    by (auto simp: on_connection_ready_def relay_event_def py_on_error_def drop_connection_def py_simps split: prod.splits sum.splits)
qed

end
