(* ===== verification/Database.thy ===== *)
theory Database
  imports Relay
begin

text \<open>
  \<open>python/gink/impl/database.py\<close>, \<open>bundler.py\<close> and \<open>bound_bundler.py\<close>: a relay whose user adds
  bundles of his own. The record has the fields of the database object, its bundlers by identity, the
  thread's active bundler, and what the code takes from its surroundings as supplies: the clock readings,
  the keys and medallions it will generate, the numbers \<open>randint\<close> will draw, and which processes live. A
  supply that has run out is \<open>Blocked\<close>, and so is a wait for a lock that nobody will release.
\<close>

section \<open>State\<close>

text \<open>A global address, or one that the bundle of a bundler will give when it is committed.\<close>

datatype ref = RefMuid muid | RefNew nat int

record bundler =
  bb_changes :: "change_pb list"
  bb_count :: int
  bb_open :: bool
  bb_comment :: "string option"
  bb_symmetric_key :: "bytes option"
  bb_decomposition :: "bytes option"

record database = relay +
  db_clock :: "int \<times> int list"
  db_keys :: "bytes list"
  db_medallions :: "int list"
  db_random :: "int list"
  db_pid :: int
  db_alive :: "int \<Rightarrow> bool"
  db_last_link :: "bundle_info option"
  db_identity :: string
  db_signing_key :: "bytes option"
  db_symmetric_key :: "bytes option"
  db_allow_new_chains :: bool
  db_require_symmetric_key :: bool
  db_locked :: bool
  db_bundlers :: "(nat, bundler) dict"
  db_active :: "nat option"

type_synonym 'a db = "(database, 'a) py"

section \<open>Supplies\<close>

definition tick :: "int db" where
  "tick = (\<lambda>d. case generate_timestamp (fst (db_clock d)) (snd (db_clock d)) of
      None \<Rightarrow> (Inl Blocked, d)
    | Some (t, rs) \<Rightarrow> (Inr t, d\<lparr>db_clock := (t, rs)\<rparr>))"

definition next_key :: "bytes db" where
  "next_key = (\<lambda>d. case db_keys d of [] \<Rightarrow> (Inl Blocked, d) | k # ks \<Rightarrow> (Inr k, d\<lparr>db_keys := ks\<rparr>))"

text \<open>\<open>randint(lo, hi)\<close>; the supply gives the distance from \<open>lo\<close>, taken round.\<close>

definition randint :: "int \<Rightarrow> int \<Rightarrow> int db" where
  "randint lo hi = (\<lambda>d. if hi < lo then (Inl ValueError, d) else case db_random d of
      [] \<Rightarrow> (Inl Blocked, d)
    | n # ns \<Rightarrow> (Inr (lo + n mod (hi - lo + 1)), d\<lparr>db_random := ns\<rparr>))"

definition generate_medallion :: "int db" where
  "generate_medallion = (\<lambda>d. case db_medallions d of
      [] \<Rightarrow> (Inl Blocked, d)
    | n # ns \<Rightarrow> (let minimum = MEDALLION_MOD div 16; maximum = minimum * 2
        in (Inr (minimum + 1 + n mod (maximum - minimum - 1)), d\<lparr>db_medallions := ns\<rparr>)))"

section \<open>Times\<close>

text \<open>
  What a user may give as a time. \<open>TsStamped\<close> is an object with a \<open>timestamp\<close> attribute (an address, an
  attribution, a bundler), whose value is \<open>None\<close> when it is not resolved; a \<open>datetime\<close> has a
  method of that name. A date is its seconds since the epoch, a time difference its microseconds.
  Floating point numbers are left out.
\<close>

datatype generic_ts =
    TsNone
  | TsInt int
  | TsText string
  | TsStamped "int option"
  | TsDatetime datetime
  | TsDate int
  | TsDelta int

definition resolve_number :: "int \<Rightarrow> int result" where
  "resolve_number n =
    (if 1671697316392367 < n \<and> n < 2147483648000000 then Inr n
     else if 1671697630 < n \<and> n < 2147483648 then Inr (n * 1000000)
     else Inl ValueError)"

fun resolve_timestamp :: "generic_ts \<Rightarrow> int db" where
  "resolve_timestamp (TsText s) = (if is_decimal s then py_lift (bindr (py_int 10 s) resolve_number) else py_raise ValueError)"
| "resolve_timestamp (TsStamped (Some t)) = py_return t"
| "resolve_timestamp (TsStamped None) = py_raise ValueError"
| "resolve_timestamp (TsDatetime _) = py_raise ValueError"
| "resolve_timestamp (TsDelta n) = py_bind tick (\<lambda>t. py_return (t + n))"
| "resolve_timestamp (TsDate secs) =
    (case resolve_number secs of
      Inr t \<Rightarrow> py_return t
    | Inl e \<Rightarrow> if - 1000000 < secs \<and> secs < 1000000 then py_bind tick (\<lambda>t. py_return (t + secs * 1000000))
        else py_raise e)"
| "resolve_timestamp (TsInt n) = py_lift (resolve_number n)"
| "resolve_timestamp TsNone = py_raise ValueError"

text \<open>The database also reads a small number as the time of the bundle with that index.\<close>

definition nth_bundle_time :: "ext \<Rightarrow> int \<Rightarrow> int db" where
  "nth_bundle_time E n = py_read (\<lambda>d. bindr (get_one E (rl_store d) ClsInfo n) (\<lambda>found.
      case found of Some (ItInfo i) \<Rightarrow> Inr (bi_timestamp i) | Some _ \<Rightarrow> Inl AssertionError | None \<Rightarrow> Inl ValueError))"

definition resolve_index :: "ext \<Rightarrow> int \<Rightarrow> int db" where
  "resolve_index E n =
    (if - 1000000 < n \<and> n < 1000000 then nth_bundle_time E n else py_lift (resolve_number n))"

fun db_resolve :: "ext \<Rightarrow> generic_ts \<Rightarrow> int db" where
  "db_resolve E TsNone = tick"
| "db_resolve E (TsText s) =
    (if is_decimal s then py_bind (py_lift (py_int 10 s)) (resolve_index E) else py_lift (x_date_parse E s))"
| "db_resolve E (TsInt n) = resolve_index E n"
| "db_resolve E ts = resolve_timestamp ts"

section \<open>Bundles\<close>

definition db_on_bundle :: "ext \<Rightarrow> bytes \<Rightarrow> unit db" where
  "db_on_bundle E b =
    py_bind (py_lift (get_info E b)) (\<lambda>info.
    py_then (py_modify (\<lambda>d. case db_last_link d of
        Some link \<Rightarrow> if get_chain info = get_chain link then d\<lparr>db_last_link := Some info\<rparr> else d
      | None \<Rightarrow> d))
      (relay_on_bundle E b))"

section \<open>A chain to append to\<close>

fun reuse_loop :: "string \<Rightarrow> claim list \<Rightarrow> bundle_info option db" where
  "reuse_loop identity [] = py_return None"
| "reuse_loop identity (old_claim # rest) =
    (let c = Chain (cm_medallion old_claim) (cm_chain_start old_claim)
     in py_bind (py_read (\<lambda>d. get_identity (rl_store d) c)) (\<lambda>chain_identity.
        py_bind (py_read (\<lambda>d. Inr (db_alive d (cm_process_id old_claim)))) (\<lambda>alive.
        if chain_identity = identity \<and> \<not> alive
        then py_bind tick (\<lambda>t. py_bind (py_read (\<lambda>d. Inr (db_pid d))) (\<lambda>pid.
             py_then (in_store (add_claim t pid c))
               (py_bind (py_read (\<lambda>d. get_last (rl_store d) c)) (\<lambda>i. py_return (Some i)))))
        else reuse_loop identity rest)))"

definition claim_list :: "mem_store \<Rightarrow> claim list" where
  "claim_list st = concat (map (\<lambda>m. case dget (st_claims st) m of None \<Rightarrow> [] | Some c \<Rightarrow> [c])
      (sort (dkeys (st_claims st))))"

definition maybe_reuse_chain :: "string \<Rightarrow> bundle_info option db" where
  "maybe_reuse_chain identity =
    py_bind (py_read (\<lambda>d. Inr (claim_list (rl_store d)))) (reuse_loop identity)"

text \<open>The default symmetric key becomes the database's, unless one is required and there is none.\<close>

definition adopt_symmetric_key :: "unit db" where
  "adopt_symmetric_key =
    py_bind (py_read (\<lambda>d. get_symmetric_key (rl_store d) AnyKey)) (\<lambda>key.
    py_bind (py_read (\<lambda>d. Inr (db_require_symmetric_key d))) (\<lambda>required.
      if required \<and> key = None then py_raise RuntimeError
      else py_modify (\<lambda>d. d\<lparr>db_symmetric_key := key\<rparr>)))"

definition reuse_chain :: "bundle_info \<Rightarrow> (bundle_info \<times> bytes) db" where
  "reuse_chain link =
    py_then adopt_symmetric_key
   (py_bind (py_read (\<lambda>d. get_verify_key (rl_store d) (get_chain link))) (\<lambda>vk.
    py_bind (py_read (\<lambda>d. get_signing_key (rl_store d) vk)) (\<lambda>sk.
    py_then (py_modify (\<lambda>d. d\<lparr>db_signing_key := Some sk, db_last_link := Some link\<rparr>))
      (py_return (link, sk)))))"

definition start_chain :: "ext \<Rightarrow> (int \<Rightarrow> int) \<Rightarrow> (bundle_info \<times> bytes) db" where
  "start_chain E now =
    py_bind (py_read (\<lambda>d. Inr (db_allow_new_chains d))) (\<lambda>allowed.
    if \<not> allowed then py_raise RuntimeError
    else py_then adopt_symmetric_key
   (py_bind next_key (\<lambda>sk.
    py_then (py_modify (\<lambda>d. d\<lparr>db_signing_key := Some sk\<rparr>))
   (py_then (in_store (save_signing_key E sk))
   (py_bind generate_medallion (\<lambda>medallion.
    py_bind tick (\<lambda>chain_start.
    py_bind (py_read (\<lambda>d. combine E (Chain medallion chain_start) chain_start sk [] None (Some (db_identity d))
        None NoPrior True)) (\<lambda>bundle_bytes.
    py_then (store_apply E now (db_on_bundle E) bundle_bytes)
   (py_bind (py_lift (get_info E bundle_bytes)) (\<lambda>info.
    py_then (py_modify (\<lambda>d. d\<lparr>db_last_link := Some info\<rparr>))
      (py_return (info, sk))))))))))))"

definition acquire_appendable_link :: "ext \<Rightarrow> (int \<Rightarrow> int) \<Rightarrow> (bundle_info \<times> bytes) db" where
  "acquire_appendable_link E now =
    py_bind (py_read (\<lambda>d. Inr d)) (\<lambda>d.
    case db_last_link d of
      Some link \<Rightarrow> (case db_signing_key d of None \<Rightarrow> py_raise AssertionError | Some sk \<Rightarrow> py_return (link, sk))
    | None \<Rightarrow>
        py_then (py_lift (require (db_signing_key d = None \<and> db_symmetric_key d = None) AssertionError))
       (py_bind (maybe_reuse_chain (db_identity d)) (\<lambda>to_reuse.
        case to_reuse of Some link \<Rightarrow> reuse_chain link | None \<Rightarrow> start_chain E now)))"

text \<open>\<open>with database as needed\<close>: the lock is taken before the link is acquired, and released after the body.\<close>

definition db_enter :: "ext \<Rightarrow> (int \<Rightarrow> int) \<Rightarrow> (bundle_info \<times> bytes) db" where
  "db_enter E now =
    py_bind (py_read (\<lambda>d. Inr (db_locked d))) (\<lambda>locked.
    if locked then py_raise Blocked
    else py_then (py_modify (\<lambda>d. d\<lparr>db_locked := True\<rparr>)) (acquire_appendable_link E now))"

definition db_exit :: "unit db" where
  "db_exit = py_modify (\<lambda>d. d\<lparr>db_locked := False\<rparr>)"

definition with_database :: "ext \<Rightarrow> (int \<Rightarrow> int) \<Rightarrow> (bundle_info \<times> bytes \<Rightarrow> 'a db) \<Rightarrow> 'a db" where
  "with_database E now body =
    py_bind (db_enter E now) (\<lambda>needed d. case body needed d of (r, d') \<Rightarrow> (r, snd (db_exit d')))"

section \<open>Bundlers\<close>

definition new_bundler :: "string option \<Rightarrow> nat db" where
  "new_bundler comment =
    py_bind (py_read (\<lambda>d. get_symmetric_key (rl_store d) AnyKey)) (\<lambda>key.
    py_bind (py_read (\<lambda>d. Inr (length (db_bundlers d)))) (\<lambda>n.
    py_then (py_modify (\<lambda>d. d\<lparr>db_bundlers := dput n
        \<lparr>bb_changes = [], bb_count = 0, bb_open = True, bb_comment = comment, bb_symmetric_key = key,
         bb_decomposition = None\<rparr> (db_bundlers d)\<rparr>))
      (py_return n)))"

definition get_bundler :: "nat \<Rightarrow> bundler db" where
  "get_bundler n = py_read (\<lambda>d. dindex (db_bundlers d) n)"

definition set_bundler :: "nat \<Rightarrow> (bundler \<Rightarrow> bundler) \<Rightarrow> unit db" where
  "set_bundler n f = py_modify (\<lambda>d. case dget (db_bundlers d) n of
      None \<Rightarrow> d | Some b \<Rightarrow> d\<lparr>db_bundlers := dput n (f b) (db_bundlers d)\<rparr>)"

text \<open>What \<open>add_change\<close> takes: a whole change, or the entry or container definition of one.\<close>

datatype some_builder = SbChange change_pb | SbEntry entry_pb | SbContainer int

definition as_change :: "int \<Rightarrow> some_builder \<Rightarrow> change_pb result" where
  "as_change offset builder =
    (case builder of
      SbEntry e \<Rightarrow> if offset = 1 \<and> pb_timestamp (container_of e) = 0 then Inl ValueError else Inr (ChEntry e)
    | SbChange c \<Rightarrow> Inr c
    | SbContainer _ \<Rightarrow> Inl AssertionError)"

definition add_change :: "nat \<Rightarrow> some_builder \<Rightarrow> ref db" where
  "add_change n builder =
    py_bind (get_bundler n) (\<lambda>b.
    if \<not> bb_open b then py_raise AssertionError
    else py_then (set_bundler n (\<lambda>b. b\<lparr>bb_count := bb_count b + 1\<rparr>))
     (py_bind (py_lift (muid_init None None (bb_count b + 1) True)) (\<lambda>muid.
      py_bind (py_lift (as_change (mo_offset muid) builder)) (\<lambda>change.
      py_then (set_bundler n (\<lambda>b. b\<lparr>bb_changes := bb_changes b @ [change]\<rparr>))
        (py_return (RefNew n (mo_offset muid)))))))"

definition rollback :: "nat \<Rightarrow> unit db" where
  "rollback n = set_bundler n (\<lambda>b. b\<lparr>bb_open := False\<rparr>)"

definition commit_body :: "ext \<Rightarrow> (int \<Rightarrow> int) \<Rightarrow> nat \<Rightarrow> bundler \<Rightarrow> bundle_info \<times> bytes \<Rightarrow> unit db" where
  "commit_body E now n b needed =
    (let (last_link, signing_key) = needed; seen_to = bi_timestamp last_link
     in py_bind tick (\<lambda>timestamp.
        py_then (py_lift (require (seen_to < timestamp) AssertionError))
       (case bi_hex_hash last_link of
          None \<Rightarrow> py_raise AssertionError
        | Some h \<Rightarrow>
            py_bind (py_lift (combine E (get_chain last_link) timestamp signing_key (bb_changes b) (bb_comment b)
                None (Some seen_to) (PriorHex h) True)) (\<lambda>bundle_bytes.
            py_bind (relay_receive E now (db_on_bundle E) bundle_bytes) (\<lambda>added.
            py_then (py_lift (require added AssertionError))
              (set_bundler n (\<lambda>b. b\<lparr>bb_decomposition := Some bundle_bytes\<rparr>)))))))"

definition commit :: "ext \<Rightarrow> (int \<Rightarrow> int) \<Rightarrow> bool \<Rightarrow> nat \<Rightarrow> unit db" where
  "commit E now skip_if_empty n =
    py_bind (get_bundler n) (\<lambda>b.
    if \<not> bb_open b then py_raise ValueError
    else if skip_if_empty \<and> bb_changes b = [] then py_return ()
    else with_database E now (commit_body E now n b))"

text \<open>The bundler as a context: it is the thread's active one, committed or abandoned at the end.\<close>

definition bundler_enter :: "nat \<Rightarrow> nat db" where
  "bundler_enter n =
    py_bind (py_read (\<lambda>d. Inr (db_active d))) (\<lambda>active.
    if active \<noteq> None then py_raise GenericException
    else py_then (py_modify (\<lambda>d. d\<lparr>db_active := Some n\<rparr>)) (py_return n))"

definition bundler_exit :: "ext \<Rightarrow> (int \<Rightarrow> int) \<Rightarrow> nat \<Rightarrow> bool \<Rightarrow> unit db" where
  "bundler_exit E now n failed =
    py_bind (py_read (\<lambda>d. Inr (db_active d))) (\<lambda>active.
    py_then (py_lift (require (active = Some n) AssertionError))
   (py_then (py_modify (\<lambda>d. d\<lparr>db_active := None\<rparr>))
     (if failed then rollback n else commit E now True n)))"

section \<open>Addresses that a bundler will give\<close>

definition view_of :: "ext \<Rightarrow> database \<Rightarrow> nat \<Rightarrow> bundler_view" where
  "view_of E d n =
    (case dget (db_bundlers d) n of
      None \<Rightarrow> (None, None)
    | Some b \<Rightarrow> (case bb_decomposition b of
        None \<Rightarrow> (None, None)
      | Some bs \<Rightarrow> (case get_info E bs of Inl _ \<Rightarrow> (None, None) | Inr i \<Rightarrow> (Some (bi_timestamp i), Some (bi_medallion i)))))"

definition ref_put_into :: "ext \<Rightarrow> database \<Rightarrow> ref \<Rightarrow> muid_pb" where
  "ref_put_into E d r =
    (case r of
      RefMuid u \<Rightarrow> put_into u
    | RefNew n off \<Rightarrow> obj_put_into \<lparr>mo_timestamp = None, mo_medallion = None, mo_offset = off, mo_has_bundler = True\<rparr>
        (view_of E d n))"

definition resolve_ref :: "ext \<Rightarrow> ref \<Rightarrow> muid db" where
  "resolve_ref E r = py_read (\<lambda>d. case r of
      RefMuid u \<Rightarrow> Inr u
    | RefNew n off \<Rightarrow> (case view_of E d n of (Some t, Some m) \<Rightarrow> Inr (Muid t m off) | _ \<Rightarrow> Inl ValueError))"

definition pb_of_ref :: "ext \<Rightarrow> ref \<Rightarrow> muid_pb db" where
  "pb_of_ref E r = py_read (\<lambda>d. Inr (ref_put_into E d r))"

section \<open>A new database\<close>

definition new_database :: "mem_store \<Rightarrow> string \<Rightarrow> bool \<Rightarrow> bool \<Rightarrow> int \<times> int list \<Rightarrow> bytes list \<Rightarrow> int list
    \<Rightarrow> int list \<Rightarrow> int \<Rightarrow> (int \<Rightarrow> bool) \<Rightarrow> database" where
  "new_database st identity allow_new require_key clock keys medallions random pid alive =
    \<lparr>rl_store = st, rl_conns = [], rl_not_acked = [], rl_callbacks = [], rl_called = [],
     db_clock = clock, db_keys = keys, db_medallions = medallions, db_random = random, db_pid = pid, db_alive = alive,
     db_last_link = None, db_identity = identity, db_signing_key = None, db_symmetric_key = None,
     db_allow_new_chains = allow_new, db_require_symmetric_key = require_key, db_locked = False,
     db_bundlers = [], db_active = None\<rparr>"

end
