(* ===== verification/Py_Numbers.thy ===== *)
theory Py_Numbers
  imports Entry_Values
begin

text \<open>
  Python's numbers and equality, as the containers use them: the value of a \<open>float\<close> from its bits, the
  equality of values of different types, \<open>Decimal\<close> arithmetic in the default context of 28 digits, and the
  product of a \<open>float\<close> with an integer, rounded to the nearest \<open>float\<close>.
\<close>

section \<open>Floating point numbers\<close>

text \<open>A finite number is given as the integer by which it exceeds 0 in units of \<open>2 ^ -1074\<close>.\<close>

datatype number = NumNan | NumInf bool | NumFin int

definition double_number :: "double \<Rightarrow> number" where
  "double_number d =
    (let n = uint d; negative = 2 ^ 63 \<le> n; ex = n div 2 ^ 52 mod 2 ^ 11; frac = n mod 2 ^ 52;
         signed = (\<lambda>m. if negative then - m else m)
     in if ex = 2047 then (if frac = 0 then NumInf negative else NumNan)
        else if ex = 0 then NumFin (signed frac)
        else NumFin (signed ((2 ^ 52 + frac) * 2 ^ nat (ex - 1))))"

definition int_number :: "int \<Rightarrow> number" where
  "int_number n = NumFin (n * 2 ^ 1074)"

definition number_eq :: "number \<Rightarrow> number \<Rightarrow> bool" where
  "number_eq a b \<longleftrightarrow> a \<noteq> NumNan \<and> a = b"

section \<open>Equality of values\<close>

fun value_number :: "uvalue \<Rightarrow> number option" where
  "value_number (UBool b) = Some (int_number (if b then 1 else 0))"
| "value_number (UInt n) = Some (int_number n)"
| "value_number (UFloat d) = Some (double_number d)"
| "value_number _ = None"

fun datetime_eq :: "datetime \<Rightarrow> datetime \<Rightarrow> bool" where
  "datetime_eq (Naive a) (Naive b) = (a = b)"
| "datetime_eq (Zoned a z) (Zoned b y) = (a - z = b - y)"
| "datetime_eq _ _ = False"

text \<open>\<open>==\<close>: a named tuple is a tuple; numbers of all types compare by value; dictionaries have no order.\<close>

definition same_number :: "uvalue \<Rightarrow> uvalue \<Rightarrow> bool" where
  "same_number a b =
    (case (value_number a, value_number b) of (Some m, Some n) \<Rightarrow> number_eq m n | _ \<Rightarrow> False)"

fun tuple_items :: "uvalue \<Rightarrow> uvalue list option" where
  "tuple_items (UTuple xs) = Some xs"
| "tuple_items (UNamedTuple xs) = Some xs"
| "tuple_items _ = None"

lemma member_size: "x \<in> set xs \<Longrightarrow> f x < Suc (size_list f xs)"
  by (simp add: less_Suc_eq_le size_list_estimation')

lemma member_size_snd:
  assumes "(k, v) \<in> set items"
  shows "size v < Suc (size_list (size_prod (\<lambda>_. 0) size) items)"
  using member_size [OF assms, of "size_prod (\<lambda>_. 0) size"] by simp

function py_eq :: "uvalue \<Rightarrow> uvalue \<Rightarrow> bool" where
  "py_eq (UTuple xs) b = (case tuple_items b of None \<Rightarrow> False | Some ys \<Rightarrow> list_all2 py_eq xs ys)"
| "py_eq (UNamedTuple xs) b = (case tuple_items b of None \<Rightarrow> False | Some ys \<Rightarrow> list_all2 py_eq xs ys)"
| "py_eq (UList xs) b = (case b of UList ys \<Rightarrow> list_all2 py_eq xs ys | _ \<Rightarrow> False)"
| "py_eq (UDict items) b =
    (case b of
      UDict others \<Rightarrow> length items = length others \<and>
        list_all (\<lambda>kv. case map_of others (fst kv) of None \<Rightarrow> False | Some w \<Rightarrow> py_eq (snd kv) w) items
    | _ \<Rightarrow> False)"
| "py_eq (UDatetime d) b = (case b of UDatetime d' \<Rightarrow> datetime_eq d d' | _ \<Rightarrow> False)"
| "py_eq UNone b = (b = UNone)"
| "py_eq (UStr s) b = (b = UStr s)"
| "py_eq (UBytes bs) b = (b = UBytes bs)"
| "py_eq (UBool v) b = same_number (UBool v) b"
| "py_eq (UInt n) b = same_number (UInt n) b"
| "py_eq (UFloat d) b = same_number (UFloat d) b"
  by pat_completeness auto
termination
  by (relation "measure (size \<circ> fst)") (auto simp: member_size member_size_snd)

section \<open>Rounding\<close>

function num_digits :: "int \<Rightarrow> int \<Rightarrow> nat" where
  "num_digits base n = (if base \<le> 1 \<or> n \<le> 0 then 0 else Suc (num_digits base (n div base)))"
  by pat_completeness auto
termination
  by (relation "measure (nat \<circ> snd)") (auto simp: int_div_less_self)

declare num_digits.simps [simp del]

definition half_even :: "int \<Rightarrow> int \<Rightarrow> int" where
  "half_even n d = (let q = n div d; r = n mod d in if d < 2 * r \<or> d = 2 * r \<and> odd q then q + 1 else q)"

text \<open>The surplus of digits over the precision, and the number rounded to that many digits less.\<close>

definition surplus :: "int \<Rightarrow> nat \<Rightarrow> int \<Rightarrow> nat" where
  "surplus base precision n = num_digits base \<bar>n\<bar> - precision"

definition rounded :: "int \<Rightarrow> nat \<Rightarrow> int \<Rightarrow> int" where
  "rounded base precision n = sgn n * half_even \<bar>n\<bar> (base ^ surplus base precision n)"

definition truncated :: "int \<Rightarrow> int \<Rightarrow> int" where
  "truncated n d = sgn n * (\<bar>n\<bar> div d)"

section \<open>Decimals\<close>

text \<open>\<open>Decimal\<close>: a coefficient and the exponent of ten; operations round to 28 digits, half to even.\<close>

type_synonym decimal = "int \<times> int"

definition dec_round :: "decimal \<Rightarrow> decimal" where
  "dec_round x = (rounded 10 28 (fst x), snd x + int (surplus 10 28 (fst x)))"

definition dec_times :: "int \<Rightarrow> decimal \<Rightarrow> decimal" where
  "dec_times n x = dec_round (n * fst x, snd x)"

definition dec_int :: "decimal \<Rightarrow> int" where
  "dec_int x = (if 0 \<le> snd x then fst x * 10 ^ nat (snd x) else truncated (fst x) (10 ^ nat (- snd x)))"

definition dec_eq :: "decimal \<Rightarrow> decimal \<Rightarrow> bool" where
  "dec_eq x y \<longleftrightarrow> (let low = min (snd x) (snd y)
    in fst x * 10 ^ nat (snd x - low) = fst y * 10 ^ nat (snd y - low))"

section \<open>A float times an integer\<close>

text \<open>\<open>int(x * n)\<close> of a float and an integer that a float holds exactly: the product is rounded to 53
  bits, and then cut to an integer. An infinity has no integer, nor has what is not a number.\<close>

definition float_times_int :: "double \<Rightarrow> int \<Rightarrow> int result" where
  "float_times_int x n =
    (case double_number x of
      NumNan \<Rightarrow> Inl ValueError
    | NumInf _ \<Rightarrow> Inl OverflowError
    | NumFin m \<Rightarrow>
        let product = rounded 2 53 (m * n) * 2 ^ surplus 2 53 (m * n)
        in if 2 ^ (1024 + 1074) \<le> \<bar>product\<bar> then Inl OverflowError else Inr (truncated product (2 ^ 1074)))"

section \<open>Facts\<close>

lemma below_multiple:
  fixes n base k :: int
  assumes "0 < base"
  shows "n < base * k \<longleftrightarrow> n div base < k"
proof
  assume "n < base * k"
  then show "n div base < k" using assms
    by (metis div_mult_mod_eq linorder_not_le mult.commute mult_left_mono order_less_imp_le
        order_trans pos_mod_sign add_increasing2 order_refl)
next
  assume "n div base < k"
  then have "base * (n div base + 1) \<le> base * k" using assms by simp
  moreover have "n < base * (n div base + 1)"
    unfolding distrib_left using pos_mod_bound [OF assms, of n] mult_div_mod_eq [of base n] by linarith
  ultimately show "n < base * k" by simp
qed

lemma num_digits_le:
  assumes "1 < base"
  shows "0 \<le> n \<Longrightarrow> n < base ^ p \<longleftrightarrow> num_digits base n \<le> p"
proof (induction p arbitrary: n)
  case 0
  then show ?case using assms by (subst num_digits.simps) auto
next
  case (Suc p)
  have "n < base ^ Suc p \<longleftrightarrow> n div base < base ^ p"
    using assms by (simp add: below_multiple)
  also have "\<dots> \<longleftrightarrow> num_digits base (n div base) \<le> p"
    using Suc assms by (simp add: pos_imp_zdiv_nonneg_iff)
  also have "\<dots> \<longleftrightarrow> num_digits base n \<le> Suc p"
    using assms Suc.prems by (subst (2) num_digits.simps) (cases "n = 0"; simp add: num_digits.simps)
  finally show ?case .
qed

lemma half_even_multiple: "0 < d \<Longrightarrow> half_even (k * d) d = k"
  by (simp add: half_even_def)

text \<open>A multiple of the power of ten that is rounded away loses nothing.\<close>

lemma rounded_exact:
  assumes "1 < base" "\<bar>n\<bar> < base ^ precision" "base ^ j dvd m" "m = n * base ^ j"
  shows "rounded base precision m * base ^ surplus base precision m = m" "surplus base precision m \<le> j"
proof -
  have "\<bar>m\<bar> < base ^ (precision + j)"
    using assms by (simp add: power_add abs_mult)
  then have "num_digits base \<bar>m\<bar> \<le> precision + j" using num_digits_le [OF assms(1), of "\<bar>m\<bar>"] by simp
  then show le: "surplus base precision m \<le> j" by (simp add: surplus_def)
  have "\<bar>m\<bar> = (\<bar>n\<bar> * base ^ (j - surplus base precision m)) * base ^ surplus base precision m"
    using assms le by (simp add: abs_mult mult.assoc flip: power_add)
  moreover have "0 < base ^ surplus base precision m" using assms(1) by simp
  ultimately have "half_even \<bar>m\<bar> (base ^ surplus base precision m) * base ^ surplus base precision m = \<bar>m\<bar>"
    by (metis half_even_multiple)
  then show "rounded base precision m * base ^ surplus base precision m = m"
    by (simp add: rounded_def mult.assoc) (metis mult_sgn_abs)
qed

end
