(* ===== verification/Mem_Reset.thy ===== *)
theory Mem_Reset
  imports Database Py_Numbers
begin

text \<open>
  The reset changes of the memory store (\<open>get_reset_changes\<close> and its helpers in
  \<open>python/gink/impl/memory_store.py\<close>, \<open>_get_accumulator_reset\<close> of \<open>abstract_store.py\<close>): the changes that bring a
  container, a key or everything back to what it was at a time. The code is a family of generators; here each
  hands on what it yields to \<open>emit\<close>, which stands for the loop that consumes it. The state is the store, whose
  entries some of the generators normalize in place, and the set of the containers already seen, \<open>None\<close> when
  the reset does not descend into the contained ones.
\<close>

section \<open>State\<close>

record seen_run =
  rr_seen :: "muid list option"

record reset_run = seen_run +
  rr_store :: mem_store

type_synonym ('c, 'a) seeing = "('c seen_run_scheme, 'a) py"

type_synonym ('c, 'a) reset = "('c reset_run_scheme, 'a) py"

definition of_store :: "(mem_store \<Rightarrow> 'a result) \<Rightarrow> ('c, 'a) reset" where
  "of_store f = py_read (\<lambda>r. f (rr_store r))"

definition put_entry :: "muid \<Rightarrow> entry_pb \<Rightarrow> ('c, unit) reset" where
  "put_entry u e = py_modify (\<lambda>r. r\<lparr>rr_store := (rr_store r)\<lparr>st_entries := dput u e (st_entries (rr_store r))\<rparr>\<rparr>)"

text \<open>\<open>if container in seen: return\<close>, and otherwise it is added.\<close>

definition enter_container :: "muid \<Rightarrow> ('c, unit) seeing \<Rightarrow> ('c, unit) seeing" where
  "enter_container container body =
    py_bind (py_read (\<lambda>r. Inr (rr_seen r))) (\<lambda>seen.
    case seen of
      None \<Rightarrow> body
    | Some cs \<Rightarrow> if container \<in> set cs then py_return ()
        else py_then (py_modify (\<lambda>r. r\<lparr>rr_seen := Some (container # cs)\<rparr>)) body)"

section \<open>Values\<close>

text \<open>\<open>!=\<close> on what an entry contains: deletions and inclusions are compared by identity.\<close>

fun occupant_eq :: "occupant \<Rightarrow> occupant \<Rightarrow> bool" where
  "occupant_eq (OccValue x) (OccValue y) = py_eq x y"
| "occupant_eq a b = (a = b)"

text \<open>\<open>if single_user_key\<close>: 0 and the empty strings are false.\<close>

definition true_key :: "ukey option \<Rightarrow> ukey option" where
  "true_key k = (case k of
      Some (KInt n) \<Rightarrow> if n = 0 then None else k
    | Some (KStr s) \<Rightarrow> if s = [] then None else k
    | Some (KBytes b) \<Rightarrow> if b = [] then None else k
    | None \<Rightarrow> None)"

definition entry_of_placement :: "mem_store \<Rightarrow> bytes \<Rightarrow> entry_pb result" where
  "entry_of_placement st b = bindr (dindex (st_placements st) b) (dindex (st_entries st))"

definition get_behavior :: "mem_store \<Rightarrow> muid \<Rightarrow> int result" where
  "get_behavior st container =
    (if mu_timestamp container = -1 then Inr (mu_offset container)
     else case dget (st_containers st) container of None \<Rightarrow> Inl AssertionError | Some b \<Rightarrow> Inr b)"

definition get_key :: "placement \<Rightarrow> middle result" where
  "get_key p = (case pl_middle p of MidQueue _ \<Rightarrow> Inl AssertionError | k \<Rightarrow> Inr k)"

definition get_queue_position :: "placement \<Rightarrow> int result" where
  "get_queue_position p = (case pl_middle p of MidQueue t \<Rightarrow> Inr t | _ \<Rightarrow> Inl AssertionError)"

section \<open>Accumulators and vertices\<close>

definition get_accumulator_reset :: "ext \<Rightarrow> mem_store \<Rightarrow> muid \<Rightarrow> int \<Rightarrow> change_pb result" where
  "get_accumulator_reset E st container to_time =
    bindr (get_billionths E st container to_time) (\<lambda>previous.
    bindr (get_billionths E st container (-1)) (\<lambda>current.
    bindr (py_str_int (- current + previous)) (\<lambda>needed.
      Inr (ChEntry (empty_entry\<lparr>en_behavior := ACCUMULATOR, en_container := Some (put_into container),
        en_contains := ConValue (ValInteger needed)\<rparr>)))))"

definition deleted_at :: "mem_store \<Rightarrow> bytes option \<Rightarrow> bool result" where
  "deleted_at st found =
    (case found of None \<Rightarrow> Inr False | Some b \<Rightarrow> bindr (entry_of_placement st b) (\<lambda>e. Inr (deletion_of e)))"

definition vertex_reset :: "ext \<Rightarrow> muid \<Rightarrow> int \<Rightarrow> mem_store \<Rightarrow> change_pb option result" where
  "vertex_reset E container to_time st =
    bindr (mk_muid to_time 0 0) (\<lambda>limit.
    bindr (deleted_at st (get_last_key E (st_placements st) (Some (muid_bytes container)) (Some (muid_bytes limit)))) (\<lambda>then_gone.
    bindr (deleted_at st (get_last_key E (st_placements st) None (Some (muid_bytes container @ FF16)))) (\<lambda>is_deleted.
      let was_deleted = (to_time < mu_timestamp container \<or> then_gone)
      in Inr (if is_deleted = was_deleted then None
        else Some (wrap_change (empty_entry\<lparr>en_behavior := VERTEX, en_container := Some (put_into container),
          en_contains := ConDeletion was_deleted\<rparr>))))))"

definition get_vertex_reset_changes ::
  "ext \<Rightarrow> (change_pb \<Rightarrow> ('c, unit) reset) \<Rightarrow> muid \<Rightarrow> int \<Rightarrow> ('c, unit) reset" where
  "get_vertex_reset_changes E emit container to_time =
    py_bind (of_store (vertex_reset E container to_time)) (\<lambda>change.
      case change of None \<Rightarrow> py_return () | Some c \<Rightarrow> emit c)"

section \<open>Keyed containers\<close>

text \<open>What a key held at a time: the entry written last before it, unless the container was cleared later.\<close>

definition contained_then ::
  "ext \<Rightarrow> mem_store \<Rightarrow> muid \<Rightarrow> middle \<Rightarrow> int \<Rightarrow> int \<Rightarrow> bytes \<Rightarrow> (occupant \<times> entry_pb option) result" where
  "contained_then E st container key behavior to_time placement_key =
    bindr (get_time_of_prior_clear E st container to_time) (\<lambda>last_clear_before.
    bindr (mk_muid to_time 0 0) (\<lambda>limit_muid.
    bindr (placement_bytes E (Placement container key limit_muid None)) (\<lambda>limit.
    bindr (require (cut_tail limit = cut_tail placement_key) AssertionError) (\<lambda>_.
    case get_last_key E (st_placements st) (Some (cut_tail placement_key)) (Some limit) of
      None \<Rightarrow> Inr (OccDeletion, None)
    | Some found \<Rightarrow>
        bindr (placement_from_bytes E found behavior) (\<lambda>p.
        bindr (entry_of_placement st found) (\<lambda>e.
          if last_clear_before < mu_timestamp (pl_placer p)
          then bindr (decode_entry_occupant E (pl_placer p) e) (\<lambda>o_then. Inr (o_then, Some e))
          else Inr (OccDeletion, Some e)))))))"

text \<open>The change for one key, if it needs one, and what a recursive reset descends into.\<close>

definition key_reset ::
  "ext \<Rightarrow> muid \<Rightarrow> int \<Rightarrow> int \<Rightarrow> int \<Rightarrow> bytes \<Rightarrow> mem_store \<Rightarrow> (change_pb option \<times> occupant \<times> middle) result" where
  "key_reset E container to_time behavior last_clear_time placement_key st =
    bindr (placement_from_bytes E placement_key behavior) (\<lambda>p.
    bindr (entry_of_placement st placement_key) (\<lambda>e.
    bindr (get_key p) (\<lambda>key.
    if mu_timestamp (pl_placer p) < to_time \<and> last_clear_time < to_time
    then bindr (decode_entry_occupant E (pl_placer p) e) (\<lambda>now. Inr (None, now, key))
    else
      bindr (if last_clear_time \<le> mu_timestamp (pl_placer p) then decode_entry_occupant E (pl_placer p) e
             else Inr OccDeletion) (\<lambda>now.
      bindr (contained_then E st container key behavior to_time placement_key) (\<lambda>(was, builder_then).
      bindr (if occupant_eq was now then Inr None
             else if was = OccDeletion
             then bindr (create_deleting_entry container key behavior) (\<lambda>d. Inr (Some (wrap_change d)))
             else Inr (map_option wrap_change builder_then)) (\<lambda>change.
        Inr (change, was, key)))))))"

definition recurse_on :: "(muid \<Rightarrow> ('c, unit) seeing) \<Rightarrow> occupant \<Rightarrow> ('c, unit) seeing" where
  "recurse_on recurse occ =
    py_bind (py_read (\<lambda>r. Inr (rr_seen r))) (\<lambda>seen.
    case occ of OccMuid u \<Rightarrow> py_when (seen \<noteq> None) (recurse u) | _ \<Rightarrow> py_return ())"

text \<open>
  The loop goes from the last placement of a key to the last one of the key before, so the number of placements
  bounds it; \<open>Blocked\<close> would be a loop that does not end.
\<close>

fun keyed_reset_loop ::
  "ext \<Rightarrow> (change_pb \<Rightarrow> ('c, unit) reset) \<Rightarrow> (muid \<Rightarrow> ('c, unit) reset) \<Rightarrow> muid \<Rightarrow> int \<Rightarrow> ukey option \<Rightarrow> int \<Rightarrow> int \<Rightarrow>
    nat \<Rightarrow> bytes option \<Rightarrow> ('c, unit) reset" where
  "keyed_reset_loop E emit recurse container to_time single behavior last_clear_time n None = py_return ()"
| "keyed_reset_loop E emit recurse container to_time single behavior last_clear_time 0 (Some b) = py_raise Blocked"
| "keyed_reset_loop E emit recurse container to_time single behavior last_clear_time (Suc n) (Some b) =
    (if take 16 b \<noteq> muid_bytes container then py_return ()
     else
       py_bind (of_store (key_reset E container to_time behavior last_clear_time b)) (\<lambda>(change, occ, key).
       py_then (case change of None \<Rightarrow> py_return () | Some c \<Rightarrow> emit c)
      (py_then (recurse_on recurse occ)
        (if single \<noteq> None then py_return ()
         else
           py_bind (py_lift (placement_bytes E (Placement container key (Muid 0 0 0) None))) (\<lambda>limit.
           py_bind (of_store (\<lambda>st. Inr (get_last_key E (st_placements st) None (Some limit))))
             (keyed_reset_loop E emit recurse container to_time single behavior last_clear_time n))))))"

definition get_keyed_reset_changes ::
  "ext \<Rightarrow> (change_pb \<Rightarrow> ('c, unit) reset) \<Rightarrow> (muid \<Rightarrow> ('c, unit) reset) \<Rightarrow> muid \<Rightarrow> int \<Rightarrow> ukey option \<Rightarrow> int \<Rightarrow>
    ('c, unit) reset" where
  "get_keyed_reset_changes E emit recurse container to_time single behavior =
    enter_container container
     (py_bind (of_store (\<lambda>st. get_time_of_prior_clear E st container (-1))) (\<lambda>last_clear_time.
      py_bind (py_lift (case true_key single of
          None \<Rightarrow> Inr []
        | Some k \<Rightarrow> bindr (encode_key k) (\<lambda>pb. Inr (x_key_ser E pb)))) (\<lambda>key_bytes.
      py_bind (of_store (\<lambda>st. Inr (length (st_placements st)))) (\<lambda>n.
      py_bind (of_store (\<lambda>st. Inr (get_last_key E (st_placements st) None (Some (muid_bytes container @ key_bytes @ FF16)))))
        (keyed_reset_loop E emit recurse container to_time (true_key single) behavior last_clear_time n)))))"

section \<open>Sequences and edge types\<close>

definition nonempty :: "bytes option \<Rightarrow> bytes option" where
  "nonempty b = (if b = Some [] then None else b)"

definition placement_at :: "ext \<Rightarrow> mem_store \<Rightarrow> muid \<Rightarrow> int \<Rightarrow> int \<Rightarrow> placement option result" where
  "placement_at E st entry_muid behavior as_of =
    bindr (get_location E st entry_muid as_of) (\<lambda>loc.
      case nonempty loc of None \<Rightarrow> Inr None | Some b \<Rightarrow> bindr (placement_from_bytes E b behavior) (\<lambda>p. Inr (Some p)))"

text \<open>The movement that takes an entry away from where it was put since, back to where it was.\<close>

definition undo_placing :: "muid \<Rightarrow> muid \<Rightarrow> placement \<Rightarrow> placement option \<Rightarrow> change_pb option result" where
  "undo_placing container entry_muid parsed_key previous =
    (let m = \<lparr>mv_container = put_into container, mv_entry = put_into entry_muid, mv_dest = 0, mv_purge = False\<rparr>
     in case previous of
       None \<Rightarrow> Inr (Some (ChMovement m))
     | Some p \<Rightarrow>
         bindr (get_queue_position p) (\<lambda>before.
         bindr (get_queue_position parsed_key) (\<lambda>after.
           Inr (if before = after then None else Some (ChMovement (m\<lparr>mv_dest := before\<rparr>))))))"

text \<open>The properties of an edge that is put back. The entry is looked up under the address of the property.\<close>

fun reissue_loop ::
  "(change_pb \<Rightarrow> ('c, unit) reset) \<Rightarrow> bytes \<Rightarrow> bytes list \<Rightarrow> int \<Rightarrow> bytes list \<Rightarrow> ('c, unit) reset" where
  "reissue_loop emit described issued off [] = py_return ()"
| "reissue_loop emit described issued off (k # ks) =
    (if \<not> prefix described k then py_return ()
     else
       py_bind (of_store (\<lambda>st. dindex (st_by_describing st) k)) (\<lambda>describer_property.
       if describer_property \<in> set issued then reissue_loop emit described issued off ks
       else
         py_bind (py_lift (muid_from_bytes describer_property)) (\<lambda>u.
         py_bind (of_store (\<lambda>st. dindex (st_entries st) u)) (\<lambda>e.
         py_bind (py_lift (muid_from_bytes (drop 16 k))) (\<lambda>describer_entry.
         py_bind (py_lift (normalize_entry_builder e describer_entry)) (\<lambda>e'.
         py_then (put_entry u e')
        (py_bind (py_lift (mk_muid 0 0 (off - 1))) (\<lambda>d.
         py_then (put_entry u (e'\<lparr>en_subject := SubDescribing (put_into d)\<rparr>))
        (py_then (emit (wrap_change (e'\<lparr>en_subject := SubDescribing (put_into d)\<rparr>)))
          (reissue_loop emit described (describer_property # issued) (off - 1) ks)))))))))) "

definition reissue_properties ::
  "ext \<Rightarrow> (change_pb \<Rightarrow> ('c, unit) reset) \<Rightarrow> bytes \<Rightarrow> int \<Rightarrow> ('c, unit) reset" where
  "reissue_properties E emit described to_time =
    py_bind (py_lift (mk_muid to_time 0 0)) (\<lambda>limit.
    py_bind (of_store (\<lambda>st. Inr (irange E (st_by_describing st) (Some described) (Some (described @ muid_bytes limit)) True)))
      (reissue_loop emit described [] 0))"

text \<open>An entry that was active at the time and is not any more is added again, where it was.\<close>

definition put_back ::
  "ext \<Rightarrow> (change_pb \<Rightarrow> ('c, unit) reset) \<Rightarrow> muid \<Rightarrow> placement \<Rightarrow> int \<Rightarrow> ('c, unit) reset" where
  "put_back E emit entry_muid parsed_key to_time =
    py_bind (of_store (\<lambda>st. dindex (st_entries st) entry_muid)) (\<lambda>e.
    py_bind (py_lift (normalize_entry_builder e entry_muid)) (\<lambda>e'.
    py_then (put_entry entry_muid e')
   (py_bind (py_lift (get_queue_position parsed_key)) (\<lambda>position.
    py_then (put_entry entry_muid (e'\<lparr>en_effective := position\<rparr>))
   (py_then (emit (wrap_change (e'\<lparr>en_effective := position\<rparr>)))
     (py_when (en_behavior e' = EDGE_TYPE) (reissue_properties E emit (muid_bytes entry_muid) to_time)))))))"

fun ordered_reset_loop ::
  "ext \<Rightarrow> (change_pb \<Rightarrow> ('c, unit) reset) \<Rightarrow> (muid \<Rightarrow> ('c, unit) reset) \<Rightarrow> muid \<Rightarrow> int \<Rightarrow> int \<Rightarrow> int \<Rightarrow> int \<Rightarrow>
    bytes list \<Rightarrow> ('c, unit) reset" where
  "ordered_reset_loop E emit recurse container to_time behavior last_clear_time clear_before_to [] = py_return ()"
| "ordered_reset_loop E emit recurse container to_time behavior last_clear_time clear_before_to (b # bs) =
    py_bind (of_store (\<lambda>st. dindex (st_placements st) b)) (\<lambda>entry_muid.
    if take 16 b \<noteq> muid_bytes container then py_return ()
    else
      py_bind (py_lift (placement_from_bytes E b behavior)) (\<lambda>parsed_key.
      py_bind (of_store (\<lambda>st. placement_at E st entry_muid behavior (-1))) (\<lambda>location.
      py_bind (of_store (\<lambda>st. placement_at E st entry_muid behavior to_time)) (\<lambda>previous.
      let placed_time = mu_timestamp (pl_placer parsed_key) in
      py_then (py_when (to_time \<le> placed_time \<and> last_clear_time < placed_time \<and> location = Some parsed_key)
        (py_bind (py_lift (undo_placing container entry_muid parsed_key previous)) (\<lambda>change.
           case change of None \<Rightarrow> py_return () | Some c \<Rightarrow> emit c)))
     (py_then (py_when (previous = Some parsed_key \<and> clear_before_to < placed_time)
        (py_bind (of_store (\<lambda>st. dindex (st_entries st) entry_muid)) (\<lambda>e.
         py_bind (py_lift (decode_entry_occupant E entry_muid e)) (\<lambda>occ.
         py_then (recurse_on recurse occ)
           (py_when (location = None \<or> placed_time < last_clear_time) (put_back E emit entry_muid parsed_key to_time))))))
       (ordered_reset_loop E emit recurse container to_time behavior last_clear_time clear_before_to bs))))))"

definition get_ordered_reset_changes ::
  "ext \<Rightarrow> (change_pb \<Rightarrow> ('c, unit) reset) \<Rightarrow> (muid \<Rightarrow> ('c, unit) reset) \<Rightarrow> muid \<Rightarrow> int \<Rightarrow> int \<Rightarrow> ('c, unit) reset" where
  "get_ordered_reset_changes E emit recurse container to_time behavior =
    enter_container container
     (py_bind (of_store (\<lambda>st. get_time_of_prior_clear E st container (-1))) (\<lambda>last_clear_time.
      py_bind (of_store (\<lambda>st. get_time_of_prior_clear E st container to_time)) (\<lambda>clear_before_to.
      py_bind (of_store (\<lambda>st. Inr (irange E (st_placements st) (Some (muid_bytes container)) None False)))
        (ordered_reset_loop E emit recurse container to_time behavior last_clear_time clear_before_to))))"

section \<open>Containers\<close>

text \<open>
  The recursion descends into containers that were not seen before, so the entries of the store bound its depth;
  \<open>RuntimeError\<close> is Python's error for a recursion that is too deep.
\<close>

fun container_reset_changes ::
  "ext \<Rightarrow> (change_pb \<Rightarrow> ('c, unit) reset) \<Rightarrow> int \<Rightarrow> nat \<Rightarrow> muid \<Rightarrow> ('c, unit) reset" where
  "container_reset_changes E emit to_time 0 container = py_raise RuntimeError"
| "container_reset_changes E emit to_time (Suc n) container =
    py_bind (of_store (\<lambda>st. get_behavior st container)) (\<lambda>behavior.
    if behavior = VERTEX then get_vertex_reset_changes E emit container to_time
    else if behavior \<in> {DIRECTORY, BOX, GROUP, KEY_SET, PROPERTY, PAIR_MAP, PAIR_SET}
    then get_keyed_reset_changes E emit (container_reset_changes E emit to_time n) container to_time None behavior
    else if behavior = SEQUENCE \<or> behavior = EDGE_TYPE
    then get_ordered_reset_changes E emit (container_reset_changes E emit to_time n) container to_time behavior
    else if behavior = BRAID then py_return ()
    else if behavior = ACCUMULATOR then py_bind (of_store (\<lambda>st. get_accumulator_reset E st container to_time)) emit
    else py_raise NotImplementedError)"

definition container_classes :: "int list" where
  "container_classes = [BOX, SEQUENCE, PAIR_MAP, DIRECTORY, KEY_SET, GROUP, VERTEX, PAIR_SET, EDGE_TYPE, PROPERTY,
     BRAID, ACCUMULATOR]"

definition get_reset_changes ::
  "ext \<Rightarrow> (change_pb \<Rightarrow> ('c, unit) reset) \<Rightarrow> int \<Rightarrow> muid option \<Rightarrow> ukey option \<Rightarrow> bool \<Rightarrow> ('c, unit) reset" where
  "get_reset_changes E emit to_time container user_key recursive =
    py_bind (of_store (\<lambda>st. Inr (length (st_entries st) + 2))) (\<lambda>n.
    case container of
      None \<Rightarrow>
        if user_key \<noteq> None then py_raise ValueError
        else py_then (py_modify (\<lambda>r. r\<lparr>rr_seen := None\<rparr>))
         (py_bind (of_store (\<lambda>st. Inr (dkeys (st_containers st)))) (\<lambda>cs.
          py_then (py_each (container_reset_changes E emit to_time n) cs)
            (py_each (\<lambda>b. py_bind (py_lift (mk_muid (-1) (-1) b)) (container_reset_changes E emit to_time n))
              container_classes)))
    | Some c \<Rightarrow>
        py_then (py_modify (\<lambda>r. r\<lparr>rr_seen := (if recursive then Some [] else None)\<rparr>))
          (if user_key \<noteq> None
           then get_keyed_reset_changes E emit (container_reset_changes E emit to_time n) c to_time user_key DIRECTORY
           else container_reset_changes E emit to_time n c))"

section \<open>The list of changes\<close>

text \<open>The consumer that collects what the generator yields.\<close>

record reset_list = reset_run +
  rr_out :: "change_pb list"

definition collect :: "change_pb \<Rightarrow> (reset_list, unit) py" where
  "collect c = py_modify (\<lambda>r. r\<lparr>rr_out := rr_out r @ [c]\<rparr>)"

definition list_reset_changes ::
  "ext \<Rightarrow> int \<Rightarrow> muid option \<Rightarrow> ukey option \<Rightarrow> bool \<Rightarrow> (mem_store, change_pb list) py" where
  "list_reset_changes E to_time container user_key recursive = (\<lambda>st.
    case get_reset_changes E collect to_time container user_key recursive
        \<lparr>rr_seen = None, rr_store = st, rr_out = []\<rparr> of
      (Inl e, r) \<Rightarrow> (Inl e, rr_store r)
    | (Inr _, r) \<Rightarrow> (Inr (rr_out r), rr_store r))"

end
