(* ===== verification/Lmdb_Tables.thy ===== *)
theory Lmdb_Tables
  imports Mem_Queries
begin

text \<open>
  The tables of \<open>python/gink/impl/lmdb_store.py\<close> and the transactions over them. A table maps byte strings to
  byte strings; a cursor visits its keys in byte order, so the position of a cursor is the key under it. The
  ordered scan of \<open>lmdb\<close> and the serialization of the messages are parameters (\<open>lmdb_ext\<close>).
\<close>

section \<open>What the store calls\<close>

record lmdb_ext =
  lm_scan :: "bytes scan"
  lm_entry_ser :: "entry_pb \<Rightarrow> bytes"
  lm_entry_parse :: "bytes \<Rightarrow> entry_pb result"
  lm_container_ser :: "int \<Rightarrow> bytes"
  lm_container_parse :: "bytes \<Rightarrow> int result"
  lm_movement_ser :: "movement_pb \<Rightarrow> bytes"
  lm_movement_parse :: "bytes \<Rightarrow> movement_pb result"
  lm_clearance_ser :: "clearance_pb \<Rightarrow> bytes"
  lm_claim_ser :: "claim \<Rightarrow> bytes"
  lm_claim_parse :: "bytes \<Rightarrow> claim result"
  lm_value_ser :: "value_pb \<Rightarrow> bytes"
  lm_pointee_ser :: "muid_pb \<Rightarrow> bytes"

definition lmdb_ok :: "lmdb_ext \<Rightarrow> bool" where
  "lmdb_ok L \<longleftrightarrow> scan_ok id (lm_scan L) \<and> (\<forall>e. lm_entry_parse L (lm_entry_ser L e) = Inr e) \<and>
    (\<forall>b. lm_container_parse L (lm_container_ser L b) = Inr b) \<and> (\<forall>c. lm_claim_parse L (lm_claim_ser L c) = Inr c)"

section \<open>Tables\<close>

datatype table =
    TBundles
  | TBundleInfos
  | TChains
  | TClaims
  | TEntries
  | TRemovals
  | TRemovalsByTime
  | TContainers
  | TLocations
  | TRetentions
  | TClearances
  | TProperties
  | TPlacements
  | TByDescribing
  | TByPointee
  | TByName
  | TBySide
  | TIdentities
  | TSigningKeys
  | TVerifyKeys
  | TSymmetricKeys
  | TTotals
  | TByValue

type_synonym tables = "table \<Rightarrow> (bytes, bytes) dict"

record lmdb_store =
  lb_tables :: tables
  lb_work :: tables
  lb_seen_containers :: "muid list"
  lb_seen_through :: int
  lb_apply_changes :: bool
  lb_called :: "bytes list"

type_synonym 'a tx = "(lmdb_store, 'a) py"

section \<open>Cursors\<close>

definition cur_first :: "lmdb_ext \<Rightarrow> (bytes, bytes) dict \<Rightarrow> bytes option" where
  "cur_first L d = head_opt (lm_scan L (dkeys d) None None False)"

definition cur_last :: "lmdb_ext \<Rightarrow> (bytes, bytes) dict \<Rightarrow> bytes option" where
  "cur_last L d = head_opt (lm_scan L (dkeys d) None None True)"

definition cur_set_range :: "lmdb_ext \<Rightarrow> (bytes, bytes) dict \<Rightarrow> bytes \<Rightarrow> bytes option" where
  "cur_set_range L d k = head_opt (lm_scan L (dkeys d) (Some k) None False)"

definition cur_prev :: "lmdb_ext \<Rightarrow> (bytes, bytes) dict \<Rightarrow> bytes \<Rightarrow> bytes option" where
  "cur_prev L d k = head_opt (List.filter (\<lambda>x. x \<noteq> k) (lm_scan L (dkeys d) None (Some k) True))"

text \<open>The keys that a cursor visits from a position on, to the end or back to the beginning.\<close>

definition cur_forward :: "lmdb_ext \<Rightarrow> (bytes, bytes) dict \<Rightarrow> bytes \<Rightarrow> bytes list" where
  "cur_forward L d k = lm_scan L (dkeys d) (Some k) None False"

definition cur_back :: "lmdb_ext \<Rightarrow> (bytes, bytes) dict \<Rightarrow> bytes option \<Rightarrow> bytes list" where
  "cur_back L d from = (case from of None \<Rightarrow> [] | Some k \<Rightarrow> lm_scan L (dkeys d) None (Some k) True)"

text \<open>
  \<open>to_last_with_prefix\<close> of \<open>lmdb_utilities.py\<close>: the boundary, and the last key before it when that has the prefix.
\<close>

definition seek_boundary :: "bytes \<Rightarrow> bytes option \<Rightarrow> bytes option \<Rightarrow> bytes" where
  "seek_boundary pre sfx boundary =
    (if boundary = None \<and> sfx = None
     then if pre \<noteq> [] \<and> last pre < 255 then butlast pre @ [last pre + 1] else pre @ replicate 40 255
     else case sfx of
       Some s \<Rightarrow> pre @ s
     | None \<Rightarrow> (case boundary of Some b \<Rightarrow> b | None \<Rightarrow> []))"

definition seek_key :: "lmdb_ext \<Rightarrow> (bytes, bytes) dict \<Rightarrow> bytes \<Rightarrow> bytes option" where
  "seek_key L d boundary =
    (case cur_set_range L d boundary of
      Some k \<Rightarrow> cur_prev L d k
    | None \<Rightarrow> cur_last L d)"

definition to_last_with_prefix ::
  "lmdb_ext \<Rightarrow> (bytes, bytes) dict \<Rightarrow> bytes \<Rightarrow> bytes option \<Rightarrow> bytes option \<Rightarrow> bytes option result" where
  "to_last_with_prefix L d pre sfx boundary =
    (if sfx \<noteq> None \<and> sfx \<noteq> Some [] \<and> boundary \<noteq> None \<and> boundary \<noteq> Some [] then Inl ValueError
     else Inr (case seek_key L d (seek_boundary pre sfx boundary) of
       None \<Rightarrow> None
     | Some key \<Rightarrow> if prefix pre key then Some key else None))"

definition count_items :: "lmdb_ext \<Rightarrow> (bytes, bytes) dict \<Rightarrow> int" where
  "count_items L d = int (length (lm_scan L (dkeys d) None None False))"

section \<open>Transactions\<close>

text \<open>
  A writing transaction works on a copy of the tables, which replaces them when the block ends and is dropped when
  an exception leaves it. A reading transaction inside it sees the tables as they were committed.
\<close>

definition with_write :: "'a tx \<Rightarrow> 'a tx" where
  "with_write m = (\<lambda>s. case m (s\<lparr>lb_work := lb_tables s\<rparr>) of
     (Inl e, s') \<Rightarrow> (Inl e, s'\<lparr>lb_work := lb_tables s'\<rparr>)
   | (Inr x, s') \<Rightarrow> (Inr x, s'\<lparr>lb_tables := lb_work s'\<rparr>))"

definition with_read :: "(tables \<Rightarrow> 'a result) \<Rightarrow> 'a tx" where
  "with_read f = py_read (\<lambda>s. f (lb_tables s))"

definition tx_read :: "(tables \<Rightarrow> 'a result) \<Rightarrow> 'a tx" where
  "tx_read f = py_read (\<lambda>s. f (lb_work s))"

definition tx_get :: "table \<Rightarrow> bytes \<Rightarrow> bytes option tx" where
  "tx_get t k = tx_read (\<lambda>T. Inr (dget (T t) k))"

definition valsize_ok :: "bytes \<Rightarrow> bool" where
  "valsize_ok k \<longleftrightarrow> 1 \<le> length k \<and> length k \<le> 511"

definition tx_put :: "table \<Rightarrow> bytes \<Rightarrow> bytes \<Rightarrow> unit tx" where
  "tx_put t k v =
    (if valsize_ok k then py_modify (\<lambda>s. s\<lparr>lb_work := (lb_work s)(t := dput k v (lb_work s t))\<rparr>)
     else py_raise BadValsizeError)"

definition tx_delete :: "table \<Rightarrow> bytes \<Rightarrow> unit tx" where
  "tx_delete t k =
    (if valsize_ok k then py_modify (\<lambda>s. s\<lparr>lb_work := (lb_work s)(t := dpop k (lb_work s t))\<rparr>)
     else py_raise BadValsizeError)"

definition tx_drop :: "table \<Rightarrow> unit tx" where
  "tx_drop t = py_modify (\<lambda>s. s\<lparr>lb_work := (lb_work s)(t := [])\<rparr>)"

definition opt_or :: "py_error \<Rightarrow> 'a option \<Rightarrow> 'a result" where
  "opt_or e x = (case x of None \<Rightarrow> Inl e | Some v \<Rightarrow> Inr v)"

text \<open>A flag of the retentions: \<open>decode_muts(trxn.get(...))\<close>, which is \<open>None\<close> for 0.\<close>

definition retention :: "string \<Rightarrow> tables \<Rightarrow> int option result" where
  "retention name T = bindr (opt_or TypeError (dget (T TRetentions) (str_encode name))) decode_muts"

definition muts_of :: "int \<Rightarrow> bytes result" where
  "muts_of t = encode_muts (Some t)"

end
