(* ===== verification/Lmdb_Queries.thy ===== *)
theory Lmdb_Queries
  imports Lmdb_Tables
begin

text \<open>
  The reading operations of \<open>LmdbStore\<close>, each over the tables that its transaction sees. A generator of the code is
  the list of what it yields; an exception inside one is an exception of the whole.
\<close>

definition value_at :: "tables \<Rightarrow> table \<Rightarrow> bytes \<Rightarrow> bytes result" where
  "value_at T t k = opt_or TypeError (dget (T t) k)"

definition stored_entry :: "lmdb_ext \<Rightarrow> tables \<Rightarrow> bytes \<Rightarrow> entry_pb result" where
  "stored_entry L T k = bindr (value_at T TEntries k) (lm_entry_parse L)"

section \<open>Bundles and chains\<close>

definition info_prefix :: "int \<Rightarrow> int \<Rightarrow> bytes result" where
  "info_prefix timestamp medallion = bindr (pack_q timestamp) (\<lambda>a. bindr (pack_q medallion) (\<lambda>b. Inr (a @ b)))"

definition lmdb_get_one_bundle :: "lmdb_ext \<Rightarrow> tables \<Rightarrow> int \<Rightarrow> int \<Rightarrow> bytes result" where
  "lmdb_get_one_bundle L T timestamp medallion =
    bindr (info_prefix timestamp medallion) (\<lambda>p.
    bindr (to_last_with_prefix L (T TBundleInfos) p None None) (\<lambda>found.
    bindr (opt_or KeyError found) (\<lambda>key.
    bindr (value_at T TBundleInfos key) (\<lambda>received.
      case dget (T TBundles) received of
        None \<Rightarrow> Inl KeyError
      | Some b \<Rightarrow> if b = [] then Inl KeyError else Inr b))))"

definition lmdb_get_comment :: "lmdb_ext \<Rightarrow> tables \<Rightarrow> int \<Rightarrow> int \<Rightarrow> string option result" where
  "lmdb_get_comment L T medallion timestamp =
    bindr (info_prefix timestamp medallion) (\<lambda>p.
    bindr (to_last_with_prefix L (T TBundleInfos) p None None) (\<lambda>found.
      case found of None \<Rightarrow> Inr None | Some key \<Rightarrow> bindr (info_from_bytes key) (\<lambda>i. Inr (bi_comment i))))"

definition lmdb_get_chains :: "lmdb_ext \<Rightarrow> tables \<Rightarrow> chain list result" where
  "lmdb_get_chains L T = mapr chain_from_bytes (lm_scan L (dkeys (T TChains)) None None False)"

definition lmdb_get_identity :: "tables \<Rightarrow> chain \<Rightarrow> string result" where
  "lmdb_get_identity T c =
    bindr (chain_bytes c) (\<lambda>k. bindr (opt_or ValueError (dget (T TIdentities) k)) (\<lambda>b. Inr (bytes_decode b)))"

definition lmdb_find_chain :: "lmdb_ext \<Rightarrow> tables \<Rightarrow> int \<Rightarrow> int \<Rightarrow> chain result" where
  "lmdb_find_chain L T medallion timestamp =
    bindr (pack_q medallion) (\<lambda>p.
    bindr (to_last_with_prefix L (T TIdentities) p None None) (\<lambda>found.
    bindr (opt_or ValueError found) (\<lambda>key.
    bindr (chain_from_bytes key) (\<lambda>c.
      if timestamp < ch_start c \<or> ch_medallion c \<noteq> medallion then Inl ValueError else Inr c))))"

definition lmdb_get_last :: "tables \<Rightarrow> chain \<Rightarrow> bundle_info result" where
  "lmdb_get_last T c =
    bindr (chain_bytes c) (\<lambda>k. bindr (opt_or ValueError (dget (T TChains) k)) info_from_bytes)"

fun lmdb_bundles_loop :: "tables \<Rightarrow> (chain, limit) dict option \<Rightarrow> bytes list \<Rightarrow> bytes list result" where
  "lmdb_bundles_loop T limit_to [] = Inr []"
| "lmdb_bundles_loop T limit_to (k # ks) =
    bindr (info_from_bytes k) (\<lambda>i.
      if limit_allows limit_to i
      then bindr (value_at T TBundleInfos k) (\<lambda>received.
           bindr (value_at T TBundles received) (\<lambda>b.
           bindr (lmdb_bundles_loop T limit_to ks) (\<lambda>rest. Inr (b # rest))))
      else lmdb_bundles_loop T limit_to ks)"

text \<open>The bundles that \<open>get_bundles\<close> hands to its callback, in the order it does.\<close>

definition lmdb_get_bundles :: "lmdb_ext \<Rightarrow> tables \<Rightarrow> (chain, limit) dict option \<Rightarrow> bytes list result" where
  "lmdb_get_bundles L T limit_to =
    bindr (retention ''bundles'' T) (\<lambda>r.
      if r \<noteq> Some 1 then Inl ValueError
      else bindr (muts_of 0) (\<lambda>start. lmdb_bundles_loop T limit_to (cur_forward L (T TBundleInfos) start)))"

definition lmdb_get_has_map :: "lmdb_ext \<Rightarrow> tables \<Rightarrow> chain list option \<Rightarrow> has_map result" where
  "lmdb_get_has_map L T limit_to =
    bindr (mapr (\<lambda>k. bindr (value_at T TChains k) info_from_bytes) (lm_scan L (dkeys (T TChains)) None None False)) (\<lambda>infos.
      let full = foldl mark_as_having [] infos
      in Inr (case limit_to of None \<Rightarrow> full | Some cs \<Rightarrow> get_subset full cs))"

section \<open>Containers, entries, keys and claims\<close>

definition lmdb_get_entry :: "lmdb_ext \<Rightarrow> tables \<Rightarrow> muid \<Rightarrow> entry_pb option result" where
  "lmdb_get_entry L T u =
    (case dget (T TEntries) (muid_bytes u) of
      None \<Rightarrow> Inr None
    | Some b \<Rightarrow> if b = [] then Inr None else bindr (lm_entry_parse L b) (\<lambda>e. Inr (Some e)))"

definition lmdb_get_container :: "lmdb_ext \<Rightarrow> tables \<Rightarrow> muid \<Rightarrow> int option result" where
  "lmdb_get_container L T u =
    (case dget (T TContainers) (muid_bytes u) of
      None \<Rightarrow> Inr None
    | Some b \<Rightarrow> bindr (lm_container_parse L b) (\<lambda>c. Inr (Some c)))"

definition lmdb_list_containers :: "lmdb_ext \<Rightarrow> tables \<Rightarrow> (muid \<times> int) list result" where
  "lmdb_list_containers L T =
    mapr (\<lambda>k. bindr (value_at T TContainers k) (\<lambda>v. bindr (lm_container_parse L v) (\<lambda>c.
        bindr (muid_from_bytes k) (\<lambda>u. Inr (u, c)))))
      (lm_scan L (dkeys (T TContainers)) None None False)"

definition lmdb_get_behavior :: "lmdb_ext \<Rightarrow> tables \<Rightarrow> muid \<Rightarrow> int result" where
  "lmdb_get_behavior L T container =
    (if mu_timestamp container = -1 then Inr (mu_offset container)
     else bindr (opt_or AssertionError (dget (T TContainers) (muid_bytes container))) (lm_container_parse L))"

definition lmdb_get_symmetric_key :: "lmdb_ext \<Rightarrow> tables \<Rightarrow> key_selector \<Rightarrow> bytes option result" where
  "lmdb_get_symmetric_key L T sel =
    (case sel of
      ByChain _ \<Rightarrow> Inl GenericException
    | AnyKey \<Rightarrow>
        (case length (T TSymmetricKeys) of
          0 \<Rightarrow> Inr None
        | Suc 0 \<Rightarrow> Inr (case cur_first L (T TSymmetricKeys) of None \<Rightarrow> None | Some k \<Rightarrow> dget (T TSymmetricKeys) k)
        | _ \<Rightarrow> Inl GenericException)
    | ByKeyId n \<Rightarrow>
        bindr (muts_of n) (\<lambda>k.
        bindr (opt_or KeyError (dget (T TSymmetricKeys) k)) (\<lambda>found.
          if length found = 32 then Inr (Some found) else Inl AssertionError)))"

definition lmdb_get_signing_key :: "tables \<Rightarrow> bytes \<Rightarrow> bytes result" where
  "lmdb_get_signing_key T verify_key = opt_or KeyError (dget (T TSigningKeys) verify_key)"

definition lmdb_get_verify_key :: "ext \<Rightarrow> tables \<Rightarrow> chain \<Rightarrow> bytes result" where
  "lmdb_get_verify_key E T c =
    bindr (chain_bytes c) (\<lambda>k. bindr (opt_or KeyError (dget (T TVerifyKeys) k)) (x_load_verify_key E))"

definition lmdb_get_claims :: "lmdb_ext \<Rightarrow> tables \<Rightarrow> (int, claim) dict result" where
  "lmdb_get_claims L T =
    bindr (mapr (\<lambda>k. bindr (value_at T TClaims k) (lm_claim_parse L)) (lm_scan L (dkeys (T TClaims)) None None False)) (\<lambda>cs.
      Inr (foldl (\<lambda>d c. dput (cm_medallion c) c d) [] cs))"

section \<open>Accumulators\<close>

definition total_text :: "tables \<Rightarrow> bytes \<Rightarrow> string" where
  "total_text T k = (case dget (T TTotals) k of None \<Rightarrow> ''0'' | Some b \<Rightarrow> bytes_decode b)"

fun lmdb_sum :: "ext \<Rightarrow> lmdb_ext \<Rightarrow> tables \<Rightarrow> bytes \<Rightarrow> int \<Rightarrow> bytes list \<Rightarrow> int result" where
  "lmdb_sum E L T pre as_of [] = Inr 0"
| "lmdb_sum E L T pre as_of (k # ks) =
    (if \<not> prefix pre k then Inr 0
     else bindr (placement_from_bytes E k ACCUMULATOR) (\<lambda>p.
       if 0 < as_of \<and> as_of < mu_timestamp (pl_placer p) then Inr 0
       else bindr (value_at T TPlacements k) (\<lambda>u.
         bindr (bindr (opt_or AssertionError (dget (T TEntries) u)) (lm_entry_parse L)) (\<lambda>e.
         bindr (require (en_behavior e = ACCUMULATOR) AssertionError) (\<lambda>_.
         bindr (py_int 10 (integer_text e)) (\<lambda>n.
         bindr (lmdb_sum E L T pre as_of ks) (\<lambda>rest. Inr (n + rest))))))))"

definition lmdb_get_billionths :: "ext \<Rightarrow> lmdb_ext \<Rightarrow> tables \<Rightarrow> muid \<Rightarrow> int \<Rightarrow> int result" where
  "lmdb_get_billionths E L T accumulator as_of =
    (if as_of = -1 then py_int 10 (total_text T (muid_bytes accumulator))
     else lmdb_sum E L T (muid_bytes accumulator) as_of (cur_forward L (T TPlacements) (muid_bytes accumulator)))"

section \<open>Lookup by key\<close>

definition lmdb_time_of_prior_clear :: "lmdb_ext \<Rightarrow> tables \<Rightarrow> muid \<Rightarrow> int \<Rightarrow> int result" where
  "lmdb_time_of_prior_clear L T container as_of =
    bindr (mk_muid as_of 0 0) (\<lambda>as_of_muid.
    bindr (to_last_with_prefix L (T TClearances) (muid_bytes container) (Some (muid_bytes as_of_muid)) None) (\<lambda>found.
      case found of
        None \<Rightarrow> Inr 0
      | Some k \<Rightarrow> bindr (muid_from_bytes (take 16 (drop 16 k))) (\<lambda>u. Inr (mu_timestamp u))))"

fun key_and_behavior :: "ext \<Rightarrow> middle \<Rightarrow> (bytes \<times> int) result" where
  "key_and_behavior E (MidMuid u) = Inr (muid_bytes u, PROPERTY)"
| "key_and_behavior E (MidPair l r) = Inr (muid_bytes l @ muid_bytes r, PAIR_MAP)"
| "key_and_behavior E (MidKey k) = bindr (encode_key k) (\<lambda>pb. Inr (x_key_ser E pb, DIRECTORY))"
| "key_and_behavior E MidNone = Inr ([], BOX)"
| "key_and_behavior E (MidQueue t) = Inl TypeError"

definition lmdb_get_entry_by_key ::
  "ext \<Rightarrow> lmdb_ext \<Rightarrow> tables \<Rightarrow> muid \<Rightarrow> middle \<Rightarrow> int \<Rightarrow> (muid \<times> entry_pb) option result" where
  "lmdb_get_entry_by_key E L T container key as_of =
    (if mu_timestamp container = 0 then Inr None
     else
       bindr (lmdb_time_of_prior_clear L T container as_of) (\<lambda>clearance_time.
       bindr (key_and_behavior E key) (\<lambda>(serialized_key, behavior).
       bindr (mk_muid as_of 0 0) (\<lambda>as_of_muid.
       bindr (to_last_with_prefix L (T TPlacements) (muid_bytes container @ serialized_key) (Some (muid_bytes as_of_muid)) None)
        (\<lambda>found.
       case found of
         None \<Rightarrow> Inr None
       | Some placement_key_bytes \<Rightarrow>
           bindr (placement_from_bytes E placement_key_bytes behavior) (\<lambda>p.
           if mu_timestamp (pl_placer p) < clearance_time then Inr None
           else bindr (value_at T TPlacements placement_key_bytes) (\<lambda>u.
                bindr (stored_entry L T u) (\<lambda>e. Inr (Some (pl_placer p, e))))))))))"

section \<open>Keyed containers\<close>

text \<open>
  The loop of \<open>get_keyed_entries\<close> goes from one key to the next smaller one, so the number of placements bounds it.
  Where it has to look for an older placement of a key, it keeps what it parsed of the newer one.
\<close>

fun lmdb_keyed_loop ::
  "ext \<Rightarrow> lmdb_ext \<Rightarrow> tables \<Rightarrow> muid \<Rightarrow> int \<Rightarrow> int \<Rightarrow> bytes \<Rightarrow> int \<Rightarrow> nat \<Rightarrow> bytes option \<Rightarrow> (muid \<times> entry_pb) list result"
where
  "lmdb_keyed_loop E L T container behavior as_of as_of_bytes clearance_time n None = Inr []"
| "lmdb_keyed_loop E L T container behavior as_of as_of_bytes clearance_time 0 (Some ckey) = Inl RuntimeError"
| "lmdb_keyed_loop E L T container behavior as_of as_of_bytes clearance_time (Suc n) (Some ckey) =
    bindr (placement_from_bytes E ckey behavior) (\<lambda>p.
    let table = T TPlacements; ts = mu_timestamp (pl_placer p);
        go = (\<lambda>k. bindr (to_last_with_prefix L table (muid_bytes container) (Some (drop 16 (cut_tail k))) None)
          (lmdb_keyed_loop E L T container behavior as_of as_of_bytes clearance_time n)) in
    bindr (if as_of \<le> ts then to_last_with_prefix L table (cut_tail ckey) (Some as_of_bytes) None else Inr (Some ckey)) (\<lambda>at.
    case at of
      None \<Rightarrow> go ckey
    | Some k \<Rightarrow>
        if clearance_time \<noteq> 0 \<and> ts < clearance_time then go k
        else if (case pl_expiry p of None \<Rightarrow> False | Some x \<Rightarrow> x \<noteq> 0 \<and> x < as_of) then go k
        else bindr (value_at T TPlacements k) (\<lambda>u.
             bindr (stored_entry L T u) (\<lambda>e.
             bindr (go k) (\<lambda>rest. Inr ((pl_placer p, e) # rest))))))"

definition lmdb_get_keyed_entries ::
  "ext \<Rightarrow> lmdb_ext \<Rightarrow> tables \<Rightarrow> muid \<Rightarrow> int \<Rightarrow> int \<Rightarrow> (muid \<times> entry_pb) list result" where
  "lmdb_get_keyed_entries E L T container behavior as_of =
    bindr (mk_muid as_of 0 0) (\<lambda>as_of_muid.
    bindr (lmdb_time_of_prior_clear L T container as_of) (\<lambda>clearance_time.
    bindr (to_last_with_prefix L (T TPlacements) (muid_bytes container) None None) (\<lambda>first.
      lmdb_keyed_loop E L T container behavior as_of (muid_bytes as_of_muid) clearance_time
        (length (T TPlacements)) first)))"

section \<open>Sequences\<close>

definition lmdb_get_location :: "ext \<Rightarrow> lmdb_ext \<Rightarrow> tables \<Rightarrow> muid \<Rightarrow> int \<Rightarrow> placement option result" where
  "lmdb_get_location E L T entry_muid as_of =
    bindr (mk_muid as_of 0 0) (\<lambda>as_of_muid.
    bindr (to_last_with_prefix L (T TLocations) (muid_bytes entry_muid) (Some (muid_bytes as_of_muid)) None) (\<lambda>found.
      case found of
        None \<Rightarrow> Inr None
      | Some k \<Rightarrow> bindr (value_at T TLocations k) (\<lambda>v.
          if v = [] then Inr None else bindr (placement_from_bytes E v SEQUENCE) (\<lambda>p. Inr (Some p)))))"

definition lmdb_get_positioned_entry :: "ext \<Rightarrow> lmdb_ext \<Rightarrow> tables \<Rightarrow> muid \<Rightarrow> int \<Rightarrow> positioned_entry option result" where
  "lmdb_get_positioned_entry E L T entry as_of =
    bindr (lmdb_get_location E L T entry as_of) (\<lambda>found.
      case found of
        None \<Rightarrow> Inr None
      | Some p \<Rightarrow>
          (case pl_middle p of
            MidQueue t \<Rightarrow> bindr (stored_entry L T (muid_bytes entry)) (\<lambda>e.
              Inr (Some \<lparr>pe_position = t, pe_positioner = pl_placer p, pe_entry_muid = entry, pe_builder = e\<rparr>))
          | _ \<Rightarrow> Inl AssertionError))"

definition lmdb_gone :: "lmdb_ext \<Rightarrow> tables \<Rightarrow> bytes \<Rightarrow> muid \<Rightarrow> int \<Rightarrow> bool result" where
  "lmdb_gone L T pre positioner as_of =
    bindr (to_last_with_prefix L (T TRemovals) (pre @ muid_bytes positioner) None None) (\<lambda>found.
      case found of
        None \<Rightarrow> Inr False
      | Some r \<Rightarrow> bindr (muid_from_bytes (drop 32 r)) (\<lambda>m. Inr (mu_timestamp m < as_of)))"

fun lmdb_ordered_loop ::
  "ext \<Rightarrow> lmdb_ext \<Rightarrow> tables \<Rightarrow> bytes \<Rightarrow> int \<Rightarrow> int \<Rightarrow> int option \<Rightarrow> int \<Rightarrow> bool \<Rightarrow> int \<Rightarrow> bytes list \<Rightarrow>
    positioned_entry list result"
where
  "lmdb_ordered_loop E L T pre as_of clearance_time limit off desc after [] = Inr []"
| "lmdb_ordered_loop E L T pre as_of clearance_time limit off desc after (k # ks) =
    (if (case limit of None \<Rightarrow> False | Some n \<Rightarrow> n \<le> 0) \<or> \<not> prefix pre k then Inr []
     else bindr (placement_from_bytes E k SEQUENCE) (\<lambda>p.
       case pl_middle p of
         MidQueue t \<Rightarrow>
           let placed = mu_timestamp (pl_placer p);
               go = (\<lambda>lim o'. lmdb_ordered_loop E L T pre as_of clearance_time lim o' desc after ks) in
           if as_of < t then (if desc then go limit off else Inr [])
           else if t < after then (if desc then Inr [] else Inl AssertionError)
           else if as_of \<le> placed \<or> placed < clearance_time then go limit off
           else if (case pl_expiry p of None \<Rightarrow> False | Some x \<Rightarrow> x \<noteq> 0 \<and> x < as_of) then go limit off
           else bindr (lmdb_gone L T pre (pl_placer p) as_of) (\<lambda>gone.
             if gone then go limit off
             else if 0 < off then go limit (off - 1)
             else
               bindr (value_at T TPlacements k) (\<lambda>u.
               bindr (stored_entry L T u) (\<lambda>e.
               bindr (muid_from_bytes u) (\<lambda>entry_muid.
               bindr (go (map_option (\<lambda>n. n - 1) limit) off) (\<lambda>rest.
                 Inr (\<lparr>pe_position = t, pe_positioner = pl_placer p, pe_entry_muid = entry_muid, pe_builder = e\<rparr> # rest))))))
       | _ \<Rightarrow> Inl AssertionError))"

definition lmdb_get_ordered_entries ::
  "ext \<Rightarrow> lmdb_ext \<Rightarrow> tables \<Rightarrow> muid \<Rightarrow> int \<Rightarrow> int option \<Rightarrow> int \<Rightarrow> bool \<Rightarrow> int \<Rightarrow> positioned_entry list result" where
  "lmdb_get_ordered_entries E L T container as_of limit off desc after =
    bindr (lmdb_time_of_prior_clear L T container as_of) (\<lambda>clearance_time.
    bindr (if desc
       then bindr (to_last_with_prefix L (T TPlacements) (muid_bytes container) None None) (\<lambda>k. Inr (cur_back L (T TPlacements) k))
       else bindr (muts_of after) (\<lambda>a. Inr (cur_forward L (T TPlacements) (muid_bytes container @ a)))) (\<lambda>ks.
      lmdb_ordered_loop E L T (muid_bytes container) as_of clearance_time limit off desc after ks))"

section \<open>Edges\<close>

definition lmdb_removed :: "lmdb_ext \<Rightarrow> tables \<Rightarrow> bytes \<Rightarrow> bytes option \<Rightarrow> bool result" where
  "lmdb_removed L T pre sfx = bindr (to_last_with_prefix L (T TRemovals) pre sfx None) (\<lambda>r. Inr (r \<noteq> None))"

fun lmdb_side_loop ::
  "lmdb_ext \<Rightarrow> tables \<Rightarrow> bytes \<Rightarrow> bytes \<Rightarrow> muid option \<Rightarrow> muid option \<Rightarrow> muid option \<Rightarrow> bytes list \<Rightarrow> (muid \<times> entry_pb) list result"
where
  "lmdb_side_loop L T side as_of_bytes edge_type source target [] = Inr []"
| "lmdb_side_loop L T side as_of_bytes edge_type source target (k # ks) =
    (if \<not> prefix side k then Inr []
     else bindr (value_at T TBySide k) (\<lambda>u.
       if as_of_bytes < u then Inr []
       else
         bindr (require (length u = 16) AssertionError) (\<lambda>_.
         bindr (bindr (opt_or AssertionError (dget (T TEntries) u)) (lm_entry_parse L)) (\<lambda>e.
         bindr (muid_from_bytes u) (\<lambda>entry_muid.
         bindr (muid_create (CtxMuid entry_muid) (container_of e) None) (\<lambda>found_type.
         bindr (if edge_type \<noteq> None \<and> edge_type \<noteq> Some found_type then Inr False
           else bindr (lmdb_removed L T (muid_bytes found_type @ last16 k) None) (\<lambda>removed.
             if removed then Inr False
             else
               bindr (muid_create (CtxMuid entry_muid) (pair_left e) None) (\<lambda>l.
               bindr (muid_create (CtxMuid entry_muid) (pair_rite e) None) (\<lambda>r.
                 Inr (\<not> (source \<noteq> None \<and> source \<noteq> Some l) \<and> \<not> (target \<noteq> None \<and> target \<noteq> Some r)))))) (\<lambda>include.
         bindr (lmdb_side_loop L T side as_of_bytes edge_type source target ks) (\<lambda>rest.
           Inr (if include then (entry_muid, e) # rest else rest)))))))))"

fun lmdb_type_loop ::
  "ext \<Rightarrow> lmdb_ext \<Rightarrow> tables \<Rightarrow> bytes \<Rightarrow> bytes \<Rightarrow> muid option \<Rightarrow> muid option \<Rightarrow> bytes list \<Rightarrow> (muid \<times> entry_pb) list result"
where
  "lmdb_type_loop E L T type_bytes as_of_bytes source target [] = Inr []"
| "lmdb_type_loop E L T type_bytes as_of_bytes source target (k # ks) =
    (if \<not> prefix type_bytes k \<or> \<not> k < type_bytes @ as_of_bytes then Inr []
     else
       bindr (placement_from_bytes E k EDGE_TYPE) (\<lambda>p.
       bindr (lmdb_removed L T (type_bytes @ muid_bytes (pl_placer p)) None) (\<lambda>removed.
       bindr (value_at T TPlacements k) (\<lambda>u.
       bindr (stored_entry L T u) (\<lambda>e.
       bindr (muid_from_bytes u) (\<lambda>entry_muid.
       bindr (endpoint_differs source (pair_left e) entry_muid) (\<lambda>sd.
       bindr (endpoint_differs target (pair_rite e) entry_muid) (\<lambda>td.
       bindr (lmdb_type_loop E L T type_bytes as_of_bytes source target ks) (\<lambda>rest.
         Inr (if removed \<or> sd \<or> td then rest else (entry_muid, e) # rest))))))))))"

definition lmdb_get_edge_entries ::
  "ext \<Rightarrow> lmdb_ext \<Rightarrow> tables \<Rightarrow> int \<Rightarrow> muid option \<Rightarrow> muid option \<Rightarrow> muid option \<Rightarrow> (muid \<times> entry_pb) list result" where
  "lmdb_get_edge_entries E L T as_of edge_type source target =
    (if edge_type = None \<and> source = None \<and> target = None then Inl ValueError
     else bindr (mk_muid as_of (-1) (-1)) (\<lambda>as_of_muid.
       case (case target of Some t \<Rightarrow> Some t | None \<Rightarrow> source) of
         Some side \<Rightarrow> lmdb_side_loop L T (muid_bytes side) (muid_bytes as_of_muid) edge_type source target
           (cur_forward L (T TBySide) (muid_bytes side))
       | None \<Rightarrow>
           (case edge_type of
             None \<Rightarrow> Inl AssertionError
           | Some t \<Rightarrow> lmdb_type_loop E L T (muid_bytes t) (muid_bytes as_of_muid) source target
               (cur_forward L (T TPlacements) (muid_bytes t)))))"

section \<open>Names, descriptions and values\<close>

definition lmdb_hidden :: "lmdb_ext \<Rightarrow> tables \<Rightarrow> int option \<Rightarrow> bytes \<Rightarrow> bytes \<Rightarrow> muid \<Rightarrow> bool result" where
  "lmdb_hidden L T retaining container_bytes entry_bytes as_of_muid =
    (if retaining = None \<or> retaining = Some 0 then Inr False
     else lmdb_removed L T (container_bytes @ entry_bytes) (Some (muid_bytes as_of_muid)))"

fun lmdb_describing_loop ::
  "lmdb_ext \<Rightarrow> tables \<Rightarrow> int option \<Rightarrow> bytes \<Rightarrow> int \<Rightarrow> muid \<Rightarrow> bytes list \<Rightarrow> (muid \<times> entry_pb) list result" where
  "lmdb_describing_loop L T retaining pre as_of as_of_muid [] = Inr []"
| "lmdb_describing_loop L T retaining pre as_of as_of_muid (k # ks) =
    (if \<not> prefix pre k then Inr []
     else
       bindr (value_at T TByDescribing k) (\<lambda>container_bytes.
       bindr (muid_from_bytes (last16 k)) (\<lambda>entry_muid.
       bindr (lmdb_hidden L T retaining container_bytes (last16 k) as_of_muid) (\<lambda>removed.
       bindr (if \<not> removed \<and> (as_of = -1 \<or> mu_timestamp entry_muid < as_of)
         then bindr (bindr (opt_or AssertionError (dget (T TEntries) (last16 k))) (lm_entry_parse L)) (\<lambda>e. Inr [(entry_muid, e)])
         else Inr []) (\<lambda>found.
       bindr (lmdb_describing_loop L T retaining pre as_of as_of_muid ks) (\<lambda>rest. Inr (found @ rest)))))))"

definition lmdb_get_by_describing :: "lmdb_ext \<Rightarrow> tables \<Rightarrow> muid \<Rightarrow> int \<Rightarrow> (muid \<times> entry_pb) list result" where
  "lmdb_get_by_describing L T desc as_of =
    bindr (retention ''entries'' T) (\<lambda>retaining.
    bindr (mk_muid as_of 0 0) (\<lambda>as_of_muid.
      lmdb_describing_loop L T retaining (muid_bytes desc) as_of as_of_muid
        (cur_forward L (T TByDescribing) (muid_bytes desc))))"

fun lmdb_name_loop ::
  "lmdb_ext \<Rightarrow> tables \<Rightarrow> int option \<Rightarrow> bytes \<Rightarrow> int \<Rightarrow> muid \<Rightarrow> bytes list \<Rightarrow> (muid \<times> int) list result" where
  "lmdb_name_loop L T retaining pre as_of as_of_muid [] = Inr []"
| "lmdb_name_loop L T retaining pre as_of as_of_muid (k # ks) =
    (if \<not> prefix pre k then Inr []
     else
       bindr (value_at T TByName k) (\<lambda>named_bytes.
       bindr (muid_from_bytes (last16 k)) (\<lambda>entry_muid.
       bindr (lmdb_hidden L T retaining (muid_bytes name_property) (last16 k) as_of_muid) (\<lambda>removed.
       bindr (if \<not> removed \<and> (as_of = -1 \<or> mu_timestamp entry_muid < as_of)
         then bindr (muid_from_bytes named_bytes) (\<lambda>named.
              bindr (if mu_timestamp named = -1 then Inr (mu_offset named)
                else bindr (value_at T TContainers named_bytes) (lm_container_parse L)) (\<lambda>b. Inr [(named, b)]))
         else Inr []) (\<lambda>found.
       bindr (lmdb_name_loop L T retaining pre as_of as_of_muid ks) (\<lambda>rest. Inr (found @ rest)))))))"

definition lmdb_get_by_name :: "lmdb_ext \<Rightarrow> tables \<Rightarrow> string \<Rightarrow> int \<Rightarrow> (muid \<times> int) list result" where
  "lmdb_get_by_name L T name as_of =
    bindr (retention ''entries'' T) (\<lambda>retaining.
    bindr (mk_muid as_of 0 0) (\<lambda>as_of_muid.
      lmdb_name_loop L T retaining (str_encode name @ [0]) as_of as_of_muid
        (cur_forward L (T TByName) (str_encode name @ [0]))))"

datatype sought = SoughtMuid muid | SoughtValue uvalue

fun lmdb_value_loop :: "lmdb_ext \<Rightarrow> tables \<Rightarrow> bytes \<Rightarrow> bytes \<Rightarrow> bytes list \<Rightarrow> (muid \<times> int) list result" where
  "lmdb_value_loop L T property_bytes pre [] = Inr []"
| "lmdb_value_loop L T property_bytes pre (k # ks) =
    (if \<not> prefix pre k then Inr []
     else
       bindr (value_at T TByValue k) (\<lambda>container_bytes.
       let removal = property_bytes @ last16 k;
           removed = (case cur_set_range L (T TRemovals) removal of None \<Rightarrow> False | Some r \<Rightarrow> prefix removal r) in
       bindr (if removed then Inr []
         else bindr (muid_from_bytes container_bytes) (\<lambda>container.
           case dget (T TContainers) container_bytes of
             None \<Rightarrow> Inr []
           | Some b \<Rightarrow> if b = [] then Inr [] else bindr (lm_container_parse L b) (\<lambda>c. Inr [(container, c)]))) (\<lambda>found.
       bindr (lmdb_value_loop L T property_bytes pre ks) (\<lambda>rest. Inr (found @ rest)))))"

definition lmdb_get_by_value :: "ext \<Rightarrow> lmdb_ext \<Rightarrow> tables \<Rightarrow> muid \<Rightarrow> sought \<Rightarrow> int \<Rightarrow> (muid \<times> int) list result" where
  "lmdb_get_by_value E L T prop value as_of =
    bindr (case value of
        SoughtMuid u \<Rightarrow> Inr (muid_bytes u)
      | SoughtValue v \<Rightarrow> bindr (encode_value E v) (\<lambda>pb. Inr (lm_value_ser L pb))) (\<lambda>encoded.
    bindr (mk_muid as_of 0 0) (\<lambda>as_of_muid.
    bindr (to_last_with_prefix L (T TByValue) (muid_bytes prop @ encoded) (Some (muid_bytes as_of_muid)) None) (\<lambda>placed.
      lmdb_value_loop L T (muid_bytes prop) (muid_bytes prop @ encoded) (cur_back L (T TByValue) placed))))"

section \<open>Several items of a class\<close>

datatype lmdb_class = LcBundle | LcEntry | LcMovement | LcInfo | LcPlacement | LcRemoval | LcLocation | LcClaim

datatype lmdb_item =
    LiBundle bundle_pb
  | LiEntry entry_pb
  | LiMovement movement_pb
  | LiInfo bundle_info
  | LiRemoval removal_key
  | LiLocation location_key
  | LiClaim claim

fun class_table :: "lmdb_class \<Rightarrow> table" where
  "class_table LcBundle = TBundles"
| "class_table LcEntry = TEntries"
| "class_table LcMovement = TRemovals"
| "class_table LcInfo = TBundleInfos"
| "class_table LcPlacement = TPlacements"
| "class_table LcRemoval = TRemovals"
| "class_table LcLocation = TLocations"
| "class_table LcClaim = TClaims"

text \<open>A message is parsed from the value, another class from the key; a placement cannot be without its behavior.\<close>

fun class_item :: "ext \<Rightarrow> lmdb_ext \<Rightarrow> lmdb_class \<Rightarrow> bytes \<Rightarrow> bytes \<Rightarrow> lmdb_item result" where
  "class_item E L LcBundle k v = bindr (x_bundle_parse E v) (\<lambda>x. Inr (LiBundle x))"
| "class_item E L LcEntry k v = bindr (lm_entry_parse L v) (\<lambda>x. Inr (LiEntry x))"
| "class_item E L LcMovement k v = bindr (lm_movement_parse L v) (\<lambda>x. Inr (LiMovement x))"
| "class_item E L LcInfo k v = bindr (info_from_bytes k) (\<lambda>x. Inr (LiInfo x))"
| "class_item E L LcPlacement k v = Inl TypeError"
| "class_item E L LcRemoval k v = bindr (removal_from_bytes k) (\<lambda>x. Inr (LiRemoval x))"
| "class_item E L LcLocation k v = bindr (location_from_bytes k) (\<lambda>x. Inr (LiLocation x))"
| "class_item E L LcClaim k v = bindr (lm_claim_parse L v) (\<lambda>x. Inr (LiClaim x))"

definition lmdb_get_some :: "ext \<Rightarrow> lmdb_ext \<Rightarrow> tables \<Rightarrow> lmdb_class \<Rightarrow> int option \<Rightarrow> lmdb_item list result" where
  "lmdb_get_some E L T cls last_index =
    (let i = (case last_index of None \<Rightarrow> 2 ^ 52 | Some n \<Rightarrow> n); table = T (class_table cls)
     in mapr (\<lambda>k. bindr (opt_or TypeError (dget table k)) (class_item E L cls k))
          (take (index_count i) (lm_scan L (dkeys table) None None (i < 0))))"

end
