(* ===== verification/Lmdb_Reset.thy ===== *)
theory Lmdb_Reset
  imports Mem_Reset Lmdb_Queries
begin

text \<open>
  The reset changes of the LMDB store (\<open>get_reset_changes\<close> and its helpers in
  \<open>python/gink/impl/lmdb_store.py\<close>). The generators run in one reading transaction, so they are over fixed tables
  and their only state is the set of the containers already seen; entries are parsed anew and never written back.
\<close>

section \<open>Accumulators and vertices\<close>

definition lmdb_accumulator_reset :: "ext \<Rightarrow> lmdb_ext \<Rightarrow> tables \<Rightarrow> muid \<Rightarrow> int \<Rightarrow> change_pb result" where
  "lmdb_accumulator_reset E L T container to_time =
    bindr (lmdb_get_billionths E L T container to_time) (\<lambda>previous.
    bindr (lmdb_get_billionths E L T container (-1)) (\<lambda>current.
    bindr (py_str_int (- current + previous)) (\<lambda>needed.
      Inr (ChEntry (empty_entry\<lparr>en_behavior := ACCUMULATOR, en_container := Some (put_into container),
        en_contains := ConValue (ValInteger needed)\<rparr>)))))"

text \<open>The entry of a placement (\<open>_parse_entry\<close> without the key).\<close>

definition placed_entry :: "lmdb_ext \<Rightarrow> tables \<Rightarrow> bytes \<Rightarrow> entry_pb result" where
  "placed_entry L T k = bindr (value_at T TPlacements k) (stored_entry L T)"

definition lmdb_deleted_at :: "lmdb_ext \<Rightarrow> tables \<Rightarrow> bytes option \<Rightarrow> bool result" where
  "lmdb_deleted_at L T found =
    (case found of None \<Rightarrow> Inr False | Some k \<Rightarrow> bindr (placed_entry L T k) (\<lambda>e. Inr (deletion_of e)))"

definition lmdb_vertex_reset :: "lmdb_ext \<Rightarrow> tables \<Rightarrow> muid \<Rightarrow> int \<Rightarrow> change_pb option result" where
  "lmdb_vertex_reset L T container to_time =
    bindr (mk_muid to_time 0 0) (\<lambda>limit.
    bindr (to_last_with_prefix L (T TPlacements) (muid_bytes container) (Some (muid_bytes limit)) None) (\<lambda>previous_change.
    bindr (lmdb_deleted_at L T previous_change) (\<lambda>then_gone.
    bindr (to_last_with_prefix L (T TPlacements) (muid_bytes container) None None) (\<lambda>current_change.
    bindr (lmdb_deleted_at L T current_change) (\<lambda>is_deleted.
      let was_deleted = (to_time < mu_timestamp container \<or> then_gone)
      in Inr (if is_deleted = was_deleted then None
        else Some (wrap_change (empty_entry\<lparr>en_behavior := VERTEX, en_container := Some (put_into container),
          en_contains := ConDeletion was_deleted\<rparr>))))))))"

definition lmdb_vertex_reset_changes ::
  "lmdb_ext \<Rightarrow> tables \<Rightarrow> (change_pb \<Rightarrow> ('c, unit) seeing) \<Rightarrow> muid \<Rightarrow> int \<Rightarrow> ('c, unit) seeing" where
  "lmdb_vertex_reset_changes L T emit container to_time =
    py_bind (py_lift (lmdb_vertex_reset L T container to_time)) (\<lambda>change.
      case change of None \<Rightarrow> py_return () | Some c \<Rightarrow> emit c)"

section \<open>Keyed containers\<close>

definition lmdb_contained_then ::
  "ext \<Rightarrow> lmdb_ext \<Rightarrow> tables \<Rightarrow> muid \<Rightarrow> middle \<Rightarrow> int \<Rightarrow> int \<Rightarrow> bytes \<Rightarrow> (occupant \<times> entry_pb option) result" where
  "lmdb_contained_then E L T container key behavior to_time placement_key =
    bindr (lmdb_time_of_prior_clear L T container to_time) (\<lambda>last_clear_before.
    bindr (mk_muid to_time 0 0) (\<lambda>limit_muid.
    bindr (placement_bytes E (Placement container key limit_muid None)) (\<lambda>limit.
    bindr (require (cut_tail limit = cut_tail placement_key) AssertionError) (\<lambda>_.
    bindr (to_last_with_prefix L (T TPlacements) (cut_tail placement_key) None (Some limit)) (\<lambda>found.
    case found of
      None \<Rightarrow> Inr (OccDeletion, None)
    | Some k \<Rightarrow>
        bindr (placement_from_bytes E k behavior) (\<lambda>p.
        bindr (placed_entry L T k) (\<lambda>e.
          if last_clear_before < mu_timestamp (pl_placer p)
          then bindr (decode_entry_occupant E (pl_placer p) e) (\<lambda>o_then. Inr (o_then, Some e))
          else Inr (OccDeletion, Some e))))))))"

definition lmdb_key_reset ::
  "ext \<Rightarrow> lmdb_ext \<Rightarrow> tables \<Rightarrow> muid \<Rightarrow> int \<Rightarrow> int \<Rightarrow> int \<Rightarrow> bytes \<Rightarrow> (change_pb option \<times> occupant \<times> middle) result" where
  "lmdb_key_reset E L T container to_time behavior last_clear_time placement_key =
    bindr (placement_from_bytes E placement_key behavior) (\<lambda>p.
    bindr (placed_entry L T placement_key) (\<lambda>e.
    bindr (get_key p) (\<lambda>key.
    if mu_timestamp (pl_placer p) < to_time \<and> last_clear_time < to_time
    then bindr (decode_entry_occupant E (pl_placer p) e) (\<lambda>now. Inr (None, now, key))
    else
      bindr (if last_clear_time \<le> mu_timestamp (pl_placer p) then decode_entry_occupant E (pl_placer p) e
             else Inr OccDeletion) (\<lambda>now.
      bindr (lmdb_contained_then E L T container key behavior to_time placement_key) (\<lambda>(was, builder_then).
      bindr (if occupant_eq was now then Inr None
             else if was = OccDeletion
             then bindr (create_deleting_entry container key behavior) (\<lambda>d. Inr (Some (wrap_change d)))
             else Inr (map_option wrap_change builder_then)) (\<lambda>change.
        Inr (change, was, key)))))))"

text \<open>The loop goes down the keys of the container like that of the memory store, and has the same bound.\<close>

fun lmdb_keyed_reset_loop ::
  "ext \<Rightarrow> lmdb_ext \<Rightarrow> tables \<Rightarrow> (change_pb \<Rightarrow> ('c, unit) seeing) \<Rightarrow> (muid \<Rightarrow> ('c, unit) seeing) \<Rightarrow> muid \<Rightarrow> int \<Rightarrow>
    ukey option \<Rightarrow> int \<Rightarrow> int \<Rightarrow> nat \<Rightarrow> bytes option \<Rightarrow> ('c, unit) seeing" where
  "lmdb_keyed_reset_loop E L T emit recurse container to_time single behavior last_clear_time n None = py_return ()"
| "lmdb_keyed_reset_loop E L T emit recurse container to_time single behavior last_clear_time 0 (Some b) = py_raise Blocked"
| "lmdb_keyed_reset_loop E L T emit recurse container to_time single behavior last_clear_time (Suc n) (Some b) =
    py_bind (py_lift (lmdb_key_reset E L T container to_time behavior last_clear_time b)) (\<lambda>(change, occ, key).
    py_then (case change of None \<Rightarrow> py_return () | Some c \<Rightarrow> emit c)
   (py_then (recurse_on recurse occ)
     (if true_key single \<noteq> None then py_return ()
      else
        py_bind (py_lift (placement_bytes E (Placement container key (Muid 0 0 0) None))) (\<lambda>limit.
        py_bind (py_lift (to_last_with_prefix L (T TPlacements) (muid_bytes container) None (Some limit)))
          (lmdb_keyed_reset_loop E L T emit recurse container to_time single behavior last_clear_time n)))))"

definition lmdb_keyed_reset_changes ::
  "ext \<Rightarrow> lmdb_ext \<Rightarrow> tables \<Rightarrow> (change_pb \<Rightarrow> ('c, unit) seeing) \<Rightarrow> (muid \<Rightarrow> ('c, unit) seeing) \<Rightarrow> muid \<Rightarrow> int \<Rightarrow>
    ukey option \<Rightarrow> int \<Rightarrow> ('c, unit) seeing" where
  "lmdb_keyed_reset_changes E L T emit recurse container to_time single behavior =
    enter_container container
     (py_bind (py_lift (lmdb_time_of_prior_clear L T container (-1))) (\<lambda>last_clear_time.
      py_bind (py_lift (case single of
          None \<Rightarrow> Inr []
        | Some k \<Rightarrow> bindr (encode_key k) (\<lambda>pb. Inr (x_key_ser E pb)))) (\<lambda>key_bytes.
      py_bind (py_lift (to_last_with_prefix L (T TPlacements) (muid_bytes container @ key_bytes) None None))
        (lmdb_keyed_reset_loop E L T emit recurse container to_time single behavior last_clear_time
          (length (T TPlacements))))))"

section \<open>Sequences and edge types\<close>

fun lmdb_reissue_loop ::
  "lmdb_ext \<Rightarrow> tables \<Rightarrow> (change_pb \<Rightarrow> ('c, unit) seeing) \<Rightarrow> bytes \<Rightarrow> bytes list \<Rightarrow> int \<Rightarrow> bytes list \<Rightarrow> ('c, unit) seeing" where
  "lmdb_reissue_loop L T emit described issued off [] = py_return ()"
| "lmdb_reissue_loop L T emit described issued off (k # ks) =
    (if \<not> prefix described k then py_return ()
     else
       py_bind (py_lift (value_at T TByDescribing k)) (\<lambda>describer_property.
       if describer_property \<in> set issued then lmdb_reissue_loop L T emit described issued off ks
       else
         py_bind (py_lift (stored_entry L T (drop 16 k))) (\<lambda>e.
         py_bind (py_lift (muid_from_bytes (drop 16 k))) (\<lambda>describer_entry.
         py_bind (py_lift (normalize_entry_builder e describer_entry)) (\<lambda>e'.
         py_bind (py_lift (mk_muid 0 0 (off - 1))) (\<lambda>d.
         py_then (emit (wrap_change (e'\<lparr>en_subject := SubDescribing (put_into d)\<rparr>)))
           (lmdb_reissue_loop L T emit described (describer_property # issued) (off - 1) ks)))))))"

definition lmdb_reissue_properties ::
  "lmdb_ext \<Rightarrow> tables \<Rightarrow> (change_pb \<Rightarrow> ('c, unit) seeing) \<Rightarrow> bytes \<Rightarrow> int \<Rightarrow> ('c, unit) seeing" where
  "lmdb_reissue_properties L T emit described to_time =
    py_bind (py_lift (mk_muid to_time 0 0)) (\<lambda>limit.
    py_bind (py_lift (to_last_with_prefix L (T TByDescribing) described (Some (muid_bytes limit)) None)) (\<lambda>found.
      lmdb_reissue_loop L T emit described [] 0 (cur_back L (T TByDescribing) found)))"

definition lmdb_put_back ::
  "lmdb_ext \<Rightarrow> tables \<Rightarrow> (change_pb \<Rightarrow> ('c, unit) seeing) \<Rightarrow> muid \<Rightarrow> bytes \<Rightarrow> entry_pb \<Rightarrow> placement \<Rightarrow> int \<Rightarrow> ('c, unit) seeing" where
  "lmdb_put_back L T emit entry_muid entry_bytes e parsed_key to_time =
    py_bind (py_lift (normalize_entry_builder e entry_muid)) (\<lambda>e'.
    py_bind (py_lift (get_queue_position parsed_key)) (\<lambda>position.
    py_then (emit (wrap_change (e'\<lparr>en_effective := position\<rparr>)))
      (py_when (en_behavior e' = EDGE_TYPE) (lmdb_reissue_properties L T emit entry_bytes to_time))))"

fun lmdb_ordered_reset_loop ::
  "ext \<Rightarrow> lmdb_ext \<Rightarrow> tables \<Rightarrow> (change_pb \<Rightarrow> ('c, unit) seeing) \<Rightarrow> (muid \<Rightarrow> ('c, unit) seeing) \<Rightarrow> muid \<Rightarrow> int \<Rightarrow> int \<Rightarrow> int \<Rightarrow>
    bytes list \<Rightarrow> ('c, unit) seeing" where
  "lmdb_ordered_reset_loop E L T emit recurse container to_time last_clear_time clear_before_to [] = py_return ()"
| "lmdb_ordered_reset_loop E L T emit recurse container to_time last_clear_time clear_before_to (k # ks) =
    (if \<not> prefix (muid_bytes container) k then py_return ()
     else
      py_bind (py_lift (value_at T TPlacements k)) (\<lambda>entry_bytes.
      py_bind (py_lift (placement_from_bytes E k SEQUENCE)) (\<lambda>parsed_key.
      py_bind (py_lift (muid_from_bytes entry_bytes)) (\<lambda>entry_muid.
      py_bind (py_lift (lmdb_get_location E L T entry_muid (-1))) (\<lambda>location.
      py_bind (py_lift (lmdb_get_location E L T entry_muid to_time)) (\<lambda>previous.
      let placed_time = mu_timestamp (pl_placer parsed_key) in
      py_then (py_when (to_time \<le> placed_time \<and> last_clear_time < placed_time \<and> location = Some parsed_key)
        (py_bind (py_lift (undo_placing container entry_muid parsed_key previous)) (\<lambda>change.
           case change of None \<Rightarrow> py_return () | Some c \<Rightarrow> emit c)))
     (py_then (py_when (previous = Some parsed_key \<and> clear_before_to < placed_time)
        (py_bind (py_lift (stored_entry L T entry_bytes)) (\<lambda>e.
         py_bind (py_lift (decode_entry_occupant E entry_muid e)) (\<lambda>occ.
         py_then (recurse_on recurse occ)
           (py_when (location = None \<or> placed_time < last_clear_time)
             (lmdb_put_back L T emit entry_muid entry_bytes e parsed_key to_time))))))
       (lmdb_ordered_reset_loop E L T emit recurse container to_time last_clear_time clear_before_to ks))))))))"

definition lmdb_ordered_reset_changes ::
  "ext \<Rightarrow> lmdb_ext \<Rightarrow> tables \<Rightarrow> (change_pb \<Rightarrow> ('c, unit) seeing) \<Rightarrow> (muid \<Rightarrow> ('c, unit) seeing) \<Rightarrow> muid \<Rightarrow> int \<Rightarrow> ('c, unit) seeing" where
  "lmdb_ordered_reset_changes E L T emit recurse container to_time =
    enter_container container
     (py_bind (py_lift (lmdb_time_of_prior_clear L T container (-1))) (\<lambda>last_clear_time.
      py_bind (py_lift (lmdb_time_of_prior_clear L T container to_time)) (\<lambda>clear_before_to.
        lmdb_ordered_reset_loop E L T emit recurse container to_time last_clear_time clear_before_to
          (cur_forward L (T TPlacements) (muid_bytes container)))))"

section \<open>Containers\<close>

text \<open>The recursion descends only into containers that were not seen; a braid is an error here.\<close>

fun lmdb_container_reset_changes ::
  "ext \<Rightarrow> lmdb_ext \<Rightarrow> tables \<Rightarrow> (change_pb \<Rightarrow> ('c, unit) seeing) \<Rightarrow> int \<Rightarrow> nat \<Rightarrow> muid \<Rightarrow> ('c, unit) seeing" where
  "lmdb_container_reset_changes E L T emit to_time 0 container = py_raise RuntimeError"
| "lmdb_container_reset_changes E L T emit to_time (Suc n) container =
    py_bind (py_lift (lmdb_get_behavior L T container)) (\<lambda>behavior.
    if behavior = VERTEX then lmdb_vertex_reset_changes L T emit container to_time
    else if behavior \<in> {DIRECTORY, BOX, GROUP, KEY_SET, PROPERTY, PAIR_MAP, PAIR_SET}
    then lmdb_keyed_reset_changes E L T emit (lmdb_container_reset_changes E L T emit to_time n) container to_time None behavior
    else if behavior \<in> {SEQUENCE, EDGE_TYPE, EVENT_TYPE}
    then lmdb_ordered_reset_changes E L T emit (lmdb_container_reset_changes E L T emit to_time n) container to_time
    else if behavior = ACCUMULATOR then py_bind (py_lift (lmdb_accumulator_reset E L T container to_time)) emit
    else py_raise NotImplementedError)"

text \<open>The behaviors of the protocol but \<open>UNSPECIFIED\<close>, \<open>TABLE\<close> and \<open>BRAID\<close>.\<close>

definition reset_behaviors :: "int list" where
  "reset_behaviors = [BOX, SEQUENCE, PAIR_MAP, DIRECTORY, KEY_SET, GROUP, VERTEX, PAIR_SET, EVENT_TYPE, PROPERTY,
     EDGE_TYPE, ACCUMULATOR]"

definition lmdb_reset_changes ::
  "ext \<Rightarrow> lmdb_ext \<Rightarrow> tables \<Rightarrow> (change_pb \<Rightarrow> ('c, unit) seeing) \<Rightarrow> int \<Rightarrow> muid option \<Rightarrow> ukey option \<Rightarrow> bool \<Rightarrow> ('c, unit) seeing" where
  "lmdb_reset_changes E L T emit to_time container user_key recursive =
    (let n = length (T TEntries) + 2 in
     case container of
      None \<Rightarrow>
        if user_key \<noteq> None then py_raise ValueError
        else py_then (py_modify (\<lambda>r. r\<lparr>rr_seen := None\<rparr>))
         (py_then (py_each (\<lambda>k. py_bind (py_lift (muid_from_bytes k)) (lmdb_container_reset_changes E L T emit to_time n))
              (lm_scan L (dkeys (T TContainers)) None None False))
            (py_each (\<lambda>b. py_bind (py_lift (mk_muid (-1) (-1) b)) (lmdb_container_reset_changes E L T emit to_time n))
              reset_behaviors))
    | Some c \<Rightarrow>
        py_then (py_modify (\<lambda>r. r\<lparr>rr_seen := (if recursive then Some [] else None)\<rparr>))
          (if user_key \<noteq> None
           then lmdb_keyed_reset_changes E L T emit (lmdb_container_reset_changes E L T emit to_time n) c to_time user_key DIRECTORY
           else lmdb_container_reset_changes E L T emit to_time n c))"

text \<open>The list of the changes, over what is committed.\<close>

record lmdb_reset_list = seen_run +
  lr_out :: "change_pb list"

definition lmdb_list_reset_changes ::
  "ext \<Rightarrow> lmdb_ext \<Rightarrow> int \<Rightarrow> muid option \<Rightarrow> ukey option \<Rightarrow> bool \<Rightarrow> change_pb list tx" where
  "lmdb_list_reset_changes E L to_time container user_key recursive = with_read (\<lambda>T.
    case lmdb_reset_changes E L T (\<lambda>c. py_modify (\<lambda>r. r\<lparr>lr_out := lr_out r @ [c]\<rparr>)) to_time container user_key recursive
        \<lparr>rr_seen = None, lr_out = []\<rparr> of
      (Inl e, r) \<Rightarrow> Inl e
    | (Inr _, r) \<Rightarrow> Inr (lr_out r))"

end
