(* ===== verification/Containers.thy ===== *)
theory Containers
  imports Database
begin

text \<open>
  \<open>python/gink/impl/container.py\<close>, \<open>get_container.py\<close> and \<open>addressable.py\<close>: what all containers
  share. A container object is its address and its class (the behavior); everything it contains is in
  the store. An argument \<open>bundler\<close> is the identity of a bundler or nothing.
\<close>

section \<open>Finding the bundler of an operation\<close>

text \<open>\<open>bundler or Bundler.get_active()\<close>, or a new one that is committed at once.\<close>

definition pick_bundler :: "nat option \<Rightarrow> string option \<Rightarrow> (nat \<times> bool) db" where
  "pick_bundler bundler comment =
    py_bind (py_read (\<lambda>d. Inr (case bundler of Some n \<Rightarrow> Some n | None \<Rightarrow> db_active d))) (\<lambda>given.
    case given of
      Some n \<Rightarrow> py_return (n, False)
    | None \<Rightarrow> py_bind (new_bundler comment) (\<lambda>n. py_return (n, True)))"

text \<open>The same without a look at the active bundler.\<close>

definition own_bundler :: "nat option \<Rightarrow> string option \<Rightarrow> (nat \<times> bool) db" where
  "own_bundler bundler comment =
    (case bundler of
      Some n \<Rightarrow> py_return (n, False)
    | None \<Rightarrow> py_bind (new_bundler comment) (\<lambda>n. py_return (n, True)))"

definition finish :: "ext \<Rightarrow> (int \<Rightarrow> int) \<Rightarrow> nat \<times> bool \<Rightarrow> unit db" where
  "finish E now nb = py_when (snd nb) (commit E now True (fst nb))"

text \<open>\<open>if immediate and len(bundler): bundler.commit()\<close>.\<close>

definition finish_if_any :: "ext \<Rightarrow> (int \<Rightarrow> int) \<Rightarrow> nat \<times> bool \<Rightarrow> unit db" where
  "finish_if_any E now nb =
    py_bind (get_bundler (fst nb)) (\<lambda>b. py_when (snd nb \<and> bb_count b \<noteq> 0) (commit E now True (fst nb)))"

section \<open>Container objects\<close>

record container =
  ct_muid :: ref
  ct_behavior :: int

abbreviation container_behaviors :: "int list" where
  "container_behaviors \<equiv> [BOX, SEQUENCE, PAIR_MAP, DIRECTORY, KEY_SET, GROUP, VERTEX, PAIR_SET, EDGE_TYPE,
     PROPERTY, BRAID, ACCUMULATOR]"

definition get_container_object :: "ext \<Rightarrow> muid \<Rightarrow> int option \<Rightarrow> container db" where
  "get_container_object E u behavior =
    py_read (\<lambda>d.
      bindr (case behavior of
          Some b \<Rightarrow> Inr b
        | None \<Rightarrow> if mu_timestamp u = -1 then Inr (mu_offset u)
            else (case get_container (rl_store d) u of None \<Rightarrow> Inl ValueError | Some b \<Rightarrow> Inr b))
        (\<lambda>b. if b \<in> set container_behaviors then Inr \<lparr>ct_muid = RefMuid u, ct_behavior = b\<rparr> else Inl ValueError))"

definition global_instance :: "int \<Rightarrow> container" where
  "global_instance behavior = \<lparr>ct_muid = RefMuid (Muid (-1) (-1) behavior), ct_behavior = behavior\<rparr>"

definition create_container :: "int \<Rightarrow> nat \<Rightarrow> ref db" where
  "create_container behavior n = add_change n (SbChange (ChContainer behavior))"

text \<open>The address a constructor starts from: given, given as text, or created in the bundler.\<close>

datatype muid_arg = ArgMuid ref | ArgText string | ArgNone

definition constructed_muid :: "int \<Rightarrow> muid_arg \<Rightarrow> nat \<Rightarrow> (ref \<times> bool) db" where
  "constructed_muid behavior arg n =
    (case arg of
      ArgText s \<Rightarrow> py_bind (py_lift (muid_from_str s)) (\<lambda>u. py_return (RefMuid u, False))
    | ArgNone \<Rightarrow> py_bind (create_container behavior n) (\<lambda>r. py_return (r, True))
    | ArgMuid r \<Rightarrow> py_return (r, False))"

datatype item = ItemValue uvalue | ItemContainer container

definition get_occupant :: "ext \<Rightarrow> entry_pb \<Rightarrow> muid option \<Rightarrow> item db" where
  "get_occupant E builder address =
    (case en_contains builder of
      ConValue v \<Rightarrow> py_bind (py_lift (decode_value E v)) (\<lambda>x. py_return (ItemValue x))
    | ConPointee p \<Rightarrow>
        (case address of
          None \<Rightarrow> py_raise AssertionError
        | Some a \<Rightarrow> py_bind (py_lift (muid_create (CtxMuid a) p None)) (\<lambda>u.
            py_bind (get_container_object E u None) (\<lambda>c. py_return (ItemContainer c))))
    | _ \<Rightarrow> py_raise GenericException)"

section \<open>Adding entries\<close>

datatype entry_key =
    NoKey
  | BoolKey
  | UserKey ukey
  | ChainKey chain
  | RefKey ref
  | PairKey ref ref

datatype entry_value = UserVal uvalue | RefVal ref | DeletionVal | InclusionVal

definition key_subject :: "ext \<Rightarrow> entry_key \<Rightarrow> subject_pb db" where
  "key_subject E key =
    (case key of
      BoolKey \<Rightarrow> py_raise TypeError
    | UserKey k \<Rightarrow> py_bind (py_lift (encode_key k)) (\<lambda>pb. py_return (SubKey pb))
    | ChainKey c \<Rightarrow> py_bind (py_lift (mk_muid (ch_start c) (ch_medallion c) 0)) (\<lambda>u. py_return (SubDescribing (put_into u)))
    | RefKey r \<Rightarrow> py_bind (pb_of_ref E r) (\<lambda>pb. py_return (SubDescribing pb))
    | PairKey l r \<Rightarrow> py_bind (pb_of_ref E l) (\<lambda>a. py_bind (pb_of_ref E r) (\<lambda>b. py_return (SubPair a b)))
    | NoKey \<Rightarrow> py_return SubNone)"

definition value_contains :: "ext \<Rightarrow> entry_value \<Rightarrow> contains_pb db" where
  "value_contains E v =
    (case v of
      RefVal r \<Rightarrow> py_bind (pb_of_ref E r) (\<lambda>pb. py_return (ConPointee pb))
    | UserVal x \<Rightarrow> py_bind (py_lift (encode_value E x)) (\<lambda>pb. py_return (ConValue pb))
    | DeletionVal \<Rightarrow> py_return (ConDeletion True)
    | InclusionVal \<Rightarrow> py_return ConNone)"

definition expiry_time :: "ext \<Rightarrow> generic_ts \<Rightarrow> int db" where
  "expiry_time E expiry =
    (if expiry = TsNone then py_return 0
     else py_bind tick (\<lambda>now.
          py_bind (db_resolve E expiry) (\<lambda>t. if t < now then py_raise ValueError else py_return t)))"

definition add_entry_on ::
  "ext \<Rightarrow> (int \<Rightarrow> int) \<Rightarrow> ref \<Rightarrow> int \<Rightarrow> entry_key \<Rightarrow> entry_value \<Rightarrow> int option \<Rightarrow> generic_ts
    \<Rightarrow> nat option \<Rightarrow> string option \<Rightarrow> ref db" where
  "add_entry_on E now on_muid behavior key val effective expiry bundler comment =
    py_bind (pick_bundler bundler comment) (\<lambda>nb.
    py_bind (expiry_time E expiry) (\<lambda>expires.
    py_bind (pb_of_ref E on_muid) (\<lambda>container.
    py_bind (key_subject E key) (\<lambda>subject.
    py_bind (value_contains E val) (\<lambda>contains.
    py_bind (add_change (fst nb) (SbChange (ChEntry \<lparr>en_container = Some container, en_behavior = behavior,
        en_subject = subject, en_contains = contains, en_expiry = expires,
        en_effective = (case effective of None \<Rightarrow> 0 | Some t \<Rightarrow> t), en_purge = False\<rparr>))) (\<lambda>muid.
    py_then (finish E now nb) (py_return muid)))))))"

abbreviation add_simple_entry ::
  "ext \<Rightarrow> (int \<Rightarrow> int) \<Rightarrow> container \<Rightarrow> entry_key \<Rightarrow> entry_value \<Rightarrow> nat option \<Rightarrow> string option \<Rightarrow> ref db" where
  "add_simple_entry E now c key val bundler comment \<equiv>
    add_entry_on E now (ct_muid c) (ct_behavior c) key val None TsNone bundler comment"

definition clear_container :: "ext \<Rightarrow> (int \<Rightarrow> int) \<Rightarrow> container \<Rightarrow> nat option \<Rightarrow> string option \<Rightarrow> ref db" where
  "clear_container E now c bundler comment =
    py_bind (pick_bundler bundler comment) (\<lambda>nb.
    py_bind (pb_of_ref E (ct_muid c)) (\<lambda>pb.
    py_bind (add_change (fst nb) (SbChange (ChClearance \<lparr>cl_container = pb, cl_purge = False\<rparr>))) (\<lambda>muid.
    py_then (finish E now nb) (py_return muid))))"

section \<open>Reading the store at a time\<close>

definition entry_at :: "ext \<Rightarrow> muid \<Rightarrow> middle \<Rightarrow> int \<Rightarrow> (muid \<times> entry_pb) option db" where
  "entry_at E u key as_of = py_read (\<lambda>d. get_entry_by_key E (rl_store d) u key as_of)"

text \<open>The entry under a key of a container, unless it deletes the key.\<close>

definition live_entry :: "ext \<Rightarrow> container \<Rightarrow> middle \<Rightarrow> int \<Rightarrow> (muid \<times> entry_pb) option db" where
  "live_entry E c key as_of =
    py_bind (resolve_ref E (ct_muid c)) (\<lambda>u.
    py_bind (entry_at E u key as_of) (\<lambda>found.
      py_return (case found of None \<Rightarrow> None | Some (a, e) \<Rightarrow> if deletion_of e then None else Some (a, e))))"

text \<open>The entries of a container that are not deletions, in the order of the store.\<close>

definition keyed_at :: "ext \<Rightarrow> container \<Rightarrow> int \<Rightarrow> int \<Rightarrow> (muid \<times> entry_pb) list db" where
  "keyed_at E c behavior as_of =
    py_bind (resolve_ref E (ct_muid c)) (\<lambda>u. py_read (\<lambda>d. get_keyed_entries E (rl_store d) u behavior as_of))"

definition live_entries :: "ext \<Rightarrow> container \<Rightarrow> int \<Rightarrow> (muid \<times> entry_pb) list db" where
  "live_entries E c as_of =
    py_bind (keyed_at E c (ct_behavior c) as_of) (\<lambda>es. py_return (List.filter (\<lambda>(_, e). \<not> deletion_of e) es))"

definition keyed_size :: "ext \<Rightarrow> container \<Rightarrow> generic_ts \<Rightarrow> int db" where
  "keyed_size E c as_of =
    py_bind (db_resolve E as_of) (\<lambda>t. py_bind (live_entries E c t) (\<lambda>es. py_return (int (length es))))"

section \<open>Names and descriptions\<close>

definition name_property :: muid where
  "name_property = Muid (-1) (-1) PROPERTY"

definition get_name :: "ext \<Rightarrow> container \<Rightarrow> generic_ts \<Rightarrow> string option db" where
  "get_name E c as_of =
    py_bind (db_resolve E as_of) (\<lambda>t.
    py_bind (resolve_ref E (ct_muid c)) (\<lambda>u.
    py_bind (entry_at E name_property (MidMuid u) t) (\<lambda>found.
    case found of
      None \<Rightarrow> py_return None
    | Some (a, e) \<Rightarrow> if deletion_of e then py_return None
        else py_bind (get_occupant E e None) (\<lambda>x.
          case x of ItemValue (UStr s) \<Rightarrow> py_return (Some s) | _ \<Rightarrow> py_raise AssertionError))))"

definition set_name :: "ext \<Rightarrow> (int \<Rightarrow> int) \<Rightarrow> container \<Rightarrow> string \<Rightarrow> nat option \<Rightarrow> string option \<Rightarrow> ref db" where
  "set_name E now c name bundler comment =
    py_bind (get_name E c TsNone) (\<lambda>already_named.
    py_then (if already_named = None \<or> already_named = Some [] then py_return ()
             else py_then (add_entry_on E now (RefMuid name_property) PROPERTY (RefKey (ct_muid c)) DeletionVal
                    None TsNone bundler comment) (py_return ()))
      (add_entry_on E now (RefMuid name_property) PROPERTY (RefKey (ct_muid c)) (UserVal (UStr name))
        None TsNone bundler comment))"

definition get_describing :: "ext \<Rightarrow> container \<Rightarrow> generic_ts \<Rightarrow> container list db" where
  "get_describing E c as_of =
    py_bind (db_resolve E as_of) (\<lambda>t.
    py_bind (resolve_ref E (ct_muid c)) (\<lambda>u.
    py_read (\<lambda>d. bindr (get_by_describing E (rl_store d) u t) (\<lambda>found.
      bindr (mapr (\<lambda>(a, e). bindr (muid_create (CtxMuid a) (container_of e) None) (\<lambda>cm.
          if deletion_of e then Inr []
          else bindr (fst (get_container_object E cm (Some (en_behavior e)) d)) (\<lambda>x. Inr [x]))) found)
        (\<lambda>xss. Inr (concat xss))))))"

text \<open>The property with a given name: there must be exactly one.\<close>

definition property_hits :: "ext \<Rightarrow> string \<Rightarrow> int \<Rightarrow> muid list db" where
  "property_hits E name t =
    py_read (\<lambda>d. bindr (get_by_name E (rl_store d) name t) (\<lambda>found.
      Inr (map fst (List.filter (\<lambda>(u, b). b = PROPERTY) found))))"

definition get_property_value_by_name :: "ext \<Rightarrow> container \<Rightarrow> string \<Rightarrow> generic_ts \<Rightarrow> uvalue option db" where
  "get_property_value_by_name E c name as_of =
    py_bind (db_resolve E as_of) (\<lambda>t.
    py_bind (property_hits E name t) (\<lambda>hits.
    case hits of
      [p] \<Rightarrow>
        py_bind (resolve_ref E (ct_muid c)) (\<lambda>u.
        py_bind (entry_at E p (MidMuid u) t) (\<lambda>found.
        case found of
          None \<Rightarrow> py_return None
        | Some (a, e) \<Rightarrow> if deletion_of e then py_return None
            else (case en_contains e of
                ConValue v \<Rightarrow> py_bind (py_lift (decode_value E v)) (\<lambda>x. py_return (Some x))
              | _ \<Rightarrow> py_raise AssertionError)))
    | _ \<Rightarrow> py_raise ValueError))"

definition property_entry :: "muid_pb \<Rightarrow> muid_pb \<Rightarrow> value_pb \<Rightarrow> change_pb" where
  "property_entry container describing v = ChEntry (empty_entry\<lparr>en_behavior := PROPERTY,
     en_container := Some container, en_subject := SubDescribing describing, en_contains := ConValue v\<rparr>)"

definition named_property :: "ext \<Rightarrow> string \<Rightarrow> bool \<Rightarrow> nat \<Rightarrow> ref db" where
  "named_property E name create n =
    py_bind (property_hits E name (-1)) (\<lambda>hits.
    case hits of
      [p] \<Rightarrow> py_return (RefMuid p)
    | [] \<Rightarrow> if \<not> create then py_raise ValueError
        else py_bind (add_change n (SbChange (ChContainer PROPERTY))) (\<lambda>property_muid.
             py_bind (pb_of_ref E property_muid) (\<lambda>described.
             py_bind (py_lift (encode_value E (UStr name))) (\<lambda>v.
             py_then (add_change n (SbChange (property_entry (put_into name_property) described v)))
               (py_return property_muid))))
    | _ \<Rightarrow> py_raise ValueError)"

definition set_property_value_by_name ::
  "ext \<Rightarrow> (int \<Rightarrow> int) \<Rightarrow> container \<Rightarrow> string \<Rightarrow> uvalue \<Rightarrow> bool \<Rightarrow> nat option \<Rightarrow> string option \<Rightarrow> ref db" where
  "set_property_value_by_name E now c name val create bundler comment =
    py_bind (own_bundler bundler comment) (\<lambda>nb.
    py_bind (named_property E name create (fst nb)) (\<lambda>property_muid.
    py_bind (pb_of_ref E property_muid) (\<lambda>container.
    py_bind (pb_of_ref E (ct_muid c)) (\<lambda>described.
    py_bind (py_lift (encode_value E val)) (\<lambda>v.
    py_bind (add_change (fst nb) (SbChange (property_entry container described v))) (\<lambda>muid.
    py_then (finish E now nb) (py_return muid)))))))"

section \<open>Comparisons\<close>

text \<open>\<open>__eq__\<close> of addressable objects; addresses compare by their resolved components.\<close>

definition ref_eq :: "ext \<Rightarrow> ref \<Rightarrow> ref \<Rightarrow> bool db" where
  "ref_eq E a b = py_bind (resolve_ref E a) (\<lambda>u. py_bind (resolve_ref E b) (\<lambda>v. py_return (u = v)))"

definition container_eq :: "ext \<Rightarrow> container \<Rightarrow> container \<Rightarrow> bool db" where
  "container_eq E self other =
    (if ct_behavior other \<noteq> ct_behavior self then py_return False else ref_eq E (ct_muid other) (ct_muid self))"

section \<open>Constructors\<close>

text \<open>
  The common form of the constructors: the address is taken or created, the container is filled, and a
  bundler of its own is committed if it has a change.
\<close>

definition construct ::
  "ext \<Rightarrow> (int \<Rightarrow> int) \<Rightarrow> int \<Rightarrow> muid_arg \<Rightarrow> nat \<times> bool \<Rightarrow> (container \<Rightarrow> bool \<Rightarrow> unit db) \<Rightarrow> container db" where
  "construct E now behavior arg nb fill =
    py_bind (constructed_muid behavior arg (fst nb)) (\<lambda>(r, created).
    let self = \<lparr>ct_muid = r, ct_behavior = behavior\<rparr>
    in py_then (fill self created) (py_then (finish_if_any E now nb) (py_return self)))"

text \<open>\<open>if contents: if not created: self.clear(...)\<close>, and then the contents are added.\<close>

definition refill ::
  "ext \<Rightarrow> (int \<Rightarrow> int) \<Rightarrow> nat \<Rightarrow> bool \<Rightarrow> (container \<Rightarrow> unit db) \<Rightarrow> container \<Rightarrow> bool \<Rightarrow> unit db" where
  "refill E now n has_contents fill self created =
    py_when has_contents
      (py_then (py_when (\<not> created) (py_then (clear_container E now self (Some n) None) (py_return ()))) (fill self))"

end
