(* ===== verification/Resets.thy ===== *)
theory Resets
  imports Mem_Reset Containers
begin

text \<open>
  The resets of a container (\<open>Container.reset\<close> in \<open>python/gink/impl/container.py\<close>) and of a whole
  database (\<open>Database.reset\<close> in \<open>database.py\<close>) on the memory store: the changes the store yields go to a
  bundler one by one, while the generator runs.
\<close>

record reset_db = reset_run +
  rr_db :: database

definition to_bundler :: "nat \<Rightarrow> change_pb \<Rightarrow> (reset_db, unit) py" where
  "to_bundler n c = (\<lambda>r. case add_change n (SbChange c) (rr_db r) of
     (Inl e, d) \<Rightarrow> (Inl e, r\<lparr>rr_db := d\<rparr>)
   | (Inr _, d) \<Rightarrow> (Inr (), r\<lparr>rr_db := d\<rparr>))"

text \<open>The loop over the generator, on the store of the database.\<close>

definition bundle_reset_changes :: "ext \<Rightarrow> nat \<Rightarrow> int \<Rightarrow> muid option \<Rightarrow> ukey option \<Rightarrow> bool \<Rightarrow> unit db" where
  "bundle_reset_changes E n to_time container user_key recursive = (\<lambda>d.
    case get_reset_changes E (to_bundler n) to_time container user_key recursive
        \<lparr>rr_seen = None, rr_store = rl_store d, rr_db = d\<rparr> of
      (res, r) \<Rightarrow> (res, (rr_db r)\<lparr>rl_store := rr_store r\<rparr>))"

definition reset_container ::
  "ext \<Rightarrow> (int \<Rightarrow> int) \<Rightarrow> container \<Rightarrow> generic_ts \<Rightarrow> ukey option \<Rightarrow> bool \<Rightarrow> nat option \<Rightarrow> string option \<Rightarrow> nat db" where
  "reset_container E now c to_time key recursive bundler comment =
    py_bind (own_bundler bundler comment) (\<lambda>nb.
    py_bind (db_resolve E to_time) (\<lambda>t.
    py_bind (resolve_ref E (ct_muid c)) (\<lambda>u.
    py_then (bundle_reset_changes E (fst nb) t (Some u) key recursive)
   (py_then (finish_if_any E now nb) (py_return (fst nb))))))"

definition reset_database :: "ext \<Rightarrow> (int \<Rightarrow> int) \<Rightarrow> generic_ts \<Rightarrow> nat option \<Rightarrow> string option \<Rightarrow> unit db" where
  "reset_database E now to_time bundler comment =
    py_bind (own_bundler bundler comment) (\<lambda>nb.
    py_bind (db_resolve E to_time) (\<lambda>t.
    py_then (bundle_reset_changes E (fst nb) t None None True)
      (finish E now nb)))"

end
