(* ===== verification/Directories.thy ===== *)
theory Directories
  imports Containers
begin

text \<open>
  \<open>python/gink/impl/directory.py\<close>: the mutable mapping from keys to values and containers. A path argument
  is one key or a list of keys. An operation that returns \<open>default\<close> when it finds nothing returns \<open>None\<close>
  here. A generator is the list of what it yields when it is run to its end.
\<close>

datatype path = OneKey ukey | KeyPath "ukey list"

definition blank_key :: "ukey \<Rightarrow> bool" where
  "blank_key k \<longleftrightarrow> k = KStr [] \<or> k = KBytes []"

definition is_directory :: "container \<Rightarrow> bool" where
  "is_directory c \<longleftrightarrow> ct_behavior c = DIRECTORY"

section \<open>Reading\<close>

fun get_loop :: "ext \<Rightarrow> int \<Rightarrow> ukey list \<Rightarrow> item \<Rightarrow> item option db" where
  "get_loop E t [] current = py_return (Some current)"
| "get_loop E t (key # keys) current =
    (if blank_key key then get_loop E t keys current
     else case current of
       ItemValue _ \<Rightarrow> py_raise KeyError
     | ItemContainer c \<Rightarrow>
         if \<not> is_directory c then py_raise KeyError
         else py_bind (live_entry E c (MidKey key) t) (\<lambda>found.
           case found of
             None \<Rightarrow> py_return None
           | Some (address, builder) \<Rightarrow>
               py_bind (get_occupant E builder (Some address)) (get_loop E t keys)))"

fun path_keys :: "path \<Rightarrow> ukey list" where
  "path_keys (OneKey k) = [k]"
| "path_keys (KeyPath ks) = ks"

definition directory_get :: "ext \<Rightarrow> container \<Rightarrow> path \<Rightarrow> generic_ts \<Rightarrow> item option db" where
  "directory_get E self key_or_keys as_of =
    py_bind (db_resolve E as_of) (\<lambda>t. get_loop E t (path_keys key_or_keys) (ItemContainer self))"

definition directory_has :: "ext \<Rightarrow> container \<Rightarrow> path \<Rightarrow> generic_ts \<Rightarrow> bool db" where
  "directory_has E self key_or_keys as_of =
    py_bind (directory_get E self key_or_keys as_of) (\<lambda>r. py_return (r \<noteq> None))"

definition directory_getitem :: "ext \<Rightarrow> container \<Rightarrow> path \<Rightarrow> item db" where
  "directory_getitem E self key_or_keys =
    py_bind (directory_get E self key_or_keys TsNone) (\<lambda>r.
      case r of None \<Rightarrow> py_raise KeyError | Some x \<Rightarrow> py_return x)"

fun walk :: "ext \<Rightarrow> container \<Rightarrow> ukey list \<Rightarrow> generic_ts \<Rightarrow> container db" where
  "walk E current [] as_of = py_return current"
| "walk E current (key # path) as_of =
    py_bind (directory_get E current (OneKey key) as_of) (\<lambda>r.
      case r of
        Some (ItemContainer c) \<Rightarrow> if is_directory c then walk E c path as_of else py_raise KeyError
      | _ \<Rightarrow> py_raise KeyError)"

text \<open>The directory that a path leads to and the last key: \<open>walk(key[:-1]), key[-1]\<close>.\<close>

definition walk_to_last :: "ext \<Rightarrow> container \<Rightarrow> path \<Rightarrow> (container \<times> ukey) db" where
  "walk_to_last E self key_or_keys =
    (case key_or_keys of
      OneKey k \<Rightarrow> py_return (self, k)
    | KeyPath ks \<Rightarrow> py_bind (walk E self (butlast ks) TsNone) (\<lambda>c.
        if ks = [] then py_raise IndexError else py_return (c, last ks)))"

text \<open>\<open>decode_key\<close> of an entry.\<close>

definition key_of_entry :: "entry_pb \<Rightarrow> ukey option" where
  "key_of_entry e = (case en_subject e of SubKey k \<Rightarrow> decode_key k | _ \<Rightarrow> None)"

fun each_item :: "ext \<Rightarrow> (muid \<times> entry_pb) list \<Rightarrow> (ukey \<times> item) list db" where
  "each_item E [] = py_return []"
| "each_item E ((address, builder) # entries) =
    (case key_of_entry builder of
      None \<Rightarrow> py_raise AssertionError
    | Some key \<Rightarrow>
        py_bind (get_occupant E builder (Some address)) (\<lambda>contained.
        py_bind (each_item E entries) (\<lambda>rest. py_return ((key, contained) # rest))))"

definition directory_items :: "ext \<Rightarrow> container \<Rightarrow> generic_ts \<Rightarrow> (ukey \<times> item) list db" where
  "directory_items E self as_of =
    py_bind (db_resolve E as_of) (\<lambda>t. py_bind (live_entries E self t) (each_item E))"

definition directory_keys :: "ext \<Rightarrow> container \<Rightarrow> generic_ts \<Rightarrow> ukey list db" where
  "directory_keys E self as_of = py_bind (directory_items E self as_of) (\<lambda>kvs. py_return (map fst kvs))"

definition directory_values :: "ext \<Rightarrow> container \<Rightarrow> generic_ts \<Rightarrow> item list db" where
  "directory_values E self as_of = py_bind (directory_items E self as_of) (\<lambda>kvs. py_return (map snd kvs))"

definition directory_size :: "ext \<Rightarrow> container \<Rightarrow> generic_ts \<Rightarrow> int db" where
  "directory_size E self as_of = keyed_size E self as_of"

section \<open>Writing\<close>

definition new_directory :: "nat \<Rightarrow> container db" where
  "new_directory n = py_bind (create_container DIRECTORY n) (\<lambda>r. py_return \<lparr>ct_muid = r, ct_behavior = DIRECTORY\<rparr>)"

text \<open>
  The walk of \<open>set\<close> to the directory that will hold the final key. Directories that are missing are
  created in the bundler; a directory just created is not looked into, since its address is not known yet.
\<close>

fun set_loop :: "ext \<Rightarrow> (int \<Rightarrow> int) \<Rightarrow> int \<Rightarrow> nat \<Rightarrow> ukey list \<Rightarrow> container \<Rightarrow> bool \<Rightarrow> container db" where
  "set_loop E now t n [] current just_created = py_return current"
| "set_loop E now t n (key # keys) current just_created =
    py_bind (if just_created then py_return None else live_entry E current (MidKey key) t) (\<lambda>found.
    case found of
      None \<Rightarrow>
        py_bind (new_directory n) (\<lambda>d.
        py_then (add_simple_entry E now current (UserKey key) (RefVal (ct_muid d)) (Some n) None)
          (set_loop E now t n keys d True))
    | Some (address, builder) \<Rightarrow>
        py_bind (get_occupant E builder (Some address)) (\<lambda>occupant.
        case occupant of
          ItemContainer c \<Rightarrow> if is_directory c then set_loop E now t n keys c False else py_raise ValueError
        | ItemValue _ \<Rightarrow> py_raise ValueError))"

definition set_path :: "path \<Rightarrow> ukey list" where
  "set_path p = (case p of OneKey k \<Rightarrow> [k] | KeyPath ks \<Rightarrow> List.filter (\<lambda>k. \<not> blank_key k) ks)"

definition directory_set ::
  "ext \<Rightarrow> (int \<Rightarrow> int) \<Rightarrow> container \<Rightarrow> path \<Rightarrow> entry_value \<Rightarrow> nat option \<Rightarrow> string option \<Rightarrow> ref db" where
  "directory_set E now self key_or_keys val bundler comment =
    py_bind tick (\<lambda>timestamp.
    let keys = set_path key_or_keys in
    if keys = [] then py_raise ValueError
    else py_bind (pick_bundler bundler comment) (\<lambda>nb.
      py_bind (set_loop E now timestamp (fst nb) (butlast keys) self False) (\<lambda>current.
      py_bind (add_simple_entry E now current (UserKey (last keys)) val (Some (fst nb)) None) (\<lambda>muid.
      py_then (finish E now nb) (py_return muid)))))"

definition directory_delete ::
  "ext \<Rightarrow> (int \<Rightarrow> int) \<Rightarrow> container \<Rightarrow> path \<Rightarrow> nat option \<Rightarrow> string option \<Rightarrow> ref db" where
  "directory_delete E now self key_or_keys bundler comment =
    py_bind (walk_to_last E self key_or_keys) (\<lambda>(dir, key).
      add_simple_entry E now dir (UserKey key) DeletionVal bundler comment)"

text \<open>The entry that \<open>setdefault\<close> and \<open>pop\<close> look at.\<close>

definition entry_now :: "ext \<Rightarrow> container \<Rightarrow> ukey \<Rightarrow> (muid \<times> entry_pb) option db" where
  "entry_now E dir key = py_bind tick (\<lambda>as_of. live_entry E dir (MidKey key) as_of)"

text \<open>Returns what the directory holds already, or the value that was set.\<close>

definition setdefault ::
  "ext \<Rightarrow> (int \<Rightarrow> int) \<Rightarrow> container \<Rightarrow> path \<Rightarrow> entry_value option \<Rightarrow> entry_value db option
    \<Rightarrow> nat option \<Rightarrow> string option \<Rightarrow> (item + entry_value) db" where
  "setdefault E now self key default_value default_factory bundler comment =
    (if (default_value = None) = (default_factory = None) then py_raise ValueError
     else py_bind (walk_to_last E self key) (\<lambda>(dir, key).
       py_bind (entry_now E dir key) (\<lambda>found.
       case found of
         Some (address, builder) \<Rightarrow> py_bind (get_occupant E builder (Some address)) (\<lambda>x. py_return (Inl x))
       | None \<Rightarrow>
           py_bind (case default_factory of Some f \<Rightarrow> f | None \<Rightarrow> py_return (the default_value)) (\<lambda>val.
           py_then (add_simple_entry E now dir (UserKey key) val bundler comment)
             (py_return (Inr val))))))"

definition directory_pop ::
  "ext \<Rightarrow> (int \<Rightarrow> int) \<Rightarrow> container \<Rightarrow> path \<Rightarrow> bool \<Rightarrow> nat option \<Rightarrow> string option \<Rightarrow> item option db" where
  "directory_pop E now self key has_default bundler comment =
    py_bind (walk_to_last E self key) (\<lambda>(dir, key).
    py_bind (entry_now E dir key) (\<lambda>found.
    case found of
      None \<Rightarrow> if has_default then py_return None else py_raise KeyError
    | Some (address, builder) \<Rightarrow>
        py_then (add_simple_entry E now dir (UserKey key) DeletionVal bundler comment)
          (py_bind (get_occupant E builder (Some address)) (\<lambda>x. py_return (Some x)))))"

definition directory_popitem ::
  "ext \<Rightarrow> (int \<Rightarrow> int) \<Rightarrow> container \<Rightarrow> nat option \<Rightarrow> string option \<Rightarrow> (ukey \<times> item) db" where
  "directory_popitem E now self bundler comment =
    py_bind tick (\<lambda>as_of.
    py_bind (live_entries E self as_of) (\<lambda>entries.
    case entries of
      [] \<Rightarrow> py_raise KeyError
    | (address, builder) # _ \<Rightarrow>
        py_bind (get_occupant E builder (Some address)) (\<lambda>val.
        case key_of_entry builder of
          None \<Rightarrow> py_raise AssertionError
        | Some key \<Rightarrow>
            py_then (add_simple_entry E now self (UserKey key) DeletionVal bundler comment)
              (py_return (key, val)))))"

definition directory_update ::
  "ext \<Rightarrow> (int \<Rightarrow> int) \<Rightarrow> container \<Rightarrow> (ukey \<times> entry_value) list \<Rightarrow> nat option \<Rightarrow> string option \<Rightarrow> unit db" where
  "directory_update E now self from_what bundler comment =
    py_bind (pick_bundler bundler comment) (\<lambda>nb.
    py_then (py_each (\<lambda>(key, val). py_then
        (add_simple_entry E now self (UserKey key) val (Some (fst nb)) None) (py_return ())) from_what)
      (finish E now nb))"

text \<open>The root directory has a fixed address. An empty dictionary of contents counts as none.\<close>

definition directory_init ::
  "ext \<Rightarrow> (int \<Rightarrow> int) \<Rightarrow> muid_arg \<Rightarrow> bool \<Rightarrow> (ukey \<times> entry_value) list option \<Rightarrow> nat option \<Rightarrow> string option
    \<Rightarrow> container db" where
  "directory_init E now arg root contents bundler comment =
    py_bind (py_read (\<lambda>d. Inr (case bundler of Some n \<Rightarrow> Some n | None \<Rightarrow> db_active d))) (\<lambda>given.
    py_bind (if given = None \<and> (contents \<noteq> None \<or> arg = ArgNone \<and> \<not> root)
             then py_bind (new_bundler comment) (\<lambda>n. py_return (Some n)) else py_return given) (\<lambda>used.
    py_bind (if root then (if arg = ArgNone then py_return (RefMuid (Muid (-1) (-1) DIRECTORY), False) else py_raise AssertionError)
             else case used of
               Some n \<Rightarrow> constructed_muid DIRECTORY arg n
             | None \<Rightarrow> (case arg of
                 ArgText s \<Rightarrow> py_bind (py_lift (muid_from_str s)) (\<lambda>u. py_return (RefMuid u, False))
               | ArgMuid r \<Rightarrow> py_return (r, False)
               | ArgNone \<Rightarrow> py_raise AssertionError)) (\<lambda>(r, created).
    let self = \<lparr>ct_muid = r, ct_behavior = DIRECTORY\<rparr>;
        kvs = (case contents of None \<Rightarrow> [] | Some kvs \<Rightarrow> kvs)
    in py_then (py_when (kvs \<noteq> [])
         (py_then (py_when (\<not> created) (py_then (clear_container E now self used None) (py_return ())))
            (directory_update E now self kvs used None)))
      (py_then (case (given, used) of
          (None, Some n) \<Rightarrow> py_bind (get_bundler n) (\<lambda>b. if bb_count b \<noteq> 0 then commit E now True n else rollback n)
        | _ \<Rightarrow> py_return ())
        (py_return self)))))"

definition get_root :: container where
  "get_root = \<lparr>ct_muid = RefMuid (Muid (-1) (-1) DIRECTORY), ct_behavior = DIRECTORY\<rparr>"

end
