(* ===== verification/Simple_Containers.thy ===== *)
theory Simple_Containers
  imports Containers Py_Numbers
begin

text \<open>
  \<open>python/gink/impl/box.py\<close>, \<open>accumulator.py\<close> and \<open>braid.py\<close>: the container of one value, the number that
  is only added to, and the chains of a virtual database with the time up to which each is followed.
\<close>

section \<open>Box\<close>

definition box_set :: "ext \<Rightarrow> (int \<Rightarrow> int) \<Rightarrow> container \<Rightarrow> entry_value \<Rightarrow> nat option \<Rightarrow> string option \<Rightarrow> ref db" where
  "box_set E now self val bundler comment = add_simple_entry E now self NoKey val bundler comment"

definition box_init ::
  "ext \<Rightarrow> (int \<Rightarrow> int) \<Rightarrow> muid_arg \<Rightarrow> entry_value option \<Rightarrow> nat option \<Rightarrow> string option \<Rightarrow> container db" where
  "box_init E now arg contents bundler comment =
    py_bind (pick_bundler bundler comment) (\<lambda>nb.
      construct E now BOX arg nb (\<lambda>self created.
        case contents of
          None \<Rightarrow> py_return ()
        | Some v \<Rightarrow> py_then (box_set E now self v (Some (fst nb)) None) (py_return ())))"

definition box_get :: "ext \<Rightarrow> container \<Rightarrow> generic_ts \<Rightarrow> item option db" where
  "box_get E self as_of =
    py_bind (db_resolve E as_of) (\<lambda>t.
    py_bind (live_entry E self MidNone t) (\<lambda>found.
    case found of
      None \<Rightarrow> py_return None
    | Some (address, builder) \<Rightarrow> py_bind (get_occupant E builder (Some address)) (\<lambda>x. py_return (Some x))))"

text \<open>A box that holds a deletion still has the size 1.\<close>

definition box_size :: "ext \<Rightarrow> container \<Rightarrow> generic_ts \<Rightarrow> int db" where
  "box_size E self as_of =
    py_bind (db_resolve E as_of) (\<lambda>t.
    py_bind (resolve_ref E (ct_muid self)) (\<lambda>u.
    py_bind (entry_at E u MidNone t) (\<lambda>found. py_return (if found = None then 0 else 1))))"

definition box_is_empty :: "ext \<Rightarrow> container \<Rightarrow> generic_ts \<Rightarrow> bool db" where
  "box_is_empty E self as_of = py_bind (box_size E self as_of) (\<lambda>n. py_return (n = 0))"

section \<open>Accumulator\<close>

datatype amount = AmountInt int | AmountDecimal decimal | AmountFloat double

definition billion :: int where
  "billion = 1000000000"

text \<open>\<open>int(change * int(1e9))\<close>.\<close>

fun billionths_of :: "amount \<Rightarrow> int result" where
  "billionths_of (AmountInt n) = Inr (n * billion)"
| "billionths_of (AmountDecimal x) = Inr (dec_int (dec_times billion x))"
| "billionths_of (AmountFloat d) = float_times_int d billion"

fun amount_nonzero :: "amount \<Rightarrow> bool" where
  "amount_nonzero (AmountInt n) = (n \<noteq> 0)"
| "amount_nonzero (AmountDecimal x) = (fst x \<noteq> 0)"
| "amount_nonzero (AmountFloat d) = (double_number d \<noteq> NumFin 0)"

definition increment ::
  "ext \<Rightarrow> (int \<Rightarrow> int) \<Rightarrow> container \<Rightarrow> amount \<Rightarrow> nat option \<Rightarrow> string option \<Rightarrow> ref db" where
  "increment E now self change bundler comment =
    py_bind (py_lift (billionths_of change)) (\<lambda>n.
      add_simple_entry E now self NoKey (UserVal (UInt n)) bundler comment)"

text \<open>The number of billionths; without a time, the running total.\<close>

definition accumulator_size :: "ext \<Rightarrow> container \<Rightarrow> generic_ts \<Rightarrow> int db" where
  "accumulator_size E self as_of =
    py_bind (if as_of = TsNone then py_return (-1) else db_resolve E as_of) (\<lambda>t.
    py_bind (resolve_ref E (ct_muid self)) (\<lambda>u.
      py_read (\<lambda>d. get_billionths E (rl_store d) u t)))"

definition accumulator_get :: "ext \<Rightarrow> container \<Rightarrow> generic_ts \<Rightarrow> decimal db" where
  "accumulator_get E self as_of =
    py_bind (accumulator_size E self as_of) (\<lambda>n. py_return (dec_round (n, -9)))"

definition accumulator_clear :: "ext \<Rightarrow> (int \<Rightarrow> int) \<Rightarrow> container \<Rightarrow> nat option \<Rightarrow> string option \<Rightarrow> ref db" where
  "accumulator_clear E now self bundler comment =
    py_bind (accumulator_get E self TsNone) (\<lambda>x.
      increment E now self (AmountDecimal (dec_times (-1) x)) bundler comment)"

definition accumulator_init ::
  "ext \<Rightarrow> (int \<Rightarrow> int) \<Rightarrow> muid_arg \<Rightarrow> amount option \<Rightarrow> nat option \<Rightarrow> string option \<Rightarrow> container db" where
  "accumulator_init E now arg contents bundler comment =
    py_bind (pick_bundler bundler comment) (\<lambda>nb.
      construct E now ACCUMULATOR arg nb (\<lambda>self created.
        case contents of
          None \<Rightarrow> py_return ()
        | Some x \<Rightarrow> py_when (amount_nonzero x)
            (py_then (py_when (\<not> created) (py_then (accumulator_clear E now self (Some (fst nb)) None) (py_return ())))
              (py_then (increment E now self x (Some (fst nb)) None) (py_return ())))))"

definition negated :: "amount \<Rightarrow> amount" where
  "negated x = (case x of
     AmountInt n \<Rightarrow> AmountInt (- n)
   | AmountDecimal y \<Rightarrow> AmountDecimal (dec_times (-1) y)
   | AmountFloat d \<Rightarrow> AmountFloat (d XOR 2 ^ 63))"

text \<open>\<open>-=\<close>.\<close>

definition decrement :: "ext \<Rightarrow> (int \<Rightarrow> int) \<Rightarrow> container \<Rightarrow> amount \<Rightarrow> unit db" where
  "decrement E now self x = py_then (increment E now self (negated x) None None) (py_return ())"

text \<open>The accumulator as a number: a float is compared through its shortest decimal.\<close>

definition accumulator_equals :: "ext \<Rightarrow> container \<Rightarrow> amount \<Rightarrow> bool db" where
  "accumulator_equals E self other =
    py_bind (accumulator_get E self TsNone) (\<lambda>mine.
      py_return (case other of
        AmountInt n \<Rightarrow> dec_eq (n, 0) mine
      | AmountDecimal x \<Rightarrow> dec_eq x mine
      | AmountFloat d \<Rightarrow> (case x_float_decimal E d of None \<Rightarrow> False | Some x \<Rightarrow> dec_eq x mine)))"

definition accumulator_int :: "ext \<Rightarrow> container \<Rightarrow> int db" where
  "accumulator_int E self = py_bind (accumulator_get E self TsNone) (\<lambda>x. py_return (dec_int x))"

section \<open>Equality of what containers hold\<close>

fun value_amount :: "uvalue \<Rightarrow> amount option" where
  "value_amount (UBool b) = Some (AmountInt (if b then 1 else 0))"
| "value_amount (UInt n) = Some (AmountInt n)"
| "value_amount (UFloat d) = Some (AmountFloat d)"
| "value_amount _ = None"

definition container_equals_value :: "ext \<Rightarrow> container \<Rightarrow> uvalue \<Rightarrow> bool db" where
  "container_equals_value E c v =
    (if ct_behavior c = ACCUMULATOR
     then (case value_amount v of None \<Rightarrow> py_return False | Some x \<Rightarrow> accumulator_equals E c x)
     else py_return False)"

definition item_eq :: "ext \<Rightarrow> item \<Rightarrow> item \<Rightarrow> bool db" where
  "item_eq E a b =
    (case (a, b) of
      (ItemValue x, ItemValue y) \<Rightarrow> py_return (py_eq x y)
    | (ItemContainer c, ItemValue y) \<Rightarrow> container_equals_value E c y
    | (ItemValue x, ItemContainer c) \<Rightarrow> container_equals_value E c x
    | (ItemContainer c, ItemContainer c') \<Rightarrow>
        if ct_behavior c = ACCUMULATOR then ref_eq E (ct_muid c') (ct_muid c) else container_eq E c c')"

section \<open>Braid\<close>

text \<open>A limit is a time within a fixed range, or infinity.\<close>

definition FLOAT_INFINITY :: double where
  "FLOAT_INFINITY = 0x7FF0000000000000"

definition limit_ok :: "uvalue \<Rightarrow> bool" where
  "limit_ok v =
    (case v of
      UInt n \<Rightarrow> 1753913414371016 \<le> n \<and> n \<le> 17539134950000000
    | UFloat d \<Rightarrow> d = FLOAT_INFINITY
    | _ \<Rightarrow> False)"

definition braid_set ::
  "ext \<Rightarrow> (int \<Rightarrow> int) \<Rightarrow> container \<Rightarrow> chain \<Rightarrow> uvalue \<Rightarrow> nat option \<Rightarrow> string option \<Rightarrow> ref db" where
  "braid_set E now self c v bundler comment =
    (if value_number v = None then py_raise TypeError
     else if limit_ok v then add_simple_entry E now self (ChainKey c) (UserVal v) bundler comment else py_raise ValueError)"

definition braid_delete :: "ext \<Rightarrow> (int \<Rightarrow> int) \<Rightarrow> container \<Rightarrow> chain \<Rightarrow> nat option \<Rightarrow> string option \<Rightarrow> ref db" where
  "braid_delete E now self c bundler comment = add_simple_entry E now self (ChainKey c) DeletionVal bundler comment"

text \<open>\<open>update\<close> does not check the limits.\<close>

definition braid_update ::
  "ext \<Rightarrow> (int \<Rightarrow> int) \<Rightarrow> container \<Rightarrow> (chain \<times> uvalue) list \<Rightarrow> nat option \<Rightarrow> string option \<Rightarrow> unit db" where
  "braid_update E now self from_what bundler comment =
    py_bind (own_bundler bundler comment) (\<lambda>nb.
    py_then (py_each (\<lambda>(c, v). py_then
        (add_simple_entry E now self (ChainKey c) (UserVal v) (Some (fst nb)) None) (py_return ())) from_what)
      (finish E now nb))"

definition braid_init ::
  "ext \<Rightarrow> (int \<Rightarrow> int) \<Rightarrow> muid_arg \<Rightarrow> (chain \<times> uvalue) list option \<Rightarrow> nat option \<Rightarrow> string option \<Rightarrow> container db" where
  "braid_init E now arg contents bundler comment =
    py_bind (own_bundler bundler comment) (\<lambda>nb.
    let kvs = (case contents of None \<Rightarrow> [] | Some kvs \<Rightarrow> kvs)
    in construct E now BRAID arg nb
         (refill E now (fst nb) (kvs \<noteq> []) (\<lambda>self. braid_update E now self kvs (Some (fst nb)) None)))"

definition limit_value :: "item \<Rightarrow> uvalue db" where
  "limit_value x = (case x of
     ItemValue (UInt n) \<Rightarrow> py_return (UInt n)
   | ItemValue (UFloat d) \<Rightarrow> py_return (UFloat d)
   | ItemValue (UBool b) \<Rightarrow> py_return (UBool b)
   | _ \<Rightarrow> py_raise AssertionError)"

definition braid_get :: "ext \<Rightarrow> container \<Rightarrow> chain \<Rightarrow> generic_ts \<Rightarrow> uvalue option db" where
  "braid_get E self c as_of =
    py_bind (db_resolve E as_of) (\<lambda>t.
    py_bind (py_lift (mk_muid (ch_start c) (ch_medallion c) 0)) (\<lambda>key.
    py_bind (live_entry E self (MidMuid key) t) (\<lambda>found.
    case found of
      None \<Rightarrow> py_return None
    | Some (address, builder) \<Rightarrow>
        py_bind (get_occupant E builder (Some address)) (\<lambda>x.
        py_bind (limit_value x) (\<lambda>v. py_return (Some v))))))"

fun braid_items_loop :: "ext \<Rightarrow> (muid \<times> entry_pb) list \<Rightarrow> (chain \<times> uvalue) list db" where
  "braid_items_loop E [] = py_return []"
| "braid_items_loop E ((address, builder) # entries) =
    py_bind (py_lift (muid_create (CtxMuid address) (describing_of builder) None)) (\<lambda>u.
    py_bind (get_occupant E builder (Some address)) (\<lambda>x.
    py_bind (limit_value x) (\<lambda>v.
    py_bind (braid_items_loop E entries) (\<lambda>rest.
      py_return ((Chain (mu_medallion u) (mu_timestamp u), v) # rest)))))"

definition braid_items :: "ext \<Rightarrow> container \<Rightarrow> generic_ts \<Rightarrow> (chain \<times> uvalue) list db" where
  "braid_items E self as_of =
    py_bind (db_resolve E as_of) (\<lambda>t. py_bind (live_entries E self t) (braid_items_loop E))"

definition braid_size :: "ext \<Rightarrow> container \<Rightarrow> generic_ts \<Rightarrow> int db" where
  "braid_size E self as_of = keyed_size E self as_of"

section \<open>Clearing an accumulator\<close>

text \<open>
  What \<open>clear\<close> adds is exactly the opposite of the total as long as the total has at most 28 digits; the
  decimals in between lose nothing.
\<close>

lemma dec_round_exact:
  assumes "\<bar>n\<bar> < 10 ^ 28"
  shows "dec_round (n, e) = (n, e)"
proof -
  have "num_digits 10 \<bar>n\<bar> \<le> 28" using num_digits_le [of 10 "\<bar>n\<bar>" 28] assms by simp
  then have "surplus 10 28 n = 0" by (simp add: surplus_def)
  then show ?thesis by (simp add: dec_round_def rounded_def half_even_def sgn_mult_abs)
qed

lemma billionths_exact:
  assumes "\<bar>n\<bar> < 10 ^ 28"
  shows "billionths_of (AmountDecimal (n, -9)) = Inr n"
proof -
  let ?m = "n * 10 ^ 9"
  let ?k = "surplus 10 28 ?m" and ?q = "rounded 10 28 ?m"
  have q: "?q * 10 ^ ?k = ?m" "?k \<le> 9"
    using rounded_exact [of 10 n 28 9 ?m] assms by simp_all
  have "(10::int) ^ 9 = 10 ^ (9 - ?k) * 10 ^ ?k" using q(2) by (simp only: flip: power_add) simp
  then have "?q * 10 ^ ?k = (n * 10 ^ (9 - ?k)) * 10 ^ ?k" using q(1) by (simp only: mult.assoc)
  then have m: "?q = n * 10 ^ (9 - ?k)" by (subst (asm) mult_right_cancel) simp_all
  then have d: "\<bar>?q\<bar> div 10 ^ (9 - ?k) = \<bar>n\<bar>" by (simp add: abs_mult)
  have s: "sgn ?q = sgn n" unfolding m by (simp add: sgn_mult)
  have "dec_int (?q, int ?k - 9) = n"
  proof (cases "?k = 9")
    case True
    then show ?thesis using q(1) by (simp add: dec_int_def)
  next
    case False
    then have "nat (9 - int ?k) = 9 - ?k" "\<not> 9 \<le> int ?k" using q(2) by auto
    then show ?thesis using d s by (simp add: dec_int_def truncated_def sgn_mult_abs)
  qed
  then show ?thesis by (simp add: dec_times_def dec_round_def billion_def mult.commute)
qed

end
