(* ===== verification/Mem_Reading.thy ===== *)
theory Mem_Reading
  imports Mem_Store
begin

text \<open>
  What the keyed lookups of the memory store return, stated over the set of placements it holds. The
  well-formedness of a store is relative to \<open>K\<close>, which gives the kind of middle that each container
  uses (the entries of a container all have its behavior).
\<close>

section \<open>Well-formed stores\<close>

text \<open>The address of a change of some bundle.\<close>

definition change_muid :: "muid \<Rightarrow> bool" where
  "change_muid u \<longleftrightarrow> valid_muid u \<and> 0 < mu_timestamp u \<and> 0 < mu_medallion u \<and> 0 < mu_offset u"

definition placed_ok :: "ext \<Rightarrow> (muid \<Rightarrow> nat) \<Rightarrow> mem_store \<Rightarrow> bool" where
  "placed_ok E K st \<longleftrightarrow> dict_ok (st_placements st) \<and>
    (\<forall>b u. dget (st_placements st) b = Some u \<longrightarrow>
      (\<exists>p. b = place_key E p \<and> placement_ok p \<and> change_muid (pl_placer p) \<and>
        middle_kind (pl_middle p) = K (pl_container p) \<and>
        (middle_kind (pl_middle p) \<noteq> 2 \<longrightarrow> u = pl_placer p \<and>
          (\<exists>e. dget (st_entries st) u = Some e \<and> behavior_kind (en_behavior e) = Some (middle_kind (pl_middle p))))))"

definition clears_ok :: "mem_store \<Rightarrow> bool" where
  "clears_ok st \<longleftrightarrow> dict_ok (st_clearances st) \<and>
    (\<forall>b \<in> set (dkeys (st_clearances st)). \<exists>c u. valid_muid c \<and> valid_muid u \<and> b = muid_bytes c @ muid_bytes u)"

text \<open>The addresses that wrote to a key of a container before a time, and the last of them.\<close>

definition written :: "ext \<Rightarrow> mem_store \<Rightarrow> muid \<Rightarrow> middle \<Rightarrow> muid \<Rightarrow> muid set" where
  "written E st c k before =
    {u. \<exists>p. placement_ok p \<and> place_key E p \<in> set (dkeys (st_placements st)) \<and>
        pl_container p = c \<and> pl_middle p = k \<and> pl_placer p = u \<and> muid_lt u before}"

definition is_latest :: "muid set \<Rightarrow> muid \<Rightarrow> bool" where
  "is_latest A u \<longleftrightarrow> u \<in> A \<and> (\<forall>v \<in> A. v = u \<or> muid_lt v u)"

definition cleared_at :: "mem_store \<Rightarrow> muid \<Rightarrow> muid \<Rightarrow> muid set" where
  "cleared_at st c bound =
    {u. valid_muid u \<and> muid_bytes c @ muid_bytes u \<in> set (dkeys (st_clearances st)) \<and>
        (muid_lt u bound \<or> u = bound)}"

section \<open>Times as addresses\<close>

definition time_ok :: "int \<Rightarrow> bool" where
  "time_ok t \<longleftrightarrow> -1 \<le> t \<and> t < TIMESTAMP_MOD - 1"

lemma mk_time: "time_ok t \<Longrightarrow> mk_muid t 0 0 = Inr (Muid t 0 0)"
  by (auto simp: time_ok_def mk_muid_eq norm_timestamp_def norm_medallion_def norm_offset_def muid_consts)

lemma valid_time_muid: "time_ok t \<Longrightarrow> valid_muid (Muid t 0 0)"
  by (auto simp: time_ok_def valid_muid_def muid_consts)

lemma valid_epoch [simp]: "valid_muid (Muid 0 0 0)"
  by (simp add: valid_muid_def muid_consts)

lemma epoch_least: "valid_muid u \<Longrightarrow> muid_lt (Muid 0 0 0) u \<or> Muid 0 0 0 = u"
proof (rule ccontr)
  assume v: "valid_muid u" and n: "\<not> ?thesis"
  then have "muid_lt u (Muid 0 0 0)" using muid_codec.lt_linear [of "Muid 0 0 0" u] by auto
  moreover have "0 \<le> mu_timestamp u mod TIMESTAMP_MOD" "0 \<le> mu_medallion u mod MEDALLION_MOD"
    "0 \<le> mu_offset u mod OFFSET_MOD" by (simp_all add: muid_consts)
  ultimately show False by (simp add: muid_lt_def)
qed

lemma lt_time_iff:
  assumes "valid_muid u" "0 \<le> mu_timestamp u" "0 \<le> t"  "time_ok t"
  shows "muid_lt u (Muid t 0 0) \<longleftrightarrow> mu_timestamp u < t"
proof -
  have "mu_timestamp u mod TIMESTAMP_MOD = mu_timestamp u" "t mod TIMESTAMP_MOD = t"
    using assms by (auto simp: valid_muid_def time_ok_def)
  moreover have "0 \<le> mu_medallion u mod MEDALLION_MOD" "0 \<le> mu_offset u mod OFFSET_MOD"
    by (simp_all add: muid_consts)
  ultimately show ?thesis by (auto simp: muid_lt_def)
qed

lemma lt_now: "valid_muid u \<Longrightarrow> 0 \<le> mu_timestamp u \<Longrightarrow> muid_lt u (Muid (-1) 0 0)"
proof -
  assume v: "valid_muid u" "0 \<le> mu_timestamp u"
  then have "mu_timestamp u mod TIMESTAMP_MOD = mu_timestamp u" by (simp add: valid_muid_def)
  moreover have "(-1) mod TIMESTAMP_MOD = TIMESTAMP_MOD - 1" by (simp add: muid_consts zmod_minus1)
  ultimately show ?thesis using v by (simp add: muid_lt_def valid_muid_def)
qed

section \<open>Clearances\<close>

lemma last_of_descending: "x \<in> set xs \<Longrightarrow> sorted (rev xs) \<Longrightarrow> last xs \<le> (x::'a::linorder)"
  by (induction xs) (auto simp: sorted_append)

lemma clear_loop_last:
  assumes "\<And>k. k \<in> set ks \<Longrightarrow> \<exists>c u. valid_muid c \<and> valid_muid u \<and> k = muid_bytes c @ muid_bytes u"
  shows "ks = [] \<Longrightarrow> clear_loop t ks = Inr t"
    and "ks \<noteq> [] \<Longrightarrow> \<exists>c u. valid_muid c \<and> valid_muid u \<and> last ks = muid_bytes c @ muid_bytes u
      \<and> clear_loop t ks = Inr (mu_timestamp u)"
proof -
  show "ks = [] \<Longrightarrow> clear_loop t ks = Inr t" by simp
  show "ks \<noteq> [] \<Longrightarrow> \<exists>c u. valid_muid c \<and> valid_muid u \<and> last ks = muid_bytes c @ muid_bytes u
      \<and> clear_loop t ks = Inr (mu_timestamp u)"
    using assms
  proof (induction ks arbitrary: t)
    case Nil
    then show ?case by simp
  next
    case (Cons k ks)
    obtain c u where k: "valid_muid c" "valid_muid u" "k = muid_bytes c @ muid_bytes u"
      using Cons.prems(2) [of k] by auto
    then have dec: "muid_from_bytes (take 16 (drop 16 k)) = Inr u"
      by (simp add: muid_from_bytes_bytes)
    show ?case
    proof (cases "ks = []")
      case True
      then have "last (k # ks) = muid_bytes c @ muid_bytes u" "clear_loop t (k # ks) = Inr (mu_timestamp u)"
        using dec k(3) by simp_all
      with k(1,2) show ?thesis by blast
    next
      case False
      with Cons.IH [of "mu_timestamp u"] Cons.prems dec show ?thesis by auto
    qed
  qed
qed

text \<open>
  The time that the code calls the prior clear: the time of the earliest recorded clearance up to the
  given time, and 0 when there is none.
\<close>

lemma prior_clear_spec:
  assumes E: "scans_ok E" and st: "clears_ok st" and c: "valid_muid c" and t: "time_ok as_of"
  shows "(cleared_at st c (Muid as_of 0 0) = {} \<and> get_time_of_prior_clear E st c as_of = Inr 0) \<or>
    (\<exists>u \<in> cleared_at st c (Muid as_of 0 0).
      (\<forall>v \<in> cleared_at st c (Muid as_of 0 0). u = v \<or> muid_lt u v) \<and>
      get_time_of_prior_clear E st c as_of = Inr (mu_timestamp u))"
proof -
  let ?hi = "Muid as_of 0 0"
  let ?ks = "irange E (st_clearances st) (Some (muid_bytes c)) (Some (muid_bytes c @ muid_bytes ?hi)) True"
  have ok: "scan_ok id (x_scan_bytes E)" using E by (simp add: scans_ok_def)
  have d: "distinct (dkeys (st_clearances st))" using st by (simp add: clears_ok_def dict_ok_def)
  have hi: "valid_muid ?hi" by (rule valid_time_muid [OF t])
  have set: "k \<in> set ?ks \<longleftrightarrow> (\<exists>u \<in> cleared_at st c ?hi. k = muid_bytes c @ muid_bytes u)" for k
  proof
    assume k: "k \<in> set ?ks"
    then have mem: "k \<in> set (dkeys (st_clearances st))" and b: "muid_bytes c \<le> k" "k \<le> muid_bytes c @ muid_bytes ?hi"
      using scan_set [OF ok d] by (auto simp: in_bounds_def)
    obtain c' u where k': "valid_muid c'" "valid_muid u" "k = muid_bytes c' @ muid_bytes u"
      using st mem by (auto simp: clears_ok_def)
    have "c' = c"
      using b k' c muid_codec.enc_append_le [of c c' "[]"] muid_codec.enc_append_le [of c' c]
        muid_codec.lt_trans [of c c' c] muid_codec.lt_irrefl [of c]
      by auto
    with b k' c hi mem show "\<exists>u \<in> cleared_at st c ?hi. k = muid_bytes c @ muid_bytes u"
      by (auto simp: cleared_at_def muid_codec.enc_le)
  next
    assume "\<exists>u \<in> cleared_at st c ?hi. k = muid_bytes c @ muid_bytes u"
    then show "k \<in> set ?ks"
      using scan_set [OF ok d] hi by (auto simp: in_bounds_def cleared_at_def muid_codec.enc_le)
  qed
  have shape: "k \<in> set ?ks \<Longrightarrow> \<exists>c u. valid_muid c \<and> valid_muid u \<and> k = muid_bytes c @ muid_bytes u" for k
    using set c by (auto simp: cleared_at_def)
  have res: "get_time_of_prior_clear E st c as_of = clear_loop 0 ?ks"
    by (simp add: get_time_of_prior_clear_def mk_time [OF t] Let_def)
  show ?thesis
  proof (cases "?ks = []")
    case True
    then have "cleared_at st c ?hi = {}" using set by auto
    with True res show ?thesis by simp
  next
    case False
    obtain c' u where u: "valid_muid u" "last ?ks = muid_bytes c' @ muid_bytes u" "valid_muid c'"
      "clear_loop 0 ?ks = Inr (mu_timestamp u)"
      using clear_loop_last(2) [OF shape False] by blast
    have "last ?ks \<in> set ?ks" using False by simp
    then obtain u' where u': "u' \<in> cleared_at st c ?hi" "last ?ks = muid_bytes c @ muid_bytes u'"
      using set by auto
    then have "u' = u" using u c by (auto simp: cleared_at_def muid_codec.enc_append_eq muid_codec.enc_inj)
    have "u = v \<or> muid_lt u v" if v: "v \<in> cleared_at st c ?hi" for v
    proof -
      have "muid_bytes c @ muid_bytes v \<in> set ?ks" using v set by auto
      moreover have "sorted (rev ?ks)" using scan_desc [OF ok d] by (simp add: id_def)
      ultimately have "last ?ks \<le> muid_bytes c @ muid_bytes v"
        by (rule last_of_descending)
      then show ?thesis using u' v \<open>u' = u\<close> u(1) by (auto simp: cleared_at_def muid_codec.enc_le)
    qed
    then show ?thesis using u' u res \<open>u' = u\<close> by auto
  qed
qed

section \<open>Lookup by key\<close>

text \<open>
  What a lookup finds among the addresses \<open>A\<close> that wrote to its key: nothing when there are none,
  otherwise the last of them, unless it is older than the clearance time.
\<close>

definition reads :: "mem_store \<Rightarrow> muid set \<Rightarrow> int \<Rightarrow> (muid \<times> entry_pb) option \<Rightarrow> bool" where
  "reads st A T r \<longleftrightarrow> A = {} \<and> r = None \<or>
    (\<exists>u e. is_latest A u \<and> dget (st_entries st) u = Some e \<and>
      r = (if mu_timestamp u < T then None else Some (u, e)))"

lemma lex3_asym:
  fixes t m z t' m' z' :: int
  shows "t < t' \<or> t = t' \<and> (m < m' \<or> m = m' \<and> z < z') \<Longrightarrow>
    \<not> (t' < t \<or> t' = t \<and> (m' < m \<or> m' = m \<and> z' < z))"
  by auto

lemma muid_lt_asym: "muid_lt u v \<Longrightarrow> \<not> muid_lt v u"
  unfolding muid_lt_def Let_def prod.case by (rule lex3_asym)

lemma latest_unique: "is_latest A u \<Longrightarrow> is_latest A v \<Longrightarrow> u = v"
proof -
  assume "is_latest A u" "is_latest A v"
  then have "v = u \<or> muid_lt v u" "u = v \<or> muid_lt u v" by (simp_all add: is_latest_def)
  then show "u = v" using muid_lt_asym [of u v] by fastforce
qed

lemma reads_unique: "reads st A T r \<Longrightarrow> reads st A T r' \<Longrightarrow> r = r'"
  unfolding reads_def
proof (elim disjE exE conjE)
  fix u e v e' assume "is_latest A u" "is_latest A v" "dget (st_entries st) u = Some e"
    "dget (st_entries st) v = Some e'" "r = (if mu_timestamp u < T then None else Some (u, e))"
    "r' = (if mu_timestamp v < T then None else Some (v, e'))"
  then show "r = r'" using latest_unique [of A u v] by simp
qed (simp_all add: is_latest_def)

lemma change_not_time: "change_muid u \<Longrightarrow> u \<noteq> Muid t 0 0"
  by (auto simp: change_muid_def)

lemma scanned_placements:
  assumes E: "scans_ok E" "key_codec_ok E" and st: "placed_ok E K st"
    and c: "valid_muid c" and k: "middle_ok k" "middle_kind k = K c" and t: "time_ok as_of"
  defines "lo \<equiv> place_key E (Placement c k (Muid 0 0 0) None)"
    and "hi \<equiv> place_key E (Placement c k (Muid as_of 0 0) None)"
  shows "b \<in> set (dkeys (st_placements st)) \<and> in_bounds id (Some lo) (Some hi) b \<longleftrightarrow>
    (\<exists>p. b = place_key E p \<and> placement_ok p \<and> b \<in> set (dkeys (st_placements st)) \<and>
      pl_container p = c \<and> pl_middle p = k \<and> muid_lt (pl_placer p) (Muid as_of 0 0))"
proof -
  have hi_ok: "valid_muid (Muid as_of 0 0)" by (rule valid_time_muid [OF t])
  have "in_bounds id (Some lo) (Some hi) b \<longleftrightarrow>
      (\<exists>p. b = place_key E p \<and> placement_ok p \<and> pl_container p = c \<and> pl_middle p = k
        \<and> muid_lt (pl_placer p) (Muid as_of 0 0))"
    if b: "b \<in> set (dkeys (st_placements st))"
  proof -
    obtain u p where p: "b = place_key E p" "placement_ok p" "change_muid (pl_placer p)"
      "middle_kind (pl_middle p) = K (pl_container p)"
      using st dkey_dget [OF b] unfolding placed_ok_def by metis
    show ?thesis
    proof
      assume "in_bounds id (Some lo) (Some hi) b"
      then have "lo \<le> b \<and> b \<le> hi" by (simp add: in_bounds_def)
      then have "pl_container p = c \<and> pl_middle p = k \<and> muid_lt (pl_placer p) (Muid as_of 0 0)"
        using placement_between [OF E(2) p(2) c k(1) valid_epoch hi_ok] p k change_not_time
        unfolding lo_def hi_def by metis
      with p show "\<exists>p. b = place_key E p \<and> placement_ok p \<and> pl_container p = c \<and> pl_middle p = k
        \<and> muid_lt (pl_placer p) (Muid as_of 0 0)" by blast
    next
      assume "\<exists>p. b = place_key E p \<and> placement_ok p \<and> pl_container p = c \<and> pl_middle p = k
        \<and> muid_lt (pl_placer p) (Muid as_of 0 0)"
      then obtain q where q: "b = place_key E q" "placement_ok q" "pl_container q = c" "pl_middle q = k"
        "muid_lt (pl_placer q) (Muid as_of 0 0)" by blast
      then have "lo \<le> b \<and> b \<le> hi"
        using placement_between [OF E(2) q(2) c k(1) valid_epoch hi_ok] epoch_least [of "pl_placer q"]
        unfolding lo_def hi_def placement_ok_def by metis
      then show "in_bounds id (Some lo) (Some hi) b" by (simp add: in_bounds_def)
    qed
  qed
  then show ?thesis by blast
qed

lemma get_entry_by_key_spec:
  assumes E: "scans_ok E" "key_codec_ok E" and st: "placed_ok E K st" "clears_ok st"
    and c: "valid_muid c" and k: "middle_ok k" "middle_kind k = K c" "middle_kind k \<noteq> 2"
    and t: "time_ok as_of"
  shows "\<exists>T r. get_time_of_prior_clear E st c as_of = Inr T \<and> get_entry_by_key E st c k as_of = Inr r
    \<and> reads st (written E st c k (Muid as_of 0 0)) T r"
proof -
  let ?hi = "Muid as_of 0 0" and ?d = "st_placements st"
  let ?lo_key = "place_key E (Placement c k (Muid 0 0 0) None)" and ?hi_key = "place_key E (Placement c k ?hi None)"
  let ?ks = "irange E ?d (Some ?lo_key) (Some ?hi_key) True"
  let ?A = "written E st c k ?hi"
  note scanned = scanned_placements [OF E st(1) c k(1,2) t]
  have ok: "scan_ok id (x_scan_bytes E)" using E by (simp add: scans_ok_def)
  have d: "distinct (dkeys ?d)" using st by (simp add: placed_ok_def dict_ok_def)
  obtain T where T: "get_time_of_prior_clear E st c as_of = Inr T"
    using prior_clear_spec [OF E(1) st(2) c t] by blast
  have hi_ok: "valid_muid ?hi" by (rule valid_time_muid [OF t])
  have bytes: "placement_bytes E (Placement c k (Muid 0 0 0) None) = Inr ?lo_key"
    "placement_bytes E (Placement c k ?hi None) = Inr ?hi_key"
    using c k hi_ok by (simp_all add: placement_bytes_ok placement_ok_def valid_time_def)
  show ?thesis
  proof (cases ?ks)
    case Nil
    then have "?A = {}"
      using scan_Nil [OF ok d] scanned unfolding written_def by blast
    moreover have "get_entry_by_key E st c k as_of = Inr None"
      using Nil T bytes by (simp add: get_entry_by_key_def mk_time [OF t])
    ultimately show ?thesis using T by (auto simp: reads_def)
  next
    case (Cons b rest)
    note hd = scan_rev_hd [OF ok d Cons]
    obtain p where p: "b = place_key E p" "placement_ok p" "pl_container p = c" "pl_middle p = k"
      "muid_lt (pl_placer p) ?hi"
      using scanned [of b] hd(1,2) by blast
    obtain u where u: "dget ?d b = Some u" using dkey_dget [OF hd(1)] by blast
    then obtain q where q: "b = place_key E q" "placement_ok q"
      "middle_kind (pl_middle q) = K (pl_container q)"
      "middle_kind (pl_middle q) \<noteq> 2 \<longrightarrow> u = pl_placer q \<and>
        (\<exists>e. dget (st_entries st) u = Some e \<and> behavior_kind (en_behavior e) = Some (middle_kind (pl_middle q)))"
      using st(1) unfolding placed_ok_def by blast
    have "q = p"
      using p q k by (intro place_key_inj [OF E(2)]) auto
    with q(4) p k obtain e where e: "u = pl_placer p" "dget (st_entries st) u = Some e"
      "behavior_kind (en_behavior e) = Some (middle_kind (pl_middle p))" by auto
    then have dec: "placement_from_bytes E b (en_behavior e) = Inr p"
      using placement_from_bytes_key [OF E(2) p(2)] p(1) by simp
    have "is_latest ?A u"
      unfolding is_latest_def
    proof (intro conjI ballI)
      show "u \<in> ?A" using p e hd(1) by (auto simp: written_def)
      fix v assume "v \<in> ?A"
      then obtain p' where p': "placement_ok p'" "place_key E p' \<in> set (dkeys ?d)" "pl_container p' = c"
        "pl_middle p' = k" "pl_placer p' = v" "muid_lt v ?hi" by (auto simp: written_def)
      then have "place_key E p' \<le> place_key E p"
        using hd(3) [of "place_key E p'"] scanned [of "place_key E p'"] p(1) by auto
      then show "v = u \<or> muid_lt v u"
        using p p' e by (auto simp: place_key_def placement_ok_def muid_codec.enc_append_le)
    qed
    moreover have "get_entry_by_key E st c k as_of
        = Inr (if mu_timestamp u < T then None else Some (u, e'))" if "e' = e" for e'
      using that Cons T bytes u e dec by (simp add: get_entry_by_key_def mk_time [OF t] dindex_def)
    ultimately show ?thesis using T e(2) unfolding reads_def by blast
  qed
qed

text \<open>C40: The clearance time that the memory store uses for a read is that of the \<^emph>\<open>earliest\<close>
  clearance of the container before the time asked for: the loop over the clearances, latest first, does
  not stop at the first one.\<close>

lemma prior_clear_earliest:
  assumes "scans_ok E" "clears_ok st" "valid_muid c" "time_ok t"
    and "u \<in> cleared_at st c (Muid t 0 0)"
    and "\<forall>v \<in> cleared_at st c (Muid t 0 0). u = v \<or> muid_lt u v"
  shows "get_time_of_prior_clear E st c t = Inr (mu_timestamp u)"
proof -
  obtain w where w: "w \<in> cleared_at st c (Muid t 0 0)" "u = w \<or> muid_lt u w" "w = u \<or> muid_lt w u"
    "get_time_of_prior_clear E st c t = Inr (mu_timestamp w)"
    using prior_clear_spec [OF assms(1-4)] assms(5,6) by blast
  then show ?thesis using muid_lt_asym [of u w] by auto
qed

lemma prior_clear_earliest_witness:
  "get_time_of_prior_clear ref_ext ((empty_store True)\<lparr>st_clearances :=
     [(muid_bytes (Muid (-1) (-1) 4) @ muid_bytes (Muid 1000 77 1), \<lparr>cl_container = MuidPb (-1) (-1) 4, cl_purge = False\<rparr>),
      (muid_bytes (Muid (-1) (-1) 4) @ muid_bytes (Muid 2000 77 1), \<lparr>cl_container = MuidPb (-1) (-1) 4, cl_purge = False\<rparr>)]\<rparr>) (Muid (-1) (-1) 4) 5000 = Inr 1000"
proof -
  let ?root = "Muid (-1) (-1) 4" and ?a = "Muid 1000 77 1" and ?b = "Muid 2000 77 1"
  let ?st = "(empty_store True)\<lparr>st_clearances :=
     [(muid_bytes ?root @ muid_bytes ?a, \<lparr>cl_container = MuidPb (-1) (-1) 4, cl_purge = False\<rparr>), (muid_bytes ?root @ muid_bytes ?b, \<lparr>cl_container = MuidPb (-1) (-1) 4, cl_purge = False\<rparr>)]\<rparr>"
  have v: "valid_muid ?root" "valid_muid ?a" "valid_muid ?b" by (simp_all add: valid_muid_def muid_consts)
  have ab: "muid_bytes ?a \<noteq> muid_bytes ?b" using muid_codec.enc_inj [OF v(2,3)] by auto
  have ok: "clears_ok ?st" using v ab by (auto simp: clears_ok_def dict_ok_def empty_store_def)
  have "cleared_at ?st ?root (Muid 5000 0 0) = {?a, ?b}"
    using v muid_codec.enc_inj by (auto simp: cleared_at_def empty_store_def muid_lt_def muid_consts)
  then show ?thesis
    using prior_clear_earliest [OF ref_ext_scans ok v(1), of 5000 ?a]
    by (simp add: time_ok_def muid_consts muid_lt_def)
qed

end
