(* ===== verification/Mem_Convergence.thy ===== *)
theory Mem_Convergence
  imports Mem_Reading
begin

text \<open>
  What the changes of accepted bundles leave in a history-retaining store, and that it depends on the
  set of changes only: stores that accepted the same bundles, in whatever order, answer keyed lookups
  and accumulator reads alike, at every time.
\<close>

section \<open>The part of the store that keyed reads use\<close>

definition same_core :: "mem_store \<Rightarrow> mem_store \<Rightarrow> bool" where
  "same_core s s' \<longleftrightarrow> st_placements s' = st_placements s \<and> st_entries s' = st_entries s \<and>
     st_clearances s' = st_clearances s \<and> st_totals s' = st_totals s \<and>
     st_retaining s' = st_retaining s"

lemma same_core_refl [simp]: "same_core s s"
  by (simp add: same_core_def)

lemma same_core_trans: "same_core r s \<Longrightarrow> same_core s t \<Longrightarrow> same_core r t"
  by (simp add: same_core_def)

lemma index_describing_core: "py_keeps (same_core r) (index_describing ts med e p)"
  unfolding index_describing_def
  by (intro py_keeps_when py_keeps_bind py_keeps_basic py_keeps_modify) (simp add: same_core_def)

lemma py_keeps_name [intro]:
  "(\<And>s. I s \<Longrightarrow> I (f s)) \<Longrightarrow> py_keeps I (case n of None \<Rightarrow> py_return () | Some x \<Rightarrow> py_modify f)"
  by (cases n) (simp_all add: py_keeps_basic py_keeps_modify)

lemma index_name_core: "py_keeps (same_core r) (index_name E ts med e p)"
proof -
  have "py_keeps (same_core r) (case n of None \<Rightarrow> py_return ()
      | Some s \<Rightarrow> py_modify (\<lambda>st. st\<lparr>st_by_name := dput (name_key s (pl_placer p)) (muid_bytes d) (st_by_name st)\<rparr>))"
    for n d by (cases n) (auto intro!: py_keeps_modify simp: same_core_def)
  then show ?thesis unfolding index_name_def by (intro py_keeps_when py_keeps_bind py_keeps_basic)
qed

lemma pop_describing_core: "py_keeps (same_core r) (py_pop st_by_describing set_by_describing k)"
  by (auto simp: py_keeps_def py_pop_def store_setters same_core_def split: sum.splits prod.splits)

lemma unindex_deleted_core: "py_keeps (same_core r) (unindex_deleted E ts med e p)"
proof -
  have "py_keeps (same_core r) (py_modify (\<lambda>s. case irange E (st_by_name s) lo hi True of
            [] \<Rightarrow> s | k # _ \<Rightarrow> s\<lparr>st_by_name := dpop k (st_by_name s)\<rparr>))" for lo hi
    by (rule py_keeps_modify) (simp add: same_core_def split: list.splits)
  then show ?thesis
    unfolding unindex_deleted_def
    by (intro py_keeps_when py_keeps_bind py_keeps_then py_keeps_basic pop_describing_core)
qed

lemma keeps_core: "py_keeps (same_core s) m \<Longrightarrow> m s = (r, s') \<Longrightarrow> same_core s s'"
  unfolding py_keeps_def by (metis same_core_refl snd_conv)

lemma retire_previous_core:
  assumes "retire_previous E now e p s = (Inr u, s')" "st_retaining s"
  shows "same_core s s'"
  using assms
  by (auto simp: retire_previous_def py_when_def py_bind_Inr_iff py_then_Inr_iff py_apply same_core_def
      split: if_splits option.splits prod.splits)

lemma bump_total_retaining:
  assumes "bump_total e c s = (Inr stop, s')" "st_retaining s"
  shows "\<not> stop \<and> (if en_behavior e = ACCUMULATOR
     then \<exists>n. py_int 10 (integer_text e) = Inr n \<and> s' = s\<lparr>st_totals := dput (muid_bytes c)
       ((case dget (st_totals s) (muid_bytes c) of None \<Rightarrow> 0 | Some t \<Rightarrow> t) + n) (st_totals s)\<rparr>
     else s' = s)"
  using assms
  by (auto simp: bump_total_def py_bind_Inr_iff py_then_Inr_iff py_apply split: if_splits)

section \<open>The effect of one change\<close>

text \<open>What a change adds: an entry at its placement, a clearance, the amount of an accumulator.\<close>

datatype delivery = Delivery (dl_now: int) (dl_ts: int) (dl_med: int) (dl_off: int) (dl_change: change_pb)

definition deliver :: "ext \<Rightarrow> delivery \<Rightarrow> (mem_store, unit) py" where
  "deliver E d = apply_change E (dl_now d) (dl_ts d) (dl_med d) (dl_off d) (dl_change d)"

fun deliveries :: "(int \<Rightarrow> int) \<Rightarrow> int \<Rightarrow> int \<Rightarrow> int \<Rightarrow> change_pb list \<Rightarrow> delivery list" where
  "deliveries now ts med off [] = []"
| "deliveries now ts med off (c # cs) =
    Delivery (now off) ts med off c # deliveries now ts med (off + 1) cs"

lemma apply_changes_each: "apply_changes E now ts med off cs = py_each (deliver E) (deliveries now ts med off cs)"
  by (induction cs arbitrary: off) (simp_all add: deliver_def)

definition entry_of :: "delivery \<Rightarrow> (placement \<times> entry_pb) option" where
  "entry_of d = (case dl_change d of
      ChEntry e \<Rightarrow> (case placement_from_builder e (dl_ts d) (dl_med d) (dl_off d) of
        Inr p \<Rightarrow> Some (p, e) | Inl _ \<Rightarrow> None)
    | _ \<Rightarrow> None)"

definition clear_of :: "delivery \<Rightarrow> bytes option" where
  "clear_of d = (case dl_change d of
      ChClearance c \<Rightarrow>
        (case bindr (muid_create (CtxInfo (dl_ts d) (dl_med d)) (cl_container c) None) (\<lambda>a.
              bindr (muid_create (CtxInfo (dl_ts d) (dl_med d)) dummy_builder (Some (dl_off d))) (\<lambda>b.
              Inr (muid_bytes a @ muid_bytes b))) of
          Inr k \<Rightarrow> Some k | Inl _ \<Rightarrow> None)
    | _ \<Rightarrow> None)"

definition amount_of :: "muid \<Rightarrow> delivery \<Rightarrow> int" where
  "amount_of c d = (case entry_of d of
      Some (p, e) \<Rightarrow> if en_behavior e = ACCUMULATOR \<and> pl_container p = c
        then (case py_int 10 (integer_text e) of Inr n \<Rightarrow> n | Inl _ \<Rightarrow> 0) else 0
    | None \<Rightarrow> 0)"

lemma entry_applied:
  assumes "apply_change E now ts med off (ChEntry e) s = (Inr (), s')" "st_retaining s"
  shows "\<exists>p. placement_from_builder e ts med off = Inr p \<and>
    st_placements s' = dput (place_key E p) (pl_placer p) (st_placements s) \<and>
    st_entries s' = dput (pl_placer p) e (st_entries s) \<and>
    st_clearances s' = st_clearances s \<and> st_retaining s' \<and>
    (if en_behavior e = ACCUMULATOR
     then \<exists>n. py_int 10 (integer_text e) = Inr n \<and> st_totals s' = dput (muid_bytes (pl_container p))
       ((case dget (st_totals s) (muid_bytes (pl_container p)) of None \<Rightarrow> 0 | Some t \<Rightarrow> t) + n) (st_totals s)
     else st_totals s' = st_totals s)"
proof -
  obtain u where "add_entry E now ts med off e (if mu_timestamp u \<noteq> -1 \<and> dget (st_containers s) u = None
        then s\<lparr>st_containers := dput u (en_behavior e) (st_containers s)\<rparr> else s) = (Inr (), s')"
    using assms(1) by (auto simp: py_bind_Inr_iff py_then_Inr_iff py_apply simp del: split_paired_Ex)
  moreover have "same_core s (if b then s\<lparr>st_containers := d\<rparr> else s)" for b d
    by (simp add: same_core_def)
  ultimately obtain s0 where s0: "same_core s s0" "add_entry E now ts med off e s0 = (Inr (), s')" by blast
  obtain p stop s1 where p: "placement_from_builder e ts med off = Inr p"
    and bump: "bump_total e (pl_container p) s0 = (Inr stop, s1)"
    and rest: "(if stop then py_return () else py_bind (py_lift (placement_bytes E p)) (\<lambda>encoded.
      py_then (retire_previous E now e p) (py_then (store_entry e p encoded)
     (py_then (index_describing ts med e p) (py_then (index_name E ts med e p)
       (unindex_deleted E ts med e p)))))) s1 = (Inr (), s')"
    using s0(2) unfolding add_entry_def by (auto simp: py_bind_Inr_iff py_apply)
  have ret: "st_retaining s0" using s0 assms(2) by (simp add: same_core_def)
  note bumped = bump_total_retaining [OF bump ret]
  have ret1: "st_retaining s1" using bumped ret by (auto split: if_splits)
  obtain enc where enc: "placement_bytes E p = Inr enc"
    and chain: "py_then (retire_previous E now e p) (py_then (store_entry e p enc)
     (py_then (index_describing ts med e p) (py_then (index_name E ts med e p)
       (unindex_deleted E ts med e p)))) s1 = (Inr (), s')"
    using rest bumped by (simp add: py_bind_Inr_iff py_apply) blast
  have "enc = place_key E p" using enc by (rule placement_bytes_Inr)
  then obtain s2 s3 s4 s5 where steps: "retire_previous E now e p s1 = (Inr (), s2)" "store_entry e p (place_key E p) s2 = (Inr (), s3)"
    "index_describing ts med e p s3 = (Inr (), s4)" "index_name E ts med e p s4 = (Inr (), s5)"
    "unindex_deleted E ts med e p s5 = (Inr (), s')"
    using chain unfolding py_then_unit_iff by blast
  have core: "same_core s1 s2" "same_core s3 s'"
    using retire_previous_core [OF steps(1) ret1] keeps_core [OF index_describing_core steps(3)]
      keeps_core [OF index_name_core steps(4)] keeps_core [OF unindex_deleted_core steps(5)]
    by (auto intro: same_core_trans)
  have s3: "s3 = s2\<lparr>st_entries := dput (pl_placer p) e (st_entries s2),
      st_placements := dput (place_key E p) (pl_placer p) (st_placements s2),
      st_locations := dput (LocationKey (pl_placer p) (pl_placer p)) (Some (place_key E p)) (st_locations s2)\<rparr>"
    using steps(2) by (simp add: store_entry_def py_apply)
  show ?thesis
    using p bumped core s0(1) ret unfolding s3 same_core_def
    by (cases "en_behavior e = ACCUMULATOR") auto
qed

lemma clearance_applied:
  assumes "apply_change E now ts med off (ChClearance b) s = (Inr (), s')"
  shows "\<exists>c u. muid_create (CtxInfo ts med) (cl_container b) None = Inr c \<and>
    muid_create (CtxInfo ts med) dummy_builder (Some off) = Inr u \<and>
    s' = s\<lparr>st_clearances := dput (muid_bytes c @ muid_bytes u) b (st_clearances s)\<rparr>"
  using assms by (auto simp: add_clearance_def py_bind_Inr_iff py_apply)

lemma decode_muts_valid: "decode_muts bs = Inr n \<Longrightarrow> valid_time n"
proof -
  assume d: "decode_muts bs = Inr n"
  then have "length bs = 8" by (auto simp: decode_muts_def split: if_splits)
  then have "be_int bs < 2 ^ 64" using be_int_less [of bs] by simp
  moreover obtain k where "be_int bs = int k" using nonneg_int_cases [OF be_int_nonneg] by blast
  ultimately show ?thesis
    using d by (auto simp: decode_muts_def valid_time_def valid_muts_def INT_INF_def Let_def split: if_splits)
qed

lemma placement_expiry_valid: "placement_from_bytes E bs b = Inr p \<Longrightarrow> valid_time (pl_expiry p)"
  by (auto simp: placement_from_bytes_def Let_def result_simps dest: decode_muts_valid)

lemma movement_applied:
  assumes "apply_change E now ts med off (ChMovement b) s = (Inr (), s')"
  shows "st_entries s' = st_entries s \<and> st_clearances s' = st_clearances s \<and>
    st_totals s' = st_totals s \<and> st_retaining s' = st_retaining s \<and>
    (st_placements s' = st_placements s \<or>
     (\<exists>c m u x. mv_dest b \<noteq> 0 \<and> muid_create (CtxInfo ts med) (mv_container b) None = Inr c \<and>
        muid_create (CtxInfo ts med) dummy_builder (Some off) = Inr m \<and> valid_time x \<and>
        st_placements s' = dput (place_key E (Placement c (MidQueue (mv_dest b)) m x)) u (st_placements s)))"
proof -
  obtain c ent m where ids: "muid_create (CtxInfo ts med) (mv_container b) None = Inr c"
    "muid_create (CtxInfo ts med) (mv_entry b) None = Inr ent"
    "muid_create (CtxInfo ts med) dummy_builder (Some off) = Inr m"
    using assms by (auto simp: add_movement_def py_bind_Inr_iff py_apply)
  obtain old where old: "get_location E s ent (-1) = Inr old"
    using assms ids by (auto simp: add_movement_def py_bind_Inr_iff py_apply Let_def)
  show ?thesis
  proof (cases "old = None \<or> old = Some []")
    case True
    then show ?thesis using assms ids old by (auto simp: add_movement_def py_simps Let_def)
  next
    case False
    then obtain bs where bs: "old = Some bs" "bs \<noteq> []" by auto
    obtain p where p: "placement_from_bytes E bs SEQUENCE = Inr p"
      using assms ids old bs by (auto simp: add_movement_def py_simps Let_def split: sum.splits)
    let ?go = "py_then (py_modify (\<lambda>s. s\<lparr>st_removals :=
               dput (removal_bytes (RemovalKey c (pl_placer p) m)) (Some b) (st_removals s)\<rparr>))
          (if mv_dest b \<noteq> 0
           then py_bind (py_lift (placement_bytes E (Placement c (MidQueue (mv_dest b)) m (pl_expiry p)))) (\<lambda>esk.
                py_bind (py_read (\<lambda>s. dindex (st_placements s) bs)) (\<lambda>placed.
                py_modify (\<lambda>s. s
                  \<lparr>st_placements := dput esk placed (st_placements s),
                   st_locations := dput (LocationKey ent m) (Some esk) (st_locations s)\<rparr>)))
           else py_modify (\<lambda>s. s\<lparr>st_locations := dput (LocationKey ent m) None (st_locations s)\<rparr>))"
    have "s' = s \<or> ?go s = (Inr (), s')"
      using assms ids old bs p by (auto simp: add_movement_def py_bind_apply py_apply Let_def split: if_splits)
    then show ?thesis
    proof
      assume "s' = s"
      then show ?thesis by simp
    next
      assume go: "?go s = (Inr (), s')"
      show ?thesis
      proof (cases "mv_dest b = 0")
        case True
        with go show ?thesis by (auto simp: py_simps)
      next
        case False
        then obtain esk u where "placement_bytes E (Placement c (MidQueue (mv_dest b)) m (pl_expiry p)) = Inr esk"
          "s' = s\<lparr>st_removals := dput (removal_bytes (RemovalKey c (pl_placer p) m)) (Some b) (st_removals s),
                   st_placements := dput esk u (st_placements s),
                   st_locations := dput (LocationKey ent m) (Some esk) (st_locations s)\<rparr>"
          using go by (auto simp: py_then_Inr_iff py_bind_Inr_iff py_apply)
        then show ?thesis
          using False ids placement_expiry_valid [OF p] by (auto dest: placement_bytes_Inr)
      qed
    qed
  qed
qed

section \<open>What a store holds\<close>

text \<open>
  A change in order: its addresses are those of changes, an entry is placed in a container that uses
  the kind of middle the entry's behavior calls for, a movement names a sequence.
\<close>

definition in_order :: "(muid \<Rightarrow> nat) \<Rightarrow> delivery \<Rightarrow> bool" where
  "in_order K d \<longleftrightarrow>
    change_muid (Muid (dl_ts d) (dl_med d) (dl_off d)) \<and>
    (case dl_change d of
      ChEntry e \<Rightarrow> (\<forall>p. placement_from_builder e (dl_ts d) (dl_med d) (dl_off d) = Inr p \<longrightarrow>
        placement_ok p \<and> behavior_kind (en_behavior e) = Some (middle_kind (pl_middle p)) \<and>
        middle_kind (pl_middle p) = K (pl_container p))
    | ChMovement m \<Rightarrow> (\<forall>c. muid_create (CtxInfo (dl_ts d) (dl_med d)) (mv_container m) None = Inr c \<longrightarrow>
        valid_muid c \<and> K c = 2) \<and> (mv_dest m \<noteq> 0 \<longrightarrow> valid_muts (mv_dest m))
    | ChClearance b \<Rightarrow> (\<forall>c. muid_create (CtxInfo (dl_ts d) (dl_med d)) (cl_container b) None = Inr c \<longrightarrow>
        valid_muid c)
    | _ \<Rightarrow> True)"

lemma change_address:
  assumes "change_muid (Muid t m z)" "muid_create (CtxInfo t m) dummy_builder (Some z) = Inr u"
  shows "u = Muid t m z"
proof -
  have "mk_muid t m z = Inr u"
    using assms muid_create_offset [of t m z] by (simp add: change_muid_def)
  then show ?thesis using mk_muid_self [of "Muid t m z"] assms(1) by (simp add: change_muid_def)
qed

lemma entry_address:
  assumes "in_order K d" "entry_of d = Some (p, e)"
  shows "pl_placer p = Muid (dl_ts d) (dl_med d) (dl_off d)"
  using assms
  by (auto simp: entry_of_def in_order_def placement_from_builder_def result_simps dest: change_address
      split: change_pb.splits sum.splits)

definition running_total :: "mem_store \<Rightarrow> muid \<Rightarrow> int" where
  "running_total s c = (case dget (st_totals s) (muid_bytes c) of None \<Rightarrow> 0 | Some t \<Rightarrow> t)"

text \<open>A store that holds the given changes and nothing else, for keyed containers and accumulators.\<close>

definition holds :: "ext \<Rightarrow> (muid \<Rightarrow> nat) \<Rightarrow> delivery list \<Rightarrow> mem_store \<Rightarrow> bool" where
  "holds E K ds s \<longleftrightarrow> placed_ok E K s \<and> clears_ok s \<and> st_retaining s \<and>
    (\<forall>u e. dget (st_entries s) u = Some e \<longleftrightarrow> (\<exists>d \<in> set ds. \<exists>p. entry_of d = Some (p, e) \<and> pl_placer p = u)) \<and>
    (\<forall>p. placement_ok p \<and> middle_kind (pl_middle p) = K (pl_container p) \<and> K (pl_container p) \<noteq> 2 \<longrightarrow>
      (place_key E p \<in> set (dkeys (st_placements s)) \<longleftrightarrow> (\<exists>d \<in> set ds. \<exists>e. entry_of d = Some (p, e)))) \<and>
    set (dkeys (st_clearances s)) = {k. \<exists>d \<in> set ds. clear_of d = Some k} \<and>
    (\<forall>c. valid_muid c \<longrightarrow> running_total s c = (\<Sum>d\<leftarrow>ds. amount_of c d))"

lemma holds_empty: "holds E K [] (empty_store True)"
  by (simp add: holds_def empty_store_def placed_ok_def clears_ok_def running_total_def)

lemma placed_ok_cong:
  "st_placements s' = st_placements s \<Longrightarrow> st_entries s' = st_entries s \<Longrightarrow> placed_ok E K s' = placed_ok E K s"
  by (simp add: placed_ok_def)

lemma clears_ok_cong: "st_clearances s' = st_clearances s \<Longrightarrow> clears_ok s' = clears_ok s"
  by (simp add: clears_ok_def)

lemma total_cong: "st_totals s' = st_totals s \<Longrightarrow> running_total s' c = running_total s c"
  by (simp add: running_total_def)

lemma holds_same_core: "holds E K ds s \<Longrightarrow> same_core s s' \<Longrightarrow> holds E K ds s'"
  unfolding holds_def same_core_def
  by (simp del: set_map add: placed_ok_cong [of s' s] clears_ok_cong [of s' s] total_cong [of s' s])

text \<open>A change without an entry, a clearance or an amount.\<close>

lemma holds_nothing:
  assumes "holds E K ds s" "entry_of d = None" "clear_of d = None"
  shows "holds E K (ds @ [d]) s"
proof -
  have "amount_of c d = 0" for c using assms(2) by (simp add: amount_of_def)
  then show ?thesis using assms by (auto simp: holds_def)
qed

lemma holds_clearance:
  assumes h: "holds E K ds s" and d: "entry_of d = None" "clear_of d = Some (muid_bytes c @ muid_bytes u)"
    and v: "valid_muid c" "valid_muid u"
  shows "holds E K (ds @ [d]) (s\<lparr>st_clearances := dput (muid_bytes c @ muid_bytes u) b (st_clearances s)\<rparr>)"
proof -
  have "amount_of c d = 0" for c using d by (simp add: amount_of_def)
  moreover have "clears_ok (s\<lparr>st_clearances := dput (muid_bytes c @ muid_bytes u) b (st_clearances s)\<rparr>)"
    using h v unfolding holds_def clears_ok_def by (auto simp del: set_map)
  moreover have "placed_ok E K (s\<lparr>st_clearances := x\<rparr>) = placed_ok E K s" "running_total (s\<lparr>st_clearances := x\<rparr>) c = running_total s c"
    for x c by (simp_all add: placed_ok_def running_total_def)
  ultimately show ?thesis using h d unfolding holds_def by (auto simp del: set_map)
qed

text \<open>A new placement in a sequence leaves the keyed containers alone.\<close>

lemma holds_queue:
  assumes E: "key_codec_ok E" and h: "holds E K ds s"
    and q: "placement_ok q" "change_muid (pl_placer q)" "middle_kind (pl_middle q) = 2" "K (pl_container q) = 2"
    and s': "st_placements s' = dput (place_key E q) u (st_placements s)"
      "st_entries s' = st_entries s" "st_clearances s' = st_clearances s" "st_totals s' = st_totals s"
      "st_retaining s' = st_retaining s"
  shows "holds E K ds s'"
proof -
  have other: "place_key E p \<noteq> place_key E q"
    if "placement_ok p" "middle_kind (pl_middle p) = K (pl_container p)" "K (pl_container p) \<noteq> 2" for p
  proof
    assume eq: "place_key E p = place_key E q"
    then have "pl_container p = pl_container q"
      using that q by (simp add: place_key_def placement_ok_def muid_codec.enc_inj)
    with that q show False by simp
  qed
  have "placed_ok E K s'"
    using h q s' unfolding holds_def placed_ok_def by (auto split: if_splits)
  then show ?thesis
    using h s' other unfolding holds_def
    by (simp del: set_map add: clears_ok_cong [of s' s] total_cong [of s' s])
qed

text \<open>A new entry.\<close>

lemma dput_total:
  assumes v: "valid_muid c" "valid_muid c'"
    and t: "st_totals s' = dput (muid_bytes c) (running_total s c + n) (st_totals s)"
  shows "running_total s' c' = running_total s c' + (if c' = c then n else 0)"
  using v muid_codec.enc_inj [of c' c] by (auto simp: running_total_def t)

lemma holds_entry:
  assumes E: "key_codec_ok E" and h: "holds E K ds s"
    and d: "entry_of d = Some (p, e)" "clear_of d = None"
    and p: "placement_ok p" "change_muid (pl_placer p)"
      "behavior_kind (en_behavior e) = Some (middle_kind (pl_middle p))" "middle_kind (pl_middle p) = K (pl_container p)"
    and fresh: "dget (st_entries s) (pl_placer p) = None"
    and s': "st_placements s' = dput (place_key E p) (pl_placer p) (st_placements s)"
      "st_entries s' = dput (pl_placer p) e (st_entries s)" "st_clearances s' = st_clearances s"
      "\<And>c. valid_muid c \<Longrightarrow> running_total s' c = running_total s c + amount_of c d" "st_retaining s'"
  shows "holds E K (ds @ [d]) s'"
proof -
  have placed: "placed_ok E K s'"
    unfolding placed_ok_def
  proof (intro conjI allI impI)
    show "dict_ok (st_placements s')" using h s'(1) by (simp add: holds_def placed_ok_def)
    fix b u assume bu: "dget (st_placements s') b = Some u"
    show "\<exists>p. b = place_key E p \<and> placement_ok p \<and> change_muid (pl_placer p) \<and>
        middle_kind (pl_middle p) = K (pl_container p) \<and>
        (middle_kind (pl_middle p) \<noteq> 2 \<longrightarrow> u = pl_placer p \<and>
          (\<exists>e. dget (st_entries s') u = Some e \<and> behavior_kind (en_behavior e) = Some (middle_kind (pl_middle p))))"
    proof (cases "b = place_key E p")
      case True
      then show ?thesis using p bu s' by auto
    next
      case False
      then have "dget (st_placements s) b = Some u" using bu s'(1) by simp
      then obtain q where q: "b = place_key E q" "placement_ok q" "change_muid (pl_placer q)"
        "middle_kind (pl_middle q) = K (pl_container q)"
        "middle_kind (pl_middle q) \<noteq> 2 \<longrightarrow> u = pl_placer q \<and>
          (\<exists>e. dget (st_entries s) u = Some e \<and> behavior_kind (en_behavior e) = Some (middle_kind (pl_middle q)))"
        using h unfolding holds_def placed_ok_def by blast
      then have "middle_kind (pl_middle q) \<noteq> 2 \<longrightarrow> u \<noteq> pl_placer p" using fresh by auto
      with q s'(2) show ?thesis by auto
    qed
  qed
  have key: "place_key E q = place_key E p \<longleftrightarrow> q = p"
    if "placement_ok q" "middle_kind (pl_middle q) = K (pl_container q)" for q
    using place_key_inj [OF E that(1) p(1)] that p by auto
  have entries: "dget (st_entries s') u = Some x \<longleftrightarrow>
      (\<exists>d \<in> set (ds @ [d]). \<exists>p. entry_of d = Some (p, x) \<and> pl_placer p = u)" for u x
  proof -
    have old: "dget (st_entries s) u = Some x \<longleftrightarrow> (\<exists>d \<in> set ds. \<exists>p. entry_of d = Some (p, x) \<and> pl_placer p = u)"
      using h by (simp add: holds_def)
    have "\<not> (\<exists>d \<in> set ds. \<exists>q. entry_of d = Some (q, x) \<and> pl_placer q = pl_placer p)"
      using h fresh unfolding holds_def by (metis option.distinct(1))
    with old d(1) s'(2) show ?thesis by auto
  qed
  have places: "place_key E q \<in> set (dkeys (st_placements s')) \<longleftrightarrow>
      (\<exists>d \<in> set (ds @ [d]). \<exists>e. entry_of d = Some (q, e))"
    if q: "placement_ok q \<and> middle_kind (pl_middle q) = K (pl_container q) \<and> K (pl_container q) \<noteq> 2" for q
  proof -
    have "place_key E q \<in> set (dkeys (st_placements s)) \<longleftrightarrow> (\<exists>d \<in> set ds. \<exists>e. entry_of d = Some (q, e))"
      using h q unfolding holds_def by blast
    then show ?thesis using key [of q] q d(1) s'(1) by (auto simp del: set_map)
  qed
  show ?thesis
    using h d s'(3-5) placed entries places clears_ok_cong [OF s'(3)]
    unfolding holds_def by (simp del: set_map)
qed

section \<open>Delivering changes\<close>

lemma holds_step:
  assumes E: "key_codec_ok E" and h: "holds E K ds s" and d: "in_order K d"
    and run: "deliver E d s = (Inr (), s')"
    and fresh: "\<And>p e. entry_of d = Some (p, e) \<Longrightarrow> dget (st_entries s) (pl_placer p) = None"
  shows "holds E K (ds @ [d]) s'"
proof -
  let ?u = "Muid (dl_ts d) (dl_med d) (dl_off d)"
  have u: "change_muid ?u" using d by (simp add: in_order_def)
  have ret: "st_retaining s" using h by (simp add: holds_def)
  have run': "apply_change E (dl_now d) (dl_ts d) (dl_med d) (dl_off d) (dl_change d) s = (Inr (), s')"
    using run by (simp add: deliver_def)
  show ?thesis
  proof (cases "dl_change d")
    case ChUnset
    with run' show ?thesis by (simp add: py_apply)
  next
    case (ChContainer b)
    then have "same_core s s'"
      using run' by (auto simp: py_bind_Inr_iff py_apply same_core_def)
    then show ?thesis
      using holds_nothing [OF holds_same_core [OF h]] ChContainer
      by (simp add: entry_of_def clear_of_def)
  next
    case (ChEntry e)
    obtain p where p: "placement_from_builder e (dl_ts d) (dl_med d) (dl_off d) = Inr p"
      and s': "st_placements s' = dput (place_key E p) (pl_placer p) (st_placements s)"
        "st_entries s' = dput (pl_placer p) e (st_entries s)"
        "st_clearances s' = st_clearances s" "st_retaining s'"
      and tot: "if en_behavior e = ACCUMULATOR
        then \<exists>n. py_int 10 (integer_text e) = Inr n \<and> st_totals s' = dput (muid_bytes (pl_container p))
          ((case dget (st_totals s) (muid_bytes (pl_container p)) of None \<Rightarrow> 0 | Some t \<Rightarrow> t) + n) (st_totals s)
        else st_totals s' = st_totals s"
      using entry_applied [OF run' [unfolded ChEntry] ret] by blast
    have eo: "entry_of d = Some (p, e)" "clear_of d = None"
      using ChEntry p by (simp_all add: entry_of_def clear_of_def)
    have ok: "placement_ok p" "behavior_kind (en_behavior e) = Some (middle_kind (pl_middle p))"
      "middle_kind (pl_middle p) = K (pl_container p)"
      using d ChEntry p by (auto simp: in_order_def)
    have cm: "change_muid (pl_placer p)" using u entry_address [OF d eo(1)] by simp
    have "running_total s' c = running_total s c + amount_of c d" if c: "valid_muid c" for c
    proof (cases "en_behavior e = ACCUMULATOR")
      case True
      then obtain n where n: "py_int 10 (integer_text e) = Inr n"
        "st_totals s' = dput (muid_bytes (pl_container p)) (running_total s (pl_container p) + n) (st_totals s)"
        using tot by (auto simp: running_total_def)
      have "valid_muid (pl_container p)" using ok(1) by (simp add: placement_ok_def)
      from dput_total [OF this c n(2)] show ?thesis using True n eo by (simp add: amount_of_def)
    next
      case False
      then show ?thesis using tot eo total_cong [of s' s] by (simp add: amount_of_def)
    qed
    then show ?thesis
      using holds_entry [OF E h eo ok(1) cm ok(2,3) fresh [OF eo(1)] s'(1-3)] s'(4) by blast
  next
    case (ChMovement m)
    have none: "entry_of d = None" "clear_of d = None" using ChMovement by (simp_all add: entry_of_def clear_of_def)
    note moved = movement_applied [OF run' [unfolded ChMovement]]
    show ?thesis
    proof (cases "st_placements s' = st_placements s")
      case True
      then have "same_core s s'" using moved by (simp add: same_core_def)
      then show ?thesis using holds_nothing [OF holds_same_core [OF h] none] by simp
    next
      case False
      then obtain c m' u x where q: "mv_dest m \<noteq> 0"
        "muid_create (CtxInfo (dl_ts d) (dl_med d)) (mv_container m) None = Inr c"
        "muid_create (CtxInfo (dl_ts d) (dl_med d)) dummy_builder (Some (dl_off d)) = Inr m'" "valid_time x"
        "st_placements s' = dput (place_key E (Placement c (MidQueue (mv_dest m)) m' x)) u (st_placements s)"
        using moved by blast
      have m': "m' = ?u" by (rule change_address [OF u q(3)])
      have c: "valid_muid c" "K c = 2" "valid_muts (mv_dest m)"
        using d ChMovement q(1,2) by (auto simp: in_order_def)
      have "holds E K ds s'"
        by (rule holds_queue [OF E h, of "Placement c (MidQueue (mv_dest m)) m' x" s' u])
          (use u m' q c moved in \<open>auto simp: placement_ok_def change_muid_def\<close>)
      then show ?thesis by (rule holds_nothing [OF _ none])
    qed
  next
    case (ChClearance b)
    obtain c m' where q: "muid_create (CtxInfo (dl_ts d) (dl_med d)) (cl_container b) None = Inr c"
      "muid_create (CtxInfo (dl_ts d) (dl_med d)) dummy_builder (Some (dl_off d)) = Inr m'"
      "s' = s\<lparr>st_clearances := dput (muid_bytes c @ muid_bytes m') b (st_clearances s)\<rparr>"
      using clearance_applied [OF run' [unfolded ChClearance]] by blast
    have "valid_muid m'" using change_address [OF u q(2)] u by (simp add: change_muid_def)
    moreover have "valid_muid c" using d ChClearance q(1) by (simp add: in_order_def)
    ultimately show ?thesis
      unfolding q(3) using ChClearance q by (intro holds_clearance [OF h]) (auto simp: entry_of_def clear_of_def)
  qed
qed

definition change_address_of :: "delivery \<Rightarrow> muid" where
  "change_address_of d = Muid (dl_ts d) (dl_med d) (dl_off d)"

text \<open>A change whose address is new brings an entry that the store does not have.\<close>

lemma fresh_address:
  assumes h: "holds E K ds s" and ok: "\<forall>d \<in> set (ds @ d # ds'). in_order K d"
    and new: "distinct (map change_address_of (ds @ d # ds'))" and p: "entry_of d = Some (p, e)"
  shows "dget (st_entries s) (pl_placer p) = None"
proof (rule ccontr)
  assume "dget (st_entries s) (pl_placer p) \<noteq> None"
  then obtain d' q x where d': "d' \<in> set ds" "entry_of d' = Some (q, x)" "pl_placer q = pl_placer p"
    using h unfolding holds_def by (metis not_None_eq)
  have "in_order K d" "in_order K d'" using ok d'(1) by auto
  then have "change_address_of d' = change_address_of d"
    using entry_address p d'(2,3) by (metis change_address_of_def)
  with d'(1) new show False by (auto simp: image_iff)
qed

lemma holds_run:
  assumes E: "key_codec_ok E"
  shows "holds E K ds s \<Longrightarrow> \<forall>d \<in> set (ds @ ds'). in_order K d \<Longrightarrow>
    distinct (map change_address_of (ds @ ds')) \<Longrightarrow>
    py_each (deliver E) ds' s = (Inr (), s') \<Longrightarrow> holds E K (ds @ ds') s'"
proof (induction ds' arbitrary: ds s)
  case Nil
  then show ?case by (simp add: py_apply)
next
  case (Cons d ds')
  obtain s1 where s1: "deliver E d s = (Inr (), s1)" "py_each (deliver E) ds' s1 = (Inr (), s')"
    using Cons.prems(4) by (auto simp: py_then_unit_iff)
  have "dget (st_entries s) (pl_placer p) = None" if "entry_of d = Some (p, e)" for p e
    using fresh_address [OF Cons.prems(1) _ _ that, of ds'] Cons.prems(2,3) by simp
  from holds_step [OF E Cons.prems(1) _ s1(1) this] Cons.prems(2)
  have "holds E K (ds @ [d]) s1" by simp
  from Cons.IH [OF this _ _ s1(2)] Cons.prems show ?case by simp
qed

section \<open>Stores that hold the same changes read alike\<close>

text \<open>What the changes before a time contribute to the reads at that time.\<close>

definition contributions :: "int \<Rightarrow> delivery list \<Rightarrow> ((placement \<times> entry_pb) option \<times> bytes option) set" where
  "contributions as_of ds =
    (\<lambda>d. (entry_of d, clear_of d)) ` {d \<in> set ds. muid_lt (change_address_of d) (Muid as_of 0 0)}"

lemma contributions_iff:
  "(x, y) \<in> contributions as_of ds \<longleftrightarrow>
    (\<exists>d \<in> set ds. muid_lt (change_address_of d) (Muid as_of 0 0) \<and> entry_of d = x \<and> clear_of d = y)"
  by (auto simp: contributions_def)

lemma clear_address:
  assumes "in_order K d" "clear_of d = Some (muid_bytes c @ muid_bytes u)" "valid_muid u"
  shows "u = change_address_of d"
proof -
  have cm: "change_muid (Muid (dl_ts d) (dl_med d) (dl_off d))" using assms(1) by (simp add: in_order_def)
  obtain a b where b: "muid_create (CtxInfo (dl_ts d) (dl_med d)) dummy_builder (Some (dl_off d)) = Inr b"
    "muid_bytes a @ muid_bytes b = muid_bytes c @ muid_bytes u"
    using assms(2) by (auto simp: clear_of_def result_simps split: change_pb.splits sum.splits)
  have "b = change_address_of d" using change_address [OF cm b(1)] by (simp add: change_address_of_def)
  moreover have "muid_bytes b = muid_bytes u" using b(2) by simp
  ultimately show ?thesis
    using cm assms(3) muid_codec.enc_inj [of b u] by (simp add: change_muid_def change_address_of_def)
qed

lemma entry_visible:
  assumes "in_order K d" "entry_of d = Some (p, e)"
  shows "change_address_of d = pl_placer p"
  using entry_address [OF assms] by (simp add: change_address_of_def)

lemma holds_written:
  assumes h: "holds E K ds s" and d: "\<forall>d \<in> set ds. in_order K d" and k: "middle_kind k = K c" "K c \<noteq> 2"
  shows "written E s c k (Muid as_of 0 0) =
    {pl_placer p | p e y. (Some (p, e), y) \<in> contributions as_of ds \<and> pl_container p = c \<and> pl_middle p = k}"
    (is "?L = ?R")
proof (intro set_eqI iffI)
  fix u assume "u \<in> ?L"
  then obtain p where p: "placement_ok p" "place_key E p \<in> set (dkeys (st_placements s))" "pl_container p = c"
    "pl_middle p = k" "pl_placer p = u" "muid_lt u (Muid as_of 0 0)" by (auto simp: written_def)
  then obtain x e where x: "x \<in> set ds" "entry_of x = Some (p, e)" using h k unfolding holds_def by blast
  have "change_address_of x = u" using entry_visible [of K x p e] x d p(5) by blast
  then have "(Some (p, e), clear_of x) \<in> contributions as_of ds"
    unfolding contributions_iff using x p(6) by blast
  with p(3-5) show "u \<in> ?R" by blast
next
  fix u assume "u \<in> ?R"
  then obtain p e x where x: "x \<in> set ds" "entry_of x = Some (p, e)" "muid_lt (change_address_of x) (Muid as_of 0 0)"
    "pl_container p = c" "pl_middle p = k" "pl_placer p = u" unfolding contributions_iff by blast
  have "placement_ok p"
    using x(1,2) d by (auto simp: in_order_def entry_of_def split: change_pb.splits sum.splits)
  moreover from this have "place_key E p \<in> set (dkeys (st_placements s))"
    using h x(1,2,4,5) k unfolding holds_def by blast
  moreover have "change_address_of x = u" using entry_visible [of K x p e] x d by blast
  ultimately show "u \<in> ?L" unfolding written_def using x(3-6) by blast
qed

lemma holds_cleared:
  assumes h: "holds E K ds s" and d: "\<forall>d \<in> set ds. in_order K d"
  shows "cleared_at s c (Muid as_of 0 0) =
    {u. valid_muid u \<and> (\<exists>x. (x, Some (muid_bytes c @ muid_bytes u)) \<in> contributions as_of ds)}" (is "?L = ?R")
proof (intro set_eqI iffI)
  fix u assume u: "u \<in> ?L"
  then obtain x where x: "x \<in> set ds" "clear_of x = Some (muid_bytes c @ muid_bytes u)" "valid_muid u"
    "muid_lt u (Muid as_of 0 0) \<or> u = Muid as_of 0 0"
    using h by (auto simp: cleared_at_def holds_def)
  have addr: "u = change_address_of x" using clear_address d x by blast
  have "change_muid (change_address_of x)"
    using d x(1) by (auto simp: in_order_def change_address_of_def)
  then have "muid_lt (change_address_of x) (Muid as_of 0 0)"
    using x(4) addr change_not_time [of "change_address_of x" as_of] by auto
  with x show "u \<in> ?R" by (force simp: contributions_def)
next
  fix u assume "u \<in> ?R"
  then obtain x where x: "x \<in> set ds" "muid_lt (change_address_of x) (Muid as_of 0 0)"
    "clear_of x = Some (muid_bytes c @ muid_bytes u)" "valid_muid u"
    by (auto simp: contributions_def)
  moreover have "u = change_address_of x" using clear_address d x by blast
  ultimately show "u \<in> ?L" using h by (auto simp: cleared_at_def holds_def)
qed

lemma prior_clear_determined:
  assumes "scans_ok E" "clears_ok s" "clears_ok s'" "valid_muid c" "time_ok as_of"
    and eq: "cleared_at s c (Muid as_of 0 0) = cleared_at s' c (Muid as_of 0 0)"
  shows "get_time_of_prior_clear E s c as_of = get_time_of_prior_clear E s' c as_of"
proof -
  note a = prior_clear_spec [OF assms(1,2,4,5)] and b = prior_clear_spec [OF assms(1,3,4,5)]
  show ?thesis
  proof (cases "cleared_at s c (Muid as_of 0 0) = {}")
    case True
    then show ?thesis using a b eq by auto
  next
    case False
    then obtain u v where "u \<in> cleared_at s c (Muid as_of 0 0)" "v \<in> cleared_at s c (Muid as_of 0 0)"
      "u = v \<or> muid_lt u v" "v = u \<or> muid_lt v u"
      "get_time_of_prior_clear E s c as_of = Inr (mu_timestamp u)"
      "get_time_of_prior_clear E s' c as_of = Inr (mu_timestamp v)"
      using a b eq by metis
    moreover from this have "u = v" using muid_lt_asym [of u v] by fastforce
    ultimately show ?thesis by simp
  qed
qed

lemma reads_agree:
  assumes E: "scans_ok E" "key_codec_ok E"
    and h: "holds E K ds s" "holds E K ds' s'"
    and d: "\<forall>d \<in> set ds. in_order K d" "\<forall>d \<in> set ds'. in_order K d"
    and c: "valid_muid c" and k: "middle_ok k" "middle_kind k = K c" "K c \<noteq> 2" and t: "time_ok as_of"
    and eq: "contributions as_of ds = contributions as_of ds'"
  shows "get_entry_by_key E s c k as_of = get_entry_by_key E s' c k as_of"
proof -
  let ?A = "written E s c k (Muid as_of 0 0)"
  have st: "placed_ok E K s" "clears_ok s" "placed_ok E K s'" "clears_ok s'"
    using h by (simp_all add: holds_def)
  have W: "written E s' c k (Muid as_of 0 0) = ?A"
    using holds_written [OF h(1) d(1) k(2,3), of as_of] holds_written [OF h(2) d(2) k(2,3), of as_of] eq by simp
  have T: "get_time_of_prior_clear E s c as_of = get_time_of_prior_clear E s' c as_of"
    by (rule prior_clear_determined [OF E(1) st(2,4) c t])
      (simp add: holds_cleared [OF h(1) d(1)] holds_cleared [OF h(2) d(2)] eq)
  have k2: "middle_kind k \<noteq> 2" using k by simp
  obtain T0 r where r: "get_time_of_prior_clear E s c as_of = Inr T0" "get_entry_by_key E s c k as_of = Inr r"
    "reads s ?A T0 r" using get_entry_by_key_spec [OF E st(1,2) c k(1,2) k2 t] by blast
  obtain T1 r' where r': "get_time_of_prior_clear E s' c as_of = Inr T1" "get_entry_by_key E s' c k as_of = Inr r'"
    "reads s' ?A T1 r'" using get_entry_by_key_spec [OF E st(3,4) c k(1,2) k2 t] W by auto
  have same: "dget (st_entries s') u = Some e" if u: "u \<in> ?A" and e: "dget (st_entries s) u = Some e" for u e
  proof -
    obtain x p where x: "x \<in> set ds" "entry_of x = Some (p, e)" "pl_placer p = u"
      using h(1) e unfolding holds_def by metis
    have "muid_lt (change_address_of x) (Muid as_of 0 0)"
      using u x d entry_visible [of K x p e] by (auto simp: written_def)
    then have "(Some (p, e), clear_of x) \<in> contributions as_of ds'"
      using x eq by (force simp: contributions_def)
    then obtain y where "y \<in> set ds'" "entry_of y = Some (p, e)" unfolding contributions_iff by blast
    then show ?thesis using h(2) x(3) unfolding holds_def by blast
  qed
  have "reads s' ?A T0 r"
    using r(3) same unfolding reads_def by (auto simp: is_latest_def)
  moreover have "T0 = T1" using T r(1) r'(1) by simp
  ultimately show ?thesis using reads_unique r'(2,3) r(2) by metis
qed

end
