(* ===== verification/Keyed_Spec.thy ===== *)
theory Keyed_Spec
  imports Mem_Convergence Mem_Queries "HOL-Library.Multiset"
begin

text \<open>
  The abstract specification of keyed lookups (last writer wins, per key, up to a time) as a function
  of the changes a store has applied, the proof that the memory store implements it, and the
  statements about whole runs of \<open>apply_bundle\<close>: convergence and stability of the past.
\<close>

section \<open>The answer as a function of the changes\<close>

text \<open>
  The specification of a keyed lookup: among the entries that the changes wrote to the key before the
  time asked for, the one with the greatest address, unless it is older than the clearance time.
\<close>

fun latest :: "(muid \<times> 'a) list \<Rightarrow> (muid \<times> 'a) option" where
  "latest [] = None"
| "latest (x # xs) =
    (case latest xs of None \<Rightarrow> Some x | Some y \<Rightarrow> if muid_lt (fst x) (fst y) then Some y else Some x)"

fun earliest :: "muid list \<Rightarrow> muid option" where
  "earliest [] = None"
| "earliest (x # xs) =
    (case earliest xs of None \<Rightarrow> Some x | Some y \<Rightarrow> if muid_lt y x then Some y else Some x)"

definition before :: "int \<Rightarrow> delivery list \<Rightarrow> delivery list" where
  "before as_of ds = List.filter (\<lambda>d. muid_lt (change_address_of d) (Muid as_of 0 0)) ds"

definition writes :: "delivery list \<Rightarrow> muid \<Rightarrow> middle \<Rightarrow> (muid \<times> entry_pb) list" where
  "writes ds c k = concat (map (\<lambda>d. case entry_of d of
      Some (p, e) \<Rightarrow> if pl_container p = c \<and> pl_middle p = k then [(pl_placer p, e)] else []
    | None \<Rightarrow> []) ds)"

definition clears :: "delivery list \<Rightarrow> muid \<Rightarrow> muid list" where
  "clears ds c = map change_address_of
     (List.filter (\<lambda>d. clear_of d = Some (muid_bytes c @ muid_bytes (change_address_of d))) ds)"

definition spec_clear_time :: "delivery list \<Rightarrow> muid \<Rightarrow> int \<Rightarrow> int" where
  "spec_clear_time ds c as_of =
    (case earliest (clears (before as_of ds) c) of None \<Rightarrow> 0 | Some u \<Rightarrow> mu_timestamp u)"

definition spec_lookup :: "delivery list \<Rightarrow> muid \<Rightarrow> middle \<Rightarrow> int \<Rightarrow> (muid \<times> entry_pb) option" where
  "spec_lookup ds c k as_of =
    (case latest (writes (before as_of ds) c k) of
      None \<Rightarrow> None
    | Some (u, e) \<Rightarrow> if mu_timestamp u < spec_clear_time ds c as_of then None else Some (u, e))"

lemma latest_None: "latest ws = None \<longleftrightarrow> ws = []"
  by (cases ws) (auto split: option.splits if_splits)

lemma latest_Some:
  assumes "latest ws = Some (u, e)" "\<forall>v \<in> fst ` set ws. valid_muid v"
  shows "(u, e) \<in> set ws \<and> is_latest (fst ` set ws) u"
  using assms
proof (induction ws arbitrary: u e)
  case Nil
  then show ?case by simp
next
  case (Cons x ws)
  show ?case
  proof (cases "latest ws")
    case None
    then show ?thesis using Cons.prems latest_None [of ws] by (auto simp: is_latest_def)
  next
    case (Some y)
    obtain v f where y: "y = (v, f)" by (cases y)
    have IH: "(v, f) \<in> set ws" "is_latest (fst ` set ws) v" using Cons.IH [of v f] Cons.prems Some y by auto
    have ok: "valid_muid (fst x)" "valid_muid v" using Cons.prems(2) IH(1) by force+
    show ?thesis
    proof (cases "muid_lt (fst x) v")
      case True
      then show ?thesis using Cons.prems Some y IH by (auto simp: is_latest_def)
    next
      case False
      then have "v = fst x \<or> muid_lt v (fst x)" using muid_codec.lt_linear [OF ok] by auto
      moreover have "w = v \<or> muid_lt w v" "valid_muid w" if "w \<in> fst ` set ws" for w
        using IH(2) that Cons.prems(2) by (auto simp: is_latest_def)
      ultimately have "w = fst x \<or> muid_lt w (fst x)" if "w \<in> fst ` set ws" for w
        using that ok muid_codec.lt_trans [of w v "fst x"] by metis
      then show ?thesis using Cons.prems Some y False by (auto simp: is_latest_def)
    qed
  qed
qed

lemma earliest_None: "earliest us = None \<longleftrightarrow> us = []"
  by (cases us) (auto split: option.splits if_splits)

lemma earliest_Some:
  assumes "earliest us = Some u" "\<forall>v \<in> set us. valid_muid v"
  shows "u \<in> set us \<and> (\<forall>v \<in> set us. u = v \<or> muid_lt u v)"
  using assms
proof (induction us arbitrary: u)
  case Nil
  then show ?case by simp
next
  case (Cons x us)
  show ?case
  proof (cases "earliest us")
    case None
    then show ?thesis using Cons.prems earliest_None [of us] by auto
  next
    case (Some y)
    have IH: "y \<in> set us" "\<forall>v \<in> set us. y = v \<or> muid_lt y v" using Cons.IH [of y] Cons.prems Some by auto
    have ok: "valid_muid x" "valid_muid y" using Cons.prems(2) IH(1) by auto
    show ?thesis
    proof (cases "muid_lt y x")
      case True
      then show ?thesis using Cons.prems Some IH by auto
    next
      case False
      then have "x = y \<or> muid_lt x y" using muid_codec.lt_linear [OF ok] by auto
      then have "x = w \<or> muid_lt x w" if "w \<in> set us" for w
        using that ok IH(2) Cons.prems(2) muid_codec.lt_trans [of x y w] by auto
      then show ?thesis using Cons.prems Some False by auto
    qed
  qed
qed

lemma set_writes: "(u, e) \<in> set (writes ds c k) \<longleftrightarrow>
    (\<exists>d \<in> set ds. \<exists>p. entry_of d = Some (p, e) \<and> pl_placer p = u \<and> pl_container p = c \<and> pl_middle p = k)"
proof -
  have "(u, e) \<in> set (writes ds c k) \<longleftrightarrow> (\<exists>d \<in> set ds. (u, e) \<in> set (case entry_of d of
      Some (p, e) \<Rightarrow> if pl_container p = c \<and> pl_middle p = k then [(pl_placer p, e)] else [] | None \<Rightarrow> []))"
    by (simp add: writes_def)
  also have "\<dots> \<longleftrightarrow> (\<exists>d \<in> set ds. \<exists>p. entry_of d = Some (p, e) \<and> pl_placer p = u \<and> pl_container p = c \<and> pl_middle p = k)"
    by (intro bex_cong refl) (auto split: option.splits prod.splits dest: sym)
  finally show ?thesis .
qed

lemma in_order_change: "in_order K d \<Longrightarrow> change_muid (change_address_of d)"
  by (simp add: in_order_def change_address_of_def)

lemma written_writes:
  assumes h: "holds E K ds s" and d: "\<forall>d \<in> set ds. in_order K d" and k: "middle_kind k = K c" "K c \<noteq> 2"
  shows "written E s c k (Muid as_of 0 0) = fst ` set (writes (before as_of ds) c k)"
proof -
  have "u \<in> fst ` set (writes (before as_of ds) c k) \<longleftrightarrow>
      (\<exists>p e y. u = pl_placer p \<and> (Some (p, e), y) \<in> contributions as_of ds \<and> pl_container p = c \<and> pl_middle p = k)"
    for u
    by (auto simp: image_iff Bex_def set_writes before_def contributions_iff)
  then show ?thesis unfolding holds_written [OF h d k] by (intro set_eqI) (simp only: mem_Collect_eq)
qed

lemma cleared_clears:
  assumes h: "holds E K ds s" and d: "\<forall>d \<in> set ds. in_order K d"
  shows "cleared_at s c (Muid as_of 0 0) = set (clears (before as_of ds) c)"
proof -
  have "u \<in> set (clears (before as_of ds) c) \<longleftrightarrow> valid_muid u \<and>
      (\<exists>x. (x, Some (muid_bytes c @ muid_bytes u)) \<in> contributions as_of ds)" (is "_ \<longleftrightarrow> ?R") for u
  proof
    assume "u \<in> set (clears (before as_of ds) c)"
    then obtain x where x: "x \<in> set ds" "u = change_address_of x"
      "clear_of x = Some (muid_bytes c @ muid_bytes u)" "muid_lt u (Muid as_of 0 0)"
      by (auto simp: clears_def before_def)
    moreover have "valid_muid u" using x d in_order_change by (auto simp: change_muid_def)
    ultimately show ?R unfolding contributions_iff by blast
  next
    assume r: ?R
    then obtain x where x: "x \<in> set ds" "clear_of x = Some (muid_bytes c @ muid_bytes u)"
      "muid_lt (change_address_of x) (Muid as_of 0 0)" unfolding contributions_iff by blast
    have "u = change_address_of x" using clear_address d x r by blast
    then show "u \<in> set (clears (before as_of ds) c)" using x by (auto simp: clears_def before_def)
  qed
  then show ?thesis unfolding holds_cleared [OF h d] by (intro set_eqI) (simp only: mem_Collect_eq)
qed

lemma clear_time_refines:
  assumes E: "scans_ok E" and h: "holds E K ds s" and d: "\<forall>d \<in> set ds. in_order K d"
    and c: "valid_muid c" and t: "time_ok as_of"
  shows "get_time_of_prior_clear E s c as_of = Inr (spec_clear_time ds c as_of)"
proof -
  let ?cs = "clears (before as_of ds) c"
  have st: "clears_ok s" using h by (simp add: holds_def)
  note spec = prior_clear_spec [OF E st c t, unfolded cleared_clears [OF h d]]
  have valid: "\<forall>v \<in> set ?cs. valid_muid v"
    using d in_order_change by (auto simp: clears_def before_def change_muid_def)
  show ?thesis
  proof (cases "earliest ?cs")
    case None
    then have "?cs = []" by (simp only: earliest_None)
    then show ?thesis using spec by (simp add: spec_clear_time_def)
  next
    case (Some u)
    then have u: "u \<in> set ?cs" "\<forall>v \<in> set ?cs. u = v \<or> muid_lt u v" using earliest_Some valid by blast+
    then obtain v where v: "v \<in> set ?cs" "u = v \<or> muid_lt u v" "v = u \<or> muid_lt v u"
      "get_time_of_prior_clear E s c as_of = Inr (mu_timestamp v)" using spec by auto
    then have "u = v" using muid_lt_asym [of u v] by fastforce
    with v Some show ?thesis by (simp add: spec_clear_time_def)
  qed
qed

definition latest_since :: "int \<Rightarrow> (muid \<times> entry_pb) list \<Rightarrow> (muid \<times> entry_pb) option" where
  "latest_since T ws = (case latest ws of None \<Rightarrow> None | Some (u, e) \<Rightarrow> if mu_timestamp u < T then None else Some (u, e))"

lemma spec_lookup_since: "spec_lookup ds c k as_of = latest_since (spec_clear_time ds c as_of) (writes (before as_of ds) c k)"
  by (simp add: spec_lookup_def latest_since_def)

lemma reads_latest:
  assumes h: "holds E K ds s" and d: "\<forall>d \<in> set ds. in_order K d" and k: "middle_kind k = K c" "K c \<noteq> 2"
  shows "reads s (written E s c k (Muid as_of 0 0)) T (latest_since T (writes (before as_of ds) c k))"
  unfolding written_writes [OF h d k]
proof (cases "latest (writes (before as_of ds) c k)")
  let ?ws = "writes (before as_of ds) c k"
  case None
  then have "?ws = []" by (simp only: latest_None)
  then show "reads s (fst ` set ?ws) T (latest_since T ?ws)" by (simp add: reads_def latest_since_def)
next
  let ?ws = "writes (before as_of ds) c k"
  case (Some w)
  obtain v e where w: "w = (v, e)" by (cases w)
  have valid: "\<forall>v \<in> fst ` set ?ws. valid_muid v"
  proof
    fix v assume "v \<in> fst ` set ?ws"
    then obtain x p e where "x \<in> set ds" "entry_of x = Some (p, e)" "pl_placer p = v"
      by (auto simp: set_writes before_def)
    then show "valid_muid v"
      using d in_order_change [of K x] entry_visible [of K x p e] by (simp add: change_muid_def)
  qed
  have v: "(v, e) \<in> set ?ws" "is_latest (fst ` set ?ws) v" using latest_Some [OF _ valid] Some w by blast+
  then have "dget (st_entries s) v = Some e"
    using h by (auto simp: set_writes before_def holds_def)
  with v Some w show "reads s (fst ` set ?ws) T (latest_since T ?ws)" by (auto simp: reads_def latest_since_def)
qed

lemma lookup_refines:
  assumes E: "scans_ok E" "key_codec_ok E" and h: "holds E K ds s" and d: "\<forall>d \<in> set ds. in_order K d"
    and c: "valid_muid c" and k: "middle_ok k" "middle_kind k = K c" "K c \<noteq> 2" and t: "time_ok as_of"
  shows "get_entry_by_key E s c k as_of = Inr (spec_lookup ds c k as_of)"
proof -
  have st: "placed_ok E K s" "clears_ok s" using h by (simp_all add: holds_def)
  have k2: "middle_kind k \<noteq> 2" using k by simp
  obtain r where r: "get_entry_by_key E s c k as_of = Inr r"
    "reads s (written E s c k (Muid as_of 0 0)) (spec_clear_time ds c as_of) r"
    using get_entry_by_key_spec [OF E st c k(1,2) k2 t] clear_time_refines [OF E(1) h d c t] by auto
  then show ?thesis
    using reads_unique [OF r(2) reads_latest [OF h d k(2,3)]] by (simp add: spec_lookup_since)
qed

section \<open>Runs of accepted bundles\<close>

text \<open>The bundles that a replica receives, each with its clock; \<open>None\<close> when one is not accepted.\<close>

fun receive_all :: "ext \<Rightarrow> ((int \<Rightarrow> int) \<times> bytes) list \<Rightarrow> mem_store \<Rightarrow> mem_store option" where
  "receive_all E [] s = Some s"
| "receive_all E ((now, b) # rs) s =
    (case apply_bundle E now b s of (Inr True, s') \<Rightarrow> receive_all E rs s' | _ \<Rightarrow> None)"

definition changes_of :: "ext \<Rightarrow> bytes \<Rightarrow> delivery list" where
  "changes_of E b = (case get_builder E b of
      Inr pb \<Rightarrow> deliveries (\<lambda>_. 0) (bn_timestamp pb) (bn_medallion pb) 1 (bn_changes pb)
    | Inl _ \<Rightarrow> [])"

definition plain_bundle :: "ext \<Rightarrow> bytes \<Rightarrow> bool" where
  "plain_bundle E b \<longleftrightarrow> (case get_builder E b of Inr pb \<Rightarrow> bn_encrypted pb = [] | Inl _ \<Rightarrow> False)"

definition all_changes :: "ext \<Rightarrow> bytes list \<Rightarrow> delivery list" where
  "all_changes E bs = concat (map (changes_of E) bs)"

definition unclock :: "delivery \<Rightarrow> delivery" where
  "unclock d = Delivery 0 (dl_ts d) (dl_med d) (dl_off d) (dl_change d)"

lemma unclock_parts:
  "dl_ts (unclock d) = dl_ts d" "dl_med (unclock d) = dl_med d" "dl_off (unclock d) = dl_off d"
  "dl_change (unclock d) = dl_change d"
  by (simp_all add: unclock_def)

lemma unclock_facts [simp]:
  "entry_of (unclock d) = entry_of d" "clear_of (unclock d) = clear_of d" "amount_of c (unclock d) = amount_of c d"
  "change_address_of (unclock d) = change_address_of d" "in_order K (unclock d) = in_order K d"
  by (simp_all only: unclock_parts entry_of_def clear_of_def amount_of_def change_address_of_def in_order_def)

lemma deliveries_unclock: "map unclock (deliveries now ts med off cs) = deliveries (\<lambda>_. 0) ts med off cs"
  by (induction cs arbitrary: off) (simp_all add: unclock_def)

lemma holds_unclock: "holds E K (ds @ map unclock ds') s = holds E K (ds @ ds') s"
  by (simp add: holds_def bex_Un comp_def)

lemma record_bundle_core: "py_keeps (same_core r) (record_bundle i b)"
  unfolding record_bundle_def by (rule py_keeps_modify) (simp add: same_core_def)

lemma chain_verify_key_core: "py_keeps (same_core r) (chain_verify_key E b i old)"
proof -
  have keeps: "py_keeps (same_core r) (case old of None \<Rightarrow> py_raise AssertionError
      | Some old \<Rightarrow> (case bi_hex_hash old of None \<Rightarrow> py_raise AssertionError
        | Some h \<Rightarrow> py_bind (py_lift (bytes_fromhex h)) (\<lambda>prior.
            if bn_prior_hash b \<noteq> prior then py_raise ValueError else py_return vk)))" for vk
    by (auto split: option.splits intro!: py_keeps_bind)
  show ?thesis
    unfolding chain_verify_key_def
    by (intro py_keeps_if py_keeps_bind py_keeps_then py_keeps_basic py_keeps_modify keeps)
      (simp_all add: same_core_def)
qed

lemma accepted_changes:
  assumes run: "apply_bundle E now b s = (Inr True, s')" and plain: "plain_bundle E b"
  shows "\<exists>s1 pb. get_builder E b = Inr pb \<and> same_core s s1 \<and>
    py_each (deliver E) (deliveries now (bn_timestamp pb) (bn_medallion pb) 1 (bn_changes pb)) s1 = (Inr (), s')"
proof -
  obtain pb where pb: "get_builder E b = Inr pb" "bn_encrypted pb = []"
    using plain by (auto simp: plain_bundle_def split: sum.splits)
  let ?i = "info_from_builder pb (bytes_hex (x_blake2b E b))" and ?old = "dget (st_chain_infos s) (get_chain (info_from_builder pb (bytes_hex (x_blake2b E b))))"
  have i: "get_info E b = Inr ?i" using pb by (simp add: get_info_def)
  obtain s1 s2 vk where s1: "chain_verify_key E pb ?i ?old s = (Inr vk, s1)"
    "record_bundle ?i b s1 = (Inr (), s2)"
    "apply_changes E now (bi_timestamp ?i) (bi_medallion ?i) 1 (bn_changes pb) s2 = (Inr (), s')"
    using run pb i
    by (auto simp: apply_bundle_def py_bind_Inr_iff py_then_unit_iff py_apply plain_builder_def split: if_splits)
  have "same_core s s2"
    using keeps_core [OF chain_verify_key_core s1(1)] keeps_core [OF record_bundle_core s1(2)]
    by (rule same_core_trans)
  with s1(3) pb(1) show ?thesis
    by (auto simp: apply_changes_each info_from_builder_def)
qed

lemma holds_receive:
  assumes E: "key_codec_ok E"
  shows "holds E K ds s \<Longrightarrow> \<forall>b \<in> set (map snd rs). plain_bundle E b \<Longrightarrow>
    \<forall>d \<in> set (ds @ all_changes E (map snd rs)). in_order K d \<Longrightarrow>
    distinct (map change_address_of (ds @ all_changes E (map snd rs))) \<Longrightarrow>
    receive_all E rs s = Some s' \<Longrightarrow> holds E K (ds @ all_changes E (map snd rs)) s'"
proof (induction rs arbitrary: ds s)
  case Nil
  then show ?case by (simp add: all_changes_def)
next
  case (Cons r rs)
  obtain now b where r: "r = (now, b)" by (cases r)
  obtain s1 where s1: "apply_bundle E now b s = (Inr True, s1)" "receive_all E rs s1 = Some s'"
    using Cons.prems(5) r by (auto split: prod.splits sum.splits bool.splits)
  obtain s0 pb where pb: "get_builder E b = Inr pb" "same_core s s0"
    "py_each (deliver E) (deliveries now (bn_timestamp pb) (bn_medallion pb) 1 (bn_changes pb)) s0 = (Inr (), s1)"
    using accepted_changes [OF s1(1)] Cons.prems(2) r by auto
  let ?ds = "deliveries now (bn_timestamp pb) (bn_medallion pb) 1 (bn_changes pb)"
  have un: "map unclock ?ds = changes_of E b"
    using pb(1) by (simp add: changes_of_def deliveries_unclock)
  have addr: "map change_address_of ?ds = map change_address_of (changes_of E b)"
    "(\<forall>d \<in> set ?ds. in_order K d) \<longleftrightarrow> (\<forall>d \<in> set (changes_of E b). in_order K d)"
    unfolding un [symmetric] by simp_all
  have "holds E K (ds @ ?ds) s1"
    by (rule holds_run [OF E holds_same_core [OF Cons.prems(1) pb(2)] _ _ pb(3)])
      (use Cons.prems(3,4) addr r in \<open>auto simp: all_changes_def\<close>)
  then have "holds E K (ds @ changes_of E b) s1"
    using holds_unclock [of E K ds ?ds s1] un by simp
  from Cons.IH [OF this] Cons.prems s1(2) r show ?case by (simp add: all_changes_def)
qed

text \<open>What a replica's bundles must satisfy for the specification to apply.\<close>

definition sound_bundles :: "ext \<Rightarrow> (muid \<Rightarrow> nat) \<Rightarrow> bytes list \<Rightarrow> bool" where
  "sound_bundles E K bs \<longleftrightarrow> (\<forall>b \<in> set bs. plain_bundle E b) \<and>
    (\<forall>d \<in> set (all_changes E bs). in_order K d) \<and> distinct (map change_address_of (all_changes E bs))"

lemma received_holds:
  assumes "key_codec_ok E" "sound_bundles E K (map snd rs)" "receive_all E rs (empty_store True) = Some s"
  shows "holds E K (all_changes E (map snd rs)) s"
  using holds_receive [OF assms(1) holds_empty, where K = K and rs = rs and s' = s] assms(2,3) by (simp add: sound_bundles_def)

section \<open>Runs in another order and longer runs\<close>

lemma all_changes_perm:
  assumes "mset bs = mset bs'"
  shows "mset (all_changes E bs) = mset (all_changes E bs')"
proof -
  have "mset (all_changes E xs) = (\<Sum>b\<in>#mset xs. mset (changes_of E b))" for xs
    by (induction xs) (simp_all add: all_changes_def)
  then show ?thesis using assms by simp
qed

lemma sound_bundles_perm:
  assumes "mset bs = mset bs'" "sound_bundles E K bs"
  shows "sound_bundles E K bs'"
proof -
  have "mset (all_changes E bs) = mset (all_changes E bs')" by (rule all_changes_perm [OF assms(1)])
  then have "mset (map change_address_of (all_changes E bs)) = mset (map change_address_of (all_changes E bs'))"
    "set (all_changes E bs) = set (all_changes E bs')" by (simp_all only: mset_map) (metis set_mset_mset)
  moreover have "set bs = set bs'" using assms(1) by (metis set_mset_mset)
  ultimately show ?thesis
    using assms(2) mset_eq_imp_distinct_iff unfolding sound_bundles_def by metis
qed

lemma total_of_holds:
  assumes "holds E K ds s" "valid_muid c"
  shows "get_billionths E s c (-1) = Inr (\<Sum>d\<leftarrow>ds. amount_of c d)"
  using assms by (simp add: holds_def get_billionths_def running_total_def)

lemma before_later:
  assumes "\<forall>d \<in> set ds'. in_order K d \<and> t \<le> dl_ts d" "0 \<le> t" "time_ok t"
  shows "before t (ds @ ds') = before t ds"
proof -
  have "\<not> muid_lt (change_address_of d) (Muid t 0 0)" if "d \<in> set ds'" for d
    using assms that lt_time_iff [of "change_address_of d" t]
    by (auto simp: in_order_def change_muid_def change_address_of_def)
  then show ?thesis by (simp add: before_def filter_empty_conv)
qed

lemma spec_lookup_before:
  "before t ds = before t ds' \<Longrightarrow> spec_lookup ds c k t = spec_lookup ds' c k t"
  by (simp only: spec_lookup_def spec_clear_time_def)

end
