(* ===== verification/Mem_Chains.thy ===== *)
theory Mem_Chains
  imports Keyed_Spec
begin

text \<open>
  The bundle log of the memory store: every bundle it holds is signed, linked to the bundle before it
  in its chain by that bundle's hash, and no chain has a gap or a fork. \<open>apply_bundle\<close> keeps this,
  whether it accepts, ignores or rejects its argument.
\<close>

section \<open>Operations that leave the log alone\<close>

definition same_log :: "mem_store \<Rightarrow> mem_store \<Rightarrow> bool" where
  "same_log s s' \<longleftrightarrow> st_bundles s' = st_bundles s \<and> st_chain_infos s' = st_chain_infos s \<and>
     st_verify_keys s' = st_verify_keys s \<and> st_identities s' = st_identities s \<and>
     st_symmetric_keys s' = st_symmetric_keys s \<and> st_signing_keys s' = st_signing_keys s \<and>
     st_claims s' = st_claims s \<and> st_retaining s' = st_retaining s"

lemma same_log_refl [simp]: "same_log s s"
  by (simp add: same_log_def)

lemma keeps_log: "py_keeps (same_log s) m \<Longrightarrow> m s = (r, s') \<Longrightarrow> same_log s s'"
  unfolding py_keeps_def by (metis same_log_refl snd_conv)

lemma log_modify: "(\<And>s. same_log s (f s)) \<Longrightarrow> py_keeps (same_log r) (py_modify f)"
  by (rule py_keeps_modify) (simp add: same_log_def)

lemma log_pop:
  "py_keeps (same_log r) (py_pop st_placements set_placements k)"
  "py_keeps (same_log r) (py_pop st_entries set_entries k')"
  "py_keeps (same_log r) (py_pop st_locations set_locations l)"
  "py_keeps (same_log r) (py_pop st_removals set_removals k)"
  "py_keeps (same_log r) (py_pop st_by_name set_by_name k)"
  "py_keeps (same_log r) (py_pop st_by_describing set_by_describing k)"
  by (auto simp: py_keeps_def py_pop_def store_setters same_log_def split: sum.splits prod.splits)

lemma py_keeps_option [intro]:
  "py_keeps I m \<Longrightarrow> (\<And>x. py_keeps I (f x)) \<Longrightarrow> py_keeps I (case n of None \<Rightarrow> m | Some x \<Rightarrow> f x)"
  by (cases n) simp_all

lemma py_keeps_option_pair [intro]:
  "py_keeps I m \<Longrightarrow> (\<And>x y. py_keeps I (f x y)) \<Longrightarrow> py_keeps I (case n of None \<Rightarrow> m | Some (x, y) \<Rightarrow> f x y)"
  by (cases n) auto

lemmas keeps_rules = py_keeps_when py_keeps_bind py_keeps_then py_keeps_basic py_keeps_if py_keeps_option
  py_keeps_option_pair

lemma drop_first_location_log: "py_keeps (same_log r) (drop_first_location E u)"
  unfolding drop_first_location_def by (intro keeps_rules log_pop)

lemma remove_entry_log: "py_keeps (same_log r) (remove_entry E u)"
  unfolding remove_entry_def by (intro keeps_rules log_pop drop_first_location_log)

lemma bump_total_log: "py_keeps (same_log r) (bump_total e c)"
  unfolding bump_total_def by (intro keeps_rules log_modify) (simp add: same_log_def)

lemma retire_previous_log: "py_keeps (same_log r) (retire_previous E now e p)"
  unfolding retire_previous_def by (intro keeps_rules log_modify remove_entry_log) (simp add: same_log_def)

lemma store_entry_log: "py_keeps (same_log r) (store_entry e p b)"
  unfolding store_entry_def by (intro log_modify) (simp add: same_log_def)

lemma index_describing_log: "py_keeps (same_log r) (index_describing ts med e p)"
  unfolding index_describing_def by (intro keeps_rules log_modify) (simp add: same_log_def)

lemma index_name_log: "py_keeps (same_log r) (index_name E ts med e p)"
  unfolding index_name_def by (intro keeps_rules log_modify) (simp add: same_log_def)

lemma unindex_deleted_log: "py_keeps (same_log r) (unindex_deleted E ts med e p)"
  unfolding unindex_deleted_def
  by (intro keeps_rules log_pop log_modify) (simp add: same_log_def split: list.splits)

lemma add_entry_log: "py_keeps (same_log r) (add_entry E now ts med off e)"
  unfolding add_entry_def
  by (intro keeps_rules bump_total_log retire_previous_log store_entry_log index_describing_log
      index_name_log unindex_deleted_log)

lemma add_clearance_log: "py_keeps (same_log r) (add_clearance ts med off b)"
  unfolding add_clearance_def by (intro keeps_rules log_modify) (simp add: same_log_def)

lemma add_movement_log: "py_keeps (same_log r) (add_movement E ts med off b)"
  unfolding add_movement_def Let_def
  by (intro keeps_rules log_modify) (simp_all add: same_log_def)

lemma apply_change_log: "py_keeps (same_log r) (apply_change E now ts med off c)"
proof (cases c)
  case (ChContainer b)
  show ?thesis unfolding ChContainer apply_change.simps
    by (intro keeps_rules log_modify) (simp add: same_log_def)
next
  case (ChEntry e)
  show ?thesis unfolding ChEntry apply_change.simps
    by (intro keeps_rules log_modify add_entry_log) (simp add: same_log_def)
qed (simp_all add: add_movement_log add_clearance_log py_keeps_basic)

lemma apply_changes_log: "py_keeps (same_log r) (apply_changes E now ts med off cs)"
  by (induction cs arbitrary: off) (simp_all add: py_keeps_basic py_keeps_then apply_change_log)

section \<open>What applying a bundle does to the log\<close>

lemma chain_verify_key_log:
  assumes "chain_verify_key E pb i old s = (r, s')"
  shows "st_bundles s' = st_bundles s \<and> st_chain_infos s' = st_chain_infos s \<and>
    (bi_chain_start i \<noteq> bi_timestamp i \<longrightarrow> s' = s) \<and>
    (\<forall>c. c \<noteq> get_chain i \<longrightarrow>
      dget (st_verify_keys s') c = dget (st_verify_keys s) c) \<and>
    (\<forall>vk. r = Inr vk \<longrightarrow> dget (st_verify_keys s') (get_chain i) = Some vk \<and>
      (if bi_chain_start i = bi_timestamp i then x_load_verify_key E (bn_verify_key pb) = Inr vk
       else dget (st_verify_keys s) (get_chain i) = Some vk \<and>
        (\<exists>prev h. old = Some prev \<and> bi_hex_hash prev = Some h \<and> bytes_fromhex h = Inr (bn_prior_hash pb))))"
proof (cases "bi_chain_start i = bi_timestamp i")
  case True
  then show ?thesis
    using assms by (auto simp: chain_verify_key_def py_simps split: sum.splits)
next
  case False
  then show ?thesis
    using assms
    by (auto simp: chain_verify_key_def py_simps dindex_def split: sum.splits option.splits if_splits)
qed

text \<open>
  The log after \<open>apply_bundle\<close>: as it was; or touched by the check of the chain only; or, after the
  signature is verified, extended by the bundle.
\<close>

lemma apply_bundle_log:
  assumes run: "apply_bundle E now b s = (r, s')"
  shows "s' = s \<or> (\<exists>pb i r1 s1. get_builder E b = Inr pb \<and> get_info E b = Inr i \<and>
    is_needed i (dget (st_chain_infos s) (get_chain i)) = Inr True \<and>
    chain_verify_key E pb i (dget (st_chain_infos s) (get_chain i)) s = (r1, s1) \<and>
    (s' = s1 \<or> (\<exists>vk. r1 = Inr vk \<and> x_verify E vk b = Inr () \<and>
      same_log (s1\<lparr>st_bundles := dput (essential i) (i, b) (st_bundles s1),
                  st_chain_infos := dput (get_chain i) i (st_chain_infos s1)\<rparr>) s')))"
proof (cases "get_builder E b")
  case (Inl e)
  then show ?thesis using run by (simp add: apply_bundle_def py_simps)
next
  case (Inr pb)
  then obtain i where i: "get_info E b = Inr i" by (simp add: get_info_def)
  let ?old = "dget (st_chain_infos s) (get_chain i)"
  show ?thesis
  proof (cases "is_needed i ?old = Inr True")
    case False
    then show ?thesis
      using run Inr i by (auto simp: apply_bundle_def py_simps split: sum.splits if_splits)
  next
    case True
    obtain r1 s1 where v: "chain_verify_key E pb i ?old s = (r1, s1)" by fastforce
    let ?s2 = "s1\<lparr>st_bundles := dput (essential i) (i, b) (st_bundles s1),
                  st_chain_infos := dput (get_chain i) i (st_chain_infos s1)\<rparr>"
    show ?thesis
    proof (cases "\<exists>vk. r1 = Inr vk \<and> x_verify E vk b = Inr ()")
      case False
      then have "s' = s1"
        using run Inr i True v
        by (cases r1) (auto simp: apply_bundle_def py_simps split: sum.splits)
      then show ?thesis using Inr i True v by blast
    next
      case True': True
      then obtain vk where vk: "r1 = Inr vk" "x_verify E vk b = Inr ()" by blast
      let ?rest = "py_bind (plain_builder E pb) (\<lambda>plain.
        py_then (apply_changes E now (bi_timestamp i) (bi_medallion i) 1 (bn_changes plain)) (py_return True))"
      have "?rest ?s2 = (r, s')"
        using run Inr i True v vk
        by (simp add: apply_bundle_def py_bind_apply py_then_apply py_apply record_bundle_def)
      moreover have "py_keeps (same_log ?s2) (plain_builder E pb)"
        unfolding plain_builder_def by (intro keeps_rules)
      then have "py_keeps (same_log ?s2) ?rest"
        by (intro keeps_rules apply_changes_log)
      ultimately have "same_log ?s2 s'" using keeps_log by blast
      then show ?thesis using Inr i True v vk by blast
    qed
  qed
qed

section \<open>The invariant of the log\<close>

definition link_ok :: "ext \<Rightarrow> (int list, bundle_info \<times> bytes) dict \<Rightarrow> bundle_info \<Rightarrow> bytes \<Rightarrow> bool" where
  "link_ok E bundles i b \<longleftrightarrow>
    (if bi_timestamp i = bi_chain_start i then bi_previous i = 0
     else bi_chain_start i < bi_timestamp i \<and>
       (\<exists>j bj pb. dget bundles (essential j) = Some (j, bj) \<and> get_chain j = get_chain i \<and>
          bi_timestamp j = bi_previous i \<and> bi_timestamp j < bi_timestamp i \<and>
          get_builder E b = Inr pb \<and> bn_prior_hash pb = x_blake2b E bj))"

definition bundle_linked :: "ext \<Rightarrow> mem_store \<Rightarrow> bundle_info \<Rightarrow> bytes \<Rightarrow> bool" where
  "bundle_linked E s i b \<longleftrightarrow> get_info E b = Inr i \<and> 0 < bi_timestamp i \<and>
    (\<exists>final vk. dget (st_chain_infos s) (get_chain i) = Some final \<and> bi_timestamp i \<le> bi_timestamp final \<and>
       dget (st_verify_keys s) (get_chain i) = Some vk \<and> x_verify E vk b = Inr ()) \<and>
    link_ok E (st_bundles s) i b"

definition linked :: "ext \<Rightarrow> mem_store \<Rightarrow> bool" where
  "linked E s \<longleftrightarrow> dict_ok (st_bundles s) \<and> dict_ok (st_chain_infos s) \<and>
    (\<forall>k i b. dget (st_bundles s) k = Some (i, b) \<longrightarrow> k = essential i \<and> bundle_linked E s i b) \<and>
    (\<forall>i b j b'. dget (st_bundles s) (essential i) = Some (i, b) \<and> dget (st_bundles s) (essential j) = Some (j, b') \<and>
       get_chain i = get_chain j \<and> bi_timestamp j < bi_timestamp i \<longrightarrow> bi_timestamp j \<le> bi_previous i) \<and>
    (\<forall>c final. dget (st_chain_infos s) c = Some final \<longrightarrow> get_chain final = c \<and> 0 < bi_timestamp final \<and>
       ch_start c \<le> bi_timestamp final \<and> (\<exists>b. dget (st_bundles s) (essential final) = Some (final, b)))"

lemma essential_eq: "essential i = essential j \<longleftrightarrow> get_chain i = get_chain j \<and> bi_timestamp i = bi_timestamp j"
  by (auto simp: essential_def get_chain_def)

lemma linked_empty [simp]: "linked E (empty_store retain)"
  by (simp add: linked_def empty_store_def)

lemma linked_cong:
  assumes "st_bundles s' = st_bundles s" "st_chain_infos s' = st_chain_infos s" "st_verify_keys s' = st_verify_keys s"
  shows "linked E s' = linked E s"
  by (simp only: linked_def bundle_linked_def assms)

lemma linked_same_log: "linked E s \<Longrightarrow> same_log s s' \<Longrightarrow> linked E s'"
  using linked_cong [of s' s E] by (simp add: same_log_def)

lemma linked_bundle:
  assumes "linked E s" "dget (st_bundles s) k = Some (i, b)"
  shows "k = essential i" "bundle_linked E s i b"
  using assms unfolding linked_def by blast+

lemma linked_final:
  assumes "linked E s" "dget (st_chain_infos s) c = Some final"
  shows "get_chain final = c" "0 < bi_timestamp final" "ch_start c \<le> bi_timestamp final"
    "\<exists>b. dget (st_bundles s) (essential final) = Some (final, b)"
  using assms unfolding linked_def by blast+

text \<open>A needed bundle starts a chain that the store does not have, or follows its last bundle.\<close>

lemma needed_first:
  assumes "linked E s" "is_needed i (dget (st_chain_infos s) (get_chain i)) = Inr True"
    and "bi_chain_start i = bi_timestamp i"
  shows "dget (st_chain_infos s) (get_chain i) = None" "bi_previous i = 0" "0 < bi_timestamp i"
proof -
  show none: "dget (st_chain_infos s) (get_chain i) = None"
  proof (rule ccontr)
    assume "dget (st_chain_infos s) (get_chain i) \<noteq> None"
    then obtain final where f: "dget (st_chain_infos s) (get_chain i) = Some final" by auto
    then have "bi_timestamp final < bi_timestamp i"
      using assms(2) by (auto simp: is_needed_def result_simps split: if_splits)
    moreover have "bi_chain_start i \<le> bi_timestamp final"
      using linked_final(3) [OF assms(1) f] by (simp add: get_chain_def)
    ultimately show False using assms(3) by simp
  qed
  show "bi_previous i = 0" "0 < bi_timestamp i"
    using assms(2) none by (auto simp: is_needed_def split: if_splits)
qed

lemma needed_next:
  assumes "linked E s" "is_needed i (Some final) = Inr True" "dget (st_chain_infos s) (get_chain i) = Some final"
  shows "bi_previous i = bi_timestamp final" "bi_timestamp final < bi_timestamp i"
  using assms(2) linked_final(2) [OF assms(1,3)]
  by (auto simp: is_needed_def result_simps split: if_splits)

lemma no_bundle_of_new_chain:
  assumes "linked E s" "dget (st_chain_infos s) c = None" "dget (st_bundles s) k = Some (i, b)"
  shows "get_chain i \<noteq> c"
  using linked_bundle(2) [OF assms(1,3)] assms(2) by (auto simp: bundle_linked_def)

lemma linked_first_rejected:
  assumes l: "linked E s" and none: "dget (st_chain_infos s) c = None"
    and s1: "st_bundles s1 = st_bundles s" "st_chain_infos s1 = st_chain_infos s"
      "\<And>c'. c' \<noteq> c \<Longrightarrow> dget (st_verify_keys s1) c' = dget (st_verify_keys s) c'"
  shows "linked E s1"
proof -
  have "bundle_linked E s1 i b" if "dget (st_bundles s) k = Some (i, b)" for k i b
    using linked_bundle(2) [OF l that] no_bundle_of_new_chain [OF l none that] s1
    unfolding bundle_linked_def by simp
  then show ?thesis using l s1 unfolding linked_def by simp
qed

lemma linked_recorded:
  assumes l: "linked E s" and i: "get_info E b = Inr i"
    and t: "0 < bi_timestamp i" "bi_chain_start i \<le> bi_timestamp i"
    and newest: "\<And>final. dget (st_chain_infos s) (get_chain i) = Some final \<Longrightarrow>
        bi_timestamp final < bi_timestamp i \<and> bi_previous i = bi_timestamp final"
    and s1: "st_bundles s1 = st_bundles s" "st_chain_infos s1 = st_chain_infos s"
      "\<And>c'. c' \<noteq> get_chain i \<or> dget (st_chain_infos s) (get_chain i) \<noteq> None \<Longrightarrow>
        dget (st_verify_keys s1) c' = dget (st_verify_keys s) c'"
      "dget (st_verify_keys s1) (get_chain i) = Some vk" "x_verify E vk b = Inr ()"
    and link: "link_ok E (st_bundles s) i b"
  defines "s2 \<equiv> s1\<lparr>st_bundles := dput (essential i) (i, b) (st_bundles s1),
                  st_chain_infos := dput (get_chain i) i (st_chain_infos s1)\<rparr>"
  shows "linked E s2"
proof -
  have older: "bi_timestamp j < bi_timestamp i \<and> dget (st_chain_infos s) (get_chain i) \<noteq> None
      \<and> bi_timestamp j \<le> bi_previous i"
    if "dget (st_bundles s) k = Some (j, bj)" "get_chain j = get_chain i" for k j bj
    using linked_bundle(2) [OF l that(1)] that(2) newest by (fastforce simp: bundle_linked_def)
  have fresh: "dget (st_bundles s) (essential i) = None"
  proof (rule ccontr)
    assume "dget (st_bundles s) (essential i) \<noteq> None"
    then obtain j bj where j: "dget (st_bundles s) (essential i) = Some (j, bj)" by auto
    then have "essential i = essential j" using linked_bundle(1) [OF l] by blast
    then show False using older [OF j] essential_eq [of i j] by auto
  qed
  have B: "dget (st_bundles s2) k = (if k = essential i then Some (i, b) else dget (st_bundles s) k)" for k
    by (simp add: s2_def s1)
  have C: "dget (st_chain_infos s2) c = (if c = get_chain i then Some i else dget (st_chain_infos s) c)" for c
    by (simp add: s2_def s1)
  have V: "dget (st_verify_keys s2) = dget (st_verify_keys s1)" by (simp add: s2_def)
  have link_keep: "link_ok E (st_bundles s2) j bj" if j: "link_ok E (st_bundles s) j bj" for j bj
  proof -
    have "dget (st_bundles s2) k = Some x" if "dget (st_bundles s) k = Some x" for k x
      using that fresh B by auto
    then show ?thesis using j unfolding link_ok_def by (metis (no_types, lifting))
  qed
  have new: "bundle_linked E s2 i b"
    unfolding bundle_linked_def using i t(1) s1(4,5) link_keep [OF link] C V by simp
  have old: "bundle_linked E s2 j bj" if j: "dget (st_bundles s) k = Some (j, bj)" for k j bj
  proof -
    obtain final vk' where f: "get_info E bj = Inr j" "dget (st_chain_infos s) (get_chain j) = Some final"
      "bi_timestamp j \<le> bi_timestamp final" "dget (st_verify_keys s) (get_chain j) = Some vk'"
      "x_verify E vk' bj = Inr ()" "link_ok E (st_bundles s) j bj" "0 < bi_timestamp j"
      using linked_bundle(2) [OF l j] unfolding bundle_linked_def by blast
    have "dget (st_verify_keys s2) (get_chain j) = Some vk'"
      using s1(3) [of "get_chain j"] V f(2,4) by (cases "get_chain j = get_chain i") auto
    moreover have "\<exists>final. dget (st_chain_infos s2) (get_chain j) = Some final \<and> bi_timestamp j \<le> bi_timestamp final"
      using C f(2,3) older [OF j] by (cases "get_chain j = get_chain i") auto
    ultimately show ?thesis using f(1,5,7) link_keep [OF f(6)] unfolding bundle_linked_def by blast
  qed
  have order: "bi_timestamp j \<le> bi_previous i'"
    if "dget (st_bundles s2) (essential i') = Some (i', x)" "dget (st_bundles s2) (essential j) = Some (j, y)"
      "get_chain i' = get_chain j" "bi_timestamp j < bi_timestamp i'" for i' x j y
  proof -
    have ne: "essential j \<noteq> essential i'" using that(4) essential_eq [of j i'] by auto
    show ?thesis
    proof (cases "essential i' = essential i")
      case True
      then have "i' = i" using that(1) B [of "essential i'"] by simp
      moreover have "dget (st_bundles s) (essential j) = Some (j, y)"
        using that(2) B [of "essential j"] ne True by simp
      ultimately show ?thesis using older [of "essential j" j y] that(3) by simp
    next
      case False
      then have i': "dget (st_bundles s) (essential i') = Some (i', x)"
        using that(1) B [of "essential i'"] by simp
      show ?thesis
      proof (cases "essential j = essential i")
        case True
        then have "j = i" using that(2) B [of "essential j"] by simp
        then show ?thesis using older [OF i'] that(3,4) by auto
      next
        case False
        then have "dget (st_bundles s) (essential j) = Some (j, y)"
          using that(2) B [of "essential j"] by simp
        then show ?thesis using l i' that(3,4) unfolding linked_def by blast
      qed
    qed
  qed
  have finals: "get_chain final = c \<and> 0 < bi_timestamp final \<and> ch_start c \<le> bi_timestamp final \<and>
      (\<exists>b. dget (st_bundles s2) (essential final) = Some (final, b))"
    if f: "dget (st_chain_infos s2) c = Some final" for c final
  proof (cases "c = get_chain i")
    case True
    then have "final = i" using f C by simp
    then show ?thesis using True t B by (simp add: get_chain_def)
  next
    case False
    then have "dget (st_chain_infos s) c = Some final" using f C by simp
    note lf = linked_final [OF l this]
    then show ?thesis using B False essential_eq [of final i] by auto
  qed
  have "dict_ok (st_bundles s2)" "dict_ok (st_chain_infos s2)"
    using l by (simp_all add: s2_def s1 linked_def)
  moreover have "k = essential j \<and> bundle_linked E s2 j bj"
    if "dget (st_bundles s2) k = Some (j, bj)" for k j bj
    using that B new old linked_bundle(1) [OF l] by (cases "k = essential i") auto
  ultimately show ?thesis using order finals unfolding linked_def by blast
qed

text \<open>\<open>apply_bundle\<close> keeps the invariant, whatever its outcome.\<close>

lemma apply_bundle_linked:
  assumes l: "linked E s" and run: "apply_bundle E now b s = (r, s')"
  shows "linked E s'"
proof (cases "s' = s")
  case True
  then show ?thesis using l by simp
next
  case False
  then obtain pb i r1 s1 where pb: "get_builder E b = Inr pb" "get_info E b = Inr i"
    "is_needed i (dget (st_chain_infos s) (get_chain i)) = Inr True"
    "chain_verify_key E pb i (dget (st_chain_infos s) (get_chain i)) s = (r1, s1)"
    and after: "s' = s1 \<or> (\<exists>vk. r1 = Inr vk \<and> x_verify E vk b = Inr () \<and>
      same_log (s1\<lparr>st_bundles := dput (essential i) (i, b) (st_bundles s1),
                  st_chain_infos := dput (get_chain i) i (st_chain_infos s1)\<rparr>) s')"
    using apply_bundle_log [OF run] by blast
  note v = chain_verify_key_log [OF pb(4)]
  show ?thesis
  proof (cases "bi_chain_start i = bi_timestamp i")
    case True
    note first = needed_first [OF l pb(3) True]
    have "linked E s1"
      by (rule linked_first_rejected [OF l first(1)]) (use v in auto)
    moreover have "linked E s'"
      if "r1 = Inr vk" "x_verify E vk b = Inr ()"
        "same_log (s1\<lparr>st_bundles := dput (essential i) (i, b) (st_bundles s1),
                  st_chain_infos := dput (get_chain i) i (st_chain_infos s1)\<rparr>) s'" for vk
      by (rule linked_same_log [OF linked_recorded [OF l pb(2)] that(3)])
        (use that first True v in \<open>auto simp: link_ok_def\<close>)
    ultimately show ?thesis using after by blast
  next
    case False
    then have s1: "s1 = s" using v by blast
    then obtain vk where vk: "r1 = Inr vk" "x_verify E vk b = Inr ()" and
      rec: "same_log (s\<lparr>st_bundles := dput (essential i) (i, b) (st_bundles s),
                  st_chain_infos := dput (get_chain i) i (st_chain_infos s)\<rparr>) s'"
      using after \<open>s' \<noteq> s\<close> by blast
    obtain prev h where prev: "dget (st_chain_infos s) (get_chain i) = Some prev" "bi_hex_hash prev = Some h"
      "bytes_fromhex h = Inr (bn_prior_hash pb)" "dget (st_verify_keys s) (get_chain i) = Some vk"
      using v vk(1) False by auto
    note nx = needed_next [OF l pb(3) [unfolded prev(1)] prev(1)]
    note final = linked_final [OF l prev(1)]
    obtain bp where bp: "dget (st_bundles s) (essential prev) = Some (prev, bp)" using final(4) by blast
    then have "get_info E bp = Inr prev" using linked_bundle(2) [OF l bp] by (simp add: bundle_linked_def)
    then have "h = bytes_hex (x_blake2b E bp)"
      using prev(2) by (auto simp: get_info_def info_from_builder_def result_simps)
    then have "bn_prior_hash pb = x_blake2b E bp" using prev(3) by (simp add: bytes_fromhex_hex)
    then have "link_ok E (st_bundles s) i b"
      using False final nx bp pb(1) unfolding link_ok_def by (auto simp: get_chain_def)
    then show ?thesis
      using prev nx final pb(2) vk(2) v s1
      by (intro linked_same_log [OF linked_recorded [OF l pb(2)] rec]) (auto simp: get_chain_def)
  qed
qed

end
