(* ===== verification/Sync.thy ===== *)
theory Sync
  imports Connections Mem_Chains
begin

text \<open>
  The synchronization protocol between two instances. The interface \<open>bundle_source\<close> states what a
  bundle store promises about the bundles it hands out (time order, links, no gaps); under it, the
  answer to a peer's greeting sends exactly the bundles that the peer lacks, each one an extension of
  what the peer has at that moment. The memory store provides the interface.
\<close>

section \<open>Offering bundles to a peer\<close>

text \<open>What \<open>send_bundle\<close> decides for each of a series of bundles: the ones sent, and the new tracker.\<close>

fun offer_all :: "('b \<Rightarrow> bundle_info) \<Rightarrow> has_map \<Rightarrow> 'b list \<Rightarrow> ('b list \<times> has_map) result" where
  "offer_all info h [] = Inr ([], h)"
| "offer_all info h (b # bs) =
    (if has_info h (info b) then offer_all info h bs
     else if \<not> is_valid_extension h (info b) then Inl ValueError
     else bindr (offer_all info (mark_as_having h (info b)) bs) (\<lambda>(sent, h'). Inr (b # sent, h')))"

text \<open>
  The peer is at a point of each chain that the source has too, or ahead of it.
\<close>

definition on_chains :: "bundle_info list \<Rightarrow> has_map \<Rightarrow> bool" where
  "on_chains is h \<longleftrightarrow> (\<forall>c. seen h c = 0 \<or>
     (\<exists>i \<in> set is. get_chain i = c \<and> bi_timestamp i = seen h c) \<or>
     (\<forall>i \<in> set is. get_chain i = c \<longrightarrow> bi_timestamp i \<le> seen h c))"

locale bundle_source =
  fixes infos :: "'s \<Rightarrow> bundle_info list"
    and sound :: "'s \<Rightarrow> bool"
  assumes positive: "sound s \<Longrightarrow> i \<in> set (infos s) \<Longrightarrow> 0 < bi_timestamp i"
    and in_time: "sound s \<Longrightarrow> sorted_wrt (\<lambda>i j. bi_timestamp i \<le> bi_timestamp j) (infos s)"
    and once: "sound s \<Longrightarrow> distinct (map essential (infos s))"
    and linked_back: "sound s \<Longrightarrow> i \<in> set (infos s) \<Longrightarrow> bi_timestamp i \<noteq> bi_chain_start i \<Longrightarrow>
      \<exists>j \<in> set (infos s). get_chain j = get_chain i \<and> bi_timestamp j = bi_previous i \<and> bi_timestamp j < bi_timestamp i"
    and no_gap: "sound s \<Longrightarrow> i \<in> set (infos s) \<Longrightarrow> j \<in> set (infos s) \<Longrightarrow> get_chain j = get_chain i \<Longrightarrow>
      bi_timestamp j < bi_timestamp i \<Longrightarrow> bi_timestamp j \<le> bi_previous i"
begin

lemma valid_next:
  assumes s: "sound s" and i: "i \<in> set (infos s)" "\<not> has_info h i"
    and prefix: "\<forall>j \<in> set (infos s). bi_timestamp j < bi_timestamp i \<longrightarrow> has_info h j"
    and known: "on_chains (infos s) h"
  shows "is_valid_extension h i"
proof (cases "bi_timestamp i = bi_chain_start i")
  case True
  then show ?thesis by (simp add: is_valid_extension_def)
next
  case False
  obtain j where j: "j \<in> set (infos s)" "get_chain j = get_chain i" "bi_timestamp j = bi_previous i"
    "bi_timestamp j < bi_timestamp i" using linked_back [OF s i(1) False] by blast
  have seen: "bi_previous i \<le> seen h (get_chain i)" "seen h (get_chain i) < bi_timestamp i"
    using prefix j i(2) by (auto simp: has_info_def)
  have pos: "0 < bi_previous i" using positive [OF s j(1)] j(3) by simp
  have "seen h (get_chain i) \<le> bi_previous i"
    using known [unfolded on_chains_def, rule_format, of "get_chain i"]
  proof (elim disjE)
    assume "seen h (get_chain i) = 0"
    then show ?thesis using pos by simp
  next
    assume "\<exists>k \<in> set (infos s). get_chain k = get_chain i \<and> bi_timestamp k = seen h (get_chain i)"
    then obtain k where k: "k \<in> set (infos s)" "get_chain k = get_chain i"
      "bi_timestamp k = seen h (get_chain i)" by blast
    then show ?thesis using no_gap [OF s i(1) k(1,2)] seen(2) by simp
  next
    assume "\<forall>k \<in> set (infos s). get_chain k = get_chain i \<longrightarrow> bi_timestamp k \<le> seen h (get_chain i)"
    then show ?thesis using i(1) seen(2) by auto
  qed
  with seen pos have "seen h (get_chain i) = bi_previous i" "seen h (get_chain i) \<noteq> 0" by auto
  then show ?thesis using False by (auto simp: is_valid_extension_def seen_def split: option.splits)
qed

lemma on_chains_mark:
  assumes "i \<in> set (infos s)" "on_chains (infos s) h"
  shows "on_chains (infos s) (mark_as_having h i)"
  using assms unfolding on_chains_def
  by (auto simp: max_def)

lemma offer_suffix:
  assumes s: "sound s"
  shows "infos s = done @ map info bs \<Longrightarrow> on_chains (infos s) h \<Longrightarrow> \<forall>j \<in> set done. has_info h j \<Longrightarrow>
    offer_all info h bs
      = Inr (List.filter (\<lambda>b. \<not> has_info h (info b)) bs, foldl mark_as_having h (map info bs))"
proof (induction bs arbitrary: "done" h)
  case Nil
  then show ?case by simp
next
  case (Cons b bs)
  let ?i = "info b" and ?is = "map info bs"
  have i: "?i \<in> set (infos s)" using Cons.prems(1) by simp
  show ?case
  proof (cases "has_info h ?i")
    case True
    then have same: "mark_as_having h ?i = h" by (simp add: has_info_def mark_as_having_def)
    from Cons.IH [of "done @ [?i]" h] Cons.prems True same show ?thesis by simp
  next
    case False
    have "bi_timestamp ?i \<le> bi_timestamp j" if "j \<in> set ?is" for j
      using in_time [OF s] Cons.prems(1) that by (auto simp: sorted_wrt_append)
    then have "\<forall>j \<in> set (infos s). bi_timestamp j < bi_timestamp ?i \<longrightarrow> has_info h j"
      using Cons.prems(1,3) by (auto simp: not_le [symmetric])
    then have valid: "is_valid_extension h ?i" using valid_next [OF s i False _ Cons.prems(2)] by blast
    let ?h = "mark_as_having h ?i"
    have later: "has_info ?h j = has_info h j" if j: "j \<in> set ?is" for j
    proof (cases "get_chain j = get_chain ?i")
      case True
      have "essential ?i \<notin> set (map essential ?is)" using once [OF s] Cons.prems(1) by simp
      moreover have "essential j \<in> set (map essential ?is)"
        unfolding set_map [of essential] using j by (rule imageI)
      ultimately have "essential j \<noteq> essential ?i" by metis
      then have "bi_timestamp ?i < bi_timestamp j"
        using True in_time [OF s] Cons.prems(1) j essential_eq [of j ?i] by (fastforce simp: sorted_wrt_append)
      then show ?thesis using True False by (auto simp: has_info_def max_def)
    next
      case neq: False
      then show ?thesis by (simp add: has_info_def)
    qed
    have "\<forall>j \<in> set (done @ [?i]). has_info ?h j" using Cons.prems(3) by (auto simp: has_info_def)
    then have "offer_all info ?h bs
        = Inr (List.filter (\<lambda>b. \<not> has_info ?h (info b)) bs, foldl mark_as_having ?h ?is)"
      using Cons.prems(1) on_chains_mark [OF i Cons.prems(2)] by (intro Cons.IH [of "done @ [?i]" ?h]) simp_all
    moreover have "List.filter (\<lambda>b. \<not> has_info ?h (info b)) bs = List.filter (\<lambda>b. \<not> has_info h (info b)) bs"
      using later by (intro filter_cong) auto
    ultimately show ?thesis using False valid by simp
  qed
qed

text \<open>The whole answer to a greeting.\<close>

lemma offer_complete:
  assumes "sound s" "on_chains (infos s) h" "map info bs = infos s"
  shows "offer_all info h bs
    = Inr (List.filter (\<lambda>b. \<not> has_info h (info b)) bs, foldl mark_as_having h (map info bs))"
  using offer_suffix [OF assms(1), of "[]" info bs h] assms(2,3) by simp

end

section \<open>The memory store as a source\<close>

definition stored_infos :: "ext \<Rightarrow> mem_store \<Rightarrow> bundle_info list" where
  "stored_infos E st =
    concat (map (\<lambda>k. case dget (st_bundles st) k of Some (i, b) \<Rightarrow> [i] | None \<Rightarrow> [])
      (x_scan_ints E (dkeys (st_bundles st)) (Some [0, 0, 0]) None False))"

definition sound_store :: "ext \<Rightarrow> mem_store \<Rightarrow> bool" where
  "sound_store E st \<longleftrightarrow> scans_ok E \<and> linked E st"

definition info_at :: "mem_store \<Rightarrow> int list \<Rightarrow> bundle_info" where
  "info_at st k = fst (the (dget (st_bundles st) k))"

lemma stored_infos_map:
  assumes "sound_store E st"
  defines "ks \<equiv> x_scan_ints E (dkeys (st_bundles st)) (Some [0, 0, 0]) None False"
  shows "stored_infos E st = map (info_at st) ks" "set ks = set (dkeys (st_bundles st))" "distinct ks" "sorted ks"
    "\<And>k. k \<in> set ks \<Longrightarrow> essential (info_at st k) = k"
proof -
  have ok: "scan_ok id (x_scan_ints E)" using assms by (simp add: sound_store_def scans_ok_def)
  have l: "linked E st" using assms by (simp add: sound_store_def)
  then have d: "distinct (dkeys (st_bundles st))" by (simp add: linked_def dict_ok_def)
  have key: "\<exists>i b. dget (st_bundles st) k = Some (i, b) \<and> essential i = k \<and> 0 < bi_timestamp i"
    if k: "k \<in> set (dkeys (st_bundles st))" for k
  proof -
    obtain i b where ib: "dget (st_bundles st) k = Some (i, b)" using dkey_dget [OF k] by auto
    then show ?thesis using linked_bundle [OF l ib] by (auto simp: bundle_linked_def)
  qed
  have "in_bounds id (Some [0, 0, 0]) None k" if "k \<in> set (dkeys (st_bundles st))" for k
    using key [OF that] by (auto simp: in_bounds_def essential_def)
  then show set: "set ks = set (dkeys (st_bundles st))"
    using scan_set [OF ok d] by (auto simp: ks_def)
  show "distinct ks" "sorted ks"
    using scan_distinct [OF ok d] scan_asc [OF ok d] by (simp_all add: ks_def)
  show "essential (info_at st k) = k" if "k \<in> set ks" for k
    using key [of k] that set by (auto simp: info_at_def)
  have "concat (map (\<lambda>k. case dget (st_bundles st) k of Some (i, b) \<Rightarrow> [i] | None \<Rightarrow> []) xs) = map (info_at st) xs"
    if "set xs \<subseteq> set (dkeys (st_bundles st))" for xs
    using that
  proof (induction xs)
    case (Cons k xs)
    then show ?case using key [of k] by (auto simp: info_at_def)
  qed simp
  then show "stored_infos E st = map (info_at st) ks" using set by (simp add: stored_infos_def ks_def)
qed

lemma stored_infos_mem:
  assumes "sound_store E st"
  shows "i \<in> set (stored_infos E st) \<longleftrightarrow> (\<exists>b. dget (st_bundles st) (essential i) = Some (i, b))"
proof -
  note m = stored_infos_map [OF assms]
  have l: "linked E st" using assms by (simp add: sound_store_def)
  show ?thesis
  proof
    assume "i \<in> set (stored_infos E st)"
    then obtain k where k: "k \<in> set (dkeys (st_bundles st))" "i = info_at st k" using m(1,2) by auto
    obtain x where x: "dget (st_bundles st) k = Some x" using dkey_dget [OF k(1)] by blast
    obtain j b where jb: "x = (j, b)" by (cases x)
    have "i = j" using k(2) x jb by (simp add: info_at_def)
    moreover have "k = essential j" using linked_bundle(1) [OF l] x jb by blast
    ultimately show "\<exists>b. dget (st_bundles st) (essential i) = Some (i, b)" using x jb by blast
  next
    assume "\<exists>b. dget (st_bundles st) (essential i) = Some (i, b)"
    then obtain b where b: "dget (st_bundles st) (essential i) = Some (i, b)" by blast
    have "info_at st (essential i) \<in> info_at st ` set (dkeys (st_bundles st))"
      by (rule imageI) (rule dget_Some_key [OF b])
    moreover have "info_at st (essential i) = i" by (simp only: info_at_def b option.sel fst_conv)
    moreover have "set (stored_infos E st) = info_at st ` set (dkeys (st_bundles st))"
      using m(1,2) by simp
    ultimately show "i \<in> set (stored_infos E st)" by (simp only:)
  qed
qed

interpretation mem_source: bundle_source "stored_infos E" "sound_store E" for E
proof
  fix s i assume s: "sound_store E s" and i: "i \<in> set (stored_infos E s)"
  have l: "linked E s" using s by (simp add: sound_store_def)
  obtain b where b: "dget (st_bundles s) (essential i) = Some (i, b)" using stored_infos_mem [OF s] i by blast
  note bl = linked_bundle(2) [OF l b]
  show "0 < bi_timestamp i" using bl by (simp add: bundle_linked_def)
  show "\<exists>j \<in> set (stored_infos E s). get_chain j = get_chain i \<and> bi_timestamp j = bi_previous i \<and> bi_timestamp j < bi_timestamp i"
    if "bi_timestamp i \<noteq> bi_chain_start i"
    using bl that stored_infos_mem [OF s] by (auto simp: bundle_linked_def link_ok_def)
  fix j assume j: "j \<in> set (stored_infos E s)" and jt: "get_chain j = get_chain i" "bi_timestamp j < bi_timestamp i"
  obtain b' where "dget (st_bundles s) (essential j) = Some (j, b')" using stored_infos_mem [OF s] j by blast
  with b jt l show "bi_timestamp j \<le> bi_previous i" unfolding linked_def by metis
next
  fix s assume s: "sound_store E s"
  note m = stored_infos_map [OF s]
  have ess: "map essential (stored_infos E s) = x_scan_ints E (dkeys (st_bundles s)) (Some [0, 0, 0]) None False"
    using m(1,5) by (simp add: map_idI)
  then show "distinct (map essential (stored_infos E s))" using m(3) by simp
  have "sorted_wrt (\<lambda>i j. essential i \<le> essential j) (stored_infos E s)"
    using m(4) ess by (metis sorted_wrt_map)
  then show "sorted_wrt (\<lambda>i j. bi_timestamp i \<le> bi_timestamp j) (stored_infos E s)"
    by (rule sorted_wrt_mono_rel [rotated]) (auto simp: essential_def)
qed

section \<open>Sending over a connection\<close>

definition ready :: "connection \<Rightarrow> bool" where
  "ready c \<longleftrightarrow> \<not> cn_closed c \<and> \<not> cn_ws_closed c \<and> cn_ws_connected c \<and> \<not> cn_broken c"

definition bundle_info_of :: "ext \<Rightarrow> bytes \<Rightarrow> bundle_info" where
  "bundle_info_of E b = (case get_info E b of Inr i \<Rightarrow> i | Inl _ \<Rightarrow> info_of 0 0 0 0)"

lemma send_bundles:
  assumes "\<forall>b \<in> set bs. get_info E b = Inr (bundle_info_of E b)"
  shows "ready c \<Longrightarrow> cn_tracker c = Some h \<Longrightarrow> offer_all (bundle_info_of E) h bs = Inr (sent, h') \<Longrightarrow>
    py_each (send_bundle E) bs c = (Inr (), c\<lparr>cn_tracker := Some h',
      cn_sent := cn_sent c @ map (\<lambda>b. FrBytes (x_sync_ser E (MsgBundle b))) sent\<rparr>)"
  using assms
proof (induction bs arbitrary: c h sent)
  case Nil
  then show ?case by (simp add: py_apply)
next
  case (Cons b bs)
  let ?i = "bundle_info_of E b"
  have i: "get_info E b = Inr ?i" using Cons.prems(4) by simp
  show ?case
  proof (cases "has_info h ?i")
    case True
    then have "send_bundle E b c = (Inr (), c)"
      using i Cons.prems(2) by (simp add: send_bundle_def py_simps)
    then show ?thesis using Cons True by (simp add: py_then_step)
  next
    case False
    then obtain more where v: "is_valid_extension h ?i" and
      rest: "offer_all (bundle_info_of E) (mark_as_having h ?i) bs = Inr (more, h')" "sent = b # more"
      using Cons.prems(3) by (auto simp: result_simps split: if_splits)
    let ?c = "c\<lparr>cn_sent := cn_sent c @ [FrBytes (x_sync_ser E (MsgBundle b))],
                cn_tracker := Some (mark_as_having h ?i)\<rparr>"
    have "send_bundle E b c = (Inr (), ?c)"
      using False v i Cons.prems(1,2) by (simp add: send_bundle_def py_simps conn_send_def socket_send_def ready_def)
    moreover have "ready ?c" using Cons.prems(1) by (simp add: ready_def)
    ultimately show ?thesis
      using Cons.IH [of ?c "mark_as_having h ?i" more] rest Cons.prems(4) by (simp add: py_then_step)
  qed
qed

lemma get_bundles_infos:
  assumes s: "sound_store E st"
  shows "map (bundle_info_of E) (get_bundles E st None) = stored_infos E st"
    "\<forall>b \<in> set (get_bundles E st None). get_info E b = Inr (bundle_info_of E b)"
proof -
  have l: "linked E st" using s by (simp add: sound_store_def)
  let ?f = "\<lambda>k. case dget (st_bundles st) k of Some (i, b) \<Rightarrow> if limit_allows None i then [b] else [] | None \<Rightarrow> []"
  let ?g = "\<lambda>k. case dget (st_bundles st) k of Some (i, b) \<Rightarrow> [i] | None \<Rightarrow> []"
  have info: "get_info E b = Inr i" if "dget (st_bundles st) k = Some (i, b)" for k i b
    using linked_bundle(2) [OF l that] by (simp add: bundle_linked_def)
  then have of: "bundle_info_of E b = i" if "dget (st_bundles st) k = Some (i, b)" for k i b
    using that by (simp add: bundle_info_of_def)
  have "map (bundle_info_of E) (concat (map ?f ks)) = concat (map ?g ks)" for ks
    by (induction ks) (auto simp: limit_allows_def split: option.splits dest: of)
  then show "map (bundle_info_of E) (get_bundles E st None) = stored_infos E st"
    by (simp add: get_bundles_def stored_infos_def)
  show "\<forall>b \<in> set (get_bundles E st None). get_info E b = Inr (bundle_info_of E b)"
  proof
    fix b assume "b \<in> set (get_bundles E st None)"
    then obtain k where k: "b \<in> set (?f k)" unfolding get_bundles_def set_concat set_map by blast
    obtain i where "dget (st_bundles st) k = Some (i, b)"
    proof (cases "dget (st_bundles st) k")
      case None
      then show ?thesis using k by simp
    next
      case (Some x)
      then show ?thesis using k that by (cases x) (simp split: if_splits)
    qed
    then show "get_info E b = Inr (bundle_info_of E b)" using info of by simp
  qed
qed

section \<open>The receiving side\<close>

text \<open>
  A tracker that agrees with the last bundles of a store. Whatever such a tracker lets through is the
  next bundle of its chain for that store.
\<close>

definition tracks :: "has_map \<Rightarrow> (chain, bundle_info) dict \<Rightarrow> bool" where
  "tracks h d \<longleftrightarrow> (\<forall>c. dget h c = map_option bi_timestamp (dget d c))"

definition finals_ok :: "(chain, bundle_info) dict \<Rightarrow> bool" where
  "finals_ok d \<longleftrightarrow> (\<forall>c i. dget d c = Some i \<longrightarrow>
     get_chain i = c \<and> 0 < bi_timestamp i \<and> ch_start c \<le> bi_timestamp i)"

lemma linked_finals: "linked E st \<Longrightarrow> finals_ok (st_chain_infos st)"
  unfolding finals_ok_def using linked_final by blast

lemma tracked_is_needed:
  assumes l: "finals_ok d" and t: "tracks h d" and i: "0 < bi_timestamp i" "\<not> has_info h i" "is_valid_extension h i"
    and first: "bi_timestamp i = bi_chain_start i \<Longrightarrow> bi_previous i = 0"
  shows "is_needed i (dget d (get_chain i)) = Inr True"
proof (cases "dget d (get_chain i)")
  case None
  then have "dget h (get_chain i) = None" using t by (simp add: tracks_def)
  then have "bi_timestamp i = bi_chain_start i" using i(3) by (simp add: is_valid_extension_def split: if_splits)
  then show ?thesis using None i(1) first by (simp add: is_needed_def)
next
  case (Some final)
  have f: "get_chain final = get_chain i" "0 < bi_timestamp final" "ch_start (get_chain i) \<le> bi_timestamp final"
    using l Some unfolding finals_ok_def by blast+
  have d: "dget h (get_chain i) = Some (bi_timestamp final)" using t Some by (simp add: tracks_def)
  then have later: "bi_timestamp final < bi_timestamp i" using i(2) by (simp add: has_info_def seen_def)
  moreover have "bi_chain_start i \<le> bi_timestamp final" using f(3) by (simp add: get_chain_def)
  ultimately have "bi_timestamp i \<noteq> bi_chain_start i" by simp
  then have "bi_previous i = bi_timestamp final" using i(3) d by (simp add: is_valid_extension_def)
  then show ?thesis using Some f(1,2) later by (simp add: is_needed_def \<open>bi_timestamp i \<noteq> bi_chain_start i\<close>)
qed

lemma tracks_recorded:
  assumes "tracks h d" "\<not> has_info h i"
  shows "tracks (mark_as_having h i) (dput (get_chain i) i d)"
  using assms by (auto simp: tracks_def mark_as_having_def has_info_def)

lemma dget_foldl_mark:
  assumes "distinct (map get_chain is)" "\<forall>i \<in> set is. 0 < bi_timestamp i \<and> dget h (get_chain i) = None"
  shows "dget (foldl mark_as_having h is) c
    = (case List.find (\<lambda>i. get_chain i = c) is of Some i \<Rightarrow> Some (bi_timestamp i) | None \<Rightarrow> dget h c)"
  using assms
proof (induction "is" arbitrary: h)
  case Nil
  then show ?case by simp
next
  case (Cons i "is")
  have m: "dget (mark_as_having h i) c = (if c = get_chain i then Some (bi_timestamp i) else dget h c)" for c
    using Cons.prems(2) by (simp add: mark_as_having_def seen_def)
  have "\<forall>j \<in> set is. 0 < bi_timestamp j \<and> dget (mark_as_having h i) (get_chain j) = None"
  proof
    fix j assume j: "j \<in> set is"
    then have "get_chain j \<noteq> get_chain i" using Cons.prems(1) by (metis imageI list.simps(9) distinct.simps(2) set_map)
    then show "0 < bi_timestamp j \<and> dget (mark_as_having h i) (get_chain j) = None"
      using Cons.prems(2) j m by simp
  qed
  then have IH: "dget (foldl mark_as_having (mark_as_having h i) is) c
      = (case List.find (\<lambda>j. get_chain j = c) is of Some j \<Rightarrow> Some (bi_timestamp j)
         | None \<Rightarrow> dget (mark_as_having h i) c)"
    using Cons.IH [of "mark_as_having h i"] Cons.prems(1) by simp
  show ?case
  proof (cases "get_chain i = c")
    case True
    then have "List.find (\<lambda>j. get_chain j = c) is = None"
      using Cons.prems(1) by (simp add: find_None_iff) (metis imageI)
    then show ?thesis using IH True m by simp
  next
    case False
    moreover from this have "dget (mark_as_having h i) c = dget h c" using m by simp
    ultimately show ?thesis using IH by (simp split: option.split)
  qed
qed

lemma get_has_map_tracks:
  assumes s: "sound_store E st"
  shows "tracks (get_has_map E st None) (st_chain_infos st)"
proof -
  have ok: "scan_ok chain_order (x_scan_chain E)" and l: "linked E st"
    using s by (simp_all add: sound_store_def scans_ok_def)
  then have d: "distinct (dkeys (st_chain_infos st))" by (simp add: linked_def dict_ok_def)
  let ?at = "\<lambda>c. the (dget (st_chain_infos st) c)"
  let ?cs = "get_chains E st"
  have cs: "distinct ?cs" "set ?cs = set (dkeys (st_chain_infos st))"
    using scan_distinct [OF ok d] scan_set [OF ok d, of None None]
    by (auto simp: get_chains_def in_bounds_def)
  have at: "dget (st_chain_infos st) c = Some (?at c)" if c: "c \<in> set ?cs" for c
    using dkey_dget [of c "st_chain_infos st"] c cs(2) by auto
  have infos: "concat (map (\<lambda>c. case dget (st_chain_infos st) c of Some i \<Rightarrow> [i] | None \<Rightarrow> []) xs) = map ?at xs"
    if "set xs \<subseteq> set ?cs" for xs
    using that
  proof (induction xs)
    case (Cons x xs)
    moreover obtain i where "dget (st_chain_infos st) x = Some i" using at [of x] Cons.prems by auto
    ultimately show ?case by simp
  qed simp
  have chain: "get_chain (?at c) = c \<and> 0 < bi_timestamp (?at c)" if "c \<in> set ?cs" for c
    using linked_final(1,2) [OF l at [OF that]] by simp
  have find: "List.find (\<lambda>i. get_chain i = c) (map ?at xs) = (if c \<in> set xs then Some (?at c) else None)"
    if "set xs \<subseteq> set ?cs" for xs c
    using that by (induction xs) (auto simp: chain)
  have "map get_chain (map ?at ?cs) = ?cs" using chain by (simp add: map_idI)
  then have dist: "distinct (map get_chain (map ?at ?cs))" using cs(1) by (simp only:)
  have "dget (get_has_map E st None) c = map_option bi_timestamp (dget (st_chain_infos st) c)" for c
  proof -
    have "dget (get_has_map E st None) c = dget (foldl mark_as_having [] (map ?at ?cs)) c"
      by (simp add: get_has_map_def infos)
    also have "\<dots> = (if c \<in> set ?cs then Some (bi_timestamp (?at c)) else None)"
      using dget_foldl_mark [OF dist, of "[]" c] chain find [of ?cs c] by auto
    also have "\<dots> = map_option bi_timestamp (dget (st_chain_infos st) c)"
      using at [of c] cs(2) dget_None_iff [of "st_chain_infos st" c] by auto
    finally show ?thesis .
  qed
  then show ?thesis by (simp add: tracks_def)
qed

text \<open>The bundles that an offer sends, each at its turn.\<close>

lemma offer_turns:
  "offer_all info h bs = Inr (xs @ b # ys, h') \<Longrightarrow>
    \<not> has_info (foldl mark_as_having h (map info xs)) (info b) \<and>
    is_valid_extension (foldl mark_as_having h (map info xs)) (info b) \<and>
    (\<forall>x us vs. xs = us @ x # vs \<longrightarrow> \<not> has_info (foldl mark_as_having h (map info us)) (info x))"
proof (induction info h bs arbitrary: xs rule: offer_all.induct)
  case (1 info h)
  then show ?case by simp
next
  case (2 info h a bs)
  show ?case
  proof (cases "has_info h (info a)")
    case True
    then show ?thesis using 2 by simp
  next
    case False
    then obtain more where v: "is_valid_extension h (info a)"
      and more: "offer_all info (mark_as_having h (info a)) bs = Inr (more, h')" "xs @ b # ys = a # more"
      using "2.prems" by (auto simp: result_simps split: if_splits)
    show ?thesis
    proof (cases xs)
      case Nil
      then show ?thesis using False v more(2) by simp
    next
      case (Cons x xs')
      then have "x = a" "offer_all info (mark_as_having h (info a)) bs = Inr (xs' @ b # ys, h')"
        using more by auto
      with "2.IH" (2) [OF False _ this(2)] v False Cons show ?thesis
        by (auto simp: Cons_eq_append_conv)
    qed
  qed
qed

definition record_all :: "(chain, bundle_info) dict \<Rightarrow> bundle_info list \<Rightarrow> (chain, bundle_info) dict" where
  "record_all d is = foldl (\<lambda>d i. dput (get_chain i) i d) d is"

lemma tracks_all:
  assumes "\<And>x us vs. xs = us @ x # vs \<Longrightarrow> \<not> has_info (foldl mark_as_having h us) x"
  shows "tracks h d \<Longrightarrow> tracks (foldl mark_as_having h xs) (record_all d xs)"
  using assms
proof (induction xs rule: rev_induct)
  case Nil
  then show ?case by (simp add: record_all_def)
next
  case (snoc x xs)
  have "tracks (foldl mark_as_having h xs) (record_all d xs)"
    using snoc.prems(2) by (intro snoc.IH [OF snoc.prems(1)]) simp
  moreover have "\<not> has_info (foldl mark_as_having h xs) x" using snoc.prems(2) [of xs x "[]"] by simp
  ultimately show ?case using tracks_recorded by (simp add: record_all_def)
qed

lemma finals_put:
  assumes "finals_ok d" "0 < bi_timestamp i" "bi_chain_start i \<le> bi_timestamp i"
  shows "finals_ok (dput (get_chain i) i d)"
  unfolding finals_ok_def
proof (intro allI impI)
  fix c j assume j: "dget (dput (get_chain i) i d) c = Some j"
  show "get_chain j = c \<and> 0 < bi_timestamp j \<and> ch_start c \<le> bi_timestamp j"
  proof (cases "c = get_chain i")
    case True
    then show ?thesis using j assms(2,3) by (simp add: get_chain_def)
  next
    case False
    then show ?thesis using j assms(1) unfolding finals_ok_def by simp
  qed
qed

lemma finals_all:
  "finals_ok d \<Longrightarrow> \<forall>i \<in> set is. 0 < bi_timestamp i \<and> bi_chain_start i \<le> bi_timestamp i \<Longrightarrow> finals_ok (record_all d is)"
  by (induction "is" arbitrary: d) (simp_all add: record_all_def finals_put)

end
