(* ===== verification/Mem_Runs.thy ===== *)
theory Mem_Runs
  imports Sync
begin

text \<open>
  A memory store as a state machine: the operations that change it, the states that are reachable from
  a new store by them, and the invariant of the bundle log over these states.
\<close>

inductive mem_step :: "ext \<Rightarrow> mem_store \<Rightarrow> mem_store \<Rightarrow> bool" for E where
  Apply: "apply_bundle E now b s = (r, s') \<Longrightarrow> mem_step E s s'"
| SaveSymmetric: "save_symmetric_key E key s = (r, s') \<Longrightarrow> mem_step E s s'"
| SaveSigning: "save_signing_key E key s = (r, s') \<Longrightarrow> mem_step E s s'"
| AddClaim: "add_claim t process c s = (r, s') \<Longrightarrow> mem_step E s s'"
| DropHistory: "drop_history E t s = (r, s') \<Longrightarrow> mem_step E s s'"
| StartHistory: "start_history s = (r, s') \<Longrightarrow> mem_step E s s'"
| StopHistory: "stop_history E t s = (r, s') \<Longrightarrow> mem_step E s s'"

inductive mem_reachable :: "ext \<Rightarrow> mem_store \<Rightarrow> bool" for E where
  Opened: "mem_reachable E (empty_store retaining)"
| Stepped: "mem_reachable E s \<Longrightarrow> mem_step E s s' \<Longrightarrow> mem_reachable E s'"

lemma drop_loop_log: "py_keeps (same_log r) (drop_loop E t ks)"
  by (induction ks) (simp_all, (intro keeps_rules log_pop remove_entry_log)+)

lemma drop_history_log: "py_keeps (same_log r) (drop_history E t)"
  unfolding drop_history_def by (intro keeps_rules drop_loop_log)

lemma mem_step_linked:
  assumes "mem_step E s s'" "linked E s"
  shows "linked E s'"
  using assms
proof cases
  case (Apply now b r)
  then show ?thesis using apply_bundle_linked assms(2) by blast
next
  case (SaveSymmetric key r)
  then show ?thesis
    using assms(2) linked_cong [of s' s E] by (auto simp: save_symmetric_key_def py_simps split: if_splits sum.splits)
next
  case (SaveSigning key r)
  then show ?thesis using assms(2) linked_cong [of s' s E] by (auto simp: save_signing_key_def py_simps)
next
  case (AddClaim t process c r)
  then show ?thesis using assms(2) linked_cong [of s' s E] by (auto simp: add_claim_def py_simps)
next
  case (DropHistory t r)
  then show ?thesis using assms(2) linked_same_log keeps_log [OF drop_history_log] by blast
next
  case (StartHistory r)
  then show ?thesis using assms(2) linked_cong [of s' s E] by (auto simp: start_history_def py_simps)
next
  case (StopHistory t r)
  then have "drop_history E t (s\<lparr>st_retaining := False\<rparr>) = (r, s')"
    by (simp add: stop_history_def py_simps)
  then have "same_log (s\<lparr>st_retaining := False\<rparr>) s'" by (rule keeps_log [OF drop_history_log])
  then show ?thesis
    using assms(2) linked_cong [of "s\<lparr>st_retaining := False\<rparr>" s E] linked_same_log by auto
qed

lemma receive_all_linked: "receive_all E rs s = Some s' \<Longrightarrow> linked E s \<Longrightarrow> linked E s'"
proof (induction E rs s rule: receive_all.induct)
  case (2 E now b rs s)
  obtain s1 where s1: "apply_bundle E now b s = (Inr True, s1)" "receive_all E rs s1 = Some s'"
    using "2.prems"(1) by (auto split: prod.splits sum.splits bool.splits)
  show ?case
    by (rule "2.IH" [OF s1(1) [symmetric] refl _ s1(2)]) (use apply_bundle_linked s1(1) "2.prems"(2) in auto)
qed simp

end
