(* ===== verification/Commits.thy ===== *)
theory Commits
  imports Directories Simple_Containers Mem_Runs
begin

text \<open>
  What a commit does: the bundle it writes, the end of the chain, the addresses that the bundler's changes
  get, and the lock.
\<close>

section \<open>Methods that leave parts of the database alone\<close>

text \<open>Finding the end of a chain leaves the bundlers, the lock and the active bundler alone.\<close>

definition same_user :: "database \<Rightarrow> database \<Rightarrow> bool" where
  "same_user r s \<longleftrightarrow> db_bundlers s = db_bundlers r \<and> db_locked s = db_locked r \<and> db_active s = db_active r"

text \<open>Telling peers and callbacks of a bundle touches the connections and the log of calls only.\<close>

definition quiet :: "database \<Rightarrow> database \<Rightarrow> bool" where
  "quiet r s \<longleftrightarrow> s\<lparr>rl_conns := [], rl_called := []\<rparr> = r\<lparr>rl_conns := [], rl_called := []\<rparr>"

lemma quiet_refl [simp]: "quiet r r"
  by (simp add: quiet_def)

lemma quiet_fields:
  assumes "quiet r s"
  shows "rl_store s = rl_store r" "db_last_link s = db_last_link r" "same_user r s" "db_clock s = db_clock r"
  using arg_cong [OF assms [unfolded quiet_def], of rl_store] arg_cong [OF assms [unfolded quiet_def], of db_last_link]
    arg_cong [OF assms [unfolded quiet_def], of db_bundlers] arg_cong [OF assms [unfolded quiet_def], of db_locked]
    arg_cong [OF assms [unfolded quiet_def], of db_active] arg_cong [OF assms [unfolded quiet_def], of db_clock]
  by (simp_all add: same_user_def)

lemma quiet_keeps: "py_keeps (quiet r) m \<Longrightarrow> m r = (x, s) \<Longrightarrow> quiet r s"
  unfolding py_keeps_def by (metis quiet_refl snd_conv)

lemma at_conn_quiet: "py_keeps (quiet r) (at_conn n m)"
  unfolding py_keeps_def at_conn_def quiet_def by (auto split: option.splits prod.splits)

lemma call_back_quiet: "py_keeps (quiet r) (call_back b k)"
  unfolding call_back_def by (rule py_keeps_modify) (auto simp: quiet_def)

lemma relay_on_bundle_quiet: "py_keeps (quiet r) (relay_on_bundle E b)"
  unfolding relay_on_bundle_def
  by (intro py_keeps_bind py_keeps_then py_keeps_basic py_keeps_each at_conn_quiet call_back_quiet)

lemma same_user_refl [simp]: "same_user r r"
  by (simp add: same_user_def)

lemma same_user_trans: "same_user r s \<Longrightarrow> same_user s t \<Longrightarrow> same_user r t"
  by (simp add: same_user_def)

lemma same_user_keeps: "py_keeps (same_user r) m \<Longrightarrow> m r = (x, s) \<Longrightarrow> same_user r s"
  unfolding py_keeps_def by (metis same_user_refl snd_conv)

lemma tick_user: "py_keeps (same_user r) tick"
  unfolding py_keeps_def tick_def same_user_def by (auto split: option.splits)

lemma supplies_user: "py_keeps (same_user r) next_key" "py_keeps (same_user r) generate_medallion"
  unfolding py_keeps_def next_key_def generate_medallion_def same_user_def by (auto simp: Let_def split: list.splits)

lemma in_store_user: "py_keeps (same_user r) (in_store m)"
  unfolding py_keeps_def in_store_def py_zoom_def same_user_def by (auto split: prod.splits)

lemma quiet_user: "(\<And>r. py_keeps (quiet r) m) \<Longrightarrow> py_keeps (same_user r) m"
  unfolding py_keeps_def using quiet_fields(3) same_user_trans quiet_refl by blast

lemma db_on_bundle_user: "py_keeps (same_user r) (db_on_bundle E b)"
  unfolding db_on_bundle_def
  by (intro py_keeps_bind py_keeps_then py_keeps_basic py_keeps_modify quiet_user relay_on_bundle_quiet)
    (auto simp: same_user_def split: option.splits)

lemma store_apply_user: "py_keeps (same_user r) (store_apply E now (db_on_bundle E) b)"
  unfolding store_apply_def
  by (intro py_keeps_bind py_keeps_then py_keeps_when py_keeps_basic in_store_user db_on_bundle_user)

lemma relay_receive_user: "py_keeps (same_user r) (relay_receive E now (db_on_bundle E) b)"
  unfolding relay_receive_def by (intro py_keeps_then py_keeps_basic store_apply_user)

lemma py_keeps_option_case [intro]:
  "py_keeps I m \<Longrightarrow> (\<And>x. py_keeps I (f x)) \<Longrightarrow> py_keeps I (case z of None \<Rightarrow> m | Some x \<Rightarrow> f x)"
  by (cases z) auto

lemma reuse_loop_user: "py_keeps (same_user r) (reuse_loop identity cs)"
proof (induction cs)
  case (Cons c cs)
  then show ?case
    unfolding reuse_loop.simps Let_def
    by (intro py_keeps_bind py_keeps_then py_keeps_if py_keeps_basic tick_user in_store_user)
qed (simp add: py_keeps_basic)

lemma acquire_user: "py_keeps (same_user r) (acquire_appendable_link E now)"
  unfolding acquire_appendable_link_def maybe_reuse_chain_def reuse_chain_def start_chain_def adopt_symmetric_key_def
  by (intro py_keeps_bind py_keeps_then py_keeps_if py_keeps_basic py_keeps_option_case tick_user supplies_user
      in_store_user store_apply_user reuse_loop_user py_keeps_modify)
    (simp_all add: same_user_def)

section \<open>Receiving a bundle of one's own\<close>

lemma relay_on_bundle_fields:
  assumes "relay_on_bundle E b (d::database) = (x, d')"
  shows "rl_store d' = rl_store d" "db_last_link d' = db_last_link d" "same_user d d'" "db_clock d' = db_clock d"
  using quiet_fields [OF quiet_keeps [OF relay_on_bundle_quiet assms]] .

lemma received:
  assumes run: "relay_receive E now (db_on_bundle E) b d = (Inr True, d')"
    and link: "db_last_link d = Some link" "get_info E b = Inr i" "get_chain i = get_chain link"
  shows "apply_bundle E now b (rl_store d) = (Inr True, rl_store d')" "db_last_link d' = Some i" "same_user d d'" "db_clock d' = db_clock d"
proof -
  obtain s' where s': "apply_bundle E now b (rl_store d) = (Inr True, s')"
    "db_on_bundle E b (d\<lparr>rl_store := s'\<rparr>) = (Inr (), d')"
    using run
    by (auto simp: relay_receive_def store_apply_def py_then_Inr_iff py_bind_Inr_iff py_apply py_when_apply in_store_def
        py_zoom_def split: prod.splits)
  have "relay_on_bundle E b (d\<lparr>rl_store := s', db_last_link := Some i\<rparr>) = (Inr (), d')"
    using s'(2) link by (auto simp: db_on_bundle_def py_then_unit_iff py_bind_Inr_iff py_apply)
  note fields = relay_on_bundle_fields [OF this]
  show "apply_bundle E now b (rl_store d) = (Inr True, rl_store d')" "db_last_link d' = Some i" "same_user d d'" "db_clock d' = db_clock d"
    using fields s'(1) by (simp_all add: same_user_def)
qed

section \<open>The bundle of a commit\<close>

definition next_bundle :: "bundle_info \<Rightarrow> string \<Rightarrow> change_pb list \<Rightarrow> string option \<Rightarrow> int \<Rightarrow> bundle_pb" where
  "next_bundle link h changes comment t = empty_bundle
    \<lparr>bn_previous := bi_timestamp link, bn_chain_start := bi_chain_start link, bn_medallion := bi_medallion link,
     bn_timestamp := t, bn_comment := (case comment of None \<Rightarrow> [] | Some s \<Rightarrow> s),
     bn_prior_hash := (case prior_bytes (PriorHex h) of Inr (Some bs) \<Rightarrow> bs | _ \<Rightarrow> []), bn_changes := changes\<rparr>"

text \<open>What is serialized and signed reads back: the documented behaviour of protobuf and of nacl.\<close>

definition sealed :: "ext \<Rightarrow> bytes \<Rightarrow> bundle_pb \<Rightarrow> bool" where
  "sealed E sk pb \<longleftrightarrow> get_builder E (x_sign E sk (x_bundle_ser E pb)) = Inr pb"

lemma combined:
  assumes "combine E (get_chain link) t sk changes comment None (Some (bi_timestamp link)) (PriorHex h) True = Inr bs"
  shows "bs = x_sign E sk (x_bundle_ser E (next_bundle link h changes comment t))" "bi_timestamp link < t"
  using assms
  by (auto simp: combine_def combine_builder_def next_bundle_def result_simps get_chain_def split: option.splits)

definition info_of_bundle :: "ext \<Rightarrow> bytes \<Rightarrow> bundle_pb \<Rightarrow> bundle_info" where
  "info_of_bundle E bs pb = info_from_builder pb (bytes_hex (x_blake2b E bs))"

lemma info_sealed:
  "sealed E sk pb \<Longrightarrow> bs = x_sign E sk (x_bundle_ser E pb) \<Longrightarrow> get_info E bs = Inr (info_of_bundle E bs pb)"
  by (simp add: sealed_def get_info_def info_of_bundle_def)

lemma info_next [simp]:
  "bi_timestamp (info_of_bundle E bs (next_bundle link h changes comment t)) = t"
  "bi_medallion (info_of_bundle E bs (next_bundle link h changes comment t)) = bi_medallion link"
  "bi_previous (info_of_bundle E bs (next_bundle link h changes comment t)) = bi_timestamp link"
  "get_chain (info_of_bundle E bs (next_bundle link h changes comment t)) = get_chain link"
  by (simp_all add: info_of_bundle_def info_from_builder_def next_bundle_def get_chain_def)

lemma tick_fields: "tick d = (x, d') \<Longrightarrow> rl_store d' = rl_store d \<and> db_last_link d' = db_last_link d \<and> same_user d d'"
  by (auto simp: tick_def same_user_def split: option.splits)

text \<open>A commit of changes to an established chain: what it wrote, and how it left the database.\<close>

lemma commit_runs:
  assumes run: "commit E now True n d = (Inr (), d')"
    and link: "db_last_link d = Some link" "db_signing_key d = Some sk" "bi_hex_hash link = Some h"
    and b: "dget (db_bundlers d) n = Some b" "bb_changes b \<noteq> []"
    and law: "\<And>t. fst (tick d) = Inr t \<Longrightarrow> sealed E sk (next_bundle link h (bb_changes b) (bb_comment b) t)"
  obtains t bs where
    "bs = x_sign E sk (x_bundle_ser E (next_bundle link h (bb_changes b) (bb_comment b) t))" "bi_timestamp link < t"
    "apply_bundle E now bs (rl_store d) = (Inr True, rl_store d')"
    "db_last_link d' = Some (info_of_bundle E bs (next_bundle link h (bb_changes b) (bb_comment b) t))"
    "dget (db_bundlers d') n = Some (b\<lparr>bb_decomposition := Some bs\<rparr>)" "\<not> db_locked d'" "db_active d' = db_active d"
    "fst (tick d) = Inr t" "db_clock d' = db_clock (snd (tick d))"
proof -
  let ?d1 = "d\<lparr>db_locked := True\<rparr>"
  have link1: "db_last_link ?d1 = Some link" "db_signing_key ?d1 = Some sk" using link by simp_all
  obtain d2 where d2: "commit_body E now n b (link, sk) ?d1 = (Inr (), d2)" "d' = d2\<lparr>db_locked := False\<rparr>"
    using run b link1
    by (auto simp: commit_def py_bind_Inr_iff get_bundler_def py_apply dindex_def with_database_def db_enter_def
        py_then_unit_iff acquire_appendable_link_def db_exit_def split: if_splits prod.splits)
  obtain t d3 bs d4 where t: "tick ?d1 = (Inr t, d3)"
    "combine E (get_chain link) t sk (bb_changes b) (bb_comment b) None (Some (bi_timestamp link)) (PriorHex h) True = Inr bs"
    "relay_receive E now (db_on_bundle E) bs d3 = (Inr True, d4)"
    "set_bundler n (\<lambda>b. b\<lparr>bb_decomposition := Some bs\<rparr>) d4 = (Inr (), d2)"
    using d2(1) link(3)
    by (auto simp: commit_body_def Let_def py_bind_Inr_iff py_then_Inr_iff py_apply)
  have now: "fst (tick d) = Inr t" using t(1) by (auto simp: tick_def split: option.splits)
  note tf = tick_fields [OF t(1)] and bs = combined [OF t(2)]
  note i = info_sealed [OF law [OF now] bs(1)]
  note rc = received [OF t(3) _ i info_next(4)]
  have l3: "db_last_link d3 = Some link" using tf link by simp
  have b4: "dget (db_bundlers d4) n = Some b" using rc(3) [OF l3] tf b by (simp add: same_user_def)
  have "d2 = d4\<lparr>db_bundlers := dput n (b\<lparr>bb_decomposition := Some bs\<rparr>) (db_bundlers d4)\<rparr>"
    using t(4) b4 by (auto simp: set_bundler_def py_apply)
  moreover have "db_clock d3 = db_clock (snd (tick d))" using t(1) by (auto simp: tick_def split: option.splits)
  ultimately show ?thesis
    using that [OF bs] rc [OF l3] d2(2) tf now by (simp add: same_user_def)
qed

section \<open>The address of a change\<close>

lemma add_change_runs:
  assumes "add_change n sb d = (Inr r, d')" "dget (db_bundlers d) n = Some b" "bb_count b = int (length (bb_changes b))"
    "bb_count b + 1 < OFFSET_MOD div 2"
  obtains change where "as_change (bb_count b + 1) sb = Inr change" "r = RefNew n (bb_count b + 1)"
    "dget (db_bundlers d') n = Some (b\<lparr>bb_count := bb_count b + 1, bb_changes := bb_changes b @ [change]\<rparr>)"
    "rl_store d' = rl_store d" "db_last_link d' = db_last_link d" "db_signing_key d' = db_signing_key d"
proof -
  have "muid_init None None (bb_count b + 1) True = Inr \<lparr>mo_timestamp = None, mo_medallion = None,
      mo_offset = bb_count b + 1, mo_has_bundler = True\<rparr>"
    using assms(3,4) by (simp add: muid_init_def norm_offset_def muid_consts)
  then show ?thesis
    using assms(1,2)
    by (simp add: add_change_def py_bind_apply py_then_apply py_apply get_bundler_def dindex_def set_bundler_def
        split: if_splits sum.splits prod.splits) (rule that, assumption, auto)
qed

lemma recorded:
  assumes "apply_bundle E now bs s = (Inr True, s')" "get_info E bs = Inr i"
  shows "dget (st_bundles s') (essential i) = Some (i, bs)"
proof -
  obtain pb s1 plain s2 where run: "plain_builder E pb (s1\<lparr>st_bundles := dput (essential i) (i, bs) (st_bundles s1),
      st_chain_infos := dput (get_chain i) i (st_chain_infos s1)\<rparr>) = (Inr plain, s2)"
    "apply_changes E now (bi_timestamp i) (bi_medallion i) 1 (bn_changes plain) s2 = (Inr (), s')"
    using assms
    by (auto simp: apply_bundle_def py_bind_Inr_iff py_then_unit_iff py_apply record_bundle_def split: if_splits)
  have "py_keeps (same_log r) (plain_builder E pb)" for r
    unfolding plain_builder_def by (intro keeps_rules)
  from keeps_log [OF this run(1)] keeps_log [OF apply_changes_log run(2)]
  show ?thesis by (simp add: same_log_def)
qed

section \<open>The lock\<close>

text \<open>A failure on the way into the database leaves the lock taken.\<close>

lemma failed_enter:
  assumes "db_enter E now d = (Inl e, d')"
  shows "db_locked d'"
proof (cases "db_locked d")
  case True
  then show ?thesis using assms by (simp add: db_enter_def py_bind_apply py_apply)
next
  case False
  then have "acquire_appendable_link E now (d\<lparr>db_locked := True\<rparr>) = (Inl e, d')"
    using assms by (simp add: db_enter_def py_bind_apply py_then_apply py_apply)
  from same_user_keeps [OF acquire_user this] show ?thesis by (simp add: same_user_def)
qed

section \<open>Setting a key and reading it back\<close>

lemma latest_append:
  "\<forall>w \<in> set ws. muid_lt (fst w) (fst x) \<Longrightarrow> latest (ws @ [x]) = Some x"
  by (induction ws) auto

lemma clears_before: "v \<in> set (clears (before T ds) c) \<Longrightarrow> \<exists>y \<in> set ds. v = change_address_of y"
  by (auto simp: clears_def before_def)

lemma spec_lookup_newest:
  assumes ds: "\<forall>y \<in> set ds. in_order K y \<and> dl_ts y < t" and new: "in_order K x" "dl_ts x = t"
    and p: "entry_of x = Some (p, e)" "pl_container p = c" "pl_middle p = k"
    and T: "t < T" "time_ok T"
  shows "spec_lookup (ds @ [x]) c k T = Some (change_address_of x, e)"
proof -
  have addr: "change_muid (change_address_of y)" "mu_timestamp (change_address_of y) = dl_ts y" if "in_order K y" for y
    using that by (simp_all add: in_order_def change_address_of_def)
  have placer: "pl_placer p = change_address_of x"
    using entry_address [OF new(1) p(1)] by (simp add: change_address_of_def)
  have less: "muid_lt u (change_address_of x)" if "change_muid u" "mu_timestamp u < t" for u
    using that addr [OF new(1)] new(2) by (auto simp: muid_lt_def change_muid_def valid_muid_def)
  have "0 < t" "0 \<le> T" using addr [OF new(1)] new(2) T by (auto simp: change_muid_def)
  then have b: "before T (ds @ [x]) = before T ds @ [x]"
    using addr [OF new(1)] new(2) T lt_time_iff [of "change_address_of x" T]
    by (simp add: before_def change_muid_def)
  have w: "writes (before T ds @ [x]) c k = writes (before T ds) c k @ [(change_address_of x, e)]"
    using p placer by (simp add: writes_def)
  have old: "change_muid u \<and> mu_timestamp u < t" if w: "(u, f) \<in> set (writes (before T ds) c k)" for u f
  proof -
    obtain y q where y: "y \<in> set ds" "entry_of y = Some (q, f)" "pl_placer q = u"
      using w unfolding set_writes by (auto simp: before_def)
    then have "u = change_address_of y" using entry_address [of K y q f] ds by (auto simp: change_address_of_def)
    then show ?thesis using addr [of y] ds y(1) by auto
  qed
  have l: "latest (writes (before T (ds @ [x])) c k) = Some (change_address_of x, e)"
    unfolding b w by (rule latest_append) (use less old in auto)
  have "\<not> t < spec_clear_time (ds @ [x]) c T"
  proof (cases "earliest (clears (before T (ds @ [x])) c)")
    case None
    then show ?thesis using \<open>0 < t\<close> by (simp add: spec_clear_time_def)
  next
    case (Some u)
    have xs: "change_muid v \<and> mu_timestamp v \<le> t" if v: "v \<in> set (clears (before T (ds @ [x])) c)" for v
    proof -
      obtain y where y: "y \<in> set (ds @ [x])" "v = change_address_of y"
        using clears_before [OF v] by blast
      then have "in_order K y" "dl_ts y \<le> t" using ds new by auto
      then show ?thesis using addr y(2) by simp
    qed
    then have "u \<in> set (clears (before T (ds @ [x])) c)"
      using earliest_Some [OF Some] by (auto simp: change_muid_def)
    from xs [OF this] show ?thesis using Some by (simp add: spec_clear_time_def)
  qed
  then show ?thesis using l addr(2) [OF new(1)] new(2) by (simp add: spec_lookup_def)
qed

lemma receive_all_append:
  "receive_all E (rs @ [(now, b)]) s = (case receive_all E rs s of
     None \<Rightarrow> None | Some s' \<Rightarrow> (case apply_bundle E now b s' of (Inr True, s'') \<Rightarrow> Some s'' | _ \<Rightarrow> None))"
  by (induction rs arbitrary: s) (auto split: prod.splits sum.splits bool.splits)

text \<open>A store that accepts one more bundle, with one change that is newer than all it has.\<close>

lemma one_more:
  assumes store: "receive_all E rs (empty_store True) = Some s" "sound_bundles E K (map snd rs)"
    and old: "\<forall>y \<in> set (all_changes E (map snd rs)). dl_ts y < t"
    and b: "apply_bundle E now bs s = (Inr True, s')" "changes_of E bs = [x]" "plain_bundle E bs"
    and x: "in_order K x" "dl_ts x = t"
  shows "receive_all E (rs @ [(now, bs)]) (empty_store True) = Some s'" "sound_bundles E K (map snd (rs @ [(now, bs)]))"
    "all_changes E (map snd (rs @ [(now, bs)])) = all_changes E (map snd rs) @ [x]"
proof -
  show all: "all_changes E (map snd (rs @ [(now, bs)])) = all_changes E (map snd rs) @ [x]"
    by (simp add: all_changes_def b(2))
  have "mu_timestamp (change_address_of y) = dl_ts y" for y by (simp add: change_address_of_def)
  then have "change_address_of x \<notin> change_address_of ` set (all_changes E (map snd rs))"
    using old x(2) by (metis (no_types, lifting) image_iff less_irrefl)
  then have "distinct (map change_address_of (all_changes E (map snd rs) @ [x]))"
    using store(2) by (simp add: sound_bundles_def)
  then show "sound_bundles E K (map snd (rs @ [(now, bs)]))"
    using store(2) b(3) x(1) unfolding sound_bundles_def all by auto
  show "receive_all E (rs @ [(now, bs)]) (empty_store True) = Some s'"
    using receive_all_append store(1) b(1) by auto
qed

text \<open>A store that accepts a bundle with one entry, newer than all it has, gives that entry from then on.\<close>

lemma newest_found:
  assumes E: "scans_ok E" "key_codec_ok E"
    and store: "receive_all E rs (empty_store True) = Some s" "sound_bundles E K (map snd rs)"
    and old: "\<forall>y \<in> set (all_changes E (map snd rs)). dl_ts y < t"
    and b: "apply_bundle E now bs s = (Inr True, s')" "changes_of E bs = [x]" "plain_bundle E bs"
    and x: "in_order K x" "dl_ts x = t" "entry_of x = Some (p, e)"
    and at: "valid_muid (pl_container p)" "middle_ok (pl_middle p)" "middle_kind (pl_middle p) = K (pl_container p)"
      "K (pl_container p) \<noteq> 2"
    and T: "t < T" "time_ok T"
  shows "get_entry_by_key E s' (pl_container p) (pl_middle p) T = Inr (Some (change_address_of x, e))"
proof -
  have older: "\<forall>y \<in> set (all_changes E (map snd rs)). in_order K y \<and> dl_ts y < t"
    using store(2) old by (auto simp: sound_bundles_def)
  note more = one_more [OF store old b x(1,2)]
  have "get_entry_by_key E s' (pl_container p) (pl_middle p) T =
      Inr (spec_lookup (all_changes E (map snd (rs @ [(now, bs)]))) (pl_container p) (pl_middle p) T)"
    using lookup_refines [OF E received_holds [OF E(2) more(2,1)] _ at T(2)] more(2)
    by (simp add: sound_bundles_def)
  then show ?thesis unfolding more(3) using spec_lookup_newest [OF older x _ _ T] by simp
qed

text \<open>The entry that \<open>set\<close> writes.\<close>

definition set_entry :: "muid \<Rightarrow> ukey \<Rightarrow> value_pb \<Rightarrow> entry_pb" where
  "set_entry c key v = \<lparr>en_container = Some (put_into c), en_behavior = DIRECTORY, en_subject = SubKey (key_msg key),
     en_contains = ConValue v, en_expiry = 0, en_effective = 0, en_purge = False\<rparr>"

lemma set_entry_placed:
  assumes "valid_muid c" "mu_timestamp c \<noteq> 0" "mu_medallion c \<noteq> 0" "0 \<le> mu_offset c" "valid_ukey key"
    and "change_muid (Muid t m 1)"
  shows "placement_from_builder (set_entry c key v) t m 1 = Inr (Placement c (MidKey key) (Muid t m 1) None)"
proof -
  have "muid_create (CtxInfo t m) dummy_builder (Some 1) = Inr (Muid t m 1)"
    using assms(6) muid_create_offset [of t m 1] mk_muid_self [of "Muid t m 1"] by (simp add: change_muid_def)
  then show ?thesis
    using assms(1-5) muid_create_put_into [OF assms(1-4)]
    by (simp add: placement_from_builder_def builder_middle_def set_entry_def container_of_def key_of_def result_simps)
qed


lemma tick_later: "fst (tick d) = Inr t \<Longrightarrow> fst (db_clock d) < t"
  by (auto simp: tick_def dest: generate_timestamp_later split: option.splits)

text \<open>The clock readings that are still to come are times of the range that addresses have.\<close>

definition clock_ok :: "database \<Rightarrow> bool" where
  "clock_ok d \<longleftrightarrow> 0 \<le> fst (db_clock d) \<and> (\<forall>t \<in> set (snd (db_clock d)). time_ok t)"

lemma generate_timestamp_reading:
  "generate_timestamp l rs = Some (t, rs') \<Longrightarrow> t \<in> set rs \<and> set rs' \<subseteq> set rs"
  by (induction l rs rule: generate_timestamp.induct) (auto split: if_splits)

lemma tick_ok:
  assumes "clock_ok d" "tick d = (Inr t, d')"
  shows "fst (db_clock d) < t" "time_ok t" "clock_ok d'" "fst (db_clock d') = t"
proof -
  obtain rs where g: "generate_timestamp (fst (db_clock d)) (snd (db_clock d)) = Some (t, rs)"
    "d' = d\<lparr>db_clock := (t, rs)\<rparr>"
    using assms(2) by (auto simp: tick_def split: option.splits)
  show "fst (db_clock d) < t" "time_ok t" "clock_ok d'" "fst (db_clock d') = t"
    using assms(1) g(2) generate_timestamp_later [OF g(1)] generate_timestamp_reading [OF g(1)]
    by (auto simp: clock_ok_def)
qed

text \<open>A bundle with one entry for a key, committed to a store that has nothing newer: lookups find the entry.\<close>

lemma entry_committed:
  assumes E: "scans_ok E" "key_codec_ok E"
    and store: "receive_all E rs (empty_store True) = Some (rl_store d)" "sound_bundles E K (map snd rs)"
    and old: "\<forall>y \<in> set (all_changes E (map snd rs)). dl_ts y \<le> fst (db_clock d)" "clock_ok d"
    and link: "db_last_link d = Some link" "db_signing_key d = Some sk" "bi_hex_hash link = Some h"
      "0 < bi_medallion link" "bi_medallion link < MEDALLION_MOD - 1"
    and run: "commit E now True n d = (Inr (), d')" "dget (db_bundlers d) n = Some b" "bb_changes b = [ChEntry e]"
    and law: "\<And>t. 0 < t \<Longrightarrow> time_ok t \<Longrightarrow> sealed E sk (next_bundle link h [ChEntry e] (bb_comment b) t)"
    and at: "valid_muid c" "middle_ok k" "middle_kind k = K c" "K c \<noteq> 2" "behavior_kind (en_behavior e) = Some (middle_kind k)"
    and placed: "\<And>t. change_muid (Muid t (bi_medallion link) 1) \<Longrightarrow>
      placement_from_builder e t (bi_medallion link) 1 = Inr (Placement c k (Muid t (bi_medallion link) 1) None)"
  shows "clock_ok d'" "\<And>T. fst (db_clock d') < T \<Longrightarrow> time_ok T \<Longrightarrow>
    \<exists>u. get_entry_by_key E (rl_store d') c k T = Inr (Some (u, e))"
proof -
  let ?pb = "next_bundle link h (bb_changes b) (bb_comment b)"
  have tk: "tick d = (Inr t, snd (tick d))" if "fst (tick d) = Inr t" for t using that by (metis prod.collapse)
  have law': "fst (tick d) = Inr t \<Longrightarrow> sealed E sk (?pb t)" for t
    using tick_ok [OF old(2) tk] law run(3) old(2) by (simp add: clock_ok_def)
  obtain t bs where bs: "bs = x_sign E sk (x_bundle_ser E (?pb t))"
    "apply_bundle E now bs (rl_store d) = (Inr True, rl_store d')" "fst (tick d) = Inr t"
    "db_clock d' = db_clock (snd (tick d))"
  proof (rule commit_runs [OF run(1) link(1,2,3) run(2) _ law'])
    show "bb_changes b \<noteq> []" using run by simp
  qed (use that in simp_all)
  note ok = tick_ok [OF old(2) tk [OF bs(3)]]
  let ?x = "Delivery 0 t (bi_medallion link) 1 (ChEntry e)"
  have new: "changes_of E bs = [?x]" "plain_bundle E bs"
    using law' [OF bs(3)] bs(1) run(3)
    by (simp_all add: changes_of_def plain_bundle_def sealed_def next_bundle_def empty_bundle_def)
  have change: "change_muid (Muid t (bi_medallion link) 1)"
    using ok old(2) link(4,5) by (simp add: change_muid_def valid_muid_def time_ok_def muid_consts clock_ok_def)
  have x: "in_order K ?x" "entry_of ?x = Some (Placement c k (Muid t (bi_medallion link) 1) None, e)"
    using placed [OF change] change at
    by (simp_all add: in_order_def entry_of_def placement_ok_def change_muid_def valid_time_def)
  have older: "\<forall>y \<in> set (all_changes E (map snd rs)). dl_ts y < t" using old ok by auto
  show "clock_ok d'" using ok(3) bs(4) by (simp add: clock_ok_def)
  fix T assume T: "fst (db_clock d') < T" "time_ok T"
  then have "t < T" using bs(4) ok by simp
  then show "\<exists>u. get_entry_by_key E (rl_store d') c k T = Inr (Some (u, e))"
    using newest_found [OF E store older bs(2) new x(1) _ x(2) _ _ _ _ _ T(2)] at by auto
qed

lemma set_runs:
  assumes run: "directory_set E now self (OneKey key) (UserVal v) None comment d = (Inr r, d')"
    and self: "ct_muid self = RefMuid c" "ct_behavior self = DIRECTORY"
    and key: "valid_ukey key" and val: "encode_value E v = Inr pb" and active: "db_active d = None"
  obtains n b d1 t1 where
    "commit E now True n d1 = (Inr (), d')" "dget (db_bundlers d1) n = Some b"
    "bb_changes b = [ChEntry (set_entry c key pb)]" "bb_comment b = comment"
    "rl_store d1 = rl_store d" "db_last_link d1 = db_last_link d" "db_signing_key d1 = db_signing_key d"
    "fst (tick d) = Inr t1" "db_clock d1 = db_clock (snd (tick d))"
proof -
  have k: "encode_key key = Inr (key_msg key)" using key by (simp add: encode_key_valid)
  obtain d0 t1 where t1: "tick d = (Inr t1, d0)"
    using run by (auto simp: directory_set_def py_bind_Inr_iff)
  then have d0: "rl_store d0 = rl_store d" "db_last_link d0 = db_last_link d" "db_signing_key d0 = db_signing_key d"
    "db_active d0 = None"
    using active by (auto simp: tick_def split: option.splits)
  note steps = directory_set_def py_bind_apply py_then_apply py_apply py_when_apply set_path_def Let_def pick_bundler_def new_bundler_def
    add_entry_on_def expiry_time_def pb_of_ref_def key_subject_def value_contains_def ref_put_into_def
    add_change_def get_bundler_def dindex_def set_bundler_def finish_def
  have off: "muid_init None None 1 True = Inr \<lparr>mo_timestamp = None, mo_medallion = None, mo_offset = 1, mo_has_bundler = True\<rparr>"
    by (simp add: muid_init_def norm_offset_def muid_consts)
  show ?thesis
    using run t1 d0 k val self off
    by (simp add: steps as_change_def split: sum.splits prod.splits) (rule that, assumption, simp, simp_all add: set_entry_def)
qed

section \<open>Emptying an accumulator\<close>

text \<open>An entry without a key, in a bundle of its own.\<close>

lemma entry_runs:
  assumes run: "add_entry_on E now (RefMuid c) beh NoKey (UserVal v) None TsNone None comment d = (Inr r, d')"
    and val: "encode_value E v = Inr pb" and active: "db_active d = None"
  obtains n b d1 where
    "commit E now True n d1 = (Inr (), d')" "dget (db_bundlers d1) n = Some b" "bb_comment b = comment"
    "bb_changes b = [ChEntry \<lparr>en_container = Some (put_into c), en_behavior = beh, en_subject = SubNone,
       en_contains = ConValue pb, en_expiry = 0, en_effective = 0, en_purge = False\<rparr>]"
    "rl_store d1 = rl_store d" "db_last_link d1 = db_last_link d" "db_signing_key d1 = db_signing_key d"
    "db_clock d1 = db_clock d"
proof -
  note steps = py_bind_apply py_then_apply py_apply py_when_apply Let_def pick_bundler_def new_bundler_def
    add_entry_on_def expiry_time_def pb_of_ref_def key_subject_def value_contains_def ref_put_into_def
    add_change_def get_bundler_def dindex_def set_bundler_def finish_def
  have off: "muid_init None None 1 True = Inr \<lparr>mo_timestamp = None, mo_medallion = None, mo_offset = 1, mo_has_bundler = True\<rparr>"
    by (simp add: muid_init_def norm_offset_def muid_consts)
  show ?thesis
    using run active val off
    by (simp add: steps as_change_def split: sum.splits prod.splits) (rule that, assumption, simp, simp_all)
qed

text \<open>The entry that changes a total by \<open>n\<close> billionths.\<close>

definition amount_entry :: "muid \<Rightarrow> int \<Rightarrow> entry_pb" where
  "amount_entry c n = \<lparr>en_container = Some (put_into c), en_behavior = ACCUMULATOR, en_subject = SubNone,
     en_contains = ConValue (ValInteger (decimal_text n)), en_expiry = 0, en_effective = 0, en_purge = False\<rparr>"

lemma amount_entry_placed:
  assumes "valid_muid c" "mu_timestamp c \<noteq> 0" "mu_medallion c \<noteq> 0" "0 \<le> mu_offset c"
    and "change_muid (Muid t m 1)"
  shows "placement_from_builder (amount_entry c n) t m 1 = Inr (Placement c MidNone (Muid t m 1) None)"
proof -
  have "muid_create (CtxInfo t m) dummy_builder (Some 1) = Inr (Muid t m 1)"
    using assms(5) muid_create_offset [of t m 1] mk_muid_self [of "Muid t m 1"] by (simp add: change_muid_def)
  then show ?thesis
    using assms(1-4) muid_create_put_into [OF assms(1-4)]
    by (simp add: placement_from_builder_def builder_middle_def amount_entry_def container_of_def result_simps behavior_defs)
qed

lemma cleared_amount:
  assumes "get_billionths E (rl_store d) c (-1) = Inr n" "\<bar>n\<bar> < 10 ^ 28" "ct_muid self = RefMuid c"
  shows "accumulator_clear E now self bundler comment d =
    add_simple_entry E now self NoKey (UserVal (UInt (- n))) bundler comment d"
proof -
  have "dec_times (-1) (n, -9) = (- n, -9)" using dec_round_exact [of "- n" "-9"] assms(2) by (simp add: dec_times_def)
  moreover have "billionths_of (AmountDecimal (- n, -9)) = Inr (- n)" using billionths_exact [of "- n"] assms(2) by simp
  ultimately show ?thesis
    using assms dec_round_exact [OF assms(2), of "-9"]
    by (simp add: accumulator_clear_def accumulator_get_def accumulator_size_def increment_def py_bind_apply py_apply
        resolve_ref_def)
qed

end
