(* ===== verification/Demo.thy ===== *)
theory Demo
  imports Mem_Runs
begin

text \<open>
  Two small bundles of different authors that write the key \<open>a\<close> of the root directory, one that adds
  to the root accumulator, and the external functions that read them: the concrete inputs on which the
  theorems about whole runs are exercised.
\<close>

definition demo_entry :: "string \<Rightarrow> string \<Rightarrow> entry_pb" where
  "demo_entry k v = empty_entry\<lparr>en_behavior := DIRECTORY, en_container := Some (MuidPb (-1) (-1) DIRECTORY),
     en_subject := SubKey (KeyCharacters k), en_contains := ConValue (ValInteger v)\<rparr>"

definition demo_amount :: "string \<Rightarrow> entry_pb" where
  "demo_amount v = empty_entry\<lparr>en_behavior := ACCUMULATOR, en_container := Some (MuidPb (-1) (-1) ACCUMULATOR),
     en_contains := ConValue (ValInteger v)\<rparr>"

definition demo_first :: bundle_pb where
  "demo_first = empty_bundle\<lparr>bn_timestamp := 1000, bn_medallion := 77, bn_chain_start := 1000,
     bn_verify_key := [7], bn_changes := [ChEntry (demo_entry ''a'' ''1'')]\<rparr>"

definition demo_second :: bundle_pb where
  "demo_second = empty_bundle\<lparr>bn_timestamp := 2000, bn_medallion := 88, bn_chain_start := 2000,
     bn_verify_key := [9], bn_changes := [ChEntry (demo_entry ''a'' ''2'')]\<rparr>"

definition demo_third :: bundle_pb where
  "demo_third = empty_bundle\<lparr>bn_timestamp := 3000, bn_medallion := 77, bn_chain_start := 3000,
     bn_verify_key := [7], bn_changes := [ChEntry (demo_amount ''40''), ChEntry (demo_amount ''2'')]\<rparr>"

definition demo_ext :: ext where
  "demo_ext = ref_ext\<lparr>
     x_bundle_parse := (\<lambda>bs. if bs = [1] then Inr demo_first else if bs = [2] then Inr demo_second
       else if bs = [3] then Inr demo_third else Inl ValueError),
     x_verify := (\<lambda>_ _. Inr ()), x_blake2b := (\<lambda>_. [])\<rparr>"

definition demo_b1 :: bytes where "demo_b1 = replicate 64 0 @ [1]"
definition demo_b2 :: bytes where "demo_b2 = replicate 64 0 @ [2]"

definition demo_b3 :: bytes where "demo_b3 = replicate 64 0 @ [3]"

definition demo_clock :: "int \<Rightarrow> int" where "demo_clock n = 5000 + n"

abbreviation demo_runs :: "((int \<Rightarrow> int) \<times> bytes) list" where
  "demo_runs \<equiv> [(demo_clock, demo_b1), (demo_clock, demo_b2)]"

abbreviation demo_swapped :: "((int \<Rightarrow> int) \<times> bytes) list" where
  "demo_swapped \<equiv> [(demo_clock, demo_b2), (demo_clock, demo_b1)]"

abbreviation demo_sums :: "((int \<Rightarrow> int) \<times> bytes) list" where
  "demo_sums \<equiv> [(demo_clock, demo_b3)]"

abbreviation demo_adder :: muid where "demo_adder \<equiv> Muid (-1) (-1) 14"

abbreviation demo_root :: muid where "demo_root \<equiv> Muid (-1) (-1) 4"

lemma demo_scans: "scans_ok demo_ext" and demo_keys: "key_codec_ok demo_ext"
  using ref_ext_scans ref_ext_keys by (simp_all add: demo_ext_def scans_ok_def key_codec_ok_def)

lemma demo_changes:
  "changes_of demo_ext demo_b1 = [Delivery 0 1000 77 1 (ChEntry (demo_entry ''a'' ''1''))]"
  "changes_of demo_ext demo_b2 = [Delivery 0 2000 88 1 (ChEntry (demo_entry ''a'' ''2''))]"
  "changes_of demo_ext demo_b3 =
    [Delivery 0 3000 77 1 (ChEntry (demo_amount ''40'')), Delivery 0 3000 77 2 (ChEntry (demo_amount ''2''))]"
  by (simp_all add: changes_of_def get_builder_def demo_b1_def demo_b2_def demo_b3_def demo_ext_def demo_first_def
      demo_second_def demo_third_def empty_bundle_def)

lemma demo_placed:
  "placement_from_builder (demo_entry ''a'' v) 1000 77 1 =
    Inr (Placement demo_root (MidKey (KStr ''a'')) (Muid 1000 77 1) None)"
  "placement_from_builder (demo_entry ''a'' v) 2000 88 1 =
    Inr (Placement demo_root (MidKey (KStr ''a'')) (Muid 2000 88 1) None)"
  "placement_from_builder (demo_amount v) 3000 77 1 = Inr (Placement demo_adder MidNone (Muid 3000 77 1) None)"
  "placement_from_builder (demo_amount v) 3000 77 2 = Inr (Placement demo_adder MidNone (Muid 3000 77 2) None)"
  by code_simp+

lemma demo_middle: "middle_ok (MidKey (KStr ''a''))" by code_simp

lemma demo_fields: "en_behavior (demo_entry k v) = DIRECTORY" "en_behavior (demo_amount v) = ACCUMULATOR"
  "bn_encrypted demo_third = []" "bn_encrypted demo_first = []" "bn_encrypted demo_second = []"
  by (simp_all add: demo_entry_def demo_amount_def demo_first_def demo_second_def demo_third_def empty_bundle_def)

lemma demo_plain: "plain_bundle demo_ext demo_b1" "plain_bundle demo_ext demo_b2" "plain_bundle demo_ext demo_b3"
  by (simp_all add: plain_bundle_def get_builder_def demo_b1_def demo_b2_def demo_b3_def demo_ext_def demo_fields)

lemma demo_sound: "sound_bundles demo_ext (\<lambda>_. 1) [demo_b1, demo_b2]"
  using demo_middle
  by (simp add: sound_bundles_def all_changes_def demo_changes demo_placed demo_plain in_order_def change_address_of_def
      change_muid_def valid_muid_def muid_consts placement_ok_def valid_time_def behavior_kind_def demo_fields behavior_defs)
lemma demo_runs_stored:
  "\<exists>s. receive_all demo_ext demo_runs (empty_store True) = Some s \<and> get_bundles demo_ext s None = [demo_b1, demo_b2]"
proof -
  have "(case receive_all demo_ext demo_runs (empty_store True) of
      Some s \<Rightarrow> get_bundles demo_ext s None = [demo_b1, demo_b2] | None \<Rightarrow> False)" by code_simp
  then show ?thesis by (auto split: option.splits)
qed

lemma demo_runs_ok: "receive_all demo_ext demo_runs (empty_store True) \<noteq> None"
  using demo_runs_stored by auto

lemma demo_stored:
  obtains s where "receive_all demo_ext demo_runs (empty_store True) = Some s"
    "get_bundles demo_ext s None = [demo_b1, demo_b2]" "sound_store demo_ext s"
  using demo_runs_stored receive_all_linked [of demo_ext demo_runs "empty_store True"] demo_scans
  by (auto simp: sound_store_def)

lemma demo_infos: "bundle_info_of demo_ext demo_b1 = \<lparr>bi_timestamp = 1000, bi_medallion = 77, bi_chain_start = 1000,
    bi_previous = 0, bi_hex_hash = Some [], bi_comment = Some []\<rparr>"
  "bundle_info_of demo_ext demo_b2 = \<lparr>bi_timestamp = 2000, bi_medallion = 88, bi_chain_start = 2000,
    bi_previous = 0, bi_hex_hash = Some [], bi_comment = Some []\<rparr>"
  by code_simp+

lemma demo_swapped_ok: "receive_all demo_ext demo_swapped (empty_store True) \<noteq> None" by code_simp

lemma demo_sums_sound: "sound_bundles demo_ext (\<lambda>_. 0) [demo_b3]"
  by (simp add: sound_bundles_def all_changes_def demo_changes demo_placed demo_plain in_order_def change_address_of_def
      change_muid_def valid_muid_def muid_consts placement_ok_def valid_time_def behavior_kind_def demo_fields behavior_defs)

lemma demo_sums_ok: "receive_all demo_ext demo_sums (empty_store True) \<noteq> None" by code_simp

end
