(* ===== verification/Demo_Database.thy ===== *)
theory Demo_Database
  imports Commits Demo
begin

text \<open>
  A database with a chain that has only its first bundle, and an external world that reads back what this
  database writes next: one tag byte and the time of the bundle.
\<close>

definition own_entry :: entry_pb where
  "own_entry = set_entry demo_root (KStr ''b'') (ValInteger ''5'')"

definition own_link :: bundle_info where
  "own_link = \<lparr>bi_timestamp = 1000, bi_medallion = 77, bi_chain_start = 1000, bi_previous = 0, bi_hex_hash = Some [],
     bi_comment = Some []\<rparr>"

text \<open>A world in which the database writes the entry \<open>e\<close> next, after a first bundle with the changes \<open>cs\<close>.\<close>

definition world_bundle :: "entry_pb \<Rightarrow> int \<Rightarrow> bundle_pb" where
  "world_bundle e t = next_bundle own_link [] [ChEntry e] None t"

definition own_world :: "entry_pb \<Rightarrow> change_pb list \<Rightarrow> ext" where
  "own_world e cs = demo_ext\<lparr>x_bundle_ser := (\<lambda>pb. 99 # be_bytes 8 (bn_timestamp pb)),
     x_bundle_parse := (\<lambda>bs. case bs of
        b # rest \<Rightarrow> if b = 99 then Inr (world_bundle e (be_int rest))
          else Inr (empty_bundle\<lparr>bn_timestamp := 1000, bn_medallion := 77, bn_chain_start := 1000, bn_verify_key := [7],
            bn_changes := cs\<rparr>)
      | [] \<Rightarrow> Inl ValueError)\<rparr>"

abbreviation own_bundle :: "int \<Rightarrow> bundle_pb" where
  "own_bundle \<equiv> world_bundle own_entry"

abbreviation own_ext :: ext where
  "own_ext \<equiv> own_world own_entry []"

definition own_start :: bytes where
  "own_start = replicate 64 0 @ [1]"

lemma own_sealed:
  assumes "time_ok t" "0 \<le> t"
  shows "sealed (own_world e cs) sk (world_bundle e t)"
proof -
  have "bn_timestamp (world_bundle e t) = t" by (simp add: world_bundle_def next_bundle_def)
  moreover have "be_int (be_bytes 8 t) = t" using assms by (simp add: be_int_be_bytes time_ok_def muid_consts)
  ultimately show ?thesis
    by (simp add: sealed_def get_builder_def own_world_def demo_ext_def ref_ext_def)
qed

definition own_store :: mem_store where
  "own_store = (empty_store True)\<lparr>st_bundles := [([1000, 77, 1000], (own_link, own_start))],
     st_chain_infos := [(Chain 77 1000, own_link)], st_identities := [(Chain 77 1000, [])],
     st_verify_keys := [(Chain 77 1000, [7])]\<rparr>"

lemma own_stored: "receive_all own_ext [(demo_clock, own_start)] (empty_store True) = Some own_store"
  by code_simp

definition own_database :: database where
  "own_database = (new_database own_store ''me'' True False (1000, [2000, 3000, 4000, 5000, 6000]) [] [] [] 1 (\<lambda>_. True))
     \<lparr>db_last_link := Some own_link, db_signing_key := Some [7]\<rparr>"


lemma own_scans: "scans_ok (own_world e cs)" "key_codec_ok (own_world e cs)"
  using demo_scans demo_keys by (simp_all add: own_world_def scans_ok_def key_codec_ok_def)

lemma own_set: "(case directory_set own_ext demo_clock get_root (OneKey (KStr ''b'')) (UserVal (UInt 5)) None None own_database of
    (Inr r, d') \<Rightarrow> fst (tick d') = Inr 4000 | _ \<Rightarrow> False)"
  by code_simp

lemma own_start_changes: "sound_bundles own_ext (\<lambda>_. 1) [own_start]" "all_changes own_ext [own_start] = []"
  by (simp_all add: sound_bundles_def all_changes_def changes_of_def plain_bundle_def get_builder_def own_start_def
      own_world_def empty_bundle_def)

lemma own_fields: "rl_store own_database = own_store" "db_last_link own_database = Some own_link"
  "db_signing_key own_database = Some [7]" "db_active own_database = None" "clock_ok own_database"
  by (simp_all add: own_database_def new_database_def clock_ok_def time_ok_def muid_consts)

definition own_bundler :: bundler where
  "own_bundler = \<lparr>bb_changes = [], bb_count = 0, bb_open = True, bb_comment = None, bb_symmetric_key = None,
     bb_decomposition = None\<rparr>"

definition open_database :: database where
  "open_database = own_database\<lparr>db_bundlers := [(0, own_bundler)]\<rparr>"

lemma own_commit: "(case add_change 0 (SbEntry own_entry) open_database of
    (Inr r, d1) \<Rightarrow> (case commit own_ext demo_clock True 0 d1 of (Inr (), d2) \<Rightarrow> True | _ \<Rightarrow> False) | _ \<Rightarrow> False)"
  by code_simp

definition closed_database :: database where
  "closed_database = (new_database (empty_store True) ''me'' False False (1000, [2000]) [] [] [] 1 (\<lambda>_. True))
     \<lparr>db_bundlers := [(0, own_bundler\<lparr>bb_changes := [ChEntry own_entry], bb_count := 1\<rparr>)]\<rparr>"

lemma closed_enter: "fst (db_enter own_ext demo_clock closed_database) = Inl RuntimeError"
  "(case dget (db_bundlers (snd (db_enter own_ext demo_clock closed_database))) 0 of
     Some b \<Rightarrow> bb_open b \<and> bb_changes b \<noteq> [] | None \<Rightarrow> False)"
  by code_simp+

section \<open>A database with a total\<close>

abbreviation sum_ext :: ext where
  "sum_ext \<equiv> own_world (amount_entry demo_adder (-42)) [ChEntry (demo_amount ''42'')]"

definition sum_store :: mem_store where
  "sum_store = own_store\<lparr>
     st_placements := [(muid_bytes demo_adder @ muid_bytes (Muid 1000 77 1) @ replicate 8 0, Muid 1000 77 1)],
     st_locations := [(LocationKey (Muid 1000 77 1) (Muid 1000 77 1),
       Some (muid_bytes demo_adder @ muid_bytes (Muid 1000 77 1) @ replicate 8 0))],
     st_entries := [(Muid 1000 77 1, demo_amount ''42'')], st_totals := [(muid_bytes demo_adder, 42)]\<rparr>"

lemma sum_stored: "receive_all sum_ext [(demo_clock, own_start)] (empty_store True) = Some sum_store"
  by code_simp

definition sum_database :: database where
  "sum_database = own_database\<lparr>rl_store := sum_store\<rparr>"


definition sum_adder :: container where
  "sum_adder = \<lparr>ct_muid = RefMuid demo_adder, ct_behavior = ACCUMULATOR\<rparr>"

lemma sum_changes: "all_changes sum_ext [own_start] = [Delivery 0 1000 77 1 (ChEntry (demo_amount ''42''))]"
  "sound_bundles sum_ext (\<lambda>_. 0) [own_start]"
proof -
  show all: "all_changes sum_ext [own_start] = [Delivery 0 1000 77 1 (ChEntry (demo_amount ''42''))]"
    by (simp add: all_changes_def changes_of_def get_builder_def own_start_def own_world_def empty_bundle_def)
  have "placement_from_builder (demo_amount ''42'') 1000 77 1 = Inr (Placement demo_adder MidNone (Muid 1000 77 1) None)"
    by code_simp
  moreover have "plain_bundle sum_ext own_start"
    by (simp add: plain_bundle_def get_builder_def own_start_def own_world_def empty_bundle_def)
  ultimately show "sound_bundles sum_ext (\<lambda>_. 0) [own_start]"
    by (simp add: sound_bundles_def all in_order_def change_address_of_def change_muid_def valid_muid_def muid_consts
        placement_ok_def valid_time_def behavior_kind_def demo_fields behavior_defs)
qed

lemma sum_fields: "rl_store sum_database = sum_store" "db_last_link sum_database = Some own_link"
  "db_signing_key sum_database = Some [7]" "db_active sum_database = None" "clock_ok sum_database"
  "fst (db_clock sum_database) = 1000" "get_billionths sum_ext sum_store demo_adder (-1) = Inr 42"
  using own_fields by (simp_all add: sum_database_def clock_ok_def own_database_def new_database_def sum_store_def get_billionths_def)

lemma sum_cleared: "\<exists>r d'. accumulator_clear sum_ext demo_clock sum_adder None None sum_database = (Inr r, d')"
proof -
  have "case add_simple_entry sum_ext demo_clock sum_adder NoKey (UserVal (UInt (- 42))) None None sum_database of
      (Inr r, d') \<Rightarrow> True | _ \<Rightarrow> False" by code_simp
  then show ?thesis
    using cleared_amount [of sum_ext sum_database demo_adder 42 sum_adder] sum_fields(1,7)
    by (auto simp: sum_adder_def split: prod.splits sum.splits)
qed

end
