(* ===== verification/Sequences.thy ===== *)
theory Sequences
  imports Simple_Containers
begin

text \<open>
  \<open>python/gink/impl/sequence.py\<close>: a list of entries ordered by time, which can be moved to another time.
  The key of an entry is its position and its address.
\<close>

type_synonym sequence_key = "int \<times> muid"

section \<open>Reading\<close>

definition ordered_entries ::
  "ext \<Rightarrow> container \<Rightarrow> int \<Rightarrow> int option \<Rightarrow> int \<Rightarrow> bool \<Rightarrow> int \<Rightarrow> positioned_entry list db" where
  "ordered_entries E self as_of lim off desc after =
    py_bind (resolve_ref E (ct_muid self)) (\<lambda>u.
      py_read (\<lambda>d. get_ordered_entries E (rl_store d) u as_of lim off desc after))"

definition positioned_item :: "ext \<Rightarrow> positioned_entry \<Rightarrow> (sequence_key \<times> item) db" where
  "positioned_item E p =
    py_bind (get_occupant E (pe_builder p) (Some (pe_entry_muid p))) (\<lambda>x.
      py_return ((pe_position p, pe_entry_muid p), x))"

text \<open>\<open>at\<close>: a negative index counts from the end.\<close>

definition sequence_at :: "ext \<Rightarrow> container \<Rightarrow> int \<Rightarrow> generic_ts \<Rightarrow> (sequence_key \<times> item) db" where
  "sequence_at E self index as_of =
    py_bind (db_resolve E as_of) (\<lambda>t.
    py_bind (ordered_entries E self t (Some 1) (if index < 0 then NOT index else index) (index < 0) 0) (\<lambda>ps.
    case ps of [] \<Rightarrow> py_raise IndexError | p # _ \<Rightarrow> positioned_item E p))"

fun sequence_items_loop :: "ext \<Rightarrow> positioned_entry list \<Rightarrow> (sequence_key \<times> item) list db" where
  "sequence_items_loop E [] = py_return []"
| "sequence_items_loop E (p # ps) =
    py_bind (positioned_item E p) (\<lambda>x. py_bind (sequence_items_loop E ps) (\<lambda>rest. py_return (x # rest)))"

text \<open>Whether a given time is truthy: nothing, zero and the empty text are not.\<close>

definition given_ts :: "generic_ts \<Rightarrow> bool" where
  "given_ts ts \<longleftrightarrow> ts \<noteq> TsNone \<and> ts \<noteq> TsInt 0 \<and> ts \<noteq> TsText [] \<and> ts \<noteq> TsDelta 0"

definition sequence_items :: "ext \<Rightarrow> container \<Rightarrow> generic_ts \<Rightarrow> generic_ts \<Rightarrow> (sequence_key \<times> item) list db" where
  "sequence_items E self as_of after =
    py_bind (db_resolve E as_of) (\<lambda>t.
    py_bind (if given_ts after then db_resolve E after else py_return 0) (\<lambda>a.
    py_bind (ordered_entries E self t None 0 False a) (sequence_items_loop E)))"

definition sequence_keys :: "ext \<Rightarrow> container \<Rightarrow> generic_ts \<Rightarrow> generic_ts \<Rightarrow> sequence_key list db" where
  "sequence_keys E self as_of after = py_bind (sequence_items E self as_of after) (\<lambda>kvs. py_return (map fst kvs))"

definition sequence_values :: "ext \<Rightarrow> container \<Rightarrow> generic_ts \<Rightarrow> generic_ts \<Rightarrow> item list db" where
  "sequence_values E self as_of after = py_bind (sequence_items E self as_of after) (\<lambda>kvs. py_return (map snd kvs))"

definition sequence_size :: "ext \<Rightarrow> container \<Rightarrow> generic_ts \<Rightarrow> int db" where
  "sequence_size E self as_of =
    py_bind (db_resolve E as_of) (\<lambda>t.
    py_bind (ordered_entries E self t None 0 False 0) (\<lambda>ps. py_return (int (length ps))))"

fun index_loop :: "ext \<Rightarrow> item \<Rightarrow> int option \<Rightarrow> int \<Rightarrow> positioned_entry list \<Rightarrow> int db" where
  "index_loop E val stop index [] = py_raise ValueError"
| "index_loop E val stop index (p # ps) =
    py_bind (positioned_item E p) (\<lambda>(_, found).
    py_bind (item_eq E found val) (\<lambda>same.
      if same then py_return index
      else if (case stop of None \<Rightarrow> False | Some s \<Rightarrow> s \<le> index) then py_raise ValueError
      else index_loop E val stop (index + 1) ps))"

definition sequence_index :: "ext \<Rightarrow> container \<Rightarrow> item \<Rightarrow> int \<Rightarrow> int option \<Rightarrow> generic_ts \<Rightarrow> int db" where
  "sequence_index E self val start stop as_of =
    py_bind (db_resolve E as_of) (\<lambda>t.
    py_bind (ordered_entries E self t None start False 0) (index_loop E val stop start))"

text \<open>\<open>try ... except\<close> for one exception.\<close>

definition py_except :: "py_error \<Rightarrow> ('s, 'a) py \<Rightarrow> ('s, 'a) py \<Rightarrow> ('s, 'a) py" where
  "py_except e handler m = (\<lambda>s. case m s of (Inl e', s') \<Rightarrow> if e' = e then handler s' else (Inl e', s') | r \<Rightarrow> r)"

definition sequence_contains :: "ext \<Rightarrow> container \<Rightarrow> item \<Rightarrow> bool db" where
  "sequence_contains E self val =
    py_except ValueError (py_return False)
      (py_bind (sequence_index E self val 0 None TsNone) (\<lambda>_. py_return True))"

section \<open>Positions\<close>

text \<open>\<open>_position\<close>: a time before or after the entry at an index, drawn at random from the room there is.\<close>

definition between :: "int \<Rightarrow> int \<Rightarrow> int db" where
  "between p q =
    (if p = q then py_raise ValueError
     else let p1 = min p q; p2 = max p q
       in if p2 - p1 < 2 then py_raise ValueError else randint (p1 + 1) (p2 - 1))"

definition position_between :: "ext \<Rightarrow> container \<Rightarrow> int \<Rightarrow> int \<Rightarrow> int db" where
  "position_between E self after before =
    py_bind (sequence_at E self after TsNone) (\<lambda>at1.
    py_bind (sequence_at E self before TsNone) (\<lambda>at2. between (fst (fst at1)) (fst (fst at2))))"

definition position_first :: "ext \<Rightarrow> container \<Rightarrow> int db" where
  "position_first E self =
    py_bind (sequence_at E self 0 TsNone) (\<lambda>x.
    py_bind (randint 0 1000000) (\<lambda>r. py_return (fst (fst x) - r)))"

definition position_last :: "ext \<Rightarrow> container \<Rightarrow> int db" where
  "position_last E self =
    py_bind (sequence_at E self (-1) TsNone) (\<lambda>x.
    py_bind (randint 0 1000) (\<lambda>r. py_return (fst (fst x) + r)))"

definition position_before :: "ext \<Rightarrow> container \<Rightarrow> int \<Rightarrow> int db" where
  "position_before E self before =
    (if before = 0 then position_first E self else position_between E self (before - 1) before)"

definition position_after :: "ext \<Rightarrow> container \<Rightarrow> int \<Rightarrow> int db" where
  "position_after E self after =
    py_bind (if 0 \<le> after
             then py_except IndexError (py_return None)
               (py_bind (sequence_at E self (after + 1) TsNone) (\<lambda>_. py_return (Some (after + 1))))
             else py_return None) (\<lambda>before.
    case before of
      Some b \<Rightarrow> position_between E self after b
    | None \<Rightarrow> if 0 \<le> after \<or> after = -1 then position_last E self
        else if after + 1 = 0 then position_first E self
        else position_between E self after (after + 1))"

section \<open>Writing\<close>

definition sequence_append ::
  "ext \<Rightarrow> (int \<Rightarrow> int) \<Rightarrow> container \<Rightarrow> entry_value \<Rightarrow> generic_ts \<Rightarrow> nat option \<Rightarrow> string option \<Rightarrow> ref db" where
  "sequence_append E now self val expiry bundler comment =
    add_entry_on E now (ct_muid self) (ct_behavior self) NoKey val None expiry bundler comment"

definition sequence_insert ::
  "ext \<Rightarrow> (int \<Rightarrow> int) \<Rightarrow> container \<Rightarrow> int \<Rightarrow> entry_value \<Rightarrow> generic_ts \<Rightarrow> nat option \<Rightarrow> string option \<Rightarrow> ref db" where
  "sequence_insert E now self index val expiry bundler comment =
    py_bind (position_before E self index) (\<lambda>effective.
      add_entry_on E now (ct_muid self) (ct_behavior self) NoKey val (Some effective) expiry bundler comment)"

text \<open>One expiry for all, or one for each; a text is iterable too, so it is taken apart.\<close>

datatype expiries = OneExpiry generic_ts | EachExpiry "generic_ts list"

fun expiry_list :: "expiries \<Rightarrow> generic_ts list option" where
  "expiry_list (EachExpiry ts) = Some ts"
| "expiry_list (OneExpiry (TsText s)) = Some (map (\<lambda>c. TsText [c]) s)"
| "expiry_list (OneExpiry ts) = None"

fun expiry_at :: "expiries \<Rightarrow> nat \<Rightarrow> generic_ts result" where
  "expiry_at e i =
    (case (expiry_list e, e) of
      (Some ts, _) \<Rightarrow> if i < length ts then Inr (ts ! i) else Inl IndexError
    | (None, OneExpiry ts) \<Rightarrow> Inr ts
    | (None, EachExpiry ts) \<Rightarrow> Inl IndexError)"

fun extend_loop ::
  "ext \<Rightarrow> (int \<Rightarrow> int) \<Rightarrow> container \<Rightarrow> nat \<Rightarrow> expiries \<Rightarrow> nat \<Rightarrow> entry_value list \<Rightarrow> unit db" where
  "extend_loop E now self n expiries i [] = py_return ()"
| "extend_loop E now self n expiries i (x # xs) =
    py_bind (py_lift (expiry_at expiries i)) (\<lambda>expiry.
    py_bind (if given_ts expiry then py_bind (db_resolve E expiry) (\<lambda>t. py_return (TsInt t)) else py_return TsNone) (\<lambda>ts.
    py_then (sequence_append E now self x ts (Some n) None) (extend_loop E now self n expiries (Suc i) xs)))"

definition sequence_extend ::
  "ext \<Rightarrow> (int \<Rightarrow> int) \<Rightarrow> container \<Rightarrow> entry_value list \<Rightarrow> expiries \<Rightarrow> nat option \<Rightarrow> string option \<Rightarrow> nat db" where
  "sequence_extend E now self xs expiries bundler comment =
    py_bind (pick_bundler bundler comment) (\<lambda>nb.
    py_then (extend_loop E now self (fst nb) expiries 0 xs)
      (py_then (finish_if_any E now nb) (py_return (fst nb))))"

definition sequence_init ::
  "ext \<Rightarrow> (int \<Rightarrow> int) \<Rightarrow> muid_arg \<Rightarrow> entry_value list option \<Rightarrow> nat option \<Rightarrow> string option \<Rightarrow> container db" where
  "sequence_init E now arg contents bundler comment =
    py_bind (pick_bundler bundler comment) (\<lambda>nb.
      construct E now SEQUENCE arg nb (\<lambda>self created.
        case contents of
          None \<Rightarrow> py_return ()
        | Some xs \<Rightarrow> py_then (clear_container E now self (Some (fst nb)) None)
            (py_then (sequence_extend E now self xs (OneExpiry TsNone) (Some (fst nb)) None) (py_return ()))))"

text \<open>Where \<open>yank\<close> puts the entry: a position before or after an index, a time, or nowhere.\<close>

definition destination :: "ext \<Rightarrow> container \<Rightarrow> generic_ts \<Rightarrow> int db" where
  "destination E self dest =
    (case dest of
      TsNone \<Rightarrow> py_return 0
    | TsInt n \<Rightarrow>
        if n = -1 then tick
        else if n < 1000000000000000 then (if 0 \<le> n then position_before E self n else position_after E self n)
        else db_resolve E dest
    | _ \<Rightarrow> db_resolve E dest)"

definition yank ::
  "ext \<Rightarrow> (int \<Rightarrow> int) \<Rightarrow> container \<Rightarrow> ref \<Rightarrow> generic_ts \<Rightarrow> nat option \<Rightarrow> string option \<Rightarrow> ref db" where
  "yank E now self r dest bundler comment =
    py_bind (pick_bundler bundler comment) (\<lambda>nb.
    py_bind (pb_of_ref E (ct_muid self)) (\<lambda>container.
    py_bind (pb_of_ref E r) (\<lambda>entry.
    py_bind (destination E self dest) (\<lambda>d.
    py_bind (add_change (fst nb) (SbChange (ChMovement \<lparr>mv_container = container, mv_entry = entry, mv_dest = d,
        mv_purge = False\<rparr>))) (\<lambda>change_muid.
    py_then (finish E now nb) (py_return change_muid))))))"

definition sequence_pop ::
  "ext \<Rightarrow> (int \<Rightarrow> int) \<Rightarrow> container \<Rightarrow> int \<Rightarrow> generic_ts \<Rightarrow> nat option \<Rightarrow> string option \<Rightarrow> item db" where
  "sequence_pop E now self index dest bundler comment =
    py_bind (sequence_at E self index TsNone) (\<lambda>(key, x).
    py_then (yank E now self (RefMuid (snd key)) dest bundler comment) (py_return x))"

fun find_item :: "ext \<Rightarrow> item \<Rightarrow> positioned_entry list \<Rightarrow> muid db" where
  "find_item E val [] = py_raise ValueError"
| "find_item E val (p # ps) =
    py_bind (positioned_item E p) (\<lambda>(_, found).
    py_bind (item_eq E found val) (\<lambda>same.
      if same then py_return (pe_entry_muid p) else find_item E val ps))"

definition sequence_remove ::
  "ext \<Rightarrow> (int \<Rightarrow> int) \<Rightarrow> container \<Rightarrow> item \<Rightarrow> generic_ts \<Rightarrow> nat option \<Rightarrow> string option \<Rightarrow> ref db" where
  "sequence_remove E now self val dest bundler comment =
    py_bind tick (\<lambda>t.
    py_bind (ordered_entries E self t None 0 False 0) (\<lambda>ps.
    py_bind (find_item E val ps) (\<lambda>u. yank E now self (RefMuid u) dest bundler comment)))"

end
