(* ===== verification/Container_Laws.thy ===== *)
theory Container_Laws
  imports Demo_Database Sequences Attributions
begin

text \<open>
  What the containers promise of their stores: a sequence is indexed like a Python list, an insertion lands
  between its neighbours, and the history of a key ends.
\<close>

section \<open>Limits and offsets\<close>

text \<open>What the loop over the placements makes of one of them: an error, nothing, or an entry of the listing.\<close>

definition listed :: "ext \<Rightarrow> mem_store \<Rightarrow> muid \<Rightarrow> int \<Rightarrow> int \<Rightarrow> bytes \<Rightarrow> positioned_entry option result" where
  "listed E st container as_of clearance_time b =
    (case dget (st_placements st) b of
       None \<Rightarrow> Inl AssertionError
     | Some u \<Rightarrow>
         bindr (dindex (st_entries st) u) (\<lambda>e.
         bindr (placement_from_bytes E b SEQUENCE) (\<lambda>p.
           if as_of \<le> mu_timestamp (pl_placer p) \<or> mu_timestamp (pl_placer p) < clearance_time then Inr None
           else if (case pl_expiry p of None \<Rightarrow> False | Some x \<Rightarrow> x \<noteq> 0 \<and> x < as_of) then Inr None
           else bindr (removed_before E st container (pl_placer p) as_of) (\<lambda>gone.
             if gone then Inr None
             else case pl_middle p of
               MidQueue t \<Rightarrow>
                 Inr (Some \<lparr>pe_position = t, pe_positioner = pl_placer p, pe_entry_muid = u, pe_builder = e\<rparr>)
             | _ \<Rightarrow> Inl AssertionError))))"

lemma ordered_loop_step:
  "ordered_loop E st c t ct None 0 (b # bs) = bindr (listed E st c t ct b) (\<lambda>x.
    bindr (ordered_loop E st c t ct None 0 bs) (\<lambda>rest. Inr (case x of None \<Rightarrow> rest | Some p \<Rightarrow> p # rest)))"
proof -
  have "bindr m Inr = m" for m :: "positioned_entry list result" by (cases m) simp_all
  then show ?thesis
    by (auto simp: listed_def bindr_assoc Let_def split: option.split middle.split intro!: arg_cong2 [where f = bindr] ext)
qed

lemma ordered_loop_skip:
  assumes "listed E st c t ct b = Inr x" "0 < n" "x = None \<or> 0 < off"
  shows "ordered_loop E st c t ct (Some n) off (b # bs) =
    ordered_loop E st c t ct (Some n) (if x = None then off else off - 1) bs"
  using assms
  by (auto simp: listed_def bindr_Inr_iff split: option.splits if_splits middle.splits)

lemma ordered_loop_take:
  assumes "listed E st c t ct b = Inr (Some p)" "0 < n" "off \<le> 0"
  shows "ordered_loop E st c t ct (Some n) off (b # bs) =
    bindr (ordered_loop E st c t ct (Some (n - 1)) off bs) (\<lambda>rest. Inr (p # rest))"
  using assms
  by (auto simp: listed_def bindr_Inr_iff split: option.splits if_splits middle.splits)

lemma ordered_loop_all:
  "ordered_loop E st c t ct None 0 bs = Inr ps \<Longrightarrow>
    \<exists>f. (\<forall>b \<in> set bs. listed E st c t ct b = Inr (f b)) \<and> ps = List.map_filter f bs"
proof (induction bs arbitrary: ps)
  case Nil
  then show ?case by simp
next
  case (Cons b bs)
  obtain x rest where x: "listed E st c t ct b = Inr x" "ordered_loop E st c t ct None 0 bs = Inr rest"
    "ps = (case x of None \<Rightarrow> rest | Some p \<Rightarrow> p # rest)"
    using Cons.prems unfolding ordered_loop_step bindr_Inr_iff by auto
  obtain f where f: "\<forall>b \<in> set bs. listed E st c t ct b = Inr (f b)" "rest = List.map_filter f bs"
    using Cons.IH [OF x(2)] by blast
  let ?f = "\<lambda>b. case listed E st c t ct b of Inr y \<Rightarrow> y | Inl _ \<Rightarrow> None"
  have "List.map_filter ?f bs = List.map_filter f bs"
    using f(1) unfolding List.map_filter_def by (auto intro!: map_cong filter_cong)
  then have "ps = List.map_filter ?f (b # bs)" using x f(2) by (cases x) simp_all
  moreover have "\<forall>b' \<in> set (b # bs). listed E st c t ct b' = Inr (?f b')" using x f(1) by simp
  ultimately show ?case by (intro exI [of _ ?f] conjI)
qed

lemma ordered_loop_page:
  "\<forall>b \<in> set bs. listed E st c t ct b = Inr (f b) \<Longrightarrow> 0 \<le> off \<Longrightarrow> 0 \<le> n \<Longrightarrow>
    ordered_loop E st c t ct (Some n) off bs = Inr (take (nat n) (drop (nat off) (List.map_filter f bs)))"
proof (induction bs arbitrary: off n)
  case (Cons b bs)
  have IH: "0 \<le> off \<Longrightarrow> 0 \<le> n \<Longrightarrow>
    ordered_loop E st c t ct (Some n) off bs = Inr (take (nat n) (drop (nat off) (List.map_filter f bs)))" for off n
    using Cons by simp
  have b: "listed E st c t ct b = Inr (f b)" using Cons.prems(1) by simp
  show ?case
  proof (cases "n = 0")
    case n: False
    show ?thesis
    proof (cases "f b = None \<or> 0 < off")
      case True
      then show ?thesis
        using ordered_loop_skip [OF b _ True] IH n Cons.prems(2,3) 
        by (auto simp: nat_diff_distrib drop_Cons' simp del: ordered_loop.simps split: option.split)
    next
      case False
      then obtain p where p: "f b = Some p" by auto
      have "nat n = Suc (nat (n - 1))" using Cons.prems(3) n by simp
      then show ?thesis
        using ordered_loop_take [of E st c t ct b p n off bs] b p IH [of off "n - 1"] n False Cons.prems(2,3)
          by (simp del: ordered_loop.simps)
    qed
  qed simp
qed simp

lemma scan_rev:
  assumes "scan_ok id scan" "distinct ks"
  shows "scan ks lo hi True = rev (scan ks lo hi False)"
proof -
  have "rev (scan ks lo hi True) = scan ks lo hi False"
    using scan_asc [OF assms, of lo hi] scan_desc [OF assms, of lo hi]
      scan_distinct [OF assms, of lo hi] scan_set [OF assms, of lo hi]
    by (intro sorted_distinct_set_unique) simp_all
  then show ?thesis by (metis rev_rev_ident)
qed

text \<open>A page of the listing, from either end.\<close>

lemma ordered_page:
  assumes E: "scans_ok E" and st: "dict_ok (st_placements st)"
    and full: "get_ordered_entries E st c t None 0 False a = Inr ps" and "0 \<le> off" "0 \<le> n"
  shows "get_ordered_entries E st c t (Some n) off desc a = Inr (take (nat n) (drop (nat off) (if desc then rev ps else ps)))"
proof -
  obtain ct lo hi where parts: "get_time_of_prior_clear E st c t = Inr ct" "encode_muts (Some a) = Inr lo"
    "encode_muts (Some t) = Inr hi"
    using full by (auto simp: get_ordered_entries_def bindr_Inr_iff)
  let ?scan = "irange E (st_placements st) (Some (muid_bytes c @ lo)) (Some (muid_bytes c @ hi))"
  obtain f where f: "\<forall>b \<in> set (?scan False). listed E st c t ct b = Inr (f b)" "ps = List.map_filter f (?scan False)"
    using full parts ordered_loop_all [of E st c t ct "?scan False" ps] by (auto simp: get_ordered_entries_def)
  have rev: "?scan True = rev (?scan False)"
    using scan_rev [of "x_scan_bytes E"] E st by (simp add: scans_ok_def dict_ok_def)
  have "set (?scan desc) = set (?scan False)" "List.map_filter f (?scan desc) = (if desc then rev ps else ps)"
    using rev f(2) by (cases desc; simp add: List.map_filter_def rev_map rev_filter)+
  then show ?thesis using ordered_loop_page [of "?scan desc" E st c t ct f off n] f(1) parts assms(4,5)
    by (simp add: get_ordered_entries_def)
qed


text \<open>C24: Reading a sequence by index is indexing the list of its entries as of the time asked for, the way
  Python indexes a list: from the front, from the back with a negative index, and with an \<open>IndexError\<close>
  outside it; the clearances, expiries, movements and removals that the listing takes into account count the
  same in both directions.\<close>

theorem sequence_at_indexes:
  assumes E: "scans_ok E" and st: "dict_ok (st_placements (rl_store d1))"
    and t: "db_resolve E ts d = (Inr t, d1)" "resolve_ref E (ct_muid self) d1 = (Inr u, d1)"
    and full: "get_ordered_entries E (rl_store d1) u t None 0 False 0 = Inr ps"
  shows "sequence_at E self i ts d =
    (if - int (length ps) \<le> i \<and> i < int (length ps) then positioned_item E (ps ! nat (i mod int (length ps))) d1
     else (Inl IndexError, d1))"
proof -
  let ?n = "int (length ps)" and ?k = "if i < 0 then NOT i else i"
  have k: "0 \<le> ?k" by (simp add: not_int_def)
  have page: "get_ordered_entries E (rl_store d1) u t (Some 1) ?k (i < 0) 0 =
      Inr (take 1 (drop (nat ?k) (if i < 0 then rev ps else ps)))"
    using ordered_page [OF E st full k, of 1] by simp
  have first: "take (Suc 0) (drop j xs) = (if j < length xs then [xs ! j] else [])" for j and xs :: "positioned_entry list"
    by (simp add: take_Suc hd_drop_conv_nth)
  show ?thesis
  proof (cases "i < 0")
    case True
    have "nat (NOT i) = nat (- i - 1)" by (simp add: not_int_def)
    moreover have "i mod ?n = i + ?n" if "- ?n \<le> i"
      using that True mod_pos_pos_trivial [of "i + ?n" ?n] by simp
    ultimately show ?thesis
      using page t True
      by (auto simp: sequence_at_def ordered_entries_def py_bind_apply py_apply first rev_nth nat_less_iff)
        (auto simp: algebra_simps intro!: arg_cong [where f = "\<lambda>j. positioned_item E (ps ! j) d1"])
  next
    case False
    then show ?thesis
      using page t
      by (auto simp: sequence_at_def ordered_entries_def py_bind_apply py_apply first nat_less_iff)
  qed
qed


text \<open>A store with two entries in the root sequence, of which the second was put before the first.\<close>

definition list_root :: container where
  "list_root = \<lparr>ct_muid = RefMuid (Muid (-1) (-1) SEQUENCE), ct_behavior = SEQUENCE\<rparr>"

definition list_entry :: "string \<Rightarrow> entry_pb" where
  "list_entry v = empty_entry\<lparr>en_behavior := SEQUENCE, en_container := Some (MuidPb (-1) (-1) SEQUENCE),
     en_contains := ConValue (ValInteger v)\<rparr>"

definition list_place :: "int \<Rightarrow> muid \<Rightarrow> bytes" where
  "list_place t u = muid_bytes (Muid (-1) (-1) SEQUENCE) @ be_bytes 8 t @ muid_bytes u @ replicate 8 0"

definition list_store :: mem_store where
  "list_store = (empty_store True)\<lparr>
     st_placements := [(list_place 1200 (Muid 1000 77 1), Muid 1000 77 1), (list_place 1100 (Muid 1000 77 2), Muid 1000 77 2)],
     st_entries := [(Muid 1000 77 1, list_entry ''1''), (Muid 1000 77 2, list_entry ''2'')]\<rparr>"

definition list_database :: database where
  "list_database = own_database\<lparr>rl_store := list_store\<rparr>"

lemma list_listing: "get_ordered_entries own_ext list_store (Muid (-1) (-1) SEQUENCE) 2000 None 0 False 0 =
    Inr [\<lparr>pe_position = 1100, pe_positioner = Muid 1000 77 2, pe_entry_muid = Muid 1000 77 2, pe_builder = list_entry ''2''\<rparr>,
      \<lparr>pe_position = 1200, pe_positioner = Muid 1000 77 1, pe_entry_muid = Muid 1000 77 1, pe_builder = list_entry ''1''\<rparr>]"
  by code_simp

lemma sequence_at_indexes_witness:
  "fst (sequence_at own_ext list_root (-1) (TsStamped (Some 2000)) list_database) = Inr ((1200, Muid 1000 77 1), ItemValue (UInt 1)) \<and>
   fst (sequence_at own_ext list_root (-3) (TsStamped (Some 2000)) list_database) = Inl IndexError"
proof -
  have at: "db_resolve own_ext (TsStamped (Some 2000)) list_database = (Inr 2000, list_database)" by (simp add: py_apply)
  have u: "resolve_ref own_ext (ct_muid list_root) list_database = (Inr (Muid (-1) (-1) SEQUENCE), list_database)"
    by (simp add: list_root_def resolve_ref_def py_apply)
  have "dict_ok (st_placements list_store)" by code_simp
  then have st: "dict_ok (st_placements (rl_store list_database))" by (simp add: list_database_def)
  have full: "get_ordered_entries own_ext (rl_store list_database) (Muid (-1) (-1) SEQUENCE) 2000 None 0 False 0 =
      Inr [\<lparr>pe_position = 1100, pe_positioner = Muid 1000 77 2, pe_entry_muid = Muid 1000 77 2, pe_builder = list_entry ''2''\<rparr>,
      \<lparr>pe_position = 1200, pe_positioner = Muid 1000 77 1, pe_entry_muid = Muid 1000 77 1, pe_builder = list_entry ''1''\<rparr>]"
    using list_listing by (simp add: list_database_def)
  have "fst (positioned_item own_ext \<lparr>pe_position = 1200, pe_positioner = Muid 1000 77 1, pe_entry_muid = Muid 1000 77 1,
      pe_builder = list_entry ''1''\<rparr> list_database) = Inr ((1200, Muid 1000 77 1), ItemValue (UInt 1))" by code_simp
  then show ?thesis
    using sequence_at_indexes [OF own_scans(1) st at u full] by simp
qed

section \<open>The history of a key\<close>

lemma lookup_older:
  assumes "spec_lookup ds c k t = Some (u, e)" "\<forall>d \<in> set ds. in_order K d" "0 \<le> t" "time_ok t"
  shows "0 < mu_timestamp u" "mu_timestamp u < t"
proof -
  have l: "latest (writes (before t ds) c k) = Some (u, e)"
    using assms(1) by (auto simp: spec_lookup_def split: option.splits prod.splits if_splits)
  have placer: "pl_placer p = change_address_of d" if "entry_of d = Some (p, e')" "in_order K d" for d p e'
    using entry_address [OF that(2,1)] by (simp add: change_address_of_def)
  have "\<forall>v \<in> fst ` set (writes (before t ds) c k). valid_muid v"
    using assms(2) placer in_order_change by (fastforce simp: set_writes before_def change_muid_def)
  from latest_Some [OF l this] obtain d p where d: "d \<in> set (before t ds)" "entry_of d = Some (p, e)" "pl_placer p = u"
    by (auto simp: set_writes)
  then have "u = change_address_of d" "change_muid u" "muid_lt u (Muid t 0 0)"
    using assms(2) placer in_order_change by (fastforce simp: before_def)+
  then show "0 < mu_timestamp u" "mu_timestamp u < t"
    using assms(3,4) by (auto simp: change_muid_def valid_muid_def muid_lt_def time_ok_def muid_consts)
qed

text \<open>C21: The history of a key ends: going back from each entry to the time before it, the loop of
  \<open>get_attributions\<close> of a directory, which has no bound of its own, comes to the first entry (or to a
  clearance) and returns; what it yields goes strictly back in time.\<close>

theorem history_ends:
  assumes "scans_ok E" "key_codec_ok E" "sound_bundles E K (map snd rs)"
    and "receive_all E rs (empty_store True) = Some s"
    and "valid_muid c" "middle_ok k" "middle_kind k = K c" "K c \<noteq> 2" "time_ok t" "0 \<le> t"
  shows "case history_loop E s c k t of
      None \<Rightarrow> False
    | Some (Inl e) \<Rightarrow> True
    | Some (Inr ats) \<Rightarrow> sorted_wrt (\<lambda>a b. at_timestamp b < at_timestamp a) ats \<and> (\<forall>a \<in> set ats. at_timestamp a < t)"
  using assms(9,10)
proof (induction "nat t" arbitrary: t rule: less_induct)
  case less
  let ?ds = "all_changes E (map snd rs)"
  have ds: "\<forall>d \<in> set ?ds. in_order K d" using assms(3) by (simp add: sound_bundles_def)
  have look: "get_entry_by_key E s c k t = Inr (spec_lookup ?ds c k t)"
    by (rule lookup_refines [OF assms(1,2) received_holds [OF assms(2-4)] ds assms(5-8) less.prems(1)])
  show ?case
  proof (cases "t = 0 \<or> spec_lookup ?ds c k t = None")
    case True
    then show ?thesis using look by (subst history_loop.simps) auto
  next
    case False
    then obtain u e where u: "spec_lookup ?ds c k t = Some (u, e)" by auto
    note old = lookup_older [OF u ds less.prems(2,1)]
    have "nat (mu_timestamp u) < nat t" "time_ok (mu_timestamp u)" using old less.prems by (auto simp: time_ok_def)
    note IH = less.hyps [OF this(1,2)]
    show ?thesis
    proof (cases "attribution_of E s (mu_timestamp u) (mu_medallion u)")
      case (Inl err)
      then show ?thesis using False look u by (subst history_loop.simps) simp
    next
      case (Inr a)
      have a: "at_timestamp a = mu_timestamp u" using Inr by (auto simp: attribution_of_def result_simps)
      show ?thesis
        using IH False look u Inr a old
        by (subst history_loop.simps) (fastforce split: option.splits sum.splits)
    qed
  qed
qed

lemma history_ends_witness:
  "\<exists>s. receive_all demo_ext demo_runs (empty_store True) = Some s \<and>
    history_loop demo_ext s demo_root (MidKey (KStr ''a'')) 2500 \<noteq> None"
proof -
  obtain s where s: "receive_all demo_ext demo_runs (empty_store True) = Some s" using demo_runs_ok by blast
  then show ?thesis
    using history_ends [OF demo_scans demo_keys, where K = "\<lambda>_. 1" and rs = demo_runs and c = demo_root
        and k = "MidKey (KStr ''a'')" and t = 2500, OF _ s _ demo_middle] demo_sound
    by (auto simp: time_ok_def muid_consts valid_muid_def split: option.splits)
qed

section \<open>Positions\<close>

text \<open>C25: Inserting before an index other than the first places the new entry strictly between the
  two entries around it, as \<open>at\<close> reads them, whatever the random numbers.\<close>

theorem inserted_between:
  assumes "position_before E self i d = (Inr p, d')" "i \<noteq> 0"
  shows "\<exists>x y d1 d2. sequence_at E self (i - 1) TsNone d = (Inr x, d1) \<and> sequence_at E self i TsNone d1 = (Inr y, d2) \<and>
    min (fst (fst x)) (fst (fst y)) < p \<and> p < max (fst (fst x)) (fst (fst y))"
proof -
  obtain x y d1 d2 where xy: "sequence_at E self (i - 1) TsNone d = (Inr x, d1)"
    "sequence_at E self i TsNone d1 = (Inr y, d2)" "between (fst (fst x)) (fst (fst y)) d2 = (Inr p, d')"
    using assms by (auto simp: position_before_def position_between_def py_bind_Inr_iff)
  let ?lo = "min (fst (fst x)) (fst (fst y))" and ?hi = "max (fst (fst x)) (fst (fst y))"
  obtain n where p: "p = ?lo + 1 + n mod (?hi - ?lo - 1)" "2 \<le> ?hi - ?lo"
    using xy(3) by (auto simp: between_def Let_def randint_def py_apply split: if_splits list.splits)
  have "0 \<le> n mod (?hi - ?lo - 1)" "n mod (?hi - ?lo - 1) < ?hi - ?lo - 1"
    using p(2) by (simp_all only: pos_mod_sign pos_mod_bound)
  then have "?lo < p" "p < ?hi" using p(1) by linarith+
  then show ?thesis using xy(1,2) by blast
qed

lemma inserted_between_witness:
  "\<exists>p d'. position_before own_ext list_root 1 (list_database\<lparr>db_random := [5]\<rparr>) = (Inr p, d') \<and>
    (\<exists>x y :: sequence_key \<times> item. min (fst (fst x)) (fst (fst y)) < p \<and> p < max (fst (fst x)) (fst (fst y)))"
proof -
  have "case position_before own_ext list_root 1 (list_database\<lparr>db_random := [5]\<rparr>) of (Inr p, d') \<Rightarrow> True | _ \<Rightarrow> False"
    by code_simp
  then obtain p d' where "position_before own_ext list_root 1 (list_database\<lparr>db_random := [5]\<rparr>) = (Inr p, d')"
    by (auto split: prod.splits sum.splits)
  from this inserted_between [OF this] show ?thesis by auto
qed

end
