(* ===== verification/Demo_Resets.thy ===== *)
theory Demo_Resets
  imports Resets Container_Laws
begin

text \<open>
  A database whose first bundle set a key of the root directory, in a world that reads back the entry which deletes
  that key.
\<close>

definition gone_entry :: entry_pb where
  "gone_entry = \<lparr>en_container = Some (put_into demo_root), en_behavior = DIRECTORY, en_subject = SubKey (key_msg (KStr ''b'')),
     en_contains = ConDeletion True, en_expiry = 0, en_effective = 0, en_purge = False\<rparr>"

abbreviation gone_ext :: ext where
  "gone_ext \<equiv> own_world gone_entry [ChEntry own_entry]"

definition kept_place :: bytes where
  "kept_place = muid_bytes demo_root @ [26, 1, 98] @ muid_bytes (Muid 1000 77 1) @ replicate 8 0"

definition kept_store :: mem_store where
  "kept_store = own_store\<lparr>st_placements := [(kept_place, Muid 1000 77 1)],
     st_locations := [(LocationKey (Muid 1000 77 1) (Muid 1000 77 1), Some kept_place)],
     st_entries := [(Muid 1000 77 1, own_entry)]\<rparr>"

definition kept_database :: database where
  "kept_database = own_database\<lparr>rl_store := kept_store\<rparr>"

lemma kept_stored: "receive_all gone_ext [(demo_clock, own_start)] (empty_store True) = Some kept_store"
  by code_simp

lemma kept_changes: "all_changes gone_ext [own_start] = [Delivery 0 1000 77 1 (ChEntry own_entry)]"
  "sound_bundles gone_ext (\<lambda>_. 1) [own_start]"
proof -
  show all: "all_changes gone_ext [own_start] = [Delivery 0 1000 77 1 (ChEntry own_entry)]"
    by (simp add: all_changes_def changes_of_def get_builder_def own_start_def own_world_def empty_bundle_def)
  have "placement_from_builder own_entry 1000 77 1 = Inr (Placement demo_root (MidKey (KStr ''b'')) (Muid 1000 77 1) None)"
    by code_simp
  moreover have "plain_bundle gone_ext own_start"
    by (simp add: plain_bundle_def get_builder_def own_start_def own_world_def empty_bundle_def)
  moreover have "en_behavior own_entry = DIRECTORY" "valid_ukey (KStr ''b'')" by code_simp+
  ultimately show "sound_bundles gone_ext (\<lambda>_. 1) [own_start]"
    by (simp add: sound_bundles_def all in_order_def change_address_of_def change_muid_def valid_muid_def muid_consts
        placement_ok_def valid_time_def behavior_kind_def)
qed

lemma kept_fields: "rl_store kept_database = kept_store" "db_last_link kept_database = Some own_link"
  "db_signing_key kept_database = Some [7]" "clock_ok kept_database" "fst (db_clock kept_database) = 1000"
  using own_fields by (simp_all add: kept_database_def clock_ok_def own_database_def new_database_def)

lemma kept_lookup:
  assumes "time_ok t"
  shows "get_entry_by_key gone_ext kept_store demo_root (MidKey (KStr ''b'')) t =
    Inr (spec_lookup [Delivery 0 1000 77 1 (ChEntry own_entry)] demo_root (MidKey (KStr ''b'')) t)"
proof -
  have h: "holds gone_ext (\<lambda>_. 1) (all_changes gone_ext (map snd [(demo_clock, own_start)])) kept_store"
    by (rule received_holds [OF own_scans(2) _ kept_stored]) (use kept_changes(2) in simp)
  have k: "middle_ok (MidKey (KStr ''b''))" by code_simp
  show ?thesis
    using lookup_refines [OF own_scans h _ _ k _ _ assms] kept_changes
    by (simp add: sound_bundles_def valid_muid_def muid_consts)
qed

lemma kept_reads: "get_entry_by_key gone_ext kept_store demo_root (MidKey (KStr ''b'')) (-1) = Inr (Some (Muid 1000 77 1, own_entry))"
  "get_entry_by_key gone_ext kept_store demo_root (MidKey (KStr ''b'')) 500 = Inr None"
  "decode_entry_occupant gone_ext (Muid 1000 77 1) own_entry = Inr (OccValue (UInt 5))"
proof -
  have t: "time_ok (-1)" "time_ok 500" by (simp_all add: time_ok_def muid_consts)
  have "spec_lookup [Delivery 0 1000 77 1 (ChEntry own_entry)] demo_root (MidKey (KStr ''b'')) (-1) = Some (Muid 1000 77 1, own_entry)"
    "spec_lookup [Delivery 0 1000 77 1 (ChEntry own_entry)] demo_root (MidKey (KStr ''b'')) 500 = None" by code_simp+
  then show "get_entry_by_key gone_ext kept_store demo_root (MidKey (KStr ''b'')) (-1) = Inr (Some (Muid 1000 77 1, own_entry))"
    "get_entry_by_key gone_ext kept_store demo_root (MidKey (KStr ''b'')) 500 = Inr None"
    using kept_lookup [OF t(1)] kept_lookup [OF t(2)] by simp_all
qed code_simp

lemma kept_reset:
  "case reset_container gone_ext demo_clock get_root (TsStamped (Some 500)) (Some (KStr ''b'')) False None None kept_database of
     (Inr n, d') \<Rightarrow> fst (db_clock d') < 4000 | _ \<Rightarrow> False"
  by code_simp

text \<open>A bundle that cleared the root directory and set the key again, and a later one that set it to something else.\<close>

definition again_place :: bytes where
  "again_place = muid_bytes demo_root @ [26, 1, 98] @ muid_bytes (Muid 1000 77 2) @ replicate 8 0"

definition later_place :: bytes where
  "later_place = muid_bytes demo_root @ [26, 1, 98] @ muid_bytes (Muid 2000 77 1) @ replicate 8 0"

definition later_entry :: entry_pb where
  "later_entry = own_entry\<lparr>en_contains := ConValue (ValInteger ''6'')\<rparr>"

definition again_store :: mem_store where
  "again_store = (empty_store True)\<lparr>st_placements := [(again_place, Muid 1000 77 2), (later_place, Muid 2000 77 1)],
     st_entries := [(Muid 1000 77 2, own_entry), (Muid 2000 77 1, later_entry)],
     st_clearances := [(muid_bytes demo_root @ muid_bytes (Muid 1000 77 1), \<lparr>cl_container = put_into demo_root, cl_purge = False\<rparr>)]\<rparr>"

lemma again_reads:
  "get_entry_by_key own_ext again_store demo_root (MidKey (KStr ''b'')) 1500 = Inr (Some (Muid 1000 77 2, own_entry))"
  "get_time_of_prior_clear own_ext again_store demo_root 1500 = Inr 1000"
  "get_entry_by_key own_ext again_store demo_root (MidKey (KStr ''b'')) (-1) = Inr (Some (Muid 2000 77 1, later_entry))"
  "decode_entry_occupant own_ext (Muid 2000 77 1) later_entry = Inr (OccValue (UInt 6))"
  by code_simp+

lemma again_placed:
  assumes "(b, v) \<in> set (st_placements again_store)"
  obtains p where "b = place_key own_ext p" "placement_ok p" "change_muid (pl_placer p)" "pl_container p = demo_root"
    "pl_middle p = MidKey (KStr ''b'')" "v = pl_placer p" "dget (st_entries again_store) v \<noteq> None"
proof -
  let ?p = "\<lambda>v. Placement demo_root (MidKey (KStr ''b'')) v None"
  have ok: "place_key own_ext (?p (Muid 1000 77 2)) = again_place" "placement_ok (?p (Muid 1000 77 2))"
    "place_key own_ext (?p (Muid 2000 77 1)) = later_place" "placement_ok (?p (Muid 2000 77 1))" by code_simp+
  have "change_muid (Muid 1000 77 2)" "change_muid (Muid 2000 77 1)"
    by (simp_all add: change_muid_def valid_muid_def muid_consts)
  moreover have "b = again_place \<and> v = Muid 1000 77 2 \<or> b = later_place \<and> v = Muid 2000 77 1"
    using assms by (simp add: again_store_def)
  ultimately show ?thesis using ok that [of "?p v"] by (auto simp: again_store_def)
qed

lemma again_distinct: "distinct (dkeys (st_placements again_store))"
  by code_simp

lemma again_sound: "placed_ok own_ext (\<lambda>_. 1) again_store" "clears_ok again_store"
proof -
  have beh: "behavior_kind (en_behavior e) = Some 1" if "dget (st_entries again_store) v = Some e" for v e
  proof -
    have "en_behavior own_entry = DIRECTORY" "en_behavior later_entry = DIRECTORY" by code_simp+
    then show ?thesis using that by (auto simp: again_store_def behavior_kind_def split: if_splits)
  qed
  have "\<exists>p. b = place_key own_ext p \<and> placement_ok p \<and> change_muid (pl_placer p) \<and> middle_kind (pl_middle p) = 1 \<and>
      (middle_kind (pl_middle p) \<noteq> 2 \<longrightarrow> v = pl_placer p \<and> (\<exists>e. dget (st_entries again_store) v = Some e \<and>
        behavior_kind (en_behavior e) = Some (middle_kind (pl_middle p))))"
    if "dget (st_placements again_store) b = Some v" for b v
    by (rule again_placed [OF map_of_SomeD [OF that]]) (use beh in force)
  then show "placed_ok own_ext (\<lambda>_. 1) again_store"
    using again_distinct by (simp add: placed_ok_def dict_ok_def)
  have "change_muid (Muid 1000 77 1)" "valid_muid demo_root" by (simp_all add: change_muid_def valid_muid_def muid_consts)
  then show "clears_ok again_store" by (auto simp: clears_ok_def again_store_def dict_ok_def change_muid_def)
qed

end
