(* ===== verification/Reset_Laws.thy ===== *)
theory Reset_Laws
  imports Demo_Resets
begin

text \<open>
  What a reset of one key promises: it is found out from the same placements that lookups read, and after it the
  key holds again what it held at the time.
\<close>

section \<open>Scans\<close>

lemma last_key_in:
  assumes "scans_ok E" "distinct (dkeys d)" "get_last_key E d lo hi = Some b"
  shows "b \<in> set (dkeys d)" "in_bounds id lo hi b" "\<And>k. k \<in> set (dkeys d) \<Longrightarrow> in_bounds id lo hi k \<Longrightarrow> k \<le> b"
proof -
  have ok: "scan_ok id (x_scan_bytes E)" using assms(1) by (simp add: scans_ok_def)
  obtain rest where "irange E d lo hi True = b # rest"
    using assms(3) by (auto simp: get_last_key_def head_opt_def split: list.splits)
  from scan_rev_hd [OF ok assms(2) this]
  show "b \<in> set (dkeys d)" "in_bounds id lo hi b" "\<And>k. k \<in> set (dkeys d) \<Longrightarrow> in_bounds id lo hi k \<Longrightarrow> k \<le> b"
    by simp_all
qed

lemma last_key_none:
  assumes "scans_ok E" "distinct (dkeys d)"
  shows "get_last_key E d lo hi = None \<longleftrightarrow> (\<forall>b \<in> set (dkeys d). \<not> in_bounds id lo hi b)"
proof -
  have ok: "scan_ok id (x_scan_bytes E)" using assms(1) by (simp add: scans_ok_def)
  have "get_last_key E d lo hi = None \<longleftrightarrow> irange E d lo hi True = []"
    by (simp add: get_last_key_def head_opt_def split: list.splits)
  then show ?thesis using scan_Nil [OF ok assms(2)] by simp
qed

text \<open>Scans whose bounds let the same keys through end at the same key.\<close>

lemma last_key_cong:
  assumes "scans_ok E" "distinct (dkeys d)"
    and same: "\<And>k. k \<in> set (dkeys d) \<Longrightarrow> in_bounds id lo hi k \<longleftrightarrow> in_bounds id lo' hi' k"
  shows "get_last_key E d lo hi = get_last_key E d lo' hi'"
proof (cases "get_last_key E d lo hi")
  case None
  then show ?thesis using last_key_none [OF assms(1,2)] same by metis
next
  case (Some b)
  note b = last_key_in [OF assms(1,2) Some]
  obtain b' where b': "get_last_key E d lo' hi' = Some b'"
    using last_key_none [OF assms(1,2), of lo' hi'] same [OF b(1)] b(1,2) by (cases "get_last_key E d lo' hi'") auto
  note bb = last_key_in [OF assms(1,2) b']
  have "b = b'" using b bb same by (meson antisym)
  then show ?thesis using Some b' by simp
qed

section \<open>The placements of a key\<close>

lemma all_ones: "muid_bytes (Muid (-1) (-1) (-1)) = FF16"
  by code_simp

lemma valid_all_ones: "valid_muid (Muid (-1) (-1) (-1))"
  by (simp add: valid_muid_def muid_consts)

lemma below_all_ones: "change_muid u \<Longrightarrow> muid_lt u (Muid (-1) (-1) (-1))"
  using muid_codec.lt_linear [of u "Muid (-1) (-1) (-1)"] valid_all_ones lt_now [of u]
  by (auto simp: change_muid_def muid_lt_def muid_consts zmod_minus1)

lemma cut_tail_key: "cut_tail (place_key E p) = muid_bytes (pl_container p) @ middle_enc E (pl_middle p)"
  by (simp add: cut_tail_def place_key_def)

text \<open>The last placement of a key that was written at all is the last one up to the bound of a reset.\<close>

lemma last_placement:
  assumes E: "scans_ok E" "key_codec_ok E" and st: "placed_ok E K st"
    and c: "valid_muid c" and k: "middle_ok k" "middle_kind k = K c"
    and u: "is_latest (written E st c k (Muid (-1) 0 0)) u"
  obtains p where "get_last_key E (st_placements st) None (Some (muid_bytes c @ middle_enc E k @ FF16)) = Some (place_key E p)"
    "placement_ok p" "pl_container p = c" "pl_middle p = k" "pl_placer p = u" "place_key E p \<in> set (dkeys (st_placements st))"
proof -
  let ?d = "st_placements st" and ?hi = "muid_bytes c @ middle_enc E k @ FF16"
  have d: "distinct (dkeys ?d)" using st by (simp add: placed_ok_def dict_ok_def)
  note last_ok = valid_all_ones
  have shape: "\<exists>p. b = place_key E p \<and> placement_ok p \<and> change_muid (pl_placer p) \<and> middle_kind (pl_middle p) = K (pl_container p)"
    if "b \<in> set (dkeys ?d)" for b using st dkey_dget [OF that] unfolding placed_ok_def by metis
  obtain p where p: "placement_ok p" "place_key E p \<in> set (dkeys ?d)" "pl_container p = c" "pl_middle p = k" "pl_placer p = u"
    using u by (auto simp: is_latest_def written_def)
  have chg: "change_muid (pl_placer q)" "middle_kind (pl_middle q) = K (pl_container q)"
    if h: "placement_ok q" "place_key E q \<in> set (dkeys ?d)" "pl_container q = c" "middle_kind (pl_middle q) = K c" for q
  proof -
    obtain q' where q': "place_key E q = place_key E q'" "placement_ok q'" "change_muid (pl_placer q')"
      "middle_kind (pl_middle q') = K (pl_container q')" using shape [OF h(2)] by blast
    have "q = q'" by (rule place_key_inj [OF E(2) h(1) q'(2) _ q'(1)]) (use h q' in auto)
    then show "change_muid (pl_placer q)" "middle_kind (pl_middle q) = K (pl_container q)" using q' by simp_all
  qed
  have uc: "change_muid u" "valid_muid u" using chg(1) [OF p(1,2,3)] p(4,5) k by (simp_all add: change_muid_def)
  then have "muid_lt u (Muid (-1) (-1) (-1))" by (simp add: below_all_ones)
  then have "muid_bytes u @ muts_bytes (pl_expiry p) \<le> FF16 @ []"
    using muid_codec.enc_append_le [OF uc(2) last_ok] all_ones by metis
  then have below: "place_key E p \<le> ?hi" using p by (simp add: place_key_def)
  obtain b where b: "get_last_key E ?d None (Some ?hi) = Some b"
    using last_key_none [OF E(1) d, of None "Some ?hi"] p(2) below
    by (cases "get_last_key E ?d None (Some ?hi)") (auto simp: in_bounds_def)
  note bb = last_key_in [OF E(1) d b]
  have up: "place_key E p \<le> b" using bb(3) [OF p(2)] below by (simp add: in_bounds_def)
  obtain q where q: "b = place_key E q" "placement_ok q" "change_muid (pl_placer q)" "middle_kind (pl_middle q) = K (pl_container q)"
    using shape [OF bb(1)] by blast
  have "?hi \<le> place_key E (Placement c k (Muid (-1) (-1) (-1)) None)" by (simp add: place_key_def all_ones)
  then have "place_key E q \<le> place_key E (Placement c k (Muid (-1) (-1) (-1)) None)"
    using bb(2) q(1) by (auto simp: in_bounds_def)
  moreover have "place_key E (Placement c k (Muid 0 0 0) None) \<le> place_key E p"
    using placement_between [OF E(2) p(1) c k(1) valid_epoch last_ok] p epoch_least [OF uc(2)] k
      \<open>muid_lt u (Muid (-1) (-1) (-1))\<close> by auto
  then have "place_key E (Placement c k (Muid 0 0 0) None) \<le> place_key E q" using up q(1) by simp
  ultimately have ck: "pl_container q = c" "pl_middle q = k"
    using placement_between [OF E(2) q(2) c k(1) valid_epoch last_ok] q(4) k by auto
  have "pl_placer q \<in> written E st c k (Muid (-1) 0 0)"
    using q ck bb(1) lt_now by (auto simp: written_def change_muid_def)
  then have "pl_placer q = u \<or> muid_lt (pl_placer q) u" using u by (simp add: is_latest_def)
  moreover have "\<not> muid_lt (pl_placer q) u"
  proof
    assume "muid_lt (pl_placer q) u"
    moreover have "u = pl_placer q \<or> muid_lt u (pl_placer q)"
      using up q p ck uc muid_codec.enc_append_le [of u "pl_placer q"] by (auto simp: place_key_def change_muid_def)
    ultimately show False using muid_lt_asym muid_codec.lt_irrefl uc(2) by metis
  qed
  ultimately show ?thesis using that [of q] b q ck bb(1) by simp
qed

text \<open>The scan for what a key held reaches no placement that a lookup would not reach.\<close>

lemma then_scan:
  assumes E: "scans_ok E" "key_codec_ok E" and st: "placed_ok E K st"
    and c: "valid_muid c" and k: "middle_ok k" "middle_kind k = K c" and t: "time_ok t"
  shows "get_last_key E (st_placements st) (Some (muid_bytes c @ middle_enc E k)) (Some (place_key E (Placement c k (Muid t 0 0) None)))
    = get_last_key E (st_placements st) (Some (place_key E (Placement c k (Muid 0 0 0) None)))
        (Some (place_key E (Placement c k (Muid t 0 0) None)))"
proof (rule last_key_cong [OF E(1)])
  show "distinct (dkeys (st_placements st))" using st by (simp add: placed_ok_def dict_ok_def)
  fix b assume "b \<in> set (dkeys (st_placements st))"
  then obtain q where q: "b = place_key E q" "placement_ok q" "change_muid (pl_placer q)" "middle_kind (pl_middle q) = K (pl_container q)"
    using st dkey_dget [of b "st_placements st"] unfolding placed_ok_def by metis
  let ?lo = "muid_bytes c @ middle_enc E k" and ?hi = "place_key E (Placement c k (Muid t 0 0) None)"
    and ?m = "middle_enc E (pl_middle q)"
  have v: "valid_muid (pl_container q)" "middle_ok (pl_middle q)" "valid_muid (pl_placer q)"
    using q(2) by (simp_all add: placement_ok_def)
  have "place_key E (Placement c k (Muid 0 0 0) None) \<le> b" if h: "?lo \<le> b" "b \<le> ?hi"
  proof -
    obtain x where x: "b = muid_bytes (pl_container q) @ ?m @ x" "x = muid_bytes (pl_placer q) @ muts_bytes (pl_expiry q)"
      using q(1) by (simp add: place_key_def)
    obtain y where y: "?hi = muid_bytes c @ middle_enc E k @ y" by (simp add: place_key_def)
    have "pl_container q = c"
      using h [unfolded x(1) y] muid_codec.enc_append_le [OF c v(1)] muid_codec.enc_append_le [OF v(1) c]
        muid_lt_asym by metis
    moreover from this have "middle_enc E k @ [] \<le> ?m @ x" "?m @ x \<le> middle_enc E k @ y"
      using h [unfolded x(1) y] by simp_all
    from prefix_free_between [OF this] have "pl_middle q = k"
      using middle_prefix_free [OF E(2)] q(4) k v(2) calculation by metis
    ultimately show ?thesis
      using placement_between [OF E(2) q(2) c k(1) valid_epoch valid_all_ones] q(1,4) k(2)
        below_all_ones [OF q(3)] epoch_least [OF v(3)] by auto
  qed
  moreover have "?lo \<le> place_key E (Placement c k (Muid 0 0 0) None)" by (simp add: place_key_def)
  ultimately show "in_bounds id (Some ?lo) (Some ?hi) b \<longleftrightarrow>
      in_bounds id (Some (place_key E (Placement c k (Muid 0 0 0) None))) (Some ?hi) b"
    by (auto simp: in_bounds_def)
qed

section \<open>What a key held\<close>

text \<open>
  The reset finds out what a key held from the entry that a lookup finds, but it takes an entry that is as old as
  the clearance for cleared, where a lookup does not.
\<close>

lemma then_as_lookup:
  assumes E: "scans_ok E" "key_codec_ok E" and st: "placed_ok E K st"
    and c: "valid_muid c" and k: "middle_ok k" "middle_kind k = K c" "middle_kind k \<noteq> 2"
    and t: "time_ok t" and beh: "behavior_kind behavior = Some (middle_kind k)"
    and p: "pl_container p = c" "pl_middle p = k"
    and T: "get_time_of_prior_clear E st c t = Inr T" and look: "get_entry_by_key E st c k t = Inr r"
  shows "(r = None \<longrightarrow> (\<exists>e. contained_then E st c k behavior t (place_key E p) = Inr (OccDeletion, e))) \<and>
    (\<forall>u e. r = Some (u, e) \<longrightarrow> contained_then E st c k behavior t (place_key E p) =
      (if T < mu_timestamp u then bindr (decode_entry_occupant E u e) (\<lambda>x. Inr (x, Some e)) else Inr (OccDeletion, Some e)))"
proof -
  let ?d = "st_placements st" and ?lo = "place_key E (Placement c k (Muid 0 0 0) None)"
    and ?hi = "place_key E (Placement c k (Muid t 0 0) None)"
  have bytes: "placement_bytes E (Placement c k (Muid 0 0 0) None) = Inr ?lo"
    "placement_bytes E (Placement c k (Muid t 0 0) None) = Inr ?hi"
    using c k valid_time_muid [OF t] by (simp_all add: placement_bytes_ok placement_ok_def valid_time_def)
  have cut: "cut_tail ?hi = muid_bytes c @ middle_enc E k" "cut_tail (place_key E p) = muid_bytes c @ middle_enc E k"
    using p by (simp_all add: cut_tail_key)
  let ?last = "get_last_key E ?d (Some (muid_bytes c @ middle_enc E k)) (Some ?hi)"
  have scan: "head_opt (irange E ?d (Some ?lo) (Some ?hi) True) = ?last"
    unfolding then_scan [OF E st c k(1,2) t] by (simp add: get_last_key_def)
  show ?thesis
  proof (cases ?last)
    case None
    then have "irange E ?d (Some ?lo) (Some ?hi) True = []" using scan by (simp add: head_opt_def split: list.splits)
    then have "r = None" using look T bytes by (simp add: get_entry_by_key_def mk_time [OF t])
    moreover have "contained_then E st c k behavior t (place_key E p) = Inr (OccDeletion, None)"
      using None T bytes cut by (simp add: contained_then_def mk_time [OF t] require_def)
    ultimately show ?thesis by simp
  next
    case (Some b)
    then obtain rest where b: "irange E ?d (Some ?lo) (Some ?hi) True = b # rest"
      using scan by (auto simp: head_opt_def split: list.splits)
    obtain u e q where e: "dget ?d b = Some u" "dget (st_entries st) u = Some e"
      "placement_from_bytes E b (en_behavior e) = Inr q"
      "r = (if mu_timestamp (pl_placer q) < T then None else Some (pl_placer q, e))"
      using look T bytes b by (auto simp: get_entry_by_key_def mk_time [OF t] bindr_Inr_iff dindex_Inr_iff split: if_splits)
    have ok: "scan_ok id (x_scan_bytes E)" and d: "distinct (dkeys ?d)"
      using E st by (simp_all add: scans_ok_def placed_ok_def dict_ok_def)
    obtain q' where q': "b = place_key E q'" "placement_ok q'" "pl_container q' = c" "pl_middle q' = k"
      using scanned_placements [OF E st c k(1,2) t] scan_rev_hd(1,2) [OF ok d b] by blast
    obtain q2 where q2: "b = place_key E q2" "placement_ok q2" "middle_kind (pl_middle q2) = K (pl_container q2)"
      "middle_kind (pl_middle q2) \<noteq> 2 \<longrightarrow> u = pl_placer q2 \<and>
        (\<exists>e. dget (st_entries st) u = Some e \<and> behavior_kind (en_behavior e) = Some (middle_kind (pl_middle q2)))"
      using st e(1) unfolding placed_ok_def by blast
    have "q2 = q'" using q' q2 k by (intro place_key_inj [OF E(2)]) auto
    then have "behavior_kind (en_behavior e) = Some (middle_kind (pl_middle q'))" using q2(4) q'(4) k e(2) by auto
    then have q: "q = q'" using e(3) placement_from_bytes_key [OF E(2) q'(2)] q'(1) by simp
    have dec: "placement_from_bytes E b behavior = Inr q"
      using placement_from_bytes_key [OF E(2) q'(2)] q'(1,4) beh q by simp
    have held: "contained_then E st c k behavior t (place_key E p) =
        (if T < mu_timestamp (pl_placer q) then bindr (decode_entry_occupant E (pl_placer q) e) (\<lambda>x. Inr (x, Some e))
         else Inr (OccDeletion, Some e))"
      using Some T bytes cut e dec
      by (simp add: contained_then_def mk_time [OF t] require_def entry_of_placement_def dindex_def)
    show ?thesis using held e(4) by auto
  qed
qed

section \<open>Resetting one key\<close>

text \<open>What an optional entry holds: nothing when there is none.\<close>

definition held :: "ext \<Rightarrow> (muid \<times> entry_pb) option \<Rightarrow> occupant result" where
  "held E r = (case r of None \<Rightarrow> Inr OccDeletion | Some (u, e) \<Rightarrow> decode_entry_occupant E u e)"

text \<open>The change for a key that held \<open>was\<close> at the time and holds \<open>now\<close>.\<close>

definition change_back :: "muid \<Rightarrow> middle \<Rightarrow> int \<Rightarrow> occupant \<Rightarrow> occupant \<Rightarrow> (muid \<times> entry_pb) option \<Rightarrow> change_pb option result" where
  "change_back c k behavior was now r =
    (if occupant_eq was now then Inr None
     else if was = OccDeletion then bindr (create_deleting_entry c k behavior) (\<lambda>d. Inr (Some (wrap_change d)))
     else Inr (map_option (\<lambda>(u, e). wrap_change e) r))"

lemma key_reset_change:
  assumes E: "scans_ok E" "key_codec_ok E" and st: "placed_ok E K st"
    and c: "valid_muid c" and k: "middle_ok k" "middle_kind k = K c" "middle_kind k \<noteq> 2"
    and t: "time_ok t" and beh: "behavior_kind behavior = Some (middle_kind k)"
    and clear: "get_time_of_prior_clear E st c t = Inr 0"
    and p: "placement_ok p" "pl_container p = c" "pl_middle p = k" "pl_placer p = u" "change_muid u"
      "dget (st_placements st) (place_key E p) = Some u" "dget (st_entries st) u = Some e"
    and now: "decode_entry_occupant E u e = Inr x"
    and was: "get_entry_by_key E st c k t = Inr r" "held E r = Inr y" "\<And>v f. r = Some (v, f) \<Longrightarrow> 0 < mu_timestamp v"
    and later: "t \<le> mu_timestamp u" "change_back c k behavior y x r = Inr ch"
  shows "key_reset E c t behavior 0 (place_key E p) st = Inr (ch, y, k)"
proof -
  note th = then_as_lookup [OF E st c k t beh p(2,3) clear was(1)]
  have dec: "placement_from_bytes E (place_key E p) behavior = Inr p"
    using placement_from_bytes_key [OF E(2) p(1)] beh p(3) by simp
  have key: "get_key p = Inr k" using p(3) k(3) by (cases k) (simp_all add: get_key_def)
  obtain b where b: "contained_then E st c k behavior t (place_key E p) = Inr (y, b)"
    "y \<noteq> OccDeletion \<longrightarrow> b = map_option snd r"
    using th was by (cases r) (auto simp: held_def bindr_Inr_iff)
  have "0 \<le> mu_timestamp u" using p(5) by (simp add: change_muid_def)
  then show ?thesis
    using dec key b later p now
    by (auto simp: key_reset_def entry_of_placement_def dindex_def change_back_def bindr_Inr_iff
        map_option.compositionality comp_def case_prod_unfold)
qed

text \<open>The generator for one key makes one round.\<close>

lemma single_key_round:
  assumes key: "true_key (Some key) = Some key" "encode_key key = Inr pb" and seen: "rr_seen r = None"
    and clear: "get_time_of_prior_clear E (rr_store r) c (-1) = Inr T"
    and b: "get_last_key E (st_placements (rr_store r)) None (Some (muid_bytes c @ x_key_ser E pb @ FF16)) = Some b"
      "take 16 b = muid_bytes c" "st_placements (rr_store r) \<noteq> []"
    and k: "key_reset E c t behavior T b (rr_store r) = Inr (ch, occ, k)"
    and emits: "\<And>x. ch = Some x \<Longrightarrow> emit x r = (Inr (), r' x) \<and> rr_seen (r' x) = None"
  shows "get_keyed_reset_changes E emit recurse c t (Some key) behavior r =
    (case ch of None \<Rightarrow> (Inr (), r) | Some x \<Rightarrow> emit x r)"
proof -
  obtain n where n: "length (st_placements (rr_store r)) = Suc n" using b(3) by (cases "st_placements (rr_store r)") simp_all
  have no: "recurse_on recurse occ s = (Inr (), s)" if "rr_seen s = None" for s
    using that by (cases occ) (simp_all add: recurse_on_def py_bind_apply py_apply py_when_def)
  show ?thesis
    using assms n no
    by (cases ch) (simp_all add: get_keyed_reset_changes_def enter_container_def of_store_def py_bind_apply py_then_apply py_apply)
qed

text \<open>The list of its changes.\<close>

lemma single_key_lists:
  assumes key: "true_key (Some key) = Some key" "encode_key key = Inr pb"
    and clear: "get_time_of_prior_clear E st c (-1) = Inr T"
    and b: "get_last_key E (st_placements st) None (Some (muid_bytes c @ x_key_ser E pb @ FF16)) = Some b"
      "take 16 b = muid_bytes c" "st_placements st \<noteq> []"
    and k: "key_reset E c t DIRECTORY T b st = Inr (ch, occ, k)"
  shows "fst (list_reset_changes E t (Some c) (Some key) False st) = Inr (case ch of None \<Rightarrow> [] | Some x \<Rightarrow> [x])"
proof -
  let ?r = "\<lparr>rr_seen = None, rr_store = st, rr_out = []\<rparr>"
  have "get_keyed_reset_changes E collect (container_reset_changes E collect t (length (st_entries st) + 2)) c t (Some key) DIRECTORY ?r =
      (case ch of None \<Rightarrow> (Inr (), ?r) | Some x \<Rightarrow> collect x ?r)"
    by (rule single_key_round [OF key, where r' = "\<lambda>x. ?r\<lparr>rr_out := [x]\<rparr>"])
      (use clear b k in \<open>simp_all add: collect_def py_apply\<close>)
  then show ?thesis
    by (simp add: list_reset_changes_def get_reset_changes_def of_store_def py_bind_apply py_then_apply py_apply collect_def
        split: option.split)
qed

section \<open>The bundle of a reset\<close>

text \<open>A reset of one key without a bundler commits a bundle with the change, or nothing.\<close>

lemma reset_key_runs:
  assumes run: "reset_container E now self (TsStamped (Some t)) (Some key) False None comment d = (Inr n, d')"
    and self: "ct_muid self = RefMuid c"
    and key: "true_key (Some key) = Some key" "encode_key key = Inr pb"
    and clear: "get_time_of_prior_clear E (rl_store d) c (-1) = Inr T"
    and b: "get_last_key E (st_placements (rl_store d)) None (Some (muid_bytes c @ x_key_ser E pb @ FF16)) = Some bs"
      "take 16 bs = muid_bytes c" "st_placements (rl_store d) \<noteq> []"
    and k: "key_reset E c t DIRECTORY T bs (rl_store d) = Inr (ch, occ, k)"
  shows "(ch = None \<longrightarrow> rl_store d' = rl_store d \<and> db_clock d' = db_clock d) \<and>
    (\<forall>x. ch = Some x \<longrightarrow> (\<exists>b d1. commit E now True n d1 = (Inr (), d') \<and> dget (db_bundlers d1) n = Some b \<and>
      bb_changes b = [x] \<and> bb_comment b = comment \<and> rl_store d1 = rl_store d \<and> db_last_link d1 = db_last_link d \<and>
      db_signing_key d1 = db_signing_key d \<and> db_clock d1 = db_clock d))"
proof -
  obtain d0 sk where new: "new_bundler comment d = (Inr n, d0)" "d0 = d\<lparr>db_bundlers := dput n
      \<lparr>bb_changes = [], bb_count = 0, bb_open = True, bb_comment = comment, bb_symmetric_key = sk, bb_decomposition = None\<rparr>
      (db_bundlers d)\<rparr>"
    using run self
    by (auto simp: reset_container_def Containers.own_bundler_def py_bind_Inr_iff py_then_Inr_iff py_apply new_bundler_def
        resolve_ref_def)
  have rest: "py_then (bundle_reset_changes E n t (Some c) (Some key) False) (finish_if_any E now (n, True)) d0 = (Inr (), d')"
    using run self new
    by (auto simp: reset_container_def Containers.own_bundler_def py_bind_Inr_iff py_then_Inr_iff py_apply
        resolve_ref_def py_bind_apply py_then_apply split: sum.splits prod.splits)
  let ?r = "\<lparr>rr_seen = None, rr_store = rl_store d, rr_db = d0\<rparr>"
  have off: "muid_init None None 1 True = Inr \<lparr>mo_timestamp = None, mo_medallion = None, mo_offset = 1, mo_has_bundler = True\<rparr>"
    by (simp add: muid_init_def norm_offset_def muid_consts)
  have adds: "\<exists>d1 b. to_bundler n x ?r = (Inr (), ?r\<lparr>rr_db := d1\<rparr>) \<and> dget (db_bundlers d1) n = Some b \<and> bb_changes b = [x] \<and>
      bb_count b = 1 \<and> bb_comment b = comment \<and> rl_store d1 = rl_store d \<and> db_last_link d1 = db_last_link d \<and>
      db_signing_key d1 = db_signing_key d \<and> db_clock d1 = db_clock d" for x
    using new(2) off
    by (simp add: to_bundler_def add_change_def get_bundler_def set_bundler_def as_change_def py_bind_apply py_then_apply
        py_apply dindex_def)
  obtain d1 b1 where d1: "\<And>x. to_bundler n x ?r = (Inr (), ?r\<lparr>rr_db := d1 x\<rparr>)" "\<And>x. dget (db_bundlers (d1 x)) n = Some (b1 x)"
    "\<And>x. bb_changes (b1 x) = [x]" "\<And>x. bb_count (b1 x) = 1" "\<And>x. bb_comment (b1 x) = comment"
    "\<And>x. rl_store (d1 x) = rl_store d" "\<And>x. db_last_link (d1 x) = db_last_link d"
    "\<And>x. db_signing_key (d1 x) = db_signing_key d" "\<And>x. db_clock (d1 x) = db_clock d"
    using adds by metis
  have "get_keyed_reset_changes E (to_bundler n) (container_reset_changes E (to_bundler n) t (length (st_entries (rl_store d)) + 2))
      c t (Some key) DIRECTORY ?r = (case ch of None \<Rightarrow> (Inr (), ?r) | Some x \<Rightarrow> to_bundler n x ?r)"
    by (rule single_key_round [OF key _ _ _ b(2) _ , where r' = "\<lambda>x. ?r\<lparr>rr_db := d1 x\<rparr>"]) (use clear b k d1(1) in simp_all)
  then have bundled: "bundle_reset_changes E n t (Some c) (Some key) False d0 = (Inr (), case ch of None \<Rightarrow> d0 | Some x \<Rightarrow> d1 x)"
    using new(2) d1(1,6)
    by (simp add: bundle_reset_changes_def get_reset_changes_def of_store_def py_bind_apply py_then_apply py_apply
        split: option.splits)
  show ?thesis
  proof (cases ch)
    case None
    have "rl_store d0 = rl_store d" "db_clock d0 = db_clock d"
      "case dget (db_bundlers d0) n of None \<Rightarrow> False | Some b \<Rightarrow> bb_count b = 0" using new(2) by simp_all
    with None show ?thesis using bundled rest
      by (auto split: option.splits simp add: py_then_apply py_bind_apply py_apply finish_if_any_def get_bundler_def dindex_def py_when_def)
  next
    case (Some x)
    then have "commit E now True n (d1 x) = (Inr (), d')"
      using bundled rest d1(2,4) by (simp add: py_then_apply py_bind_apply py_apply finish_if_any_def get_bundler_def dindex_def py_when_def)
    then show ?thesis using Some d1 by blast
  qed
qed

section \<open>Resetting a key of a directory\<close>

text \<open>An entry that a directory writes for a key: a value or a deletion, with the address of the directory in full.\<close>

definition plainly_set :: "muid \<Rightarrow> ukey \<Rightarrow> entry_pb \<Rightarrow> bool" where
  "plainly_set c key e \<longleftrightarrow> en_container e = Some (put_into c) \<and> en_behavior e = DIRECTORY \<and>
    en_subject e = SubKey (key_msg key) \<and> en_expiry e = 0 \<and>
    (case en_contains e of ConValue _ \<Rightarrow> True | ConDeletion gone \<Rightarrow> gone | _ \<Rightarrow> False)"

lemma plainly_set_placed:
  assumes "plainly_set c key e" "valid_muid c" "mu_timestamp c \<noteq> 0" "mu_medallion c \<noteq> 0" "0 \<le> mu_offset c" "valid_ukey key"
    and "change_muid (Muid t m 1)"
  shows "placement_from_builder e t m 1 = Inr (Placement c (MidKey key) (Muid t m 1) None)"
proof -
  have "muid_create (CtxInfo t m) dummy_builder (Some 1) = Inr (Muid t m 1)"
    using assms(7) muid_create_offset [of t m 1] mk_muid_self [of "Muid t m 1"] by (simp add: change_muid_def)
  then show ?thesis
    using assms(1-6) muid_create_put_into [OF assms(2-5)]
    by (simp add: plainly_set_def placement_from_builder_def builder_middle_def container_of_def key_of_def result_simps)
qed

lemma plainly_set_holds:
  "plainly_set c key e \<Longrightarrow> decode_entry_occupant E u e = decode_entry_occupant E v e"
  by (auto simp: plainly_set_def decode_entry_occupant_def split: contains_pb.splits if_splits)

lemma deleting_plainly_set:
  assumes "valid_ukey key" "create_deleting_entry c (MidKey key) DIRECTORY = Inr e"
  shows "plainly_set c key e" "decode_entry_occupant E u e = Inr OccDeletion"
  using assms
  by (auto simp: create_deleting_entry_def plainly_set_def decode_entry_occupant_def deletion_of_def encode_key_valid
      empty_entry_def Let_def)

lemma change_back_plain:
  assumes "valid_ukey key" "change_back c (MidKey key) DIRECTORY y x r = Inr (Some z)" "held E r = Inr y"
    and plain: "\<And>u e. r = Some (u, e) \<Longrightarrow> plainly_set c key e"
  obtains e where "z = ChEntry e" "plainly_set c key e" "\<forall>u. decode_entry_occupant E u e = Inr y"
proof (cases "y = OccDeletion")
  case True
  then obtain e where "create_deleting_entry c (MidKey key) DIRECTORY = Inr e" "z = wrap_change e"
    using assms(2) by (auto simp: change_back_def bindr_Inr_iff split: if_splits)
  then show ?thesis using that [of e] deleting_plainly_set [OF assms(1)] True by (simp add: wrap_change_def)
next
  case False
  then obtain v e where v: "r = Some (v, e)" "z = wrap_change e"
    using assms(2) by (auto simp: change_back_def split: if_splits)
  then have "decode_entry_occupant E v e = Inr y" using assms(3) by (simp add: held_def)
  then have "decode_entry_occupant E u e = Inr y" for u
    using plainly_set_holds [OF plain [OF v(1)], of E u v] by simp
  then show ?thesis using that [of e] v plain by (simp add: wrap_change_def)
qed

lemma change_back_total:
  assumes "valid_ukey key"
  obtains ch where "change_back c (MidKey key) DIRECTORY y x r = Inr ch"
  using assms by (cases "change_back c (MidKey key) DIRECTORY y x r")
    (auto simp: change_back_def create_deleting_entry_def encode_key_valid Let_def split: if_splits)

lemma uncleared_before:
  assumes "clears ds c = []"
  shows "clears (before t ds) c = []"
proof -
  have "set (clears (before t ds) c) \<subseteq> set (clears ds c)" by (auto simp: clears_def before_def)
  then show ?thesis using assms by simp
qed

lemma uncleared_time: "clears ds c = [] \<Longrightarrow> spec_clear_time ds c t = 0"
  by (simp add: spec_clear_time_def uncleared_before)

text \<open>A lookup later than everything a store has accepted is a lookup now.\<close>

lemma lookup_later:
  assumes E: "scans_ok E" "key_codec_ok E"
    and store: "receive_all E rs (empty_store True) = Some s" "sound_bundles E K (map snd rs)"
    and old: "\<forall>y \<in> set (all_changes E (map snd rs)). dl_ts y < T" "0 \<le> T" "time_ok T"
    and c: "valid_muid c" "middle_ok k" "middle_kind k = K c" "K c \<noteq> 2"
    and uncleared: "clears (all_changes E (map snd rs)) c = []"
  shows "get_entry_by_key E s c k T = get_entry_by_key E s c k (-1)"
proof -
  let ?ds = "all_changes E (map snd rs)"
  have ds: "\<forall>d \<in> set ?ds. in_order K d" using store(2) by (simp add: sound_bundles_def)
  have u: "change_muid (change_address_of y) \<and> mu_timestamp (change_address_of y) = dl_ts y" if "y \<in> set ?ds" for y
    using ds that by (auto simp: in_order_def change_address_of_def)
  have b: "before T ?ds = ?ds" "before (-1) ?ds = ?ds"
    using u old lt_time_iff [OF _ _ old(2,3)] lt_now unfolding before_def by (fastforce simp: change_muid_def filter_id_conv)+
  have "spec_lookup ?ds c k T = spec_lookup ?ds c k (-1)"
    unfolding spec_lookup_def b uncleared_time [OF uncleared] ..
  then show ?thesis
    using lookup_refines [OF E received_holds [OF E(2) store(2,1)] ds c] old(3)
      by (simp add: time_ok_def muid_consts)
qed

text \<open>The last placement of a key that has an entry now.\<close>

lemma key_now:
  assumes E: "scans_ok E" "key_codec_ok E" and st: "placed_ok E K st" "clears_ok st"
    and c: "valid_muid c" and k: "middle_ok k" "middle_kind k = K c" "middle_kind k \<noteq> 2"
    and look: "get_entry_by_key E st c k (-1) = Inr (Some (u, e))"
  obtains p where "get_last_key E (st_placements st) None (Some (muid_bytes c @ middle_enc E k @ FF16)) = Some (place_key E p)"
    "placement_ok p" "pl_container p = c" "pl_middle p = k" "pl_placer p = u" "change_muid u"
    "dget (st_placements st) (place_key E p) = Some u" "dget (st_entries st) u = Some e"
    "is_latest (written E st c k (Muid (-1) 0 0)) u"
proof -
  have t: "time_ok (-1)" by (simp add: time_ok_def muid_consts)
  have latest: "is_latest (written E st c k (Muid (-1) 0 0)) u" "dget (st_entries st) u = Some e"
    using get_entry_by_key_spec [OF E st c k t] look by (auto simp: reads_def split: if_splits)
  obtain p where p: "get_last_key E (st_placements st) None (Some (muid_bytes c @ middle_enc E k @ FF16)) = Some (place_key E p)"
    "placement_ok p" "pl_container p = c" "pl_middle p = k" "pl_placer p = u" "place_key E p \<in> set (dkeys (st_placements st))"
    by (rule last_placement [OF E st(1) c k(1,2) latest(1)])
  obtain v where v: "dget (st_placements st) (place_key E p) = Some v" using dkey_dget [OF p(6)] by blast
  obtain q where q: "place_key E p = place_key E q" "placement_ok q" "change_muid (pl_placer q)"
    "middle_kind (pl_middle q) = K (pl_container q)" "middle_kind (pl_middle q) \<noteq> 2 \<longrightarrow> v = pl_placer q"
    using st(1) v unfolding placed_ok_def by blast
  have "p = q" by (rule place_key_inj [OF E(2) p(2) q(2) _ q(1)]) (use p k q in auto)
  then show ?thesis using that [OF p(1-5)] p v q k latest by auto
qed

text \<open>A key that was not written since the time held what it holds now.\<close>

lemma unchanged_since:
  assumes E: "scans_ok E" "key_codec_ok E" and st: "placed_ok E K st" "clears_ok st"
    and c: "valid_muid c" and k: "middle_ok k" "middle_kind k = K c" "middle_kind k \<noteq> 2"
    and latest: "is_latest (written E st c k (Muid (-1) 0 0)) u" "dget (st_entries st) u = Some e" "change_muid u"
    and t: "time_ok t" "mu_timestamp u < t" and clear: "get_time_of_prior_clear E st c t = Inr 0"
  shows "get_entry_by_key E st c k t = Inr (Some (u, e))"
proof -
  let ?A = "written E st c k (Muid t 0 0)"
  obtain r where r: "get_entry_by_key E st c k t = Inr r" "reads st ?A 0 r"
    using get_entry_by_key_spec [OF E st c k t(1)] clear by auto
  have u: "valid_muid u" "0 \<le> mu_timestamp u" "0 \<le> t" using latest(3) t(2) by (auto simp: change_muid_def)
  have "muid_lt u (Muid t 0 0)" using lt_time_iff [OF u t(1)] t(2) by simp
  then have "u \<in> ?A" using latest(1) by (auto simp: is_latest_def written_def)
  moreover have "v \<in> written E st c k (Muid (-1) 0 0)" if v: "v \<in> ?A" for v
  proof -
    obtain p where p: "placement_ok p" "place_key E p \<in> set (dkeys (st_placements st))" "pl_container p = c" "pl_middle p = k"
      "pl_placer p = v" using v by (auto simp: written_def)
    obtain w q where q: "place_key E p = place_key E q" "placement_ok q" "change_muid (pl_placer q)"
      "middle_kind (pl_middle q) = K (pl_container q)" using st(1) dkey_dget [OF p(2)] unfolding placed_ok_def by metis
    have "p = q" by (rule place_key_inj [OF E(2) p(1) q(2) _ q(1)]) (use p k q in auto)
    then show ?thesis using p q lt_now by (auto simp: written_def change_muid_def)
  qed
  ultimately have "is_latest ?A u" using latest(1) by (auto simp: is_latest_def)
  then have "reads st ?A 0 (Some (u, e))" using latest(2) u(2) by (auto simp: reads_def)
  then show ?thesis using r reads_unique by metis
qed

text \<open>What the reset of one key finds and does about it.\<close>

lemma key_reset_result:
  assumes E: "scans_ok E" "key_codec_ok E" and st: "placed_ok E K st" "clears_ok st"
    and c: "valid_muid c" and k: "middle_ok k" "middle_kind k = K c" "middle_kind k \<noteq> 2"
    and beh: "behavior_kind behavior = Some (middle_kind k)" and t: "time_ok t" "0 \<le> t"
    and clear: "get_time_of_prior_clear E st c t = Inr 0"
    and now: "get_entry_by_key E st c k (-1) = Inr (Some (u, e))" "decode_entry_occupant E u e = Inr x"
    and was: "get_entry_by_key E st c k t = Inr r" "held E r = Inr y" "\<And>v f. r = Some (v, f) \<Longrightarrow> 0 < mu_timestamp v"
    and ch: "change_back c k behavior y x r = Inr ch"
  obtains b occ where "get_last_key E (st_placements st) None (Some (muid_bytes c @ middle_enc E k @ FF16)) = Some b"
    "take 16 b = muid_bytes c" "st_placements st \<noteq> []"
    "key_reset E c t behavior 0 b st = Inr (if mu_timestamp u < t then None else ch, occ, k)"
    "mu_timestamp u < t \<longrightarrow> r = Some (u, e)"
proof -
  obtain p where p: "get_last_key E (st_placements st) None (Some (muid_bytes c @ middle_enc E k @ FF16)) = Some (place_key E p)"
    "placement_ok p" "pl_container p = c" "pl_middle p = k" "pl_placer p = u" "change_muid u"
    "dget (st_placements st) (place_key E p) = Some u" "dget (st_entries st) u = Some e"
    "is_latest (written E st c k (Muid (-1) 0 0)) u"
    by (rule key_now [OF E st c k now(1)])
  have shape: "take 16 (place_key E p) = muid_bytes c" "st_placements st \<noteq> []"
    using p(3,7) by (auto simp: place_key_def)
  show ?thesis
  proof (cases "mu_timestamp u < t")
    case True
    have dec: "placement_from_bytes E (place_key E p) behavior = Inr p"
      using placement_from_bytes_key [OF E(2) p(2)] beh p(4) by simp
    have key: "get_key p = Inr k" using p(4) k(3) by (cases k) (simp_all add: get_key_def)
    have "0 < t" using True p(6) by (simp add: change_muid_def)
    then have "key_reset E c t behavior 0 (place_key E p) st = Inr (None, x, k)"
      using dec key p now(2) True by (simp add: key_reset_def entry_of_placement_def dindex_def)
    moreover have "r = Some (u, e)"
      using unchanged_since [OF E st c k p(9,8,6) t(1) True clear] was(1) by simp
    ultimately show ?thesis using that [OF p(1) shape, of x] True by simp
  next
    case False
    then have "key_reset E c t behavior 0 (place_key E p) st = Inr (ch, y, k)"
      using key_reset_change [OF E st(1) c k t(1) beh clear p(2-8) now(2) was _ ch] by simp
    then show ?thesis using that [OF p(1) shape, of y] False by simp
  qed
qed

text \<open>C17: Resetting one key of a directory to a time gives it back what it held then: after the bundle that the
  reset commits (or none, when nothing has to change), a lookup finds an entry that holds what a lookup as of the
  time holds, a deletion counting as no entry. The store has accepted sound bundles no newer than the clock, the
  directory was never cleared, the key has an entry and is not one that Python takes for false, and at the time it held
  a value, a deletion or nothing, in an entry that names its directory in full: an entry for a container is put back as
  it is stored, with the address of that container relative to a bundle that it is not in any more. The database has a
  chain to append to, and the bundle that it signs can be read back.\<close>

theorem reset_restores:
  assumes E: "scans_ok E" "key_codec_ok E"
    and store: "receive_all E rs (empty_store True) = Some (rl_store d)" "sound_bundles E K (map snd rs)"
    and old: "\<forall>y \<in> set (all_changes E (map snd rs)). dl_ts y \<le> fst (db_clock d)" "clock_ok d"
    and self: "ct_muid self = RefMuid c" "K c = 1"
    and c: "valid_muid c" "mu_timestamp c \<noteq> 0" "mu_medallion c \<noteq> 0" "0 \<le> mu_offset c"
    and key: "valid_ukey key" "true_key (Some key) = Some key"
    and uncleared: "clears (all_changes E (map snd rs)) c = []"
    and t: "time_ok t" "0 \<le> t"
    and now: "get_entry_by_key E (rl_store d) c (MidKey key) (-1) = Inr (Some (u0, e0))" "decode_entry_occupant E u0 e0 = Inr x"
    and was: "get_entry_by_key E (rl_store d) c (MidKey key) t = Inr r" "held E r = Inr y"
      "\<And>u e. r = Some (u, e) \<Longrightarrow> plainly_set c key e"
    and link: "db_last_link d = Some link" "db_signing_key d = Some sk" "bi_hex_hash link = Some h"
      "0 < bi_medallion link" "bi_medallion link < MEDALLION_MOD - 1"
    and law: "\<And>ch t'. change_back c (MidKey key) DIRECTORY y x r = Inr (Some ch) \<Longrightarrow> 0 < t' \<Longrightarrow> time_ok t' \<Longrightarrow>
      sealed E sk (next_bundle link h [ch] comment t')"
    and run: "reset_container E now self (TsStamped (Some t)) (Some key) False None comment d = (Inr n, d')"
    and T: "fst (db_clock d') < T" "time_ok T"
  shows "\<exists>r' z. get_entry_by_key E (rl_store d') c (MidKey key) T = Inr r' \<and> held E r' = Inr z \<and> (z = y \<or> occupant_eq y z)"
proof -
  let ?ds = "all_changes E (map snd rs)" and ?k = "MidKey key"
  have ds: "\<forall>d \<in> set ?ds. in_order K d" using store(2) by (simp add: sound_bundles_def)
  note h = received_holds [OF E(2) store(2,1)]
  have st: "placed_ok E K (rl_store d)" "clears_ok (rl_store d)" using h by (simp_all add: holds_def)
  have k: "middle_ok ?k" "middle_kind ?k = K c" "middle_kind ?k \<noteq> 2" "K c \<noteq> 2" using key self by simp_all
  have clear: "get_time_of_prior_clear E (rl_store d) c a = Inr 0" if "time_ok a" for a
    using clear_time_refines [OF E(1) h ds c(1) that] uncleared_time [OF uncleared] by simp
  have t1: "time_ok (-1)" by (simp add: time_ok_def muid_consts)
  have beh: "behavior_kind DIRECTORY = Some (middle_kind ?k)" by (simp add: behavior_kind_def)
  have pos: "0 < mu_timestamp v" if v: "r = Some (v, f)" for v f
    using lookup_older(1) [of ?ds c ?k t v f K, OF _ ds t(2,1)] lookup_refines [OF E h ds c(1) k(1,2,4) t(1)] was(1) v by simp
  have enc: "encode_key key = Inr (key_msg key)" using key by (simp add: encode_key_valid)
  obtain ch where ch: "change_back c ?k DIRECTORY y x r = Inr ch"
    by (rule change_back_total [OF key(1)])
  obtain b occ where b: "get_last_key E (st_placements (rl_store d)) None (Some (muid_bytes c @ middle_enc E ?k @ FF16)) = Some b"
    "take 16 b = muid_bytes c" "st_placements (rl_store d) \<noteq> []"
    "key_reset E c t DIRECTORY 0 b (rl_store d) = Inr (if mu_timestamp u0 < t then None else ch, occ, ?k)"
    "mu_timestamp u0 < t \<longrightarrow> r = Some (u0, e0)"
    by (rule key_reset_result [OF E st c(1) k(1-3) beh t clear [OF t(1)] now was(1,2) pos ch])
  have b1: "get_last_key E (st_placements (rl_store d)) None (Some (muid_bytes c @ x_key_ser E (key_msg key) @ FF16)) = Some b"
    using b(1) by simp
  note runs = reset_key_runs [OF run self(1) key(2) enc clear [OF t1] b1 b(2-4)]
  have clock: "0 \<le> fst (db_clock d)" using old(2) by (simp add: clock_ok_def)
  show ?thesis
  proof (cases "if mu_timestamp u0 < t then None else ch")
    case None
    then have same: "rl_store d' = rl_store d" "db_clock d' = db_clock d" using runs by simp_all
    have "get_entry_by_key E (rl_store d) c ?k T = Inr (Some (u0, e0))"
      using lookup_later [OF E store _ _ T(2) c(1) k(1,2,4) uncleared] old(1) T(1) same clock now(1) by force
    moreover have "x = y \<or> occupant_eq y x"
      using None ch b(5) was(2) now(2) by (auto simp: change_back_def held_def bindr_Inr_iff split: if_splits)
    ultimately show ?thesis using same now(2) by (auto simp: held_def)
  next
    case (Some z)
    then have z: "ch = Some z" by (simp split: if_splits)
    obtain e where e: "z = ChEntry e" "plainly_set c key e" "\<forall>u. decode_entry_occupant E u e = Inr y"
      by (rule change_back_plain [OF key(1) ch [unfolded z] was(2,3)])
    obtain bb d1 where d1: "commit E now True n d1 = (Inr (), d')" "dget (db_bundlers d1) n = Some bb" "bb_changes bb = [z]"
      "bb_comment bb = comment" "rl_store d1 = rl_store d" "db_last_link d1 = db_last_link d"
      "db_signing_key d1 = db_signing_key d" "db_clock d1 = db_clock d" using runs Some by blast
    have "behavior_kind (en_behavior e) = Some (middle_kind ?k)" using e(2) beh by (simp add: plainly_set_def)
    have "\<exists>u. get_entry_by_key E (rl_store d') c ?k T = Inr (Some (u, e))"
    proof (rule entry_committed(2) [OF E, of rs d1 K link sk h now n d' bb e])
      show "sealed E sk (next_bundle link h [ChEntry e] (bb_comment bb) t')" if "0 < t'" "time_ok t'" for t'
        using law [of z t'] that ch z e(1) d1(4) by simp
      show "placement_from_builder e t' (bi_medallion link) 1 = Inr (Placement c ?k (Muid t' (bi_medallion link) 1) None)"
        if "change_muid (Muid t' (bi_medallion link) 1)" for t'
        using plainly_set_placed [OF e(2) c key(1) that] .
    qed (use store old link d1 e(1) c(1) k T \<open>behavior_kind (en_behavior e) = _\<close> in \<open>simp_all add: clock_ok_def\<close>)
    then show ?thesis using e(3) by (auto simp: held_def)
  qed
qed

lemma reset_restores_witness:
  "\<exists>n d' r' z. reset_container gone_ext demo_clock get_root (TsStamped (Some 500)) (Some (KStr ''b'')) False None None kept_database
      = (Inr n, d') \<and>
    get_entry_by_key gone_ext (rl_store d') demo_root (MidKey (KStr ''b'')) 4000 = Inr r' \<and> held gone_ext r' = Inr z \<and>
    (z = OccDeletion \<or> occupant_eq OccDeletion z)"
proof -
  obtain n d' where run: "reset_container gone_ext demo_clock get_root (TsStamped (Some 500)) (Some (KStr ''b'')) False None None
      kept_database = (Inr n, d')" "fst (db_clock d') < 4000"
    using kept_reset by (auto split: prod.splits sum.splits)
  have undo: "create_deleting_entry demo_root (MidKey (KStr ''b'')) DIRECTORY = Inr gone_entry" by code_simp
  have law: "sealed gone_ext [7] (next_bundle own_link [] [ch] None t)"
    if "change_back demo_root (MidKey (KStr ''b'')) DIRECTORY OccDeletion (OccValue (UInt 5)) None = Inr (Some ch)"
      "0 < t" "time_ok t" for ch t
    using own_sealed [of t gone_entry] that undo by (simp add: change_back_def wrap_change_def world_bundle_def)
  have key: "valid_ukey (KStr ''b'')" "true_key (Some (KStr ''b'')) = Some (KStr ''b'')" by code_simp+
  have "clears (all_changes gone_ext [own_start]) demo_root = []"
    by (simp add: kept_changes clears_def clear_of_def)
  then have "\<exists>r' z. get_entry_by_key gone_ext (rl_store d') demo_root (MidKey (KStr ''b'')) 4000 = Inr r' \<and>
      held gone_ext r' = Inr z \<and> (z = OccDeletion \<or> occupant_eq OccDeletion z)"
    by (intro reset_restores [where K = "\<lambda>_. 1" and rs = "[(demo_clock, own_start)]" and d = kept_database and c = demo_root
        and link = own_link and sk = "[7]" and h = "[]" and r = None and t = 500 and x = "OccValue (UInt 5)" and comment = None,
        OF own_scans _ _ _ _ _ _ _ _ _ _ key _ _ _ _ kept_reads(3) _ _ _ _ _ _ _ _ law run(1)])
      (use kept_stored kept_changes kept_fields kept_reads run(2) in
        \<open>simp_all add: own_link_def get_root_def muid_consts valid_muid_def time_ok_def held_def behavior_defs\<close>)
  then show ?thesis using run(1) by blast
qed

end
