(* ===== verification/Lmdb_Store.thy ===== *)
theory Lmdb_Store
  imports Lmdb_Queries
begin

text \<open>
  The writing operations of \<open>LmdbStore\<close>. What they look up through a method that opens its own transaction is
  read from the committed tables (\<open>with_read\<close>), what they read with the transaction at hand from its working copy.
\<close>

section \<open>Opening\<close>

text \<open>The tables that \<open>reset\<close> empties.\<close>

definition reset_tables :: "table list" where
  "reset_tables = [TBundleInfos, TBundles, TChains, TClaims, TEntries, TRemovals, TContainers, TLocations, TRetentions,
     TClearances, TProperties, TByDescribing, TByName, TBySide, TIdentities, TSigningKeys, TVerifyKeys, TSymmetricKeys,
     TTotals]"

definition put_flag :: "string \<Rightarrow> bool \<Rightarrow> unit tx" where
  "put_flag name b = py_bind (py_lift (muts_of (if b then 1 else 0))) (tx_put TRetentions (str_encode name))"

definition lmdb_init :: "bool \<Rightarrow> bool \<Rightarrow> bool \<Rightarrow> unit tx" where
  "lmdb_init reset retain_bundles retain_entries =
    py_then (py_when reset (with_write (py_each tx_drop reset_tables)))
   (py_bind (with_read (\<lambda>T. Inr (dget (T TRetentions) (str_encode ''bundles'') \<noteq> None))) (\<lambda>retentions_set.
    py_then (py_when (\<not> retentions_set) (with_write
      (py_bind (tx_get TRetentions (str_encode ''bundles'')) (\<lambda>again.
        py_when (again = None) (py_then (put_flag ''bundles'' retain_bundles) (put_flag ''entries'' retain_entries))))))
      (py_modify (\<lambda>s. s\<lparr>lb_seen_through := 0\<rparr>))))"

definition lmdb_opened :: "tables \<Rightarrow> bool \<Rightarrow> lmdb_store" where
  "lmdb_opened T applying = \<lparr>lb_tables = T, lb_work = T, lb_seen_containers = [], lb_seen_through = 0,
     lb_apply_changes = applying, lb_called = []\<rparr>"

definition open_lmdb :: "tables \<Rightarrow> bool \<Rightarrow> bool \<Rightarrow> bool \<Rightarrow> bool \<Rightarrow> unit result \<times> lmdb_store" where
  "open_lmdb T reset retain_bundles retain_entries applying =
    lmdb_init reset retain_bundles retain_entries (lmdb_opened T applying)"

section \<open>Keys and claims\<close>

definition lmdb_save_symmetric_key :: "ext \<Rightarrow> bytes \<Rightarrow> int tx" where
  "lmdb_save_symmetric_key E key =
    (if length key \<noteq> 32 then py_raise ValueError
     else py_bind (py_lift (shorter_hash E key)) (\<lambda>key_id.
       py_then (with_write (py_bind (py_lift (muts_of key_id)) (\<lambda>k. tx_put TSymmetricKeys k key)))
         (py_return key_id)))"

definition lmdb_save_signing_key :: "ext \<Rightarrow> bytes \<Rightarrow> unit tx" where
  "lmdb_save_signing_key E signing_key = with_write (tx_put TSigningKeys (x_verify_key E signing_key) signing_key)"

definition lmdb_add_claim :: "lmdb_ext \<Rightarrow> int \<Rightarrow> int \<Rightarrow> chain \<Rightarrow> claim tx" where
  "lmdb_add_claim L time pid c =
    (let claim = create_claim time pid c in
     py_bind (py_lift (muts_of (cm_claim_time claim))) (\<lambda>k.
       py_then (tx_put TClaims k (lm_claim_ser L claim)) (py_return claim)))"

section \<open>Purging an entry\<close>

text \<open>
  The loop over the locations of an entry. Deleting through a cursor moves it to the next key, and the loop then
  moves it once more.
\<close>

fun drop_locations :: "bytes \<Rightarrow> bytes list \<Rightarrow> unit tx" where
  "drop_locations entry_bytes [] = py_return ()"
| "drop_locations entry_bytes (k # ks) =
    (if \<not> prefix entry_bytes k then py_return ()
     else py_bind (tx_read (\<lambda>T. value_at T TLocations k)) (\<lambda>placement_key.
       py_then (tx_delete TPlacements placement_key)
      (py_then (tx_delete TLocations k)
        (case ks of [] \<Rightarrow> py_return () | _ # ks' \<Rightarrow> drop_locations entry_bytes ks'))))"

definition drop_sides :: "muid \<Rightarrow> entry_pb \<Rightarrow> unit tx" where
  "drop_sides entry_muid e =
    py_when (has_pair e)
     (py_bind (py_lift (muid_create (CtxMuid entry_muid) (pair_left e) None)) (\<lambda>l.
      py_bind (py_lift (muid_create (CtxMuid entry_muid) (pair_rite e) None)) (\<lambda>r.
      py_then (tx_delete TBySide (muid_bytes l @ muid_bytes entry_muid))
        (tx_delete TBySide (muid_bytes r @ muid_bytes entry_muid)))))"

definition pointee_of :: "entry_pb \<Rightarrow> muid_pb" where
  "pointee_of e = (case en_contains e of ConPointee m \<Rightarrow> m | _ \<Rightarrow> dummy_builder)"

definition drop_index :: "table \<Rightarrow> bool \<Rightarrow> muid_pb \<Rightarrow> muid \<Rightarrow> unit tx" where
  "drop_index t present pb entry_muid =
    py_when present
     (py_bind (py_lift (muid_create (CtxMuid entry_muid) pb None)) (\<lambda>u.
        tx_delete t (muid_bytes u @ muid_bytes entry_muid)))"

definition drop_name :: "ext \<Rightarrow> muid \<Rightarrow> muid \<Rightarrow> entry_pb \<Rightarrow> unit tx" where
  "drop_name E container_muid entry_muid e =
    py_when (container_muid = name_property)
     (py_bind (py_lift (entry_name E e)) (\<lambda>name.
        case name of None \<Rightarrow> py_return () | Some s \<Rightarrow> tx_delete TByName (name_key s entry_muid)))"

definition lmdb_remove_entry :: "ext \<Rightarrow> lmdb_ext \<Rightarrow> muid \<Rightarrow> unit tx" where
  "lmdb_remove_entry E L entry_muid =
    (let entry_bytes = muid_bytes entry_muid in
     py_bind (tx_get TEntries entry_bytes) (\<lambda>payload.
     case payload of
       None \<Rightarrow> py_return ()
     | Some entry_payload \<Rightarrow>
         py_then (tx_delete TEntries entry_bytes)
        (py_bind (tx_read (\<lambda>T. Inr (cur_forward L (T TLocations) entry_bytes))) (\<lambda>ks.
         py_then (drop_locations entry_bytes ks)
        (py_bind (py_lift (lm_entry_parse L entry_payload)) (\<lambda>e.
         py_bind (py_lift (muid_create (CtxMuid entry_muid) (container_of e) None)) (\<lambda>container_muid.
         py_then (drop_sides entry_muid e)
        (py_then (drop_index TByDescribing (has_describing e) (describing_of e) entry_muid)
        (py_then (drop_index TByPointee (has_pointee e) (pointee_of e) entry_muid)
          (drop_name E container_muid entry_muid e))))))))))"

section \<open>History\<close>

text \<open>The loop deletes through the cursor, which moves it to the next key.\<close>

fun lmdb_drop_loop :: "ext \<Rightarrow> lmdb_ext \<Rightarrow> int \<Rightarrow> bytes list \<Rightarrow> unit tx" where
  "lmdb_drop_loop E L as_of [] = py_return ()"
| "lmdb_drop_loop E L as_of (k # ks) =
    py_bind (py_lift (bindr (decode_muts k) (opt_or AssertionError))) (\<lambda>timestamp.
      if as_of < timestamp then py_return ()
      else
        py_bind (tx_read (\<lambda>T. value_at T TRemovalsByTime k)) (\<lambda>val.
        py_bind (py_lift (removal_from_bytes val)) (\<lambda>removal.
        py_then (lmdb_remove_entry E L (rk_removing removal))
       (py_then (tx_delete TRemovals val)
       (py_then (tx_delete TRemovalsByTime k)
         (lmdb_drop_loop E L as_of ks))))))"

definition lmdb_drop_history :: "ext \<Rightarrow> lmdb_ext \<Rightarrow> int \<Rightarrow> unit tx" where
  "lmdb_drop_history E L as_of = with_write
    (py_bind (tx_read (\<lambda>T. Inr (lm_scan L (dkeys (T TRemovalsByTime)) None None False))) (lmdb_drop_loop E L as_of))"

definition lmdb_start_history :: "unit tx" where
  "lmdb_start_history = with_write (put_flag ''entries'' True)"

definition lmdb_stop_history :: "ext \<Rightarrow> lmdb_ext \<Rightarrow> int \<Rightarrow> unit tx" where
  "lmdb_stop_history E L now = py_then (with_write (put_flag ''entries'' False)) (lmdb_drop_history E L now)"

section \<open>Clearances and movements\<close>

text \<open>Deleting, one after another, the last key that has the prefix; the size of the table bounds the loop.\<close>

fun drop_prefix :: "lmdb_ext \<Rightarrow> table \<Rightarrow> bytes \<Rightarrow> nat \<Rightarrow> unit tx" where
  "drop_prefix L t pre 0 = py_return ()"
| "drop_prefix L t pre (Suc n) =
    py_bind (tx_read (\<lambda>T. to_last_with_prefix L (T t) pre None None)) (\<lambda>found.
      case found of None \<Rightarrow> py_return () | Some k \<Rightarrow> py_then (tx_delete t k) (drop_prefix L t pre n))"

definition drop_all_with :: "lmdb_ext \<Rightarrow> table \<Rightarrow> bytes \<Rightarrow> unit tx" where
  "drop_all_with L t pre = py_bind (tx_read (\<lambda>T. Inr (length (T t)))) (drop_prefix L t pre)"

text \<open>The loop over the entries reads their keys as if they were placements.\<close>

fun drop_entries :: "ext \<Rightarrow> lmdb_ext \<Rightarrow> bytes \<Rightarrow> nat \<Rightarrow> unit tx" where
  "drop_entries E L pre 0 = py_return ()"
| "drop_entries E L pre (Suc n) =
    py_bind (tx_read (\<lambda>T. to_last_with_prefix L (T TEntries) pre None None)) (\<lambda>found.
      case found of
        None \<Rightarrow> py_return ()
      | Some k \<Rightarrow>
          py_bind (tx_read (\<lambda>T. bindr (stored_entry L T k) (\<lambda>e. placement_from_bytes E k (en_behavior e)))) (\<lambda>p.
          py_then (drop_all_with L TLocations (muid_bytes (pl_placer p)))
         (py_then (tx_delete TEntries k) (drop_entries E L pre n))))"

definition lmdb_apply_clearance :: "ext \<Rightarrow> lmdb_ext \<Rightarrow> int \<Rightarrow> int \<Rightarrow> int \<Rightarrow> clearance_pb \<Rightarrow> unit tx" where
  "lmdb_apply_clearance E L ts med off builder =
    py_bind (py_lift (muid_create (CtxInfo ts med) (cl_container builder) None)) (\<lambda>container_muid.
    py_bind (py_lift (muid_create (CtxInfo ts med) dummy_builder (Some off))) (\<lambda>clearance_muid.
    py_bind (tx_read (retention ''entries'')) (\<lambda>retaining.
    py_then (py_when (retaining = None \<or> retaining = Some 0)
       (py_then (drop_all_with L TClearances (muid_bytes container_muid))
       (py_then (py_bind (tx_read (\<lambda>T. Inr (length (T TEntries)))) (drop_entries E L (muid_bytes container_muid)))
         (drop_all_with L TRemovals (muid_bytes container_muid)))))
      (tx_put TClearances (muid_bytes container_muid @ muid_bytes clearance_muid) (lm_clearance_ser L builder)))))"

text \<open>What \<open>_apply_movement\<close> does once it has the placement that the entry is moved from.\<close>

definition move_placement ::
  "ext \<Rightarrow> lmdb_ext \<Rightarrow> bool \<Rightarrow> movement_pb \<Rightarrow> muid \<Rightarrow> muid \<Rightarrow> muid \<Rightarrow> bytes \<Rightarrow> bytes \<Rightarrow> placement \<Rightarrow> unit tx" where
  "move_placement E L retaining builder container entry_muid movement_muid location_key location old =
    (let dest = mv_dest builder; new_location_key = location_bytes (LocationKey entry_muid movement_muid) in
     py_then (py_when retaining
        (let removal = removal_bytes (RemovalKey container (pl_placer old) movement_muid) in
         py_then (tx_put TRemovals removal (lm_movement_ser L builder))
          (py_bind (py_lift (muts_of (mu_timestamp movement_muid))) (\<lambda>k. tx_put TRemovalsByTime k removal))))
    (py_then
       (if dest \<noteq> 0
        then py_bind (py_lift (placement_bytes E (Placement container (MidQueue dest) movement_muid (pl_expiry old)))) (\<lambda>p.
             py_then (tx_put TPlacements p (muid_bytes entry_muid)) (tx_put TLocations new_location_key p))
        else py_when retaining (tx_put TLocations new_location_key []))
       (py_when (\<not> retaining)
         (py_then (tx_delete TPlacements location)
         (py_then (tx_delete TLocations location_key)
           (py_when (dest = 0) (tx_delete TEntries (muid_bytes entry_muid))))))))"

definition lmdb_apply_movement :: "ext \<Rightarrow> lmdb_ext \<Rightarrow> int \<Rightarrow> int \<Rightarrow> int \<Rightarrow> movement_pb \<Rightarrow> unit tx" where
  "lmdb_apply_movement E L ts med off builder =
    py_bind (tx_read (retention ''entries'')) (\<lambda>flag.
    py_bind (py_lift (muid_create (CtxInfo ts med) (mv_container builder) None)) (\<lambda>container.
    py_bind (py_lift (muid_create (CtxInfo ts med) (mv_entry builder) None)) (\<lambda>entry_muid.
    py_bind (py_lift (muid_create (CtxInfo ts med) dummy_builder (Some off))) (\<lambda>movement_muid.
    py_bind (tx_get TEntries (muid_bytes entry_muid)) (\<lambda>entry_bytes.
    if entry_bytes = None \<or> entry_bytes = Some [] then py_return ()
    else
      py_bind (py_lift (bindr (opt_or TypeError entry_bytes) (lm_entry_parse L))) (\<lambda>e.
      py_bind (tx_read (\<lambda>T. to_last_with_prefix L (T TLocations) (muid_bytes entry_muid) None None)) (\<lambda>found.
      case found of
        None \<Rightarrow> py_return ()
      | Some existing_location_key \<Rightarrow>
          py_bind (py_lift (location_from_bytes existing_location_key)) (\<lambda>lk.
          if mu_timestamp movement_muid < mu_timestamp (lk_placement lk) then py_return ()
          else
            py_bind (tx_read (\<lambda>T. value_at T TLocations existing_location_key)) (\<lambda>location.
            if location = [] then py_return ()
            else
              py_bind (py_lift (placement_from_bytes E location (en_behavior e))) (\<lambda>old.
              if (case pl_expiry old of None \<Rightarrow> False | Some x \<Rightarrow> x \<noteq> 0 \<and> x < mu_timestamp movement_muid) then py_return ()
              else move_placement E L (flag \<noteq> None \<and> flag \<noteq> Some 0) builder container entry_muid movement_muid
                     existing_location_key location old))))))))))"

section \<open>Adding an entry\<close>

definition lmdb_bump_total :: "entry_pb \<Rightarrow> muid \<Rightarrow> unit tx" where
  "lmdb_bump_total e container =
    py_when (en_behavior e = ACCUMULATOR)
     (py_bind (tx_read (\<lambda>T. py_int 10 (total_text T (muid_bytes container)))) (\<lambda>total.
      py_bind (py_lift (py_int 10 (integer_text e))) (\<lambda>n.
      py_bind (py_lift (py_str_int (total + n))) (\<lambda>text.
        tx_put TTotals (muid_bytes container) (str_encode text)))))"

text \<open>The entry that the new one replaces is looked up in another transaction, in the committed tables.\<close>

definition lmdb_retire_previous :: "ext \<Rightarrow> lmdb_ext \<Rightarrow> int \<Rightarrow> bool \<Rightarrow> entry_pb \<Rightarrow> placement \<Rightarrow> unit tx" where
  "lmdb_retire_previous E L ts retaining e p =
    py_when (new_entries_replace (en_behavior e))
     (py_then (py_lift (require (\<not> (case pl_middle p of MidQueue _ \<Rightarrow> True | _ \<Rightarrow> False)) AssertionError))
     (py_bind (with_read (\<lambda>T. lmdb_get_entry_by_key E L T (pl_container p) (pl_middle p) (-1))) (\<lambda>found.
      case found of
        None \<Rightarrow> py_return ()
      | Some (address, _) \<Rightarrow>
          if retaining
          then let removal = removal_bytes (RemovalKey (pl_container p) address (pl_placer p)) in
               py_then (tx_put TRemovals removal [])
                (py_bind (py_lift (muts_of ts)) (\<lambda>k. tx_put TRemovalsByTime k removal))
          else lmdb_remove_entry E L address)))"

definition lmdb_store_entry :: "lmdb_ext \<Rightarrow> entry_pb \<Rightarrow> placement \<Rightarrow> bytes \<Rightarrow> unit tx" where
  "lmdb_store_entry L e p encoded =
    (let u = muid_bytes (pl_placer p) in
     py_then (tx_put TEntries u (lm_entry_ser L e))
    (py_then (tx_put TPlacements encoded u)
      (tx_put TLocations (location_bytes (LocationKey (pl_placer p) (pl_placer p))) encoded)))"

definition put_index :: "table \<Rightarrow> bool \<Rightarrow> muid_pb \<Rightarrow> muid \<Rightarrow> muid \<Rightarrow> unit tx" where
  "put_index t present pb entry_muid container_muid =
    py_when present
     (py_bind (py_lift (muid_create (CtxMuid entry_muid) pb None)) (\<lambda>u.
        tx_put t (muid_bytes u @ muid_bytes entry_muid) (muid_bytes container_muid)))"

definition put_sides :: "muid \<Rightarrow> entry_pb \<Rightarrow> unit tx" where
  "put_sides entry_muid e =
    py_when (has_pair e)
     (py_bind (py_lift (muid_create (CtxMuid entry_muid) (pair_left e) None)) (\<lambda>l.
      py_bind (py_lift (muid_create (CtxMuid entry_muid) (pair_rite e) None)) (\<lambda>r.
      py_then (tx_put TBySide (muid_bytes l @ muid_bytes entry_muid) (muid_bytes entry_muid))
        (tx_put TBySide (muid_bytes r @ muid_bytes entry_muid) (muid_bytes entry_muid)))))"

definition put_name :: "ext \<Rightarrow> int \<Rightarrow> int \<Rightarrow> entry_pb \<Rightarrow> placement \<Rightarrow> unit tx" where
  "put_name E ts med e p =
    py_when (pl_container p = name_property \<and> has_value e \<and> has_describing e)
     (py_bind (py_lift (muid_create (CtxInfo ts med) (describing_of e) None)) (\<lambda>d.
      py_bind (py_lift (entry_name E e)) (\<lambda>name.
        case name of None \<Rightarrow> py_return () | Some s \<Rightarrow> tx_put TByName (name_key s (pl_placer p)) (muid_bytes d))))"

definition indexed_value :: "lmdb_ext \<Rightarrow> entry_pb \<Rightarrow> bytes option result" where
  "indexed_value L e =
    (case en_contains e of
      ConValue (ValDocument _ _) \<Rightarrow> Inr None
    | ConValue v \<Rightarrow> Inr (Some (lm_value_ser L v))
    | ConPointee m \<Rightarrow> Inr (Some (lm_pointee_ser L m))
    | ConDeletion _ \<Rightarrow> Inr None
    | ConNone \<Rightarrow> Inl ValueError)"

definition put_value :: "lmdb_ext \<Rightarrow> entry_pb \<Rightarrow> placement \<Rightarrow> unit tx" where
  "put_value L e p =
    py_when (en_behavior e = PROPERTY)
     (if \<not> has_describing e then py_raise ValueError
      else
        py_bind (py_lift (muid_create (CtxMuid (pl_placer p)) (describing_of e) None)) (\<lambda>d.
        py_bind (py_lift (indexed_value L e)) (\<lambda>v.
        case v of
          None \<Rightarrow> py_return ()
        | Some encoded \<Rightarrow>
            py_when (length encoded \<le> 511 - 32)
              (tx_put TByValue (muid_bytes (pl_container p) @ encoded @ muid_bytes (pl_placer p)) (muid_bytes d)))))"

definition lmdb_add_entry :: "ext \<Rightarrow> lmdb_ext \<Rightarrow> int \<Rightarrow> int \<Rightarrow> int \<Rightarrow> entry_pb \<Rightarrow> unit tx" where
  "lmdb_add_entry E L ts med off e =
    py_bind (tx_read (retention ''entries'')) (\<lambda>flag.
    let retaining = (flag \<noteq> None \<and> flag \<noteq> Some 0) in
    py_then (py_lift (ensure_entry_is_valid e ts med off))
   (py_bind (py_lift (placement_from_builder e ts med off)) (\<lambda>p.
    py_then (lmdb_bump_total e (pl_container p))
   (if en_behavior e = ACCUMULATOR \<and> \<not> retaining then py_return ()
    else
      py_bind (py_lift (placement_bytes E p)) (\<lambda>encoded.
      py_then (lmdb_retire_previous E L ts retaining e p)
     (py_then (lmdb_store_entry L e p encoded)
     (py_then (put_index TByDescribing (has_describing e) (describing_of e) (pl_placer p) (pl_container p))
     (py_then (put_index TByPointee (has_pointee e) (pointee_of e) (pl_placer p) (pl_container p))
     (py_then (put_sides (pl_placer p) e)
     (py_then (put_name E ts med e p)
       (put_value L e p)))))))))))"

section \<open>Applying a bundle\<close>

text \<open>Handing on what other processes wrote since this one last looked, in the order of receipt.\<close>

fun lmdb_refresh_loop :: "bool \<Rightarrow> bytes list \<Rightarrow> int tx" where
  "lmdb_refresh_loop callback [] = py_return 0"
| "lmdb_refresh_loop callback (k # ks) =
    py_bind (tx_read (\<lambda>T. value_at T TBundles k)) (\<lambda>b.
    py_then (py_when callback (py_modify (\<lambda>s. s\<lparr>lb_called := lb_called s @ [b]\<rparr>)))
   (py_bind (py_lift (decode_muts k)) (\<lambda>t.
    py_then (py_modify (\<lambda>s. s\<lparr>lb_seen_through := (case t of None \<Rightarrow> 0 | Some n \<Rightarrow> n)\<rparr>))
   (py_bind (lmdb_refresh_loop callback ks) (\<lambda>count. py_return (if callback then count + 1 else count))))))"

definition lmdb_refresh_helper :: "lmdb_ext \<Rightarrow> bool \<Rightarrow> int tx" where
  "lmdb_refresh_helper L callback =
    py_bind (py_read (\<lambda>s. muts_of (lb_seen_through s + 1))) (\<lambda>start.
    py_bind (tx_read (\<lambda>T. Inr (cur_forward L (T TBundles) start))) (lmdb_refresh_loop callback))"

definition lmdb_refresh :: "lmdb_ext \<Rightarrow> bool \<Rightarrow> int tx" where
  "lmdb_refresh L callback =
    py_then (py_modify (\<lambda>s. s\<lparr>lb_work := lb_tables s\<rparr>)) (lmdb_refresh_helper L callback)"

definition lmdb_known_container :: "lmdb_ext \<Rightarrow> entry_pb \<Rightarrow> unit tx" where
  "lmdb_known_container L e =
    py_bind (py_lift (mk_muid (pb_timestamp (container_of e)) (pb_medallion (container_of e))
        (pb_offset (container_of e)))) (\<lambda>u.
    py_bind (py_read (\<lambda>s. Inr (u \<in> set (lb_seen_containers s)))) (\<lambda>seen.
    py_when (\<not> seen)
     (py_bind (with_read (\<lambda>T. lmdb_get_container L T u)) (\<lambda>known.
      py_when (\<not> (known \<noteq> None \<or> pb_timestamp (container_of e) = -1))
       (py_then (tx_put TContainers (muid_bytes u) (lm_container_ser L (en_behavior e)))
         (py_modify (\<lambda>s. s\<lparr>lb_seen_containers := u # lb_seen_containers s\<rparr>)))))))"

fun lmdb_apply_change :: "ext \<Rightarrow> lmdb_ext \<Rightarrow> int \<Rightarrow> int \<Rightarrow> int \<Rightarrow> change_pb \<Rightarrow> unit tx" where
  "lmdb_apply_change E L ts med off (ChContainer behavior) =
    py_bind (py_lift (mk_muid ts med off)) (\<lambda>u. tx_put TContainers (muid_bytes u) (lm_container_ser L behavior))"
| "lmdb_apply_change E L ts med off (ChEntry e) = py_then (lmdb_known_container L e) (lmdb_add_entry E L ts med off e)"
| "lmdb_apply_change E L ts med off (ChMovement m) = lmdb_apply_movement E L ts med off m"
| "lmdb_apply_change E L ts med off (ChClearance c) = lmdb_apply_clearance E L ts med off c"
| "lmdb_apply_change E L ts med off ChUnset = py_raise ValueError"

fun lmdb_apply_changes :: "ext \<Rightarrow> lmdb_ext \<Rightarrow> int \<Rightarrow> int \<Rightarrow> int \<Rightarrow> change_pb list \<Rightarrow> unit tx" where
  "lmdb_apply_changes E L ts med off [] = py_return ()"
| "lmdb_apply_changes E L ts med off (c # cs) =
    py_then (lmdb_apply_change E L ts med off c) (lmdb_apply_changes E L ts med (off + 1) cs)"

text \<open>The bundle itself, when bundles are retained, under the time of its receipt.\<close>

definition lmdb_record_bundle :: "int \<Rightarrow> bundle_info \<Rightarrow> bytes \<Rightarrow> unit tx" where
  "lmdb_record_bundle received new_info b =
    py_bind (tx_read (retention ''bundles'')) (\<lambda>flag.
    py_then (py_when (flag \<noteq> None \<and> flag \<noteq> Some 0)
      (py_bind (py_lift (muts_of received)) (\<lambda>bundle_location.
       py_then (tx_put TBundles bundle_location b)
      (py_then (py_modify (\<lambda>s. s\<lparr>lb_seen_through := received\<rparr>))
       (py_bind (py_lift (info_bytes new_info)) (\<lambda>i. tx_put TBundleInfos i bundle_location))))))
    (py_bind (py_lift (chain_bytes (get_chain new_info))) (\<lambda>k.
     py_bind (py_lift (info_bytes new_info)) (\<lambda>i. tx_put TChains k i))))"

definition lmdb_chain_key :: "ext \<Rightarrow> bundle_pb \<Rightarrow> bundle_info \<Rightarrow> bundle_info option \<Rightarrow> bytes tx" where
  "lmdb_chain_key E builder new_info old_info =
    py_bind (py_lift (chain_bytes (get_chain new_info))) (\<lambda>k.
    if bi_chain_start new_info = bi_timestamp new_info
    then
      py_then (tx_put TIdentities k (str_encode (bn_identity builder)))
     (py_bind (py_lift (x_load_verify_key E (bn_verify_key builder))) (\<lambda>vk.
      py_then (tx_put TVerifyKeys k vk) (py_return vk)))
    else
      py_bind (tx_read (\<lambda>T. lmdb_get_verify_key E T (get_chain new_info))) (\<lambda>vk.
      case old_info of
        None \<Rightarrow> py_raise AssertionError
      | Some old \<Rightarrow>
          (case bi_hex_hash old of
            None \<Rightarrow> py_raise AssertionError
          | Some h \<Rightarrow>
              py_bind (py_lift (bytes_fromhex h)) (\<lambda>prior.
                if bn_prior_hash builder \<noteq> prior then py_raise ValueError else py_return vk))))"

definition lmdb_plain_builder :: "ext \<Rightarrow> bundle_pb \<Rightarrow> bundle_pb tx" where
  "lmdb_plain_builder E builder =
    (if bn_encrypted builder = [] then py_return builder
     else if bn_changes builder \<noteq> [] then py_raise ValueError
     else if bn_key_id builder = 0 then py_raise ValueError
     else
       py_bind (py_lift (muts_of (bn_key_id builder))) (\<lambda>k.
       py_bind (tx_get TSymmetricKeys k) (\<lambda>key.
         case key of
           None \<Rightarrow> py_raise KeyError
         | Some sk \<Rightarrow> if sk = [] then py_raise KeyError
             else py_lift (bindr (x_decrypt E sk (bn_encrypted builder)) (x_bundle_parse E)))))"

definition lmdb_accept ::
  "ext \<Rightarrow> lmdb_ext \<Rightarrow> int \<Rightarrow> int \<Rightarrow> int \<Rightarrow> bool \<Rightarrow> bytes \<Rightarrow> bundle_pb \<Rightarrow> bundle_info \<Rightarrow> bundle_info option \<Rightarrow> unit tx" where
  "lmdb_accept E L received time pid claim_chain b builder new_info old_info =
    py_then (py_when claim_chain
      (py_then (py_lift (require (bi_timestamp new_info = bi_chain_start new_info) AssertionError))
        (py_then (lmdb_add_claim L time pid (get_chain new_info)) (py_return ()))))
   (py_then (lmdb_record_bundle received new_info b)
   (py_bind (lmdb_chain_key E builder new_info old_info) (\<lambda>verify_key.
    py_then (py_lift (x_verify E verify_key b))
   (py_bind (lmdb_plain_builder E builder) (\<lambda>plain.
    py_bind (py_read (\<lambda>s. Inr (lb_apply_changes s))) (\<lambda>wanted.
      py_when wanted
        (lmdb_apply_changes E L (bi_timestamp new_info) (bi_medallion new_info) 1 (bn_changes plain))))))))"

text \<open>The transaction of \<open>apply_bundle\<close>.\<close>

definition lmdb_apply_within ::
  "ext \<Rightarrow> lmdb_ext \<Rightarrow> int \<Rightarrow> int \<Rightarrow> int \<Rightarrow> bool \<Rightarrow> bool \<Rightarrow> bytes \<Rightarrow> bundle_pb \<Rightarrow> bundle_info \<Rightarrow> bytes \<Rightarrow> bool tx" where
  "lmdb_apply_within E L received time pid callback claim_chain b builder new_info chain_key =
    py_then (py_bind (lmdb_refresh_helper L callback) (\<lambda>_. py_return ()))
   (py_bind (tx_get TChains chain_key) (\<lambda>old.
    py_bind (py_lift (case old of
        None \<Rightarrow> Inr None
      | Some v \<Rightarrow> if v = [] then Inr None else bindr (info_from_bytes v) (\<lambda>i. Inr (Some i)))) (\<lambda>old_info.
    py_bind (py_lift (is_needed new_info old_info)) (\<lambda>needed.
    py_then (py_when needed (lmdb_accept E L received time pid claim_chain b builder new_info old_info))
      (py_return needed)))))"

definition lmdb_apply_bundle ::
  "ext \<Rightarrow> lmdb_ext \<Rightarrow> int \<Rightarrow> int \<Rightarrow> int \<Rightarrow> bool \<Rightarrow> bool \<Rightarrow> bytes \<Rightarrow> bool tx" where
  "lmdb_apply_bundle E L received time pid callback claim_chain b =
    py_bind (py_lift (get_builder E b)) (\<lambda>builder.
    py_bind (py_lift (get_info E b)) (\<lambda>new_info.
    py_bind (py_lift (chain_bytes (get_chain new_info))) (\<lambda>chain_key.
    py_bind (with_write (lmdb_apply_within E L received time pid callback claim_chain b builder new_info chain_key)) (\<lambda>needed.
    py_then (py_when (needed \<and> callback) (py_modify (\<lambda>s. s\<lparr>lb_called := lb_called s @ [b]\<rparr>)))
      (py_return needed)))))"

end
