(* ===== verification/Lmdb_Laws.thy ===== *)
theory Lmdb_Laws
  imports Lmdb_Store Mem_Chains
begin

text \<open>
  What the cursors of the LMDB store find, and that a transaction is all or nothing.
\<close>

section \<open>Seeking\<close>

definition greatest_below :: "bytes set \<Rightarrow> bytes \<Rightarrow> bytes option \<Rightarrow> bool" where
  "greatest_below A b r \<longleftrightarrow>
    (case r of None \<Rightarrow> \<forall>k \<in> A. \<not> k < b | Some k \<Rightarrow> k \<in> A \<and> k < b \<and> (\<forall>k' \<in> A. k' < b \<longrightarrow> k' \<le> k))"

lemma head_filter_descending:
  assumes "sorted (rev xs)"
  shows "case head_opt (List.filter P xs) of
      None \<Rightarrow> \<forall>x \<in> set xs. \<not> P x
    | Some k \<Rightarrow> k \<in> set xs \<and> P k \<and> (\<forall>x \<in> set xs. P x \<longrightarrow> x \<le> (k :: 'a::linorder))"
  using assms by (induction xs) (auto simp: head_opt_def sorted_append split: list.splits)

lemma seek_key_spec:
  assumes L: "lmdb_ok L" and d: "dict_ok d"
  shows "greatest_below (set (dkeys d)) b (seek_key L d b)"
proof -
  have ok: "scan_ok id (lm_scan L)" and dist: "distinct (dkeys d)"
    using L d by (simp_all add: lmdb_ok_def dict_ok_def)
  note keys = scan_set [OF ok dist]
  show ?thesis
  proof (cases "lm_scan L (dkeys d) (Some b) None False")
    case Nil
    then have below: "\<forall>k \<in> set (dkeys d). k < b" using scan_Nil [OF ok dist] by (auto simp: in_bounds_def)
    have "sorted (rev (lm_scan L (dkeys d) None None True))" using scan_desc [OF ok dist] by (simp add: id_def)
    from head_filter_descending [OF this, of "\<lambda>_. True"] show ?thesis
      using Nil below keys [of None None True]
      by (auto simp: greatest_below_def seek_key_def cur_set_range_def cur_last_def head_opt_def in_bounds_def split: list.splits option.splits)
  next
    case (Cons k0 rest)
    note hd = scan_asc_hd [OF ok dist Cons]
    have cut: "k < b \<longleftrightarrow> k \<le> k0 \<and> k \<noteq> k0" if "k \<in> set (dkeys d)" for k
    proof -
      have "b \<le> k0" "b \<le> k \<Longrightarrow> k0 \<le> k" using hd(2) hd(3) [of k] that by (simp_all add: in_bounds_def)
      then show ?thesis using not_le [of b k] by (metis antisym less_le_trans less_le)
    qed
    have "sorted (rev (lm_scan L (dkeys d) None (Some k0) True))" using scan_desc [OF ok dist] by (simp add: id_def)
    from head_filter_descending [OF this, of "\<lambda>x. x \<noteq> k0"] show ?thesis
      using Cons cut keys [of None "Some k0" True]
      by (auto simp: greatest_below_def seek_key_def cur_set_range_def cur_prev_def head_opt_def [of "_ # _"] in_bounds_def
          split: option.splits)
  qed
qed


text \<open>The keys from a prefix up to a boundary have the prefix.\<close>

lemma prefix_between:
  fixes pre x y k :: "'a::linorder list"
  shows "pre @ x \<le> k \<Longrightarrow> k < pre @ y \<Longrightarrow> prefix pre k"
proof (induction pre arbitrary: k)
  case (Cons a pre)
  then obtain b k' where k: "k = b # k'" by (cases k) auto
  with Cons.prems have "a = b" by (auto simp: le_less)
  with Cons k show ?case by (auto simp: le_less)
qed simp

lemma byte_succ: "c < (255 :: byte) \<Longrightarrow> c < c + 1 \<and> (\<forall>b. c \<le> b \<longrightarrow> b < c + 1 \<longrightarrow> b = c)"
proof -
  assume "c < 255"
  then have "unat c < 255" by (simp add: word_less_nat_alt)
  then have "unat (c + 1) = unat c + 1" using unat_word_ariths(1) [of c 1] by simp
  then show ?thesis by (auto simp: word_less_nat_alt word_le_nat_alt word_unat_eq_iff)
qed

lemma prefix_below_next:
  assumes "last pre < (255 :: byte)" "pre \<noteq> []"
  shows "pre @ x \<le> k \<Longrightarrow> k < butlast pre @ [last pre + 1] \<Longrightarrow> prefix pre k" "prefix pre k \<Longrightarrow> k < butlast pre @ [last pre + 1]"
proof -
  obtain p c where pre: "pre = p @ [c]" using assms(2) by (cases pre rule: rev_cases) auto
  have c: "c < c + 1" "\<And>b. c \<le> b \<Longrightarrow> b < c + 1 \<Longrightarrow> b = c" using byte_succ [of c] assms(1) pre by auto
  show "prefix pre k" if "pre @ x \<le> k" "k < butlast pre @ [last pre + 1]"
  proof -
    have "prefix p k" using prefix_between [of p "[c] @ x" k "[c + 1]"] that pre by simp
    then obtain k' where k': "k = p @ k'" by (auto simp: prefix_def)
    with that pre have "c # x \<le> k'" "k' < [c + 1]" by simp_all
    then show ?thesis using c k' pre by (cases k') (auto simp: le_less)
  qed
  show "k < butlast pre @ [last pre + 1]" if "prefix pre k" using that c(1) pre by (auto simp: prefix_def)
qed

definition last_with :: "bytes set \<Rightarrow> bytes \<Rightarrow> bytes \<Rightarrow> bytes option \<Rightarrow> bool" where
  "last_with A pre b r \<longleftrightarrow> greatest_below {k \<in> A. prefix pre k} b r"

lemma to_last_spec:
  assumes L: "lmdb_ok L" and d: "dict_ok d" and "sfx = None \<or> boundary = None"
    and b: "\<And>x k. pre @ x \<le> k \<Longrightarrow> k < seek_boundary pre sfx boundary \<Longrightarrow> prefix pre k"
  obtains r where "to_last_with_prefix L d pre sfx boundary = Inr r"
    "last_with (set (dkeys d)) pre (seek_boundary pre sfx boundary) r"
proof -
  let ?b = "seek_boundary pre sfx boundary"
  let ?k = "seek_key L d ?b"
  note spec = seek_key_spec [OF L d, of ?b, unfolded greatest_below_def]
  let ?r = "case ?k of None \<Rightarrow> None | Some key \<Rightarrow> if prefix pre key then Some key else None"
  have "last_with (set (dkeys d)) pre ?b ?r"
  proof (cases ?k)
    case None
    then show ?thesis using spec by (auto simp: last_with_def greatest_below_def)
  next
    case (Some k)
    have "prefix pre k" if "k' \<in> set (dkeys d)" "prefix pre k'" "k' < ?b" for k'
    proof -
      note h = that
      obtain x where x: "k' = pre @ x" using h(2) by (auto simp: prefix_def)
      have "k' \<le> k" "k < ?b" using spec Some h by auto
      then show ?thesis using b [of x k] x by simp
    qed
    then show ?thesis using spec Some by (auto simp: last_with_def greatest_below_def)
  qed
  then show ?thesis using that [of ?r] assms(3) by (auto simp: to_last_with_prefix_def)
qed

lemma to_last_suffix:
  assumes "lmdb_ok L" "dict_ok d"
  obtains r where "to_last_with_prefix L d pre (Some sfx) None = Inr r" "last_with (set (dkeys d)) pre (pre @ sfx) r"
  by (rule to_last_spec [OF assms, of "Some sfx" None pre]) (auto simp: seek_boundary_def intro: prefix_between that)

text \<open>C32: \<open>to_last_with_prefix\<close> without a boundary finds the last key of the table that has the prefix, and nothing when
  there is none, for every prefix that does not end in the greatest byte.\<close>

lemma finds_last_with_prefix:
  assumes "lmdb_ok L" "dict_ok d" "pre \<noteq> []" "last pre < 255"
  shows "\<exists>r. to_last_with_prefix L d pre None None = Inr r \<and>
    (case r of None \<Rightarrow> \<forall>k \<in> set (dkeys d). \<not> prefix pre k
     | Some k \<Rightarrow> k \<in> set (dkeys d) \<and> prefix pre k \<and> (\<forall>k' \<in> set (dkeys d). prefix pre k' \<longrightarrow> k' \<le> k))"
proof -
  have b: "seek_boundary pre None None = butlast pre @ [last pre + 1]" using assms(3,4) by (simp add: seek_boundary_def)
  note below = prefix_below_next [OF assms(4,3)]
  obtain r where "to_last_with_prefix L d pre None None = Inr r"
    "last_with (set (dkeys d)) pre (butlast pre @ [last pre + 1]) r"
    by (rule to_last_spec [OF assms(1,2), of None None pre]) (auto simp: b intro: below(1))
  then show ?thesis using below(2) by (auto simp: last_with_def greatest_below_def split: option.splits)
qed


section \<open>What an operation writes\<close>

text \<open>
  An invariant of the state that survives writes to the tables \<open>A\<close>. Each operation keeps it when the tables that the
  operation writes are among these.
\<close>

locale table_invariant =
  fixes I :: "lmdb_store \<Rightarrow> bool" and A :: "table set"
  assumes writes_kept: "I s \<Longrightarrow> t \<in> A \<Longrightarrow> I (s\<lparr>lb_work := (lb_work s)(t := d)\<rparr>)"
    and aside: "I s \<Longrightarrow> I (s\<lparr>lb_seen_containers := c\<rparr>)" "I s \<Longrightarrow> I (s\<lparr>lb_seen_through := n\<rparr>)"
      "I s \<Longrightarrow> I (s\<lparr>lb_called := l\<rparr>)"
begin

lemma keeps_put: "t \<in> A \<Longrightarrow> py_keeps I (tx_put t k v)"
  unfolding tx_put_def by (intro keeps_rules py_keeps_modify writes_kept)

lemma keeps_delete: "t \<in> A \<Longrightarrow> py_keeps I (tx_delete t k)"
  unfolding tx_delete_def by (intro keeps_rules py_keeps_modify writes_kept)

lemma keeps_read: "py_keeps I (tx_read f)" "py_keeps I (with_read g)" "py_keeps I (tx_get t k)"
  unfolding tx_get_def tx_read_def with_read_def by (intro keeps_rules)+

lemma keeps_aside: "py_keeps I (py_modify (\<lambda>s. s\<lparr>lb_seen_containers := c s\<rparr>))"
  "py_keeps I (py_modify (\<lambda>s. s\<lparr>lb_seen_through := n s\<rparr>))" "py_keeps I (py_modify (\<lambda>s. s\<lparr>lb_called := l s\<rparr>))"
  by (blast intro: py_keeps_modify aside)+

lemmas tx_rules = keeps_rules keeps_put keeps_delete keeps_read keeps_aside

lemma keeps_drop_locations: "{TPlacements, TLocations} \<subseteq> A \<Longrightarrow> py_keeps I (drop_locations e ks)"
proof (induction e ks rule: drop_locations.induct)
  case (2 e k ks)
  then show ?case by (cases ks) (auto intro!: tx_rules)
qed (auto intro!: tx_rules)

lemma keeps_remove_entry:
  "{TEntries, TLocations, TPlacements, TBySide, TByDescribing, TByPointee, TByName} \<subseteq> A \<Longrightarrow> py_keeps I (lmdb_remove_entry E L u)"
  unfolding lmdb_remove_entry_def Let_def drop_sides_def drop_index_def drop_name_def
  by (auto intro!: tx_rules keeps_drop_locations)

lemma keeps_drop_prefix: "t \<in> A \<Longrightarrow> py_keeps I (drop_prefix L t pre n)"
  by (induction n) (auto intro!: tx_rules)

lemma keeps_drop_all: "t \<in> A \<Longrightarrow> py_keeps I (drop_all_with L t pre)"
  unfolding drop_all_with_def by (auto intro!: tx_rules keeps_drop_prefix)

lemma keeps_drop_entries: "{TEntries, TLocations} \<subseteq> A \<Longrightarrow> py_keeps I (drop_entries E L pre n)"
  by (induction n) (auto intro!: tx_rules keeps_drop_all)

lemma keeps_clearance:
  "{TClearances, TEntries, TLocations, TRemovals} \<subseteq> A \<Longrightarrow> py_keeps I (lmdb_apply_clearance E L ts med off b)"
  unfolding lmdb_apply_clearance_def by (auto intro!: tx_rules keeps_drop_all keeps_drop_entries)

lemma keeps_movement:
  "{TRemovals, TRemovalsByTime, TPlacements, TLocations, TEntries} \<subseteq> A \<Longrightarrow> py_keeps I (lmdb_apply_movement E L ts med off b)"
  unfolding lmdb_apply_movement_def move_placement_def Let_def by (auto intro!: tx_rules)

lemma keeps_total: "TTotals \<in> A \<Longrightarrow> py_keeps I (lmdb_bump_total e c)"
  unfolding lmdb_bump_total_def by (auto intro!: tx_rules)

lemma keeps_retire:
  "{TRemovals, TRemovalsByTime, TEntries, TLocations, TPlacements, TBySide, TByDescribing, TByPointee, TByName} \<subseteq> A \<Longrightarrow>
    py_keeps I (lmdb_retire_previous E L ts r e p)"
  unfolding lmdb_retire_previous_def Let_def by (auto intro!: tx_rules keeps_remove_entry)

lemma keeps_retire_retaining:
  "{TRemovals, TRemovalsByTime} \<subseteq> A \<Longrightarrow> py_keeps I (lmdb_retire_previous E L ts True e p)"
  unfolding lmdb_retire_previous_def Let_def by (auto intro!: tx_rules)

lemma keeps_store: "{TEntries, TPlacements, TLocations} \<subseteq> A \<Longrightarrow> py_keeps I (lmdb_store_entry L e p b)"
  unfolding lmdb_store_entry_def Let_def by (auto intro!: tx_rules)

lemma keeps_put_index: "t \<in> A \<Longrightarrow> py_keeps I (put_index t b pb u c)"
  unfolding put_index_def by (auto intro!: tx_rules)

lemma keeps_put_sides: "TBySide \<in> A \<Longrightarrow> py_keeps I (put_sides u e)"
  unfolding put_sides_def by (auto intro!: tx_rules)

lemma keeps_put_name: "TByName \<in> A \<Longrightarrow> py_keeps I (put_name E ts med e p)"
  unfolding put_name_def by (auto intro!: tx_rules)

lemma keeps_put_value: "TByValue \<in> A \<Longrightarrow> py_keeps I (put_value L e p)"
  unfolding put_value_def by (auto intro!: tx_rules)

lemmas keeps_parts = keeps_total keeps_retire keeps_store keeps_put_index keeps_put_sides keeps_put_name keeps_put_value

lemma keeps_known_container: "TContainers \<in> A \<Longrightarrow> py_keeps I (lmdb_known_container L e)"
  unfolding lmdb_known_container_def by (auto intro!: tx_rules)

lemma keeps_refresh: "py_keeps I (lmdb_refresh_helper L callback)"
proof -
  have "py_keeps I (lmdb_refresh_loop callback ks)" for ks
    by (induction callback ks rule: lmdb_refresh_loop.induct) (auto intro!: tx_rules)
  then show ?thesis unfolding lmdb_refresh_helper_def by (auto intro!: tx_rules)
qed

lemma keeps_record: "{TBundles, TBundleInfos, TChains} \<subseteq> A \<Longrightarrow> py_keeps I (lmdb_record_bundle t i b)"
  unfolding lmdb_record_bundle_def by (auto intro!: tx_rules)

lemma keeps_chain_key: "{TIdentities, TVerifyKeys} \<subseteq> A \<Longrightarrow> py_keeps I (lmdb_chain_key E pb i old)"
  unfolding lmdb_chain_key_def by (auto intro!: tx_rules)

lemma keeps_plain: "py_keeps I (lmdb_plain_builder E pb)"
  unfolding lmdb_plain_builder_def by (auto intro!: tx_rules)

lemma keeps_claim: "TClaims \<in> A \<Longrightarrow> py_keeps I (lmdb_add_claim L t pid c)"
  unfolding lmdb_add_claim_def Let_def by (auto intro!: tx_rules)

lemma keeps_claiming: "TClaims \<in> A \<Longrightarrow> py_keeps I (py_when b (py_then (py_lift r)
    (py_then (lmdb_add_claim L t pid c) (py_return ()))))"
  by (auto intro!: tx_rules keeps_claim)

text \<open>The tables that the changes of a bundle go to.\<close>

lemma keeps_change:
  assumes "- {TBundles, TBundleInfos, TChains, TClaims, TIdentities, TVerifyKeys, TRetentions} \<subseteq> A"
  shows "py_keeps I (lmdb_apply_change E L ts med off c)"
proof -
  have "py_keeps I (lmdb_add_entry E L ts med off e)" for e
    unfolding lmdb_add_entry_def Let_def using assms by (auto intro!: tx_rules keeps_parts)
  then show ?thesis
    using assms by (cases c) (auto intro!: tx_rules keeps_known_container keeps_movement keeps_clearance)
qed

lemma keeps_changes:
  "- {TBundles, TBundleInfos, TChains, TClaims, TIdentities, TVerifyKeys, TRetentions} \<subseteq> A \<Longrightarrow>
    py_keeps I (lmdb_apply_changes E L ts med off cs)"
  by (induction E L ts med off cs rule: lmdb_apply_changes.induct) (auto intro!: tx_rules keeps_change)

lemma keeps_accept:
  "A = UNIV \<Longrightarrow> py_keeps I (lmdb_accept E L t time pid claim b pb i old)"
  unfolding lmdb_accept_def
  by (auto intro!: tx_rules keeps_claim keeps_record keeps_chain_key keeps_plain keeps_changes)

end

section \<open>All or nothing\<close>

definition committed :: "tables \<Rightarrow> lmdb_store \<Rightarrow> bool" where
  "committed T s \<longleftrightarrow> lb_tables s = T"

interpretation during: table_invariant "committed T" UNIV
  by unfold_locales (simp_all add: committed_def)

lemma with_write_Inr_iff: "with_write m s = (Inr x, s') \<longleftrightarrow>
    (\<exists>s1. m (s\<lparr>lb_work := lb_tables s\<rparr>) = (Inr x, s1) \<and> s' = s1\<lparr>lb_tables := lb_work s1\<rparr>)"
  by (auto simp: with_write_def split: prod.splits sum.splits)

lemma with_write_aborts:
  assumes "py_keeps (committed (lb_tables s)) m" "with_write m s = (Inl e, s')"
  shows "lb_tables s' = lb_tables s"
proof -
  obtain s1 where s1: "m (s\<lparr>lb_work := lb_tables s\<rparr>) = (Inl e, s1)" "s' = s1\<lparr>lb_work := lb_tables s1\<rparr>"
    using assms(2) by (auto simp: with_write_def split: prod.splits sum.splits)
  have "committed (lb_tables s) (snd (m (s\<lparr>lb_work := lb_tables s\<rparr>)))"
    using assms(1) unfolding py_keeps_def by (simp add: committed_def)
  then show ?thesis using s1 by (simp add: committed_def)
qed

text \<open>C6: All or nothing: when applying a bundle raises, wherever in the middle of its changes, the tables are exactly as
  they were.\<close>

lemma failed_apply_undone:
  assumes "lmdb_apply_bundle E L received time pid callback claim b s = (Inl e, s')"
  shows "lb_tables s' = lb_tables s"
proof -
  have within: "py_keeps (committed T) (lmdb_apply_within E L received time pid callback claim b pb i k)" for T pb i k
    unfolding lmdb_apply_within_def by (intro during.tx_rules during.keeps_refresh during.keeps_accept refl)
  show ?thesis
    using assms with_write_aborts [OF within]
    unfolding lmdb_apply_bundle_def
    by (auto simp: py_bind_apply py_then_apply py_apply py_when_apply split: prod.splits sum.splits if_splits)
qed

end
