(* ===== verification/Lmdb_Refinement.thy ===== *)
theory Lmdb_Refinement
  imports Lmdb_Laws Keyed_Spec
begin

text \<open>
  The LMDB store implements the specification of keyed lookups: its tables always mirror a memory store that holds the
  changes of the bundles it accepted.
\<close>

section \<open>The tables and a memory store\<close>

definition mirrors :: "lmdb_ext \<Rightarrow> tables \<Rightarrow> mem_store \<Rightarrow> bool" where
  "mirrors L T m \<longleftrightarrow>
    (\<forall>k. dget (T TPlacements) k = map_option muid_bytes (dget (st_placements m) k)) \<and>
    (\<forall>u. valid_muid u \<longrightarrow> dget (T TEntries) (muid_bytes u) = map_option (lm_entry_ser L) (dget (st_entries m) u)) \<and>
    set (dkeys (T TClearances)) = set (dkeys (st_clearances m)) \<and>
    (\<forall>c. valid_muid c \<longrightarrow> py_int 10 (total_text T (muid_bytes c)) = Inr (running_total m c)) \<and>
    dict_ok (T TPlacements) \<and> dict_ok (T TClearances) \<and> retention ''entries'' T = Inr (Some 1)"

definition stands :: "ext \<Rightarrow> lmdb_ext \<Rightarrow> (muid \<Rightarrow> nat) \<Rightarrow> delivery list \<Rightarrow> tables \<Rightarrow> bool" where
  "stands E L K ds T \<longleftrightarrow> (\<exists>m. mirrors L T m \<and> holds E K ds m)"

text \<open>The tables that lookups read; the other ones may change.\<close>

definition core_tables :: "table set" where
  "core_tables = {TPlacements, TEntries, TClearances, TTotals, TRetentions}"

definition core_is :: "tables \<Rightarrow> lmdb_store \<Rightarrow> bool" where
  "core_is T s \<longleftrightarrow> (\<forall>t \<in> core_tables. lb_work s t = T t)"

interpretation elsewhere: table_invariant "core_is T" "- core_tables"
  by unfold_locales (auto simp: core_is_def)

lemma core_is_self [simp]: "core_is (lb_work s) s"
  by (simp add: core_is_def)

lemma core_is_trans: "core_is (lb_work s) t \<Longrightarrow> core_is (lb_work r) s \<Longrightarrow> core_is (lb_work r) t"
  by (simp add: core_is_def)

lemma core_is_eq:
  assumes "core_is T s"
  shows "lb_work s TPlacements = T TPlacements" "lb_work s TEntries = T TEntries" "lb_work s TClearances = T TClearances"
    "lb_work s TTotals = T TTotals" "lb_work s TRetentions = T TRetentions"
  using assms by (simp_all add: core_is_def core_tables_def)

lemma keeps_core_tables: "(\<And>T. py_keeps (core_is T) m) \<Longrightarrow> m s = (r, s') \<Longrightarrow> core_is (lb_work s) s'"
  unfolding py_keeps_def by (metis core_is_self snd_conv)

lemma mirrors_cong:
  assumes "core_is T s"
  shows "mirrors L (lb_work s) m = mirrors L T m"
  using core_is_eq [OF assms] by (simp add: mirrors_def total_text_def retention_def)

lemma stands_cong: "core_is T s \<Longrightarrow> stands E L K ds T \<Longrightarrow> stands E L K ds (lb_work s)"
  by (simp add: stands_def mirrors_cong)

lemma stands_nothing:
  "stands E L K ds T \<Longrightarrow> entry_of d = None \<Longrightarrow> clear_of d = None \<Longrightarrow> stands E L K (ds @ [d]) T"
  unfolding stands_def using holds_nothing by blast

lemma tx_put_Inr_iff: "tx_put t k v s = (Inr u, s') \<longleftrightarrow>
    valsize_ok k \<and> s' = s\<lparr>lb_work := (lb_work s)(t := dput k v (lb_work s t))\<rparr>"
  by (auto simp: tx_put_def py_apply)

lemma tx_read_iff: "tx_read f s = (r, s') \<longleftrightarrow> f (lb_work s) = r \<and> s' = s" "tx_get t k s = (r', s') \<longleftrightarrow> Inr (dget (lb_work s t) k) = r' \<and> s' = s"
  by (auto simp: tx_get_def tx_read_def py_apply)

section \<open>An entry\<close>

lemma lmdb_entry_applied:
  assumes run: "lmdb_apply_change E L ts med off (ChEntry e) s = (Inr (), s')"
    and ret: "retention ''entries'' (lb_work s) = Inr (Some 1)"
  obtains p where "placement_from_builder e ts med off = Inr p"
    "lb_work s' TPlacements = dput (place_key E p) (muid_bytes (pl_placer p)) (lb_work s TPlacements)"
    "lb_work s' TEntries = dput (muid_bytes (pl_placer p)) (lm_entry_ser L e) (lb_work s TEntries)"
    "lb_work s' TClearances = lb_work s TClearances" "lb_work s' TRetentions = lb_work s TRetentions"
    "if en_behavior e = ACCUMULATOR
     then \<exists>t n. py_int 10 (total_text (lb_work s) (muid_bytes (pl_container p))) = Inr t \<and> py_int 10 (integer_text e) = Inr n \<and>
       fits_text (t + n) \<and> lb_work s' TTotals = dput (muid_bytes (pl_container p)) (str_encode (decimal_text (t + n))) (lb_work s TTotals)
     else lb_work s' TTotals = lb_work s TTotals"
proof -
  obtain s0 where s0: "lmdb_known_container L e s = (Inr (), s0)" "lmdb_add_entry E L ts med off e s0 = (Inr (), s')"
    using run by (auto simp: py_then_unit_iff)
  have c0: "core_is (lb_work s) s0"
    by (rule keeps_core_tables [OF elsewhere.keeps_known_container s0(1)]) (simp add: core_tables_def)
  have ret0: "retention ''entries'' (lb_work s0) = Inr (Some 1)"
    using ret core_is_eq(5) [OF c0] by (simp add: retention_def)
  obtain p s1 enc s2 s3 s4 s5 s6 s7 where p: "placement_from_builder e ts med off = Inr p"
    and steps: "lmdb_bump_total e (pl_container p) s0 = (Inr (), s1)" "placement_bytes E p = Inr enc"
    "lmdb_retire_previous E L ts True e p s1 = (Inr (), s2)" "lmdb_store_entry L e p enc s2 = (Inr (), s3)"
    "put_index TByDescribing (has_describing e) (describing_of e) (pl_placer p) (pl_container p) s3 = (Inr (), s4)"
    "put_index TByPointee (has_pointee e) (pointee_of e) (pl_placer p) (pl_container p) s4 = (Inr (), s5)"
    "put_sides (pl_placer p) e s5 = (Inr (), s6)" "put_name E ts med e p s6 = (Inr (), s7)"
    "put_value L e p s7 = (Inr (), s')"
    using s0(2) ret0 unfolding lmdb_add_entry_def
    by (auto simp: py_bind_Inr_iff py_then_unit_iff py_apply tx_read_iff)
  have enc: "enc = place_key E p" using steps(2) by (rule placement_bytes_Inr)
  have c2: "core_is (lb_work s1) s2"
    by (rule keeps_core_tables [OF elsewhere.keeps_retire_retaining steps(3)]) (simp add: core_tables_def)
  have "core_is (lb_work s3) s4" "core_is (lb_work s4) s5" "core_is (lb_work s5) s6" "core_is (lb_work s6) s7"
    "core_is (lb_work s7) s'"
    using keeps_core_tables [OF elsewhere.keeps_put_index steps(5)] keeps_core_tables [OF elsewhere.keeps_put_index steps(6)]
      keeps_core_tables [OF elsewhere.keeps_put_sides steps(7)] keeps_core_tables [OF elsewhere.keeps_put_name steps(8)]
      keeps_core_tables [OF elsewhere.keeps_put_value steps(9)] by (simp_all add: core_tables_def)
  then have c3: "core_is (lb_work s3) s'" by (meson core_is_trans)
  have s3: "lb_work s3 = (lb_work s2)(TEntries := dput (muid_bytes (pl_placer p)) (lm_entry_ser L e) (lb_work s2 TEntries),
      TPlacements := dput (place_key E p) (muid_bytes (pl_placer p)) (lb_work s2 TPlacements),
      TLocations := dput (location_bytes (LocationKey (pl_placer p) (pl_placer p))) (place_key E p) (lb_work s2 TLocations))"
    using steps(4) unfolding lmdb_store_entry_def Let_def enc by (auto simp: py_then_unit_iff tx_put_Inr_iff)
  show thesis
  proof (cases "en_behavior e = ACCUMULATOR")
    case True
    then obtain t n where "py_int 10 (total_text (lb_work s0) (muid_bytes (pl_container p))) = Inr t"
      "py_int 10 (integer_text e) = Inr n" "fits_text (t + n)"
      "lb_work s1 = (lb_work s0)(TTotals := dput (muid_bytes (pl_container p)) (str_encode (decimal_text (t + n))) (lb_work s0 TTotals))"
      using steps(1) unfolding lmdb_bump_total_def py_when_def
      by (auto simp: py_bind_Inr_iff py_apply tx_read_iff tx_put_Inr_iff result_simps)
    then show thesis
      using True core_is_eq [OF c0] core_is_eq [OF c2] core_is_eq [OF c3] s3 by (intro that [OF p]) (auto simp: total_text_def)
  next
    case False
    then have "s1 = s0" using steps(1) by (simp add: lmdb_bump_total_def py_when_def py_apply)
    then show thesis
      using False core_is_eq [OF c0] core_is_eq [OF c2] core_is_eq [OF c3] s3 by (intro that [OF p]) auto
  qed
qed

text \<open>The total of an accumulator after an increment.\<close>

lemma total_text_dput:
  assumes "T' TTotals = dput (muid_bytes c) (str_encode (decimal_text n)) (T TTotals)" "fits_text n" "valid_muid c" "valid_muid c'"
  shows "py_int 10 (total_text T' (muid_bytes c')) = (if c' = c then Inr n else py_int 10 (total_text T (muid_bytes c')))"
  using assms muid_codec.enc_inj [of c' c] by (auto simp: total_text_def py_int_py_str_int)

lemma stands_entry:
  assumes E: "key_codec_ok E" and st: "stands E L K ds (lb_work s)"
    and ok: "\<forall>d \<in> set (ds @ d # ds'). in_order K d" and new: "distinct (map change_address_of (ds @ d # ds'))"
    and d: "dl_change d = ChEntry e"
    and run: "lmdb_apply_change E L (dl_ts d) (dl_med d) (dl_off d) (ChEntry e) s = (Inr (), s')"
  shows "stands E L K (ds @ [d]) (lb_work s')"
proof -
  obtain m where m: "mirrors L (lb_work s) m" "holds E K ds m" using st by (auto simp: stands_def)
  have ret: "retention ''entries'' (lb_work s) = Inr (Some 1)" using m(1) by (simp add: mirrors_def)
  obtain p where p: "placement_from_builder e (dl_ts d) (dl_med d) (dl_off d) = Inr p"
    "lb_work s' TPlacements = dput (place_key E p) (muid_bytes (pl_placer p)) (lb_work s TPlacements)"
    "lb_work s' TEntries = dput (muid_bytes (pl_placer p)) (lm_entry_ser L e) (lb_work s TEntries)"
    "lb_work s' TClearances = lb_work s TClearances" "lb_work s' TRetentions = lb_work s TRetentions"
    and tot: "if en_behavior e = ACCUMULATOR
     then \<exists>t n. py_int 10 (total_text (lb_work s) (muid_bytes (pl_container p))) = Inr t \<and> py_int 10 (integer_text e) = Inr n \<and>
       fits_text (t + n) \<and> lb_work s' TTotals = dput (muid_bytes (pl_container p)) (str_encode (decimal_text (t + n))) (lb_work s TTotals)
     else lb_work s' TTotals = lb_work s TTotals"
    by (rule lmdb_entry_applied [OF run ret])
  have eo: "entry_of d = Some (p, e)" "clear_of d = None" using d p(1) by (simp_all add: entry_of_def clear_of_def)
  have in_ord: "in_order K d" using ok by simp
  have pok: "placement_ok p" "behavior_kind (en_behavior e) = Some (middle_kind (pl_middle p))"
    "middle_kind (pl_middle p) = K (pl_container p)"
    using in_ord d p(1) by (auto simp: in_order_def)
  have cm: "change_muid (pl_placer p)" using in_ord entry_address [OF in_ord eo(1)] by (simp add: in_order_def)
  have v: "valid_muid (pl_container p)" "valid_muid (pl_placer p)" using pok(1) by (simp_all add: placement_ok_def)
  have fresh: "dget (st_entries m) (pl_placer p) = None" by (rule fresh_address [OF m(2) ok new eo(1)])
  define a where "a = (if en_behavior e = ACCUMULATOR then amount_of (pl_container p) d else 0)"
  define m' where "m' = m\<lparr>st_placements := dput (place_key E p) (pl_placer p) (st_placements m),
    st_entries := dput (pl_placer p) e (st_entries m),
    st_totals := if en_behavior e = ACCUMULATOR then dput (muid_bytes (pl_container p)) (running_total m (pl_container p) + a) (st_totals m) else st_totals m\<rparr>"
  have run_tot: "running_total m' c = running_total m c + amount_of c d" if c: "valid_muid c" for c
  proof (cases "en_behavior e = ACCUMULATOR")
    case True
    then have "st_totals m' = dput (muid_bytes (pl_container p)) (running_total m (pl_container p) + a) (st_totals m)" by (simp add: m'_def)
    from dput_total [OF v(1) c this] show ?thesis using True eo by (simp add: a_def amount_of_def)
  next
    case False
    then show ?thesis using eo by (simp add: m'_def running_total_def amount_of_def)
  qed
  have H: "holds E K (ds @ [d]) m'"
    by (rule holds_entry [OF E m(2) eo pok(1) cm pok(2,3) fresh]) (use m(2) run_tot in \<open>simp_all add: m'_def holds_def\<close>)
  have totals: "py_int 10 (total_text (lb_work s') (muid_bytes c)) = Inr (running_total m' c)" if c: "valid_muid c" for c
  proof (cases "en_behavior e = ACCUMULATOR")
    case True
    then obtain n where n: "py_int 10 (integer_text e) = Inr n" "fits_text (running_total m (pl_container p) + n)"
      "lb_work s' TTotals = dput (muid_bytes (pl_container p)) (str_encode (decimal_text (running_total m (pl_container p) + n))) (lb_work s TTotals)"
      using tot m(1) v(1) by (auto simp: mirrors_def)
    show ?thesis
      using total_text_dput [of "lb_work s'" _ _ "lb_work s", OF n(3,2) v(1) c] run_tot [OF c] m(1) c True eo(1) n(1) by (simp add: mirrors_def amount_of_def)
  next
    case False
    then show ?thesis using tot run_tot [OF c] m(1) c eo(1) by (simp add: mirrors_def amount_of_def total_text_def)
  qed
  have M: "mirrors L (lb_work s') m'"
    using m(1) totals muid_codec.enc_inj [OF _ v(2)] by (simp add: mirrors_def p(2-5) retention_def) (simp add: m'_def)
  from M H show ?thesis by (auto simp: stands_def)
qed

section \<open>A clearance and a movement\<close>

lemma stands_clearance:
  assumes st: "stands E L K ds (lb_work s)" and d: "in_order K d" "dl_change d = ChClearance b"
    and run: "lmdb_apply_change E L (dl_ts d) (dl_med d) (dl_off d) (ChClearance b) s = (Inr (), s')"
  shows "stands E L K (ds @ [d]) (lb_work s')"
proof -
  obtain m where m: "mirrors L (lb_work s) m" "holds E K ds m" using st by (auto simp: stands_def)
  have ret: "retention ''entries'' (lb_work s) = Inr (Some 1)" using m(1) by (simp add: mirrors_def)
  obtain c u where q: "muid_create (CtxInfo (dl_ts d) (dl_med d)) (cl_container b) None = Inr c"
    "muid_create (CtxInfo (dl_ts d) (dl_med d)) dummy_builder (Some (dl_off d)) = Inr u"
    and w: "lb_work s' = (lb_work s)(TClearances := dput (muid_bytes c @ muid_bytes u) (lm_clearance_ser L b) (lb_work s TClearances))"
    using run ret
    by (auto simp: lmdb_apply_clearance_def py_bind_Inr_iff py_then_unit_iff py_apply py_when_def tx_read_iff tx_put_Inr_iff)
  have v: "valid_muid c" "valid_muid u"
    using d q change_address [OF _ q(2)] by (auto simp: in_order_def change_muid_def)
  have "entry_of d = None" "clear_of d = Some (muid_bytes c @ muid_bytes u)"
    using d(2) q by (simp_all add: entry_of_def clear_of_def)
  from holds_clearance [OF m(2) this v]
  have "holds E K (ds @ [d]) (m\<lparr>st_clearances := dput (muid_bytes c @ muid_bytes u) b (st_clearances m)\<rparr>)" .
  moreover have "mirrors L (lb_work s') (m\<lparr>st_clearances := dput (muid_bytes c @ muid_bytes u) b (st_clearances m)\<rparr>)"
    using m(1) by (simp add: mirrors_def w total_text_def retention_def running_total_def del: set_map)
  ultimately show ?thesis by (auto simp: stands_def)
qed

lemma lmdb_movement_applied:
  assumes run: "lmdb_apply_movement E L ts med off b s = (Inr (), s')"
    and ret: "retention ''entries'' (lb_work s) = Inr (Some 1)"
  obtains "core_is (lb_work s) s'"
  | c m u x where "mv_dest b \<noteq> 0" "muid_create (CtxInfo ts med) (mv_container b) None = Inr c"
      "muid_create (CtxInfo ts med) dummy_builder (Some off) = Inr m" "valid_time x"
      "core_is ((lb_work s)(TPlacements := dput (place_key E (Placement c (MidQueue (mv_dest b)) m x)) (muid_bytes u)
        (lb_work s TPlacements))) s'"
proof -
  obtain c ent m where ids: "muid_create (CtxInfo ts med) (mv_container b) None = Inr c"
    "muid_create (CtxInfo ts med) (mv_entry b) None = Inr ent" "muid_create (CtxInfo ts med) dummy_builder (Some off) = Inr m"
    using run ret unfolding lmdb_apply_movement_def by (auto simp: py_bind_Inr_iff py_apply tx_read_iff)
  have "s' = s \<or> (\<exists>k loc old. valid_time (pl_expiry old) \<and> move_placement E L True b c ent m k loc old s = (Inr (), s'))"
    using run ret ids unfolding lmdb_apply_movement_def
    by (auto simp: py_bind_Inr_iff py_apply tx_read_iff split: if_splits option.splits) (metis placement_expiry_valid)+
  then show thesis
  proof (elim disjE exE conjE)
    assume "s' = s"
    then show thesis by (intro that(1)) simp
  next
    fix k loc old
    assume x: "valid_time (pl_expiry old)" and go: "move_placement E L True b c ent m k loc old s = (Inr (), s')"
    show thesis
    proof (cases "mv_dest b = 0")
      case True
      then have "core_is (lb_work s) s'"
        using go unfolding move_placement_def Let_def py_when_def
        by (auto simp: py_bind_Inr_iff py_then_unit_iff py_apply tx_put_Inr_iff core_is_def core_tables_def)
      then show thesis by (rule that(1))
    next
      case False
      then obtain esk where "placement_bytes E (Placement c (MidQueue (mv_dest b)) m (pl_expiry old)) = Inr esk"
        "core_is ((lb_work s)(TPlacements := dput esk (muid_bytes ent) (lb_work s TPlacements))) s'"
        using go unfolding move_placement_def Let_def py_when_def
        by (auto simp: py_bind_Inr_iff py_then_unit_iff py_apply tx_put_Inr_iff core_is_def core_tables_def)
      then show thesis using that(2) [OF False ids(1,3) x] by (auto dest: placement_bytes_Inr)
    qed
  qed
qed

lemma stands_movement:
  assumes E: "key_codec_ok E" and st: "stands E L K ds (lb_work s)" and d: "in_order K d" "dl_change d = ChMovement b"
    and run: "lmdb_apply_change E L (dl_ts d) (dl_med d) (dl_off d) (ChMovement b) s = (Inr (), s')"
  shows "stands E L K (ds @ [d]) (lb_work s')"
proof -
  let ?u = "Muid (dl_ts d) (dl_med d) (dl_off d)"
  obtain m where m: "mirrors L (lb_work s) m" "holds E K ds m" using st by (auto simp: stands_def)
  have ret: "retention ''entries'' (lb_work s) = Inr (Some 1)" using m(1) by (simp add: mirrors_def)
  have u: "change_muid ?u" using d by (simp add: in_order_def)
  have none: "entry_of d = None" "clear_of d = None" using d by (simp_all add: entry_of_def clear_of_def)
  have run': "lmdb_apply_movement E L (dl_ts d) (dl_med d) (dl_off d) b s = (Inr (), s')" using run by simp
  have "stands E L K ds (lb_work s')"
  proof (cases rule: lmdb_movement_applied [OF run' ret])
    case 1
    then show ?thesis using st by (rule stands_cong)
  next
    case (2 c m' v x)
    have m': "m' = ?u" by (rule change_address [OF u 2(3)])
    let ?q = "Placement c (MidQueue (mv_dest b)) m' x"
    let ?m = "m\<lparr>st_placements := dput (place_key E ?q) v (st_placements m)\<rparr>"
    have c: "valid_muid c" "K c = 2" "valid_muts (mv_dest b)" using d 2(1,2) by (auto simp: in_order_def)
    have "holds E K ds ?m"
      by (rule holds_queue [OF E m(2), of ?q]) (use u m' c 2(4) in \<open>auto simp: placement_ok_def change_muid_def\<close>)
    moreover have "mirrors L (lb_work s') ?m"
      unfolding mirrors_cong [OF 2(5)] using m(1) by (simp add: mirrors_def total_text_def retention_def running_total_def)
    ultimately show ?thesis by (auto simp: stands_def)
  qed
  from stands_nothing [OF this none] show ?thesis .
qed

section \<open>A bundle\<close>

lemma stands_step:
  assumes E: "key_codec_ok E" and st: "stands E L K ds (lb_work s)"
    and ok: "\<forall>d \<in> set (ds @ d # ds'). in_order K d" and new: "distinct (map change_address_of (ds @ d # ds'))"
    and run: "lmdb_apply_change E L (dl_ts d) (dl_med d) (dl_off d) (dl_change d) s = (Inr (), s')"
  shows "stands E L K (ds @ [d]) (lb_work s')"
proof (cases "dl_change d")
  case ChUnset
  with run show ?thesis by (simp add: py_apply)
next
  case (ChContainer b)
  then have "core_is (lb_work s) s'"
    using run by (auto simp: py_bind_Inr_iff py_apply tx_put_Inr_iff core_is_def core_tables_def)
  from stands_cong [OF this st] show ?thesis
    using ChContainer by (intro stands_nothing) (simp_all add: entry_of_def clear_of_def)
next
  case (ChEntry e)
  with run show ?thesis by (intro stands_entry [OF E st ok new ChEntry]) simp
next
  case (ChMovement b)
  with run show ?thesis using ok by (intro stands_movement [OF E st _ ChMovement]) simp_all
next
  case (ChClearance b)
  with run show ?thesis using ok by (intro stands_clearance [OF st _ ChClearance]) simp_all
qed

lemma stands_changes:
  assumes E: "key_codec_ok E"
  shows "stands E L K ds (lb_work s) \<Longrightarrow> \<forall>d \<in> set (ds @ deliveries now ts med off cs). in_order K d \<Longrightarrow>
    distinct (map change_address_of (ds @ deliveries now ts med off cs)) \<Longrightarrow>
    lmdb_apply_changes E L ts med off cs s = (Inr (), s') \<Longrightarrow> stands E L K (ds @ deliveries now ts med off cs) (lb_work s')"
proof (induction cs arbitrary: ds s off)
  case Nil
  then show ?case by (simp add: py_apply)
next
  case (Cons c cs)
  let ?d = "Delivery (now off) ts med off c"
  obtain s1 where s1: "lmdb_apply_change E L ts med off c s = (Inr (), s1)" "lmdb_apply_changes E L ts med (off + 1) cs s1 = (Inr (), s')"
    using Cons.prems(4) by (auto simp: py_then_unit_iff)
  have "stands E L K (ds @ [?d]) (lb_work s1)"
    by (rule stands_step [OF E Cons.prems(1), of _ "deliveries now ts med (off + 1) cs"]) (use Cons.prems(2,3) s1(1) in simp_all)
  from Cons.IH [OF this _ _ s1(2)] Cons.prems(2,3) show ?case by simp
qed

interpretation applying: table_invariant lb_apply_changes UNIV
  by unfold_locales simp_all

lemma keeps_applying: "py_keeps lb_apply_changes m \<Longrightarrow> m s = (r, s') \<Longrightarrow> lb_apply_changes s \<Longrightarrow> lb_apply_changes s'"
  unfolding py_keeps_def by (metis snd_conv)

lemma accepted_within:
  assumes "lmdb_apply_within E L received time pid callback claim b pb i k s = (Inr True, s')"
  obtains s1 s2 plain where "lmdb_plain_builder E pb s1 = (Inr plain, s2)"
    "core_is (lb_work s) s2"
    "py_bind (py_read (\<lambda>s. Inr (lb_apply_changes s))) (\<lambda>wanted. py_when wanted
        (lmdb_apply_changes E L (bi_timestamp i) (bi_medallion i) 1 (bn_changes plain))) s2 = (Inr (), s')"
    "lb_apply_changes s \<Longrightarrow> lb_apply_changes s2"
proof -
  obtain n r0 r1 old where r: "lmdb_refresh_helper L callback s = (Inr n, r0)"
    "lmdb_accept E L received time pid claim b pb i old r0 = (Inr (), s')"
    using assms unfolding lmdb_apply_within_def py_when_def
    by (auto simp: py_bind_Inr_iff py_then_unit_iff py_apply tx_read_iff split: if_splits)
  obtain q1 q2 q3 q4 vk plain where q: "py_when claim
      (py_then (py_lift (require (bi_timestamp i = bi_chain_start i) AssertionError))
        (py_then (lmdb_add_claim L time pid (get_chain i)) (py_return ()))) r0 = (Inr (), q1)"
    "lmdb_record_bundle received i b q1 = (Inr (), q2)" "lmdb_chain_key E pb i old q2 = (Inr vk, q3)"
    "lmdb_plain_builder E pb q3 = (Inr plain, q4)"
    "py_bind (py_read (\<lambda>s. Inr (lb_apply_changes s))) (\<lambda>wanted. py_when wanted
        (lmdb_apply_changes E L (bi_timestamp i) (bi_medallion i) 1 (bn_changes plain))) q4 = (Inr (), s')"
    using r(2) unfolding lmdb_accept_def by (auto simp: py_bind_Inr_iff [of "lmdb_chain_key E pb i old"] py_bind_Inr_iff [of "lmdb_plain_builder E pb"] py_then_unit_iff py_apply)
  have "core_is (lb_work s) r0" by (rule keeps_core_tables [OF elsewhere.keeps_refresh r(1)])
  moreover have "core_is (lb_work r0) q1"
    by (rule keeps_core_tables [OF elsewhere.keeps_claiming q(1)]) (simp add: core_tables_def)
  moreover have "core_is (lb_work q1) q2"
    by (rule keeps_core_tables [OF elsewhere.keeps_record q(2)]) (simp add: core_tables_def)
  moreover have "core_is (lb_work q2) q3"
    by (rule keeps_core_tables [OF elsewhere.keeps_chain_key q(3)]) (simp add: core_tables_def)
  moreover have "core_is (lb_work q3) q4" by (rule keeps_core_tables [OF elsewhere.keeps_plain q(4)])
  ultimately have "core_is (lb_work s) q4" by (meson core_is_trans)
  moreover have "lb_apply_changes q4" if a: "lb_apply_changes s"
  proof -
    have "lb_apply_changes r0" by (rule keeps_applying [OF applying.keeps_refresh r(1) a])
    from keeps_applying [OF applying.keeps_claiming q(1) this] have "lb_apply_changes q1" by simp
    from keeps_applying [OF applying.keeps_record q(2) this] have "lb_apply_changes q2" by simp
    from keeps_applying [OF applying.keeps_chain_key q(3) this] have "lb_apply_changes q3" by simp
    then show ?thesis by (rule keeps_applying [OF applying.keeps_plain q(4)])
  qed
  ultimately show thesis using that [OF q(4) _ q(5)] by blast
qed

lemma stands_accepted:
  assumes E: "key_codec_ok E" and st: "stands E L K ds (lb_tables s)" "lb_apply_changes s"
    and b: "plain_bundle E b" and ok: "\<forall>d \<in> set (ds @ changes_of E b). in_order K d"
    and new: "distinct (map change_address_of (ds @ changes_of E b))"
    and run: "lmdb_apply_bundle E L received time pid callback claim b s = (Inr True, s')"
  shows "stands E L K (ds @ changes_of E b) (lb_tables s')" "lb_apply_changes s'"
proof -
  obtain pb where pb: "get_builder E b = Inr pb" "bn_encrypted pb = []"
    using b by (auto simp: plain_bundle_def split: sum.splits)
  let ?i = "info_from_builder pb (bytes_hex (x_blake2b E b))"
  have i: "get_info E b = Inr ?i" using pb by (simp add: get_info_def)
  obtain k s1 where s1: "lmdb_apply_within E L received time pid callback claim b pb ?i k (s\<lparr>lb_work := lb_tables s\<rparr>) = (Inr True, s1)"
    "lb_tables s' = lb_work s1" "lb_apply_changes s' = lb_apply_changes s1"
    using run pb i unfolding lmdb_apply_bundle_def py_when_def
    by (auto simp: py_bind_Inr_iff py_then_unit_iff py_apply with_write_Inr_iff split: if_splits)
  obtain s2 s3 plain where w: "lmdb_plain_builder E pb s2 = (Inr plain, s3)" "core_is (lb_tables s) s3"
    "py_bind (py_read (\<lambda>s. Inr (lb_apply_changes s))) (\<lambda>wanted. py_when wanted
        (lmdb_apply_changes E L (bi_timestamp ?i) (bi_medallion ?i) 1 (bn_changes plain))) s3 = (Inr (), s1)"
    "lb_apply_changes s3"
    by (rule accepted_within [OF s1(1)]) (rule that, use st(2) in simp_all)
  have "plain = pb" using w(1) pb(2) by (simp add: lmdb_plain_builder_def py_apply)
  with w(3,4) have run': "lmdb_apply_changes E L (bn_timestamp pb) (bn_medallion pb) 1 (bn_changes pb) s3 = (Inr (), s1)"
    by (simp add: py_bind_apply py_apply py_when_def info_from_builder_def)
  have ch: "changes_of E b = deliveries (\<lambda>_. 0) (bn_timestamp pb) (bn_medallion pb) 1 (bn_changes pb)"
    using pb by (simp add: changes_of_def)
  show "stands E L K (ds @ changes_of E b) (lb_tables s')"
    using stands_changes [OF E stands_cong [OF w(2) st(1)] _ _ run'] ok new s1(2) by (simp add: ch)
  have "lb_apply_changes s1" by (rule keeps_applying [OF applying.keeps_changes run' w(4)]) simp
  then show "lb_apply_changes s'" using s1(3) by simp
qed

end
