(* ===== verification/Lmdb_Reading.thy ===== *)
theory Lmdb_Reading
  imports Lmdb_Refinement
begin

text \<open>
  The keyed lookups of the LMDB store against the specification, and the two stores against each other.
\<close>

section \<open>The last key with a prefix names the latest address\<close>

lemma latest_found:
  assumes r: "last_with X pre b r"
    and keys: "\<And>u. u \<in> A \<longleftrightarrow> (\<exists>k \<in> X. prefix pre k \<and> k < b \<and> R k u)"
    and total: "\<And>k. k \<in> X \<Longrightarrow> prefix pre k \<Longrightarrow> k < b \<Longrightarrow> \<exists>u. R k u"
    and mono: "\<And>k k' u u'. R k u \<Longrightarrow> R k' u' \<Longrightarrow> k \<le> k' \<Longrightarrow> u = u' \<or> muid_lt u u'"
  shows "case r of None \<Rightarrow> A = {} | Some k \<Rightarrow> k \<in> X \<and> (\<exists>u. R k u \<and> is_latest A u)"
proof (cases r)
  case None
  then have "\<not> (k \<in> X \<and> prefix pre k \<and> k < b)" for k using r by (auto simp: last_with_def greatest_below_def)
  then have "u \<notin> A" for u using keys by blast
  then show ?thesis using None by auto
next
  case (Some k)
  then have k: "k \<in> X" "prefix pre k" "k < b" "\<And>k'. k' \<in> X \<Longrightarrow> prefix pre k' \<Longrightarrow> k' < b \<Longrightarrow> k' \<le> k"
    using r by (auto simp: last_with_def greatest_below_def)
  obtain u where u: "R k u" using total k(1-3) by blast
  have "v = u \<or> muid_lt v u" if "v \<in> A" for v
  proof -
    from that obtain k' where "k' \<in> X" "prefix pre k'" "k' < b" "R k' v" unfolding keys by blast
    then show ?thesis using mono [of k' v k u] k(4) [of k'] u by simp
  qed
  moreover have "u \<in> A" using keys k u by blast
  ultimately show ?thesis using Some k(1) u by (auto simp: is_latest_def)
qed

section \<open>Clearances\<close>

definition spec_last_clear :: "delivery list \<Rightarrow> muid \<Rightarrow> int \<Rightarrow> int" where
  "spec_last_clear ds c as_of =
    (case latest (map (\<lambda>u. (u, ())) (clears (before as_of ds) c)) of None \<Rightarrow> 0 | Some (u, _) \<Rightarrow> mu_timestamp u)"

lemma spec_last_clear_is:
  assumes d: "\<forall>d \<in> set ds. in_order K d"
    and u: "is_latest (set (clears (before as_of ds) c)) u"
  shows "spec_last_clear ds c as_of = mu_timestamp u"
proof -
  let ?cs = "clears (before as_of ds) c"
  have valid: "\<forall>v \<in> set ?cs. valid_muid v" using d in_order_change by (auto simp: clears_def before_def change_muid_def)
  have img: "fst ` set (map (\<lambda>u. (u, ())) ?cs) = set ?cs" by (auto simp: image_iff)
  have "?cs \<noteq> []" using u by (auto simp: is_latest_def)
  then obtain v where v: "latest (map (\<lambda>u. (u, ())) ?cs) = Some (v, ())" using latest_None [of "map (\<lambda>u. (u, ())) ?cs"] by auto
  then have "is_latest (set ?cs) v" using latest_Some [OF v] img valid by simp
  then have "v = u" using u by (rule latest_unique)
  with v show ?thesis by (simp add: spec_last_clear_def)
qed

lemma last_clear_refines:
  assumes L: "lmdb_ok L" and m: "mirrors L T m" and h: "holds E K ds m" and d: "\<forall>d \<in> set ds. in_order K d"
    and c: "valid_muid c" and t: "time_ok as_of"
  shows "lmdb_time_of_prior_clear L T c as_of = Inr (spec_last_clear ds c as_of)"
proof -
  let ?hi = "Muid as_of 0 0" and ?A = "set (clears (before as_of ds) c)" and ?X = "set (dkeys (T TClearances))"
  define R where "R = (\<lambda>k u. valid_muid u \<and> k = muid_bytes c @ muid_bytes u)"
  have hi: "valid_muid ?hi" by (rule valid_time_muid [OF t])
  have X: "?X = set (dkeys (st_clearances m))" and T: "dict_ok (T TClearances)" using m by (simp_all add: mirrors_def)
  have A: "u \<in> ?A \<longleftrightarrow> (\<exists>k \<in> ?X. prefix (muid_bytes c) k \<and> k < muid_bytes c @ muid_bytes ?hi \<and> R k u)" for u
  proof -
    have "u \<noteq> ?hi" if "u \<in> ?A"
      using that d in_order_change change_not_time by (auto simp: clears_def before_def)
    then have "u \<in> ?A \<longleftrightarrow> u \<in> cleared_at m c ?hi \<and> u \<noteq> ?hi" unfolding cleared_clears [OF h d] by blast
    also have "\<dots> \<longleftrightarrow> (\<exists>k \<in> ?X. prefix (muid_bytes c) k \<and> k < muid_bytes c @ muid_bytes ?hi \<and> R k u)"
      unfolding X R_def cleared_at_def using hi muid_codec.lt_irrefl [OF hi] by (auto simp del: set_map simp: muid_codec.enc_less)
    finally show ?thesis .
  qed
  have cleared: "\<forall>k \<in> set (dkeys (st_clearances m)). \<exists>c u. valid_muid c \<and> valid_muid u \<and> k = muid_bytes c @ muid_bytes u"
    using h unfolding holds_def clears_ok_def by (elim conjE)
  obtain r where r: "to_last_with_prefix L (T TClearances) (muid_bytes c) (Some (muid_bytes ?hi)) None = Inr r"
    "last_with ?X (muid_bytes c) (muid_bytes c @ muid_bytes ?hi) r" by (rule to_last_suffix [OF L T])
  have some: "\<exists>u. R k u" if k0: "k \<in> ?X" "prefix (muid_bytes c) k" for k
  proof -
    from k0(1) have "k \<in> set (dkeys (st_clearances m))" unfolding X .
    from bspec [OF cleared this] obtain c' u where k: "valid_muid c'" "valid_muid u" "k = muid_bytes c' @ muid_bytes u" by (elim exE conjE)
    obtain z where "k = muid_bytes c @ z" using k0(2) by (auto simp: prefix_def)
    with k(3) have "muid_bytes c' = muid_bytes c" by simp
    then have "c' = c" using muid_codec.enc_inj [OF k(1) c] by simp
    with k show ?thesis by (auto simp: R_def)
  qed
  have found: "case r of None \<Rightarrow> ?A = {} | Some k \<Rightarrow> k \<in> ?X \<and> (\<exists>u. R k u \<and> is_latest ?A u)"
    by (rule latest_found [OF r(2) A some]) (auto simp: R_def muid_codec.enc_le)
  show ?thesis
  proof (cases r)
    case None
    then have "clears (before as_of ds) c = []" using found by simp
    then show ?thesis using r(1) None by (simp add: lmdb_time_of_prior_clear_def mk_time [OF t] spec_last_clear_def)
  next
    case (Some k)
    then obtain u where u: "R k u" "is_latest ?A u" using found by auto
    have "take 16 (drop 16 k) = muid_bytes u" using u(1) by (simp add: R_def)
    then have "muid_from_bytes (take 16 (drop 16 k)) = Inr u" using u(1) by (simp add: R_def muid_from_bytes_bytes)
    then show ?thesis
      using r(1) Some spec_last_clear_is [OF d u(2)] by (simp add: lmdb_time_of_prior_clear_def mk_time [OF t])
  qed
qed

section \<open>Lookup by key\<close>

lemma key_and_behavior_ok:
  assumes "middle_ok k" "middle_kind k \<noteq> 2"
  obtains b where "key_and_behavior E k = Inr (middle_enc E k, b)" "behavior_kind b = Some (middle_kind k)"
  using assms by (cases k) (auto simp: encode_key_valid behavior_kind_def behavior_defs)

text \<open>The placements whose keys begin with a container and a key are those of that key in the container.\<close>

lemma key_prefix:
  assumes E: "key_codec_ok E" and p: "placement_ok p" and c: "valid_muid c" and k: "middle_ok k"
    and kind: "pl_container p = c \<Longrightarrow> middle_kind (pl_middle p) = middle_kind k"
    and pre: "prefix (muid_bytes c @ middle_enc E k) (place_key E p)"
  shows "pl_container p = c" "pl_middle p = k"
proof -
  have v: "valid_muid (pl_container p)" "middle_ok (pl_middle p)" using p by (simp_all add: placement_ok_def)
  obtain z where "muid_bytes (pl_container p) @ middle_enc E (pl_middle p) @ muid_bytes (pl_placer p) @ muts_bytes (pl_expiry p) =
    muid_bytes c @ middle_enc E k @ z"
    using pre unfolding place_key_def prefix_def append_assoc by blast
  then have eq: "pl_container p = c" "prefix (middle_enc E k) (middle_enc E (pl_middle p) @ muid_bytes (pl_placer p) @ muts_bytes (pl_expiry p))"
    using v(1) c by (auto simp: muid_codec.enc_append_eq [OF v(1) c])
  from prefix_same_cases [OF eq(2), of "middle_enc E (pl_middle p)"]
  have "prefix (middle_enc E k) (middle_enc E (pl_middle p)) \<or> prefix (middle_enc E (pl_middle p)) (middle_enc E k)" by simp
  then show "pl_container p = c" "pl_middle p = k" using middle_prefix_free [OF E] v(2) k kind [OF eq(1)] eq(1) by metis+
qed

lemma key_of_container:
  assumes E: "key_codec_ok E" and p: "placement_ok p" and c: "valid_muid c" and k: "middle_ok k"
    and kind: "pl_container p = c \<Longrightarrow> middle_kind (pl_middle p) = middle_kind k" and hi: "valid_muid hi"
  shows "prefix (muid_bytes c @ middle_enc E k) (place_key E p) \<and> place_key E p < (muid_bytes c @ middle_enc E k) @ muid_bytes hi \<longleftrightarrow>
    pl_container p = c \<and> pl_middle p = k \<and> muid_lt (pl_placer p) hi"
proof -
  have v: "valid_muid (pl_placer p)" using p by (simp add: placement_ok_def)
  note same = key_prefix [OF E p c k kind]
  have "place_key E p < (muid_bytes c @ middle_enc E k) @ muid_bytes hi \<longleftrightarrow> muid_lt (pl_placer p) hi"
    if "pl_container p = c" "pl_middle p = k"
    using that muid_codec.enc_append_less [OF v hi, of _ "[]"] by (simp add: place_key_def)
  moreover have "prefix (muid_bytes c @ middle_enc E k) (place_key E p)" if "pl_container p = c" "pl_middle p = k"
    using that by (simp add: place_key_def)
  ultimately show ?thesis using same by blast
qed

lemma lmdb_lookup_refines:
  assumes E: "key_codec_ok E" and L: "lmdb_ok L" and m: "mirrors L T m" and h: "holds E K ds m"
    and d: "\<forall>d \<in> set ds. in_order K d" and c: "valid_muid c" "mu_timestamp c \<noteq> 0"
    and k: "middle_ok k" "middle_kind k = K c" "K c \<noteq> 2" and t: "time_ok as_of"
  shows "lmdb_get_entry_by_key E L T c k as_of = Inr (latest_since (spec_last_clear ds c as_of) (writes (before as_of ds) c k))"
proof -
  let ?hi = "Muid as_of 0 0" and ?A = "written E m c k (Muid as_of 0 0)" and ?X = "set (dkeys (T TPlacements))"
    and ?T = "spec_last_clear ds c as_of"
  let ?pre = "muid_bytes c @ middle_enc E k"
  define R where "R = (\<lambda>b u. \<exists>p. placement_ok p \<and> b = place_key E p \<and> pl_container p = c \<and> pl_middle p = k \<and> pl_placer p = u)"
  have hi: "valid_muid ?hi" by (rule valid_time_muid [OF t])
  have T: "dict_ok (T TPlacements)" and P: "\<And>b. dget (T TPlacements) b = map_option muid_bytes (dget (st_placements m) b)"
    using m by (simp_all add: mirrors_def)
  have X: "b \<in> ?X \<longleftrightarrow> b \<in> set (dkeys (st_placements m))" for b using P [of b] by (metis dget_None_iff option.map_disc_iff)
  have st: "placed_ok E K m" using h by (simp add: holds_def)
  note mine = key_of_container [OF E _ c(1) k(1) _ hi]
  have placed: "\<exists>p. b = place_key E p \<and> placement_ok p \<and> (pl_container p = c \<longrightarrow> middle_kind (pl_middle p) = middle_kind k)"
    if "b \<in> ?X" for b using that dkey_dget [of b "st_placements m"] st k(2) unfolding X placed_ok_def by metis
  have some: "\<exists>u. R b u" if b: "b \<in> ?X" "prefix ?pre b" "b < ?pre @ muid_bytes ?hi" for b
    using placed [OF b(1)] mine b(2,3) unfolding R_def by metis
  have A: "u \<in> ?A \<longleftrightarrow> (\<exists>b \<in> ?X. prefix ?pre b \<and> b < ?pre @ muid_bytes ?hi \<and> R b u)" for u
  proof
    assume "u \<in> ?A"
    then obtain p where p: "placement_ok p" "place_key E p \<in> ?X" "pl_container p = c" "pl_middle p = k" "pl_placer p = u"
      "muid_lt u ?hi" unfolding written_def X by blast
    moreover have "prefix ?pre (place_key E p) \<and> place_key E p < ?pre @ muid_bytes ?hi" using mine [OF p(1)] p by simp
    ultimately show "\<exists>b \<in> ?X. prefix ?pre b \<and> b < ?pre @ muid_bytes ?hi \<and> R b u" unfolding R_def by blast
  next
    assume "\<exists>b \<in> ?X. prefix ?pre b \<and> b < ?pre @ muid_bytes ?hi \<and> R b u"
    then obtain p where p: "placement_ok p" "place_key E p \<in> ?X" "pl_container p = c" "pl_middle p = k" "pl_placer p = u"
      "prefix ?pre (place_key E p) \<and> place_key E p < ?pre @ muid_bytes ?hi" unfolding R_def by blast
    then have "muid_lt u ?hi" using mine [OF p(1)] by auto
    with p show "u \<in> ?A" unfolding written_def X by blast
  qed
  have mono: "u = u' \<or> muid_lt u u'" if "R b u" "R b' u'" "b \<le> b'" for b b' u u'
    using that by (auto simp: R_def place_key_def placement_ok_def muid_codec.enc_append_le)
  obtain b0 where b0: "key_and_behavior E k = Inr (middle_enc E k, b0)" "behavior_kind b0 = Some (middle_kind k)"
    using key_and_behavior_ok [OF k(1)] k(2,3) by metis
  obtain r where r: "to_last_with_prefix L (T TPlacements) ?pre (Some (muid_bytes ?hi)) None = Inr r"
    "last_with ?X ?pre (?pre @ muid_bytes ?hi) r" by (rule to_last_suffix [OF L T])
  have found: "case r of None \<Rightarrow> ?A = {} | Some b \<Rightarrow> b \<in> ?X \<and> (\<exists>u. R b u \<and> is_latest ?A u)"
    by (rule latest_found [OF r(2) A some mono])
  note clear = last_clear_refines [OF L m h d c(1) t]
  have "\<exists>x. lmdb_get_entry_by_key E L T c k as_of = Inr x \<and> reads m ?A ?T x"
  proof (cases r)
    case None
    then show ?thesis
      using found r(1) b0(1) c(2) clear by (auto simp: lmdb_get_entry_by_key_def mk_time [OF t] reads_def)
  next
    case (Some b)
    then have "b \<in> ?X" "\<exists>u. R b u \<and> is_latest ?A u" using found by simp_all
    then obtain u p where u: "b \<in> ?X" "is_latest ?A u" "placement_ok p" "b = place_key E p" "pl_container p = c"
      "pl_middle p = k" "pl_placer p = u" unfolding R_def by blast
    obtain v q where q: "dget (st_placements m) b = Some v" "b = place_key E q" "placement_ok q"
      "middle_kind (pl_middle q) = K (pl_container q)"
      "middle_kind (pl_middle q) \<noteq> 2 \<longrightarrow> v = pl_placer q \<and> (\<exists>e. dget (st_entries m) v = Some e)"
      using u(1) dkey_dget [of b "st_placements m"] st unfolding X placed_ok_def by metis
    have "q = p" using u q k(2) by (intro place_key_inj [OF E]) auto
    then obtain e where e: "v = u" "dget (st_entries m) u = Some e" using q(5) u k by auto
    have "valid_muid u" using u by (auto simp: placement_ok_def)
    then have "dget (T TEntries) (muid_bytes u) = Some (lm_entry_ser L e)" using m e(2) by (simp add: mirrors_def)
    moreover have "dget (T TPlacements) b = Some (muid_bytes u)" using P [of b] q(1) e(1) by simp
    moreover have "placement_from_bytes E b b0 = Inr p"
      using placement_from_bytes_key [OF E u(3)] b0(2) u(4,6) by simp
    ultimately have "lmdb_get_entry_by_key E L T c k as_of = Inr (if mu_timestamp u < ?T then None else Some (u, e))"
      using Some r(1) b0(1) c(2) clear L u(7)
      by (simp add: lmdb_get_entry_by_key_def mk_time [OF t] value_at_def stored_entry_def opt_or_def lmdb_ok_def)
    then show ?thesis using u(2) e(2) by (auto simp: reads_def)
  qed
  then show ?thesis using reads_unique reads_latest [OF h d k(2,3)] by metis
qed

end
