(* ===== verification/Lmdb_Runs.thy ===== *)
theory Lmdb_Runs
  imports Lmdb_Reading Demo "HOL-Library.Countable"
begin

text \<open>
  Runs of the LMDB store from a new file: its lookups and totals are those of the specification, and agree with those of
  a memory store that accepted the same bundles.
\<close>

section \<open>Runs\<close>

text \<open>A call of \<open>apply_bundle\<close>: the bundle, the times of the call, the process and the arguments.\<close>

record receipt =
  rc_bundle :: bytes
  rc_received :: int
  rc_time :: int
  rc_process :: int
  rc_callback :: bool
  rc_claim :: bool

definition lmdb_receive :: "ext \<Rightarrow> lmdb_ext \<Rightarrow> receipt \<Rightarrow> bool tx" where
  "lmdb_receive E L r = lmdb_apply_bundle E L (rc_received r) (rc_time r) (rc_process r) (rc_callback r) (rc_claim r) (rc_bundle r)"

fun lmdb_receive_all :: "ext \<Rightarrow> lmdb_ext \<Rightarrow> receipt list \<Rightarrow> lmdb_store \<Rightarrow> lmdb_store option" where
  "lmdb_receive_all E L [] s = Some s"
| "lmdb_receive_all E L (r # rs) s =
    (case lmdb_receive E L r s of (Inr True, s') \<Rightarrow> lmdb_receive_all E L rs s' | _ \<Rightarrow> None)"

text \<open>A new file, opened by a store that keeps the history of its entries.\<close>

abbreviation new_lmdb :: "bool \<Rightarrow> lmdb_store" where
  "new_lmdb retain_bundles \<equiv> snd (open_lmdb (\<lambda>_. []) False retain_bundles True True)"

lemma stands_receive:
  assumes E: "key_codec_ok E"
  shows "stands E L K ds (lb_tables s) \<Longrightarrow> lb_apply_changes s \<Longrightarrow> \<forall>b \<in> set (map rc_bundle rs). plain_bundle E b \<Longrightarrow>
    \<forall>d \<in> set (ds @ all_changes E (map rc_bundle rs)). in_order K d \<Longrightarrow>
    distinct (map change_address_of (ds @ all_changes E (map rc_bundle rs))) \<Longrightarrow>
    lmdb_receive_all E L rs s = Some s' \<Longrightarrow> stands E L K (ds @ all_changes E (map rc_bundle rs)) (lb_tables s')"
proof (induction rs arbitrary: ds s)
  case Nil
  then show ?case by (simp add: all_changes_def)
next
  case (Cons r rs)
  obtain s1 where s1: "lmdb_receive E L r s = (Inr True, s1)" "lmdb_receive_all E L rs s1 = Some s'"
    using Cons.prems(6) by (auto split: prod.splits sum.splits bool.splits)
  have plain: "plain_bundle E (rc_bundle r)" using Cons.prems(3) by simp
  have "\<forall>d \<in> set (ds @ changes_of E (rc_bundle r)). in_order K d" "distinct (map change_address_of (ds @ changes_of E (rc_bundle r)))"
    using Cons.prems(4,5) by (auto simp: all_changes_def)
  note first = stands_accepted [OF E Cons.prems(1,2) plain this s1(1) [unfolded lmdb_receive_def]]
  from Cons.IH [OF first _ _ _ s1(2)] Cons.prems(3-5) show ?case by (simp add: all_changes_def)
qed

lemma retention_kept: "retention name T = Inr (Some 1) \<longleftrightarrow> (\<exists>b. dget (T TRetentions) (str_encode name) = Some b \<and> decode_muts b = Inr (Some 1))"
  by (auto simp: retention_def opt_or_def split: option.splits)

lemma muts_flags: "encode_muts (Some 0) = Inr (muts_bytes (Some 0))" "encode_muts (Some 1) = Inr (muts_bytes (Some 1))"
  "decode_muts (muts_bytes (Some 1)) = Inr (Some 1)"
  by code_simp+

lemma total_zero: "py_int 10 ''0'' = Inr 0"
  by code_simp

lemma opened_lmdb:
  "new_lmdb rb = lmdb_opened ((\<lambda>_. [])(TRetentions := [(str_encode ''bundles'', muts_bytes (Some (if rb then 1 else 0))),
      (str_encode ''entries'', muts_bytes (Some 1))])) True"
  by (simp add: open_lmdb_def lmdb_init_def lmdb_opened_def py_simps with_write_def with_read_def tx_get_def tx_read_def put_flag_def
      muts_of_def muts_flags tx_put_def valsize_ok_def dput_def str_encode_def)

lemma opened_stands: "stands E L K [] (lb_tables (new_lmdb rb))" "lb_apply_changes (new_lmdb rb)"
proof -
  have "mirrors L (lb_tables (new_lmdb rb)) (empty_store True)"
    unfolding opened_lmdb lmdb_opened_def
    by (simp add: mirrors_def empty_store_def retention_kept muts_flags total_text_def running_total_def dict_ok_def str_encode_def total_zero)
  then show "stands E L K [] (lb_tables (new_lmdb rb))" using holds_empty by (auto simp: stands_def)
  show "lb_apply_changes (new_lmdb rb)" unfolding opened_lmdb by (simp add: lmdb_opened_def)
qed

lemma received_stands:
  assumes "key_codec_ok E" "sound_bundles E K (map rc_bundle rs)" "lmdb_receive_all E L rs (new_lmdb rb) = Some s"
  obtains m where "mirrors L (lb_tables s) m" "holds E K (all_changes E (map rc_bundle rs)) m"
  using stands_receive [OF assms(1) opened_stands, of rs K L rb s] assms(2,3)
  by (auto simp: sound_bundles_def stands_def)

section \<open>Lookups\<close>

text \<open>C3: Refinement: after any run of accepted bundles from a new file, a keyed lookup of the LMDB store at any time is
  the last of the entries that the bundles wrote to the key before that time, unless it is older than the latest
  clearance of the container before that time.\<close>

lemma lmdb_lookup_correct:
  assumes "key_codec_ok E" "lmdb_ok L" "sound_bundles E K (map rc_bundle rs)"
    and "lmdb_receive_all E L rs (new_lmdb rb) = Some s"
    and "valid_muid c" "mu_timestamp c \<noteq> 0" "middle_ok k" "middle_kind k = K c" "K c \<noteq> 2" "time_ok t"
  shows "lmdb_get_entry_by_key E L (lb_tables s) c k t =
    Inr (let ds = all_changes E (map rc_bundle rs) in latest_since (spec_last_clear ds c t) (writes (before t ds) c k))"
proof -
  obtain m where m: "mirrors L (lb_tables s) m" "holds E K (all_changes E (map rc_bundle rs)) m"
    by (rule received_stands [OF assms(1,3,4)])
  have "\<forall>d \<in> set (all_changes E (map rc_bundle rs)). in_order K d" using assms(3) by (simp add: sound_bundles_def)
  from lmdb_lookup_refines [OF assms(1,2) m this assms(5-10)] show ?thesis by (simp only: Let_def)
qed

text \<open>With at most one clearance, the earliest is the last.\<close>

lemma one_clear: "length (clears (before t ds) c) \<le> 1 \<Longrightarrow> spec_last_clear ds c t = spec_clear_time ds c t"
  by (cases "clears (before t ds) c") (auto simp: spec_last_clear_def spec_clear_time_def)

text \<open>C4: The memory store and the LMDB store that accepted the same bundles, in any orders, agree: on every accumulator
  total, and on every keyed lookup in a container that was cleared at most once before the time asked for.\<close>

lemma stores_agree:
  assumes "scans_ok E" "key_codec_ok E" "lmdb_ok L" "sound_bundles E K (map rc_bundle rs)" "mset (map rc_bundle rs) = mset (map snd rs')"
    and "lmdb_receive_all E L rs (new_lmdb rb) = Some s" "receive_all E rs' (empty_store True) = Some s'"
    and "valid_muid c" "mu_timestamp c \<noteq> 0" "middle_ok k" "middle_kind k = K c" "K c \<noteq> 2" "time_ok t"
    and "length (clears (before t (all_changes E (map rc_bundle rs))) c) \<le> 1"
  shows "lmdb_get_entry_by_key E L (lb_tables s) c k t = get_entry_by_key E s' c k t \<and>
    lmdb_get_billionths E L (lb_tables s) c (-1) = get_billionths E s' c (-1)"
proof (rule conjI)
  let ?ds = "all_changes E (map rc_bundle rs)" and ?ds' = "all_changes E (map snd rs')"
  have sound': "sound_bundles E K (map snd rs')" by (rule sound_bundles_perm [OF assms(5,4)])
  note perm = all_changes_perm [OF assms(5), of E]
  have same: "set ?ds = set ?ds'" using perm by (metis set_mset_mset)
  obtain m where m: "mirrors L (lb_tables s) m" "holds E K ?ds m" by (rule received_stands [OF assms(2,4,6)])
  note h' = received_holds [OF assms(2) sound' assms(7)]
  have ord: "\<forall>d \<in> set ?ds. in_order K d" "\<forall>d \<in> set ?ds'. in_order K d" using assms(4) sound' by (simp_all add: sound_bundles_def)
  have eq: "contributions t ?ds = contributions t ?ds'" using same by (simp add: contributions_def)
  have "lmdb_get_entry_by_key E L (lb_tables s) c k t = Inr (spec_lookup ?ds c k t)"
    using lmdb_lookup_refines [OF assms(2,3) m ord(1) assms(8-13)] by (simp add: spec_lookup_since one_clear [OF assms(14)])
  also have "\<dots> = get_entry_by_key E m c k t" using lookup_refines [OF assms(1,2) m(2) ord(1) assms(8,10-13)] by simp
  also have "\<dots> = get_entry_by_key E s' c k t" by (rule reads_agree [OF assms(1,2) m(2) h' ord assms(8,10-13) eq])
  finally show "lmdb_get_entry_by_key E L (lb_tables s) c k t = get_entry_by_key E s' c k t" .
  have "lmdb_get_billionths E L (lb_tables s) c (-1) = Inr (running_total m c)"
    using m(1) assms(8) by (simp add: lmdb_get_billionths_def mirrors_def)
  also have "\<dots> = Inr (\<Sum>d\<leftarrow>?ds. amount_of c d)" using m(2) assms(8) by (simp add: holds_def)
  also have "\<dots> = Inr (\<Sum>d\<leftarrow>?ds'. amount_of c d)" using perm by (metis mset_map sum_mset_sum_list)
  also have "\<dots> = get_billionths E s' c (-1)" using total_of_holds [OF h' assms(8)] by simp
  finally show "lmdb_get_billionths E L (lb_tables s) c (-1) = get_billionths E s' c (-1)" .
qed

section \<open>A concrete store\<close>

text \<open>The messages are numbered, except for the ones of the example, which are short.\<close>

instance key_pb :: countable by countable_datatype
instance value_pb :: countable by countable_datatype
instance muid_pb :: countable by countable_datatype
instance subject_pb :: countable by countable_datatype
instance contains_pb :: countable by countable_datatype

definition entry_number :: "entry_pb \<Rightarrow> nat" where
  "entry_number e = to_nat (en_container e, en_behavior e, en_subject e, en_contains e, en_expiry e, en_effective e, en_purge e)"

definition claim_number :: "claim \<Rightarrow> nat" where
  "claim_number c = to_nat (cm_medallion c, cm_chain_start c, cm_process_id c, cm_claim_time c)"

lemma inj_entry_number: "inj entry_number"
  by (intro injI) (simp add: entry_number_def)

lemma inj_claim_number: "inj claim_number"
  by (intro injI) (simp add: claim_number_def)

definition demo_lmdb :: lmdb_ext where
  "demo_lmdb = \<lparr>lm_scan = x_scan_bytes demo_ext,
     lm_entry_ser = (\<lambda>e. if e = demo_entry ''a'' ''1'' then [1] else if e = demo_entry ''a'' ''2'' then [2] else 0 # replicate (entry_number e) 0),
     lm_entry_parse = (\<lambda>bs. case bs of [] \<Rightarrow> Inl ValueError
       | b # rest \<Rightarrow> if b = 1 then Inr (demo_entry ''a'' ''1'') else if b = 2 then Inr (demo_entry ''a'' ''2'')
           else Inr (inv entry_number (length rest))),
     lm_container_ser = (\<lambda>b. replicate (to_nat b) 0), lm_container_parse = (\<lambda>bs. Inr (from_nat (length bs))),
     lm_movement_ser = (\<lambda>_. []), lm_movement_parse = (\<lambda>_. Inl ValueError), lm_clearance_ser = (\<lambda>_. []),
     lm_claim_ser = (\<lambda>c. replicate (claim_number c) 0), lm_claim_parse = (\<lambda>bs. Inr (inv claim_number (length bs))),
     lm_value_ser = (\<lambda>_. []), lm_pointee_ser = (\<lambda>_. [])\<rparr>"

lemma demo_lmdb_ok: "lmdb_ok demo_lmdb"
  using demo_scans inj_entry_number inj_claim_number by (simp add: lmdb_ok_def demo_lmdb_def scans_ok_def)

definition demo_receipt :: "int \<Rightarrow> bytes \<Rightarrow> receipt" where
  "demo_receipt t b = \<lparr>rc_bundle = b, rc_received = t, rc_time = t, rc_process = 1, rc_callback = False, rc_claim = False\<rparr>"

abbreviation demo_receipts :: "receipt list" where
  "demo_receipts \<equiv> [demo_receipt 5000 demo_b2]"

lemma demo_lmdb_run: "lmdb_receive_all demo_ext demo_lmdb demo_receipts (new_lmdb True) \<noteq> None"
  unfolding opened_lmdb by code_simp

lemma demo_one_sound: "sound_bundles demo_ext (\<lambda>_. 1) (map rc_bundle demo_receipts)"
  using demo_sound by (simp add: sound_bundles_def all_changes_def demo_receipt_def)

lemma demo_one_changes: "all_changes demo_ext (map rc_bundle demo_receipts) = [Delivery 0 2000 88 1 (ChEntry (demo_entry ''a'' ''2''))]"
  by (simp add: all_changes_def demo_receipt_def demo_changes)

lemma demo_one_received: "receive_all demo_ext [(demo_clock, demo_b2)] (empty_store True) \<noteq> None"
  by code_simp

lemma demo_lookup_args: "valid_muid demo_root" "mu_timestamp demo_root \<noteq> 0" "middle_kind (MidKey (KStr ''a'')) = 1" "time_ok (-1)"
  by (simp_all add: valid_muid_def time_ok_def muid_consts)

lemma lmdb_lookup_correct_witness:
  "\<exists>s. lmdb_receive_all demo_ext demo_lmdb demo_receipts (new_lmdb True) = Some s \<and>
    lmdb_get_entry_by_key demo_ext demo_lmdb (lb_tables s) demo_root (MidKey (KStr ''a'')) (-1) =
      Inr (Some (Muid 2000 88 1, demo_entry ''a'' ''2''))"
proof -
  obtain s where s: "lmdb_receive_all demo_ext demo_lmdb demo_receipts (new_lmdb True) = Some s" using demo_lmdb_run by blast
  have ds: "latest_since (spec_last_clear [Delivery 0 2000 88 1 (ChEntry (demo_entry ''a'' ''2''))] demo_root (-1))
      (writes (before (-1) [Delivery 0 2000 88 1 (ChEntry (demo_entry ''a'' ''2''))]) demo_root (MidKey (KStr ''a''))) =
    Some (Muid 2000 88 1, demo_entry ''a'' ''2'')" by code_simp
  have "lmdb_get_entry_by_key demo_ext demo_lmdb (lb_tables s) demo_root (MidKey (KStr ''a'')) (-1) =
      Inr (Some (Muid 2000 88 1, demo_entry ''a'' ''2''))"
    using lmdb_lookup_correct [OF demo_keys demo_lmdb_ok demo_one_sound s demo_lookup_args(1,2) demo_middle demo_lookup_args(3) _ demo_lookup_args(4)]
    unfolding demo_one_changes Let_def ds by simp
  with s show ?thesis by blast
qed

lemma stores_agree_witness:
  "\<exists>s s'. lmdb_receive_all demo_ext demo_lmdb demo_receipts (new_lmdb True) = Some s \<and>
    receive_all demo_ext [(demo_clock, demo_b2)] (empty_store True) = Some s' \<and>
    lmdb_get_entry_by_key demo_ext demo_lmdb (lb_tables s) demo_root (MidKey (KStr ''a'')) (-1) =
      get_entry_by_key demo_ext s' demo_root (MidKey (KStr ''a'')) (-1)"
proof -
  obtain s s' where s: "lmdb_receive_all demo_ext demo_lmdb demo_receipts (new_lmdb True) = Some s"
    "receive_all demo_ext [(demo_clock, demo_b2)] (empty_store True) = Some s'"
    using demo_lmdb_run demo_one_received by blast
  have same: "mset (map rc_bundle demo_receipts) = mset (map snd [(demo_clock, demo_b2)])" by (simp add: demo_receipt_def)
  have none: "length (clears (before (-1) (all_changes demo_ext (map rc_bundle demo_receipts))) demo_root) \<le> 1"
    unfolding demo_one_changes by code_simp
  have "lmdb_get_entry_by_key demo_ext demo_lmdb (lb_tables s) demo_root (MidKey (KStr ''a'')) (-1) =
      get_entry_by_key demo_ext s' demo_root (MidKey (KStr ''a'')) (-1)"
    using stores_agree [OF demo_scans demo_keys demo_lmdb_ok demo_one_sound same s demo_lookup_args(1,2) demo_middle demo_lookup_args(3) _
        demo_lookup_args(4) none] by simp
  with s show ?thesis by blast
qed

lemma finds_last_with_prefix_witness:
  "to_last_with_prefix demo_lmdb [([1, 5], [10]), ([1, 9], [11]), ([2, 0], [12])] [1] None None = Inr (Some [1, 9])"
proof -
  have "dict_ok [([1, 5], [10 :: byte]), ([1, 9], [11]), ([2, 0 :: byte], [12])]" by (simp add: dict_ok_def)
  from finds_last_with_prefix [OF demo_lmdb_ok this, of "[1]"]
  obtain r where "to_last_with_prefix demo_lmdb [([1, 5], [10]), ([1, 9], [11]), ([2, 0], [12])] [1] None None = Inr r"
    "case r of None \<Rightarrow> False | Some k \<Rightarrow> k \<in> {[1, 5], [1, 9]} \<and> [1, 9] \<le> k"
    by (auto simp: word_less_nat_alt split: option.splits)
  then show ?thesis by (auto simp: le_less split: option.splits)
qed

text \<open>A bundle whose first change is an entry and whose second one is empty, which the store refuses.\<close>

definition half_bundle :: bundle_pb where
  "half_bundle = demo_first\<lparr>bn_changes := [ChEntry (demo_entry ''a'' ''1''), ChUnset]\<rparr>"

definition half_ext :: ext where
  "half_ext = demo_ext\<lparr>x_bundle_parse := (\<lambda>_. Inr half_bundle)\<rparr>"

lemma half_refused: "fst (lmdb_apply_bundle half_ext demo_lmdb 5000 5000 1 False False demo_b1 (new_lmdb True)) = Inl ValueError"
  unfolding opened_lmdb by code_simp

lemma failed_apply_undone_witness:
  "\<exists>s'. lmdb_apply_bundle half_ext demo_lmdb 5000 5000 1 False False demo_b1 (new_lmdb True) = (Inl ValueError, s') \<and>
    lb_tables s' = lb_tables (new_lmdb True)"
proof -
  obtain s' where s': "lmdb_apply_bundle half_ext demo_lmdb 5000 5000 1 False False demo_b1 (new_lmdb True) = (Inl ValueError, s')"
    using half_refused by (cases "lmdb_apply_bundle half_ext demo_lmdb 5000 5000 1 False False demo_b1 (new_lmdb True)") simp
  from failed_apply_undone [OF this] s' show ?thesis by blast
qed

end
