(* ===== verification/Lmdb_Reset_Laws.thy ===== *)
theory Lmdb_Reset_Laws
  imports Lmdb_Reset Reset_Laws Lmdb_Runs
begin

text \<open>
  The reset of a key in the LMDB store and in the memory store: for a key that was written and a container that was
  never cleared they yield the same change.
\<close>

section \<open>Seeking placements\<close>

lemma below_ones: "length z < n \<Longrightarrow> z < replicate n (255 :: byte)"
proof (induction z arbitrary: n)
  case Nil
  then show ?case by (cases n) simp_all
next
  case (Cons a z)
  then obtain m where m: "n = Suc m" by (cases n) auto
  have "a \<le> - 1" by (rule word_order.extremum)
  moreover have "- 1 = (255 :: byte)" by simp
  ultimately have "a \<le> 255" by (simp only:)
  then show ?case using Cons m by (auto simp: le_less)
qed

text \<open>The last key with a prefix, when no key goes on for more than a little.\<close>

lemma to_last_plain:
  assumes L: "lmdb_ok L" "dict_ok d" and pre: "pre \<noteq> []"
    and short: "\<And>k. k \<in> set (dkeys d) \<Longrightarrow> prefix pre k \<Longrightarrow> length k < length pre + 40"
    and k: "k \<in> set (dkeys d)" "prefix pre k" "\<And>k'. k' \<in> set (dkeys d) \<Longrightarrow> prefix pre k' \<Longrightarrow> k' \<le> k"
  shows "to_last_with_prefix L d pre None None = Inr (Some k)"
proof -
  let ?b = "seek_boundary pre None None"
  have between: "prefix pre x" if "pre @ y \<le> x" "x < ?b" for x y
    using that pre prefix_below_next(1) [of pre y x] prefix_between [of pre y x "replicate 40 255"]
    by (auto simp: seek_boundary_def split: if_splits)
  have below: "x < ?b" if h: "x \<in> set (dkeys d)" "prefix pre x" for x
  proof -
    obtain z where z: "x = pre @ z" using h(2) by (auto simp: prefix_def)
    then have "z < replicate 40 255" using below_ones [of z 40] short [OF h] by simp
    then show ?thesis using pre prefix_below_next(2) [of pre x] h(2) z by (auto simp: seek_boundary_def)
  qed
  obtain r where r: "to_last_with_prefix L d pre None None = Inr r" "last_with (set (dkeys d)) pre ?b r"
    by (rule to_last_spec [OF L, of None None pre]) (auto intro: between)
  obtain k1 where k1: "r = Some k1" "k1 \<in> set (dkeys d)" "prefix pre k1" "\<And>k'. k' \<in> set (dkeys d) \<Longrightarrow> prefix pre k' \<Longrightarrow> k' \<le> k1"
    using r(2) k(1,2) below by (cases r) (auto simp: last_with_def greatest_below_def)
  then have "k1 = k" using k by (meson antisym)
  then show ?thesis using r(1) k1(1) by simp
qed

text \<open>The last key with a prefix before a boundary is the last one of a scan with that boundary, if it is not a key.\<close>

lemma to_last_boundary:
  assumes L: "lmdb_ok L" "dict_ok d" and E: "scans_ok E" "distinct (dkeys d')" and same: "set (dkeys d) = set (dkeys d')"
    and b: "b = pre @ y" "b \<notin> set (dkeys d)"
  shows "to_last_with_prefix L d pre None (Some b) = Inr (get_last_key E d' (Some pre) (Some b))"
proof -
  have between: "prefix pre x" if "pre @ z \<le> x" "x < seek_boundary pre None (Some b)" for x z
    using that prefix_between [of pre z x y] b(1) by (simp add: seek_boundary_def)
  obtain r where r: "to_last_with_prefix L d pre None (Some b) = Inr r" "last_with (set (dkeys d)) pre b r"
    by (rule to_last_spec [OF L, of None "Some b" pre]) (use between in \<open>auto simp: seek_boundary_def\<close>)
  have bounds: "in_bounds id (Some pre) (Some b) x \<longleftrightarrow> prefix pre x \<and> x < b" if "x \<in> set (dkeys d)" for x
  proof -
    have "pre @ [] \<le> x \<Longrightarrow> x < pre @ y \<Longrightarrow> prefix pre x" by (rule prefix_between)
    moreover have "x \<noteq> b" using that b(2) by metis
    moreover have "pre @ [] \<le> x" if "prefix pre x" using that by (auto simp: prefix_def simp del: append_Nil2)
    ultimately show ?thesis using b(1) by (auto simp: in_bounds_def less_le)
  qed
  have "r = get_last_key E d' (Some pre) (Some b)"
  proof (cases "get_last_key E d' (Some pre) (Some b)")
    case None
    then have "\<forall>x \<in> set (dkeys d). \<not> (prefix pre x \<and> x < b)" using last_key_none [OF E] bounds same by blast
    then show ?thesis using r(2) None by (cases r) (auto simp: last_with_def greatest_below_def)
  next
    case (Some k)
    note kk = last_key_in [OF E Some]
    have k: "k \<in> set (dkeys d)" "prefix pre k" "k < b" using kk(1,2) bounds same by auto
    then obtain k1 where k1: "r = Some k1" "k1 \<in> set (dkeys d)" "prefix pre k1" "k1 < b" "k \<le> k1"
      using r(2) by (cases r) (auto simp: last_with_def greatest_below_def)
    then have "k1 \<le> k" using kk(3) [of k1] bounds [of k1] same by auto
    then show ?thesis using Some k1 by simp
  qed
  then show ?thesis using r(1) by simp
qed

section \<open>The same placements and entries\<close>

lemma mirrored_keys: "mirrors L T m \<Longrightarrow> set (dkeys (T TPlacements)) = set (dkeys (st_placements m))"
  unfolding mirrors_def by (metis (no_types, lifting) dget_None_iff option.map_disc_iff subsetI subset_antisym)

lemma placed_shape:
  assumes "placed_ok E K m" "b \<in> set (dkeys (st_placements m))"
  obtains p where "b = place_key E p" "placement_ok p" "change_muid (pl_placer p)" "middle_kind (pl_middle p) = K (pl_container p)"
  using assms dkey_dget [OF assms(2)] unfolding placed_ok_def by metis

lemma placed_entry_same:
  assumes E: "key_codec_ok E" and L: "lmdb_ok L" and m: "mirrors L T m" and st: "placed_ok E K m"
    and b: "b \<in> set (dkeys (st_placements m))" "b = place_key E p" "placement_ok p" "pl_container p = c"
      "middle_kind (pl_middle p) = K c" "K c \<noteq> 2"
  shows "\<exists>e. placed_entry L T b = Inr e \<and> entry_of_placement m b = Inr e"
proof -
  obtain v where v: "dget (st_placements m) b = Some v" using dkey_dget [OF b(1)] by blast
  obtain q where q: "b = place_key E q" "placement_ok q" "middle_kind (pl_middle q) = K (pl_container q)"
    "middle_kind (pl_middle q) \<noteq> 2 \<longrightarrow> v = pl_placer q \<and> (\<exists>e. dget (st_entries m) v = Some e)"
    using st v unfolding placed_ok_def by metis
  have "q = p" by (rule place_key_inj [OF E q(2) b(3)]) (use q b in auto)
  then obtain e where e: "v = pl_placer p" "dget (st_entries m) v = Some e" using q(4) b(5,6) by auto
  have "valid_muid v" using e(1) b(3) by (simp add: placement_ok_def)
  then have "dget (T TEntries) (muid_bytes v) = Some (lm_entry_ser L e)" "dget (T TPlacements) b = Some (muid_bytes v)"
    using m e(2) v by (simp_all add: mirrors_def)
  then have "placed_entry L T b = Inr e" using L
    by (simp add: placed_entry_def value_at_def opt_or_def stored_entry_def lmdb_ok_def)
  moreover have "entry_of_placement m b = Inr e" using v e(2) by (simp add: entry_of_placement_def dindex_def)
  ultimately show ?thesis by blast
qed

lemma then_same:
  assumes E: "scans_ok E" "key_codec_ok E" and L: "lmdb_ok L" and m: "mirrors L T m" and st: "placed_ok E K m"
    and c: "valid_muid c" and k: "middle_ok k" "middle_kind k = K c" "K c \<noteq> 2" and t: "time_ok t"
    and p: "pl_container p = c" "pl_middle p = k"
    and clear: "get_time_of_prior_clear E m c t = Inr T0" "lmdb_time_of_prior_clear L T c t = Inr T0"
  shows "lmdb_contained_then E L T c k behavior t (place_key E p) = contained_then E m c k behavior t (place_key E p)"
proof -
  let ?d = "st_placements m" and ?hi = "place_key E (Placement c k (Muid t 0 0) None)" and ?pre = "muid_bytes c @ middle_enc E k"
  have ok: "placement_ok (Placement c k (Muid t 0 0) None)" using c k valid_time_muid [OF t] by (simp add: placement_ok_def valid_time_def)
  have d: "distinct (dkeys ?d)" "dict_ok (T TPlacements)" using st m by (simp_all add: placed_ok_def dict_ok_def mirrors_def)
  have none: "?hi \<notin> set (dkeys ?d)"
  proof
    assume "?hi \<in> set (dkeys ?d)"
    then obtain q where q: "?hi = place_key E q" "placement_ok q" "change_muid (pl_placer q)" "middle_kind (pl_middle q) = K (pl_container q)"
      by (rule placed_shape [OF st])
    have "Placement c k (Muid t 0 0) None = q" by (rule place_key_inj [OF E(2) ok q(2) _ q(1)]) (use q k in auto)
    then have "pl_placer q = Muid t 0 0" by auto
    then show False using change_not_time [OF q(3)] by simp
  qed
  have shape: "?hi = ?pre @ muid_bytes (Muid t 0 0) @ muts_bytes None" by (simp add: place_key_def)
  have found: "to_last_with_prefix L (T TPlacements) ?pre None (Some ?hi) = Inr (get_last_key E ?d (Some ?pre) (Some ?hi))"
    by (rule to_last_boundary [OF L d(2) E(1) d(1) mirrored_keys [OF m] shape]) (use none mirrored_keys [OF m] in simp)
  have cut: "cut_tail ?hi = ?pre" "cut_tail (place_key E p) = ?pre" using p by (simp_all add: cut_tail_key)
  have "placement_bytes E (Placement c k (Muid t 0 0) None) = Inr ?hi" using ok by (rule placement_bytes_ok)
  note reads = this cut found clear mk_time [OF t]
  show ?thesis
  proof (cases "get_last_key E ?d (Some ?pre) (Some ?hi)")
    case None
    then show ?thesis using reads by (simp add: lmdb_contained_then_def contained_then_def require_def)
  next
    case (Some b)
    note bb = last_key_in [OF E(1) d(1) Some [unfolded then_scan [OF E st c k(1,2) t]]]
    obtain q where "b = place_key E q" "placement_ok q" "pl_container q = c" "pl_middle q = k"
      using scanned_placements [OF E st c k(1,2) t] bb(1,2) by blast
    then obtain e where "placed_entry L T b = Inr e" "entry_of_placement m b = Inr e"
      using placed_entry_same [OF E(2) L m st bb(1)] k by blast
    then show ?thesis using Some reads by (simp add: lmdb_contained_then_def contained_then_def require_def)
  qed
qed

lemma key_same:
  assumes E: "scans_ok E" "key_codec_ok E" and L: "lmdb_ok L" and m: "mirrors L T m" and st: "placed_ok E K m"
    and c: "valid_muid c" and k: "middle_ok k" "middle_kind k = K c" "K c \<noteq> 2" and t: "time_ok t"
    and p: "placement_ok p" "pl_container p = c" "pl_middle p = k" "place_key E p \<in> set (dkeys (st_placements m))"
    and beh: "behavior_kind behavior = Some (middle_kind k)"
    and clear: "get_time_of_prior_clear E m c t = Inr T0" "lmdb_time_of_prior_clear L T c t = Inr T0"
  shows "lmdb_key_reset E L T c t behavior T1 (place_key E p) = key_reset E c t behavior T1 (place_key E p) m"
proof -
  obtain e where e: "placed_entry L T (place_key E p) = Inr e" "entry_of_placement m (place_key E p) = Inr e"
    using placed_entry_same [OF E(2) L m st p(4) refl p(1,2)] p(3) k by auto
  have dec: "placement_from_bytes E (place_key E p) behavior = Inr p"
    using placement_from_bytes_key [OF E(2) p(1)] beh p(3) by simp
  have key: "get_key p = Inr k" using p(3) k by (cases k) (simp_all add: get_key_def)
  show ?thesis
    using e dec key then_same [OF E L m st c k t p(2,3) clear] by (simp add: lmdb_key_reset_def key_reset_def)
qed

lemma first_same:
  assumes E: "scans_ok E" "key_codec_ok E" and L: "lmdb_ok L" and m: "mirrors L T m" and st: "placed_ok E K m"
    and c: "valid_muid c" and k: "middle_ok k" "middle_kind k = K c"
    and p: "get_last_key E (st_placements m) None (Some (muid_bytes c @ middle_enc E k @ FF16)) = Some (place_key E p)"
      "placement_ok p" "pl_container p = c" "pl_middle p = k"
  shows "to_last_with_prefix L (T TPlacements) (muid_bytes c @ middle_enc E k) None None = Inr (Some (place_key E p))"
proof -
  let ?d = "st_placements m" and ?pre = "muid_bytes c @ middle_enc E k"
  have d: "distinct (dkeys ?d)" "dict_ok (T TPlacements)" using st m by (simp_all add: placed_ok_def dict_ok_def mirrors_def)
  note last = last_key_in [OF E(1) d(1) p(1)]
  have mine: "\<exists>q. x = place_key E q \<and> placement_ok q \<and> change_muid (pl_placer q) \<and> pl_container q = c \<and> pl_middle q = k"
    if x: "x \<in> set (dkeys ?d)" "prefix ?pre x" for x
  proof -
    obtain q where q: "x = place_key E q" "placement_ok q" "change_muid (pl_placer q)" "middle_kind (pl_middle q) = K (pl_container q)"
      by (rule placed_shape [OF st x(1)])
    then show ?thesis using key_prefix [OF E(2) q(2) c k(1) _ x(2) [unfolded q(1)]] k(2) by auto
  qed
  show ?thesis
  proof (rule to_last_plain [OF L d(2)])
    show "?pre \<noteq> []"
    proof
      assume "?pre = []"
      then have "length (muid_bytes c) = 0" by simp
      then show False by simp
    qed
    show "place_key E p \<in> set (dkeys (T TPlacements))" using last(1) mirrored_keys [OF m] by simp
    show "prefix ?pre (place_key E p)" using p(3,4) by (simp add: place_key_def)
    fix x assume x: "x \<in> set (dkeys (T TPlacements))" "prefix ?pre x"
    then obtain q where q: "x = place_key E q" "placement_ok q" "change_muid (pl_placer q)" "pl_container q = c" "pl_middle q = k"
      using mine mirrored_keys [OF m] by auto
    have v: "valid_muid (pl_placer q)" using q(2) by (simp add: placement_ok_def)
    show "length x < length ?pre + 40" using q(1,4,5) by (simp add: place_key_def)
    have "muid_bytes (pl_placer q) @ muts_bytes (pl_expiry q) \<le> FF16 @ []"
      using muid_codec.enc_append_le [OF v valid_all_ones] below_all_ones [OF q(3)] all_ones by metis
    then have "x \<le> muid_bytes c @ middle_enc E k @ FF16" using q by (simp add: place_key_def)
    then show "x \<le> place_key E p" using last(3) x(1) mirrored_keys [OF m] by (simp add: in_bounds_def)
  qed
qed

section \<open>The reset of a key\<close>

text \<open>The generator for one key makes one round.\<close>

lemma lmdb_single_key_round:
  assumes key: "true_key (Some key) = Some key" "encode_key key = Inr pb" and seen: "rr_seen r = None"
    and clear: "lmdb_time_of_prior_clear L T c (-1) = Inr T0"
    and b: "to_last_with_prefix L (T TPlacements) (muid_bytes c @ x_key_ser E pb) None None = Inr (Some b)" "T TPlacements \<noteq> []"
    and k: "lmdb_key_reset E L T c t behavior T0 b = Inr (ch, occ, k)"
    and emits: "\<And>x. ch = Some x \<Longrightarrow> emit x r = (Inr (), r' x) \<and> rr_seen (r' x) = None"
  shows "lmdb_keyed_reset_changes E L T emit recurse c t (Some key) behavior r =
    (case ch of None \<Rightarrow> (Inr (), r) | Some x \<Rightarrow> emit x r)"
proof -
  obtain n where n: "length (T TPlacements) = Suc n" using b(2) by (cases "T TPlacements") simp_all
  have no: "recurse_on recurse occ s = (Inr (), s)" if "rr_seen s = None" for s
    using that by (cases occ) (simp_all add: recurse_on_def py_bind_apply py_apply py_when_def)
  show ?thesis
    using assms n no
    by (cases ch) (simp_all add: lmdb_keyed_reset_changes_def enter_container_def py_bind_apply py_then_apply py_apply)
qed

text \<open>What the stores do for a key that has an entry.\<close>

lemma memory_emits:
  assumes E: "scans_ok E" "key_codec_ok E" and st: "placed_ok E K m" "clears_ok m"
    and c: "valid_muid c" "K c = 1" and key: "valid_ukey key" "true_key (Some key) = Some key" and t: "time_ok t" "0 \<le> t"
    and clear: "\<And>a. time_ok a \<Longrightarrow> get_time_of_prior_clear E m c a = Inr 0"
    and now: "get_entry_by_key E m c (MidKey key) (-1) = Inr (Some (u, e))" "decode_entry_occupant E u e = Inr x"
    and was: "get_entry_by_key E m c (MidKey key) t = Inr r" "held E r = Inr y" "\<And>v f. r = Some (v, f) \<Longrightarrow> 0 < mu_timestamp v"
    and ch: "change_back c (MidKey key) DIRECTORY y x r = Inr ch"
  shows "fst (list_reset_changes E t (Some c) (Some key) False m) =
      Inr (if mu_timestamp u < t then [] else case ch of None \<Rightarrow> [] | Some z \<Rightarrow> [z])"
proof -
  let ?k = "MidKey key" and ?c = "if mu_timestamp u < t then None else ch"
  have k: "middle_ok ?k" "middle_kind ?k = K c" "middle_kind ?k \<noteq> 2" "K c \<noteq> 2" using key c by simp_all
  have beh: "behavior_kind DIRECTORY = Some (middle_kind ?k)" by (simp add: behavior_kind_def)
  have enc: "encode_key key = Inr (key_msg key)" "middle_enc E ?k = x_key_ser E (key_msg key)" using key by (simp_all add: encode_key_valid)
  have t1: "time_ok (-1)" by (simp add: time_ok_def muid_consts)
  obtain b occ where b: "get_last_key E (st_placements m) None (Some (muid_bytes c @ middle_enc E ?k @ FF16)) = Some b"
    "take 16 b = muid_bytes c" "st_placements m \<noteq> []" "key_reset E c t DIRECTORY 0 b m = Inr (?c, occ, ?k)"
    by (rule key_reset_result [OF E st c(1) k(1-3) beh t clear(1) [OF t(1)] now was ch])
  from single_key_lists [OF key(2) enc(1) clear(1) [OF t1] b(1) [unfolded enc(2)] b(2-4)]
  show ?thesis by (simp split: option.split)
qed

lemma lmdb_emits:
  assumes E: "scans_ok E" "key_codec_ok E" and L: "lmdb_ok L" and m: "mirrors L (lb_tables s) m" and st: "placed_ok E K m" "clears_ok m"
    and c: "valid_muid c" "K c = 1" and key: "valid_ukey key" "true_key (Some key) = Some key" and t: "time_ok t" "0 \<le> t"
    and clear: "\<And>a. time_ok a \<Longrightarrow> get_time_of_prior_clear E m c a = Inr 0"
      "\<And>a. time_ok a \<Longrightarrow> lmdb_time_of_prior_clear L (lb_tables s) c a = Inr 0"
    and now: "get_entry_by_key E m c (MidKey key) (-1) = Inr (Some (u, e))" "decode_entry_occupant E u e = Inr x"
    and was: "get_entry_by_key E m c (MidKey key) t = Inr r" "held E r = Inr y" "\<And>v f. r = Some (v, f) \<Longrightarrow> 0 < mu_timestamp v"
    and ch: "change_back c (MidKey key) DIRECTORY y x r = Inr ch"
  shows "fst (lmdb_list_reset_changes E L t (Some c) (Some key) False s) =
      Inr (if mu_timestamp u < t then [] else case ch of None \<Rightarrow> [] | Some z \<Rightarrow> [z])"
proof -
  let ?k = "MidKey key" and ?T = "lb_tables s" and ?c = "if mu_timestamp u < t then None else ch"
  have k: "middle_ok ?k" "middle_kind ?k = K c" "middle_kind ?k \<noteq> 2" "K c \<noteq> 2" using key c by simp_all
  have beh: "behavior_kind DIRECTORY = Some (middle_kind ?k)" by (simp add: behavior_kind_def)
  have enc: "encode_key key = Inr (key_msg key)" "middle_enc E ?k = x_key_ser E (key_msg key)" using key by (simp_all add: encode_key_valid)
  have t1: "time_ok (-1)" by (simp add: time_ok_def muid_consts)
  obtain b occ where b: "get_last_key E (st_placements m) None (Some (muid_bytes c @ middle_enc E ?k @ FF16)) = Some b"
    "take 16 b = muid_bytes c" "st_placements m \<noteq> []" "key_reset E c t DIRECTORY 0 b m = Inr (?c, occ, ?k)"
    by (rule key_reset_result [OF E st c(1) k(1-3) beh t clear(1) [OF t(1)] now was ch])
  obtain p where p: "get_last_key E (st_placements m) None (Some (muid_bytes c @ middle_enc E ?k @ FF16)) = Some (place_key E p)"
    "placement_ok p" "pl_container p = c" "pl_middle p = ?k" "dget (st_placements m) (place_key E p) = Some u"
    by (rule key_now [OF E st c(1) k(1-3) now(1)])
  have bp: "b = place_key E p" using p(1) b(1) by simp
  have inkeys: "place_key E p \<in> set (dkeys (st_placements m))" using p(5) by (metis dget_None_iff option.distinct(1))
  have first: "to_last_with_prefix L (?T TPlacements) (muid_bytes c @ x_key_ser E (key_msg key)) None None = Inr (Some b)"
    using first_same [OF E L m st(1) c(1) k(1,2) p(1-4)] enc(2) bp by simp
  have full: "?T TPlacements \<noteq> []"
    using inkeys mirrored_keys [OF m] by (metis empty_iff empty_set list.simps(8))
  have reset: "lmdb_key_reset E L ?T c t DIRECTORY 0 b = Inr (?c, occ, ?k)"
    using key_same [OF E L m st(1) c(1) k(1,2,4) t(1) p(2-4) inkeys beh clear(1,2) [OF t(1)]] b(4) bp by simp
  let ?q = "\<lparr>rr_seen = None, lr_out = []\<rparr>" and ?emit = "\<lambda>c. py_modify (\<lambda>r. r\<lparr>lr_out := lr_out r @ [c]\<rparr>)"
  have "lmdb_keyed_reset_changes E L ?T ?emit (lmdb_container_reset_changes E L ?T ?emit t (length (?T TEntries) + 2)) c t (Some key) DIRECTORY ?q =
      (case ?c of None \<Rightarrow> (Inr (), ?q) | Some x \<Rightarrow> ?emit x ?q)"
    by (rule lmdb_single_key_round [OF key(2) enc(1) _ clear(2) [OF t1] first full reset, where r' = "\<lambda>x. ?q\<lparr>lr_out := [x]\<rparr>"])
      (simp_all add: py_apply)
  then show "fst (lmdb_list_reset_changes E L t (Some c) (Some key) False s) = Inr (if mu_timestamp u < t then [] else case ch of None \<Rightarrow> [] | Some z \<Rightarrow> [z])"
    by (simp add: lmdb_list_reset_changes_def lmdb_reset_changes_def with_read_def py_bind_apply py_then_apply py_apply Let_def
        split: option.split)
qed

text \<open>C18: The memory store and the LMDB store, both keeping history, that accepted the same sound bundles, in any
  orders, yield the same change for the reset of a key of a directory that was never cleared, when the key has an entry and Python does not take it
  for false: none when the key was not written since the time or held then what it holds now, the entry that deletes
  the key when it held nothing then, and otherwise the entry that a lookup as of the time finds.\<close>

theorem resets_agree:
  assumes E: "scans_ok E" "key_codec_ok E" and L: "lmdb_ok L"
    and sound: "sound_bundles E K (map rc_bundle rs)" and perm: "mset (map rc_bundle rs) = mset (map snd rs')"
    and run: "lmdb_receive_all E L rs (new_lmdb rb) = Some s" "receive_all E rs' (empty_store True) = Some s'"
    and c: "valid_muid c" "K c = 1" and key: "valid_ukey key" "true_key (Some key) = Some key" and t: "time_ok t" "0 \<le> t"
    and uncleared: "clears (all_changes E (map snd rs')) c = []"
    and now: "get_entry_by_key E s' c (MidKey key) (-1) = Inr (Some (u, e))" "decode_entry_occupant E u e = Inr x"
    and was: "get_entry_by_key E s' c (MidKey key) t = Inr r" "held E r = Inr y"
  shows "\<exists>del chs. create_deleting_entry c (MidKey key) DIRECTORY = Inr del \<and>
    chs = (if mu_timestamp u < t \<or> occupant_eq y x then []
           else if y = OccDeletion then [ChEntry del]
           else case r of None \<Rightarrow> [] | Some (v, f) \<Rightarrow> [ChEntry f]) \<and>
    fst (list_reset_changes E t (Some c) (Some key) False s') = Inr chs \<and>
    fst (lmdb_list_reset_changes E L t (Some c) (Some key) False s) = Inr chs"
proof -
  let ?ds = "all_changes E (map rc_bundle rs)" and ?ds' = "all_changes E (map snd rs')"
  have sound': "sound_bundles E K (map snd rs')" by (rule sound_bundles_perm [OF perm sound])
  have same: "set ?ds = set ?ds'" using all_changes_perm [OF perm, of E] by (metis set_mset_mset)
  obtain m where m: "mirrors L (lb_tables s) m" "holds E K ?ds m" by (rule received_stands [OF E(2) sound run(1)])
  note h' = received_holds [OF E(2) sound' run(2)]
  have ord: "\<forall>d \<in> set ?ds. in_order K d" "\<forall>d \<in> set ?ds'. in_order K d" using sound sound' by (simp_all add: sound_bundles_def)
  have st: "placed_ok E K m" "clears_ok m" "placed_ok E K s'" "clears_ok s'" using m(2) h' by (simp_all add: holds_def)
  have k: "middle_ok (MidKey key)" "middle_kind (MidKey key) = K c" "K c \<noteq> 2" using key c by simp_all
  have t1: "time_ok (-1)" by (simp add: time_ok_def muid_consts)
  have "set (clears ?ds c) = set (clears ?ds' c)" using same by (auto simp: clears_def)
  then have none: "clears ?ds c = []" using uncleared by simp
  have clear: "get_time_of_prior_clear E m c a = Inr 0" "get_time_of_prior_clear E s' c a = Inr 0"
    "lmdb_time_of_prior_clear L (lb_tables s) c a = Inr 0" if "time_ok a" for a
    using clear_time_refines [OF E(1) m(2) ord(1) c(1) that] clear_time_refines [OF E(1) h' ord(2) c(1) that]
      last_clear_refines [OF L m ord(1) c(1) that] uncleared_time [OF none] uncleared_time [OF uncleared]
      one_clear [of a ?ds c] uncleared_before [OF none] by simp_all
  have look: "get_entry_by_key E m c (MidKey key) a = get_entry_by_key E s' c (MidKey key) a" if "time_ok a" for a
    by (rule reads_agree [OF E m(2) h' ord c(1) k that]) (simp add: contributions_def same)
  have pos: "0 < mu_timestamp v" if v: "r = Some (v, f)" for v f
    using lookup_older(1) [of ?ds' c "MidKey key" t v f K, OF _ ord(2) t(2,1)] lookup_refines [OF E h' ord(2) c(1) k t(1)] was(1) v by simp
  obtain ch where ch: "change_back c (MidKey key) DIRECTORY y x r = Inr ch" by (rule change_back_total [OF key(1)])
  obtain del where del: "create_deleting_entry c (MidKey key) DIRECTORY = Inr del"
    using key by (auto simp: create_deleting_entry_def encode_key_valid Let_def)
  show ?thesis
    using memory_emits [OF E st(3,4) c key t clear(2) now was pos ch]
      lmdb_emits [OF E L m(1) st(1,2) c key t clear(1,3) _ now(2) _ was(2) pos ch] look [OF t1] look [OF t(1)] now(1) was(1) ch del
    by (auto simp: change_back_def wrap_change_def split: if_splits option.splits)
qed

lemma resets_agree_witness:
  "\<exists>s s' del. lmdb_receive_all demo_ext demo_lmdb demo_receipts (new_lmdb True) = Some s \<and>
    receive_all demo_ext [(demo_clock, demo_b2)] (empty_store True) = Some s' \<and>
    create_deleting_entry demo_root (MidKey (KStr ''a'')) DIRECTORY = Inr del \<and>
    fst (list_reset_changes demo_ext 500 (Some demo_root) (Some (KStr ''a'')) False s') = Inr [ChEntry del] \<and>
    fst (lmdb_list_reset_changes demo_ext demo_lmdb 500 (Some demo_root) (Some (KStr ''a'')) False s) = Inr [ChEntry del]"
proof -
  obtain s s' where s: "lmdb_receive_all demo_ext demo_lmdb demo_receipts (new_lmdb True) = Some s"
    "receive_all demo_ext [(demo_clock, demo_b2)] (empty_store True) = Some s'"
    using demo_lmdb_run demo_one_received by blast
  have same: "mset (map rc_bundle demo_receipts) = mset (map snd [(demo_clock, demo_b2)])" by (simp add: demo_receipt_def)
  have bundles: "map snd [(demo_clock, demo_b2)] = map rc_bundle demo_receipts" by (simp add: demo_receipt_def)
  have none: "clears (all_changes demo_ext (map snd [(demo_clock, demo_b2)])) demo_root = []"
    unfolding bundles demo_one_changes by code_simp
  have sound: "sound_bundles demo_ext (\<lambda>_. 1) (map snd [(demo_clock, demo_b2)])" unfolding bundles by (rule demo_one_sound)
  have h: "holds demo_ext (\<lambda>_. 1) (all_changes demo_ext (map snd [(demo_clock, demo_b2)])) s'"
    by (rule received_holds [OF demo_keys sound s(2)])
  have ord: "\<forall>d \<in> set (all_changes demo_ext (map snd [(demo_clock, demo_b2)])). in_order (\<lambda>_. 1) d"
    using sound by (simp add: sound_bundles_def)
  have look: "get_entry_by_key demo_ext s' demo_root (MidKey (KStr ''a'')) t =
      Inr (spec_lookup (all_changes demo_ext (map snd [(demo_clock, demo_b2)])) demo_root (MidKey (KStr ''a'')) t)" if "time_ok t" for t
    by (rule lookup_refines [OF demo_scans demo_keys h ord demo_lookup_args(1) demo_middle _ _ that]) simp_all
  have now: "get_entry_by_key demo_ext s' demo_root (MidKey (KStr ''a'')) (-1) = Inr (Some (Muid 2000 88 1, demo_entry ''a'' ''2''))"
    unfolding look [OF demo_lookup_args(4)] bundles demo_one_changes by code_simp
  have t: "time_ok 500" by (simp add: time_ok_def muid_consts)
  have was: "get_entry_by_key demo_ext s' demo_root (MidKey (KStr ''a'')) 500 = Inr None"
    unfolding look [OF t] bundles demo_one_changes by code_simp
  have key: "valid_ukey (KStr ''a'')" "true_key (Some (KStr ''a'')) = Some (KStr ''a'')" by code_simp+
  have dec: "decode_entry_occupant demo_ext (Muid 2000 88 1) (demo_entry ''a'' ''2'') = Inr (OccValue (UInt 2))" by code_simp
  have "held demo_ext None = Inr OccDeletion" by (simp add: held_def)
  from resets_agree [OF demo_scans demo_keys demo_lmdb_ok demo_one_sound same s demo_lookup_args(1) _ key t _ none now dec was this] s
  show ?thesis by auto
qed

end
