(* ===== verification/Reset_Loops.thy ===== *)
theory Reset_Loops
  imports Reset_Laws
begin

text \<open>
  The resets of whole containers: the generators of the changes write to nothing but entries that are there.
\<close>

section \<open>What a reset leaves alone\<close>

text \<open>
  What may become of an entry: the addresses in it are made absolute, its position is that of the new entry, and a
  property describes another address. What it holds, its behavior, its expiry and its purge flag stay.
\<close>

definition reworked_contains :: "contains_pb \<Rightarrow> contains_pb \<Rightarrow> bool" where
  "reworked_contains c c' \<longleftrightarrow> (case c of ConPointee _ \<Rightarrow> (\<exists>u. c' = ConPointee u) | _ \<Rightarrow> c' = c)"

definition reworked_subject :: "subject_pb \<Rightarrow> subject_pb \<Rightarrow> bool" where
  "reworked_subject c c' \<longleftrightarrow> (\<exists>u. c' = SubDescribing u) \<or>
    (case c of SubPair _ _ \<Rightarrow> (\<exists>l r. c' = SubPair l r) | SubDescribing _ \<Rightarrow> False | _ \<Rightarrow> c' = c)"

definition reworked :: "entry_pb \<Rightarrow> entry_pb \<Rightarrow> bool" where
  "reworked e e' \<longleftrightarrow> en_behavior e' = en_behavior e \<and> en_expiry e' = en_expiry e \<and> en_purge e' = en_purge e \<and>
    reworked_contains (en_contains e) (en_contains e') \<and> reworked_subject (en_subject e) (en_subject e')"

lemma reworked_refl: "reworked e e"
  by (simp add: reworked_def reworked_contains_def reworked_subject_def split: contains_pb.split subject_pb.split)

lemma reworked_trans: "reworked e e1 \<Longrightarrow> reworked e1 e' \<Longrightarrow> reworked e e'"
  by (auto simp: reworked_def reworked_contains_def reworked_subject_def split: contains_pb.splits subject_pb.splits)

lemma normalized_reworked:
  assumes "normalize_entry_builder e u = Inr e'"
  shows "reworked e e'" "reworked e (e'\<lparr>en_effective := n\<rparr>)" "reworked e (e'\<lparr>en_subject := SubDescribing d\<rparr>)"
  using assms
  by (auto simp: normalize_entry_builder_def normalize_subject_def normalize_contains_def bindr_Inr_iff
      reworked_def reworked_contains_def reworked_subject_def split: contains_pb.splits subject_pb.splits)

text \<open>The tables of entries that a reset may leave: the same addresses in the same order.\<close>

definition same_entries :: "(muid, entry_pb) dict \<Rightarrow> (muid, entry_pb) dict \<Rightarrow> bool" where
  "same_entries = list_all2 (\<lambda>(u, e) (u', e'). u' = u \<and> reworked e e')"

lemma same_entries_refl: "same_entries d d"
  by (auto simp: same_entries_def reworked_refl intro!: list_all2_refl)

lemma same_entries_put:
  assumes "same_entries d d1" "dget d1 u = Some e" "reworked e e'"
  shows "same_entries d (dput u e' d1)"
  using assms(1) unfolding same_entries_def using assms(2)
proof (induction rule: list_all2_induct)
  case (Cons x xs y ys)
  then show ?case using assms(3) reworked_trans
    by (cases x; cases y) (auto simp: dput_def split: if_splits)
qed simp

text \<open>The generators read the store; all that they write to is entries that are there.\<close>

definition store_as :: "mem_store \<Rightarrow> 'c reset_run_scheme \<Rightarrow> bool" where
  "store_as s r \<longleftrightarrow> (rr_store r)\<lparr>st_entries := []\<rparr> = s\<lparr>st_entries := []\<rparr> \<and>
    same_entries (st_entries s) (st_entries (rr_store r))"

named_theorems reset_keeps \<open>steps of a reset that keep the store\<close>

lemma steps_keep [reset_keeps]:
  "py_keeps (store_as s) (of_store f)"
  "py_keeps (store_as s) (py_modify (\<lambda>r. r\<lparr>rr_seen := cs r\<rparr>))"
  by (auto simp: py_keeps_def of_store_def store_as_def py_apply)

lemma put_entry_as:
  assumes "store_as s r" "dget (st_entries (rr_store r)) u = Some e" "reworked e e'"
    "put_entry u e' r = (x, r')"
  shows "store_as s r'" "dget (st_entries (rr_store r')) u = Some e'"
  using assms same_entries_put by (auto simp: put_entry_def py_apply store_as_def)

lemma option_keeps [reset_keeps]:
  "py_keeps I m \<Longrightarrow> (\<And>x. py_keeps I (f x)) \<Longrightarrow> py_keeps I (case x of None \<Rightarrow> m | Some x \<Rightarrow> f x)"
  by (cases x) simp_all

lemma bind_pair_keeps:
  "py_keeps I m \<Longrightarrow> (\<And>x y z. py_keeps I (f x y z)) \<Longrightarrow> py_keeps I (py_bind m (\<lambda>(x, y, z). f x y z))"
  by (intro py_keeps_bind) auto

lemmas reset_rules = py_keeps_basic py_keeps_then py_keeps_when py_keeps_if py_keeps_each reset_keeps bind_pair_keeps py_keeps_bind

lemma enter_keeps: "py_keeps (store_as s) body \<Longrightarrow> py_keeps (store_as s) (enter_container c body)"
  unfolding enter_container_def by (intro reset_rules)

lemma recurse_keeps: "(\<And>u. py_keeps (store_as s) (recurse u)) \<Longrightarrow> py_keeps (store_as s) (recurse_on recurse occ)"
  unfolding recurse_on_def by (cases occ) (auto intro!: reset_rules)

lemma keyed_loop_keeps:
  assumes "\<And>x. py_keeps (store_as s) (emit x)" "\<And>u. py_keeps (store_as s) (recurse u)"
  shows "py_keeps (store_as s) (keyed_reset_loop E emit recurse c t k beh T n b)"
proof (induction n arbitrary: b)
  case 0
  then show ?case by (cases b) (simp_all add: py_keeps_basic)
next
  case (Suc n)
  show ?case
    by (cases b) (auto intro!: reset_rules assms recurse_keeps Suc.IH)
qed

lemma keyed_keeps:
  assumes "\<And>x. py_keeps (store_as s) (emit x)" "\<And>u. py_keeps (store_as s) (recurse u)"
  shows "py_keeps (store_as s) (get_keyed_reset_changes E emit recurse c t k beh)"
  unfolding get_keyed_reset_changes_def by (intro enter_keeps reset_rules keyed_loop_keeps assms)

text \<open>Steps whose outcome the rest relies on, from a given state.\<close>

lemma read_keeps:
  "(\<And>r x. I r \<Longrightarrow> f (rr_store r) = Inr x \<Longrightarrow> I (snd (m x r))) \<Longrightarrow> py_keeps I (py_bind (of_store f) m)"
  by (auto simp: py_keeps_def of_store_def py_simps split: sum.split)

lemma lift_at: "I r \<Longrightarrow> (\<And>x. w = Inr x \<Longrightarrow> I (snd (m x r))) \<Longrightarrow> I (snd (py_bind (py_lift w) m r))"
  by (auto simp: py_simps split: sum.split)

text \<open>An entry is normalized and written back, and again with one more field, before it is handed on.\<close>

lemma rework_at:
  assumes r: "store_as s r" "dget (st_entries (rr_store r)) u = Some e"
    and g: "\<And>e' x. normalize_entry_builder e v = Inr e' \<Longrightarrow> reworked e (g e' x)"
    and m: "\<And>e' x. py_keeps (store_as s) (m e' x)"
  shows "store_as s (snd (py_bind (py_lift (normalize_entry_builder e v)) (\<lambda>e'.
    py_then (put_entry u e') (py_bind (py_lift h) (\<lambda>x. py_then (put_entry u (g e' x)) (m e' x)))) r))"
proof (rule lift_at [where I = "store_as s", OF r(1)])
  fix e' assume e': "normalize_entry_builder e v = Inr e'"
  let ?put = "\<lambda>x r. r\<lparr>rr_store := (rr_store r)\<lparr>st_entries := dput u x (st_entries (rr_store r))\<rparr>\<rparr>"
  have one: "store_as s (?put e' r)"
    using put_entry_as(1) [OF r normalized_reworked(1) [OF e']] by (simp add: put_entry_def py_apply)
  have "store_as s (?put (g e' x) (?put e' r))" for x
    using r same_entries_put [OF _ r(2) g [OF e'], of "st_entries s" x] by (simp add: store_as_def dput_def)
  then show "store_as s (snd (py_then (put_entry u e') (py_bind (py_lift h) (\<lambda>x. py_then (put_entry u (g e' x)) (m e' x))) r))"
    using one m by (cases h) (simp_all add: put_entry_def py_simps py_keeps_def)
qed

lemma reissue_keeps:
  assumes emit: "\<And>x. py_keeps (store_as s) (emit x)"
  shows "py_keeps (store_as s) (reissue_properties E emit described t)"
proof -
  have "py_keeps (store_as s) (reissue_loop emit described issued off ks)" for issued off ks
  proof (induction ks arbitrary: issued off)
    case (Cons k ks)
    have rest: "py_keeps (store_as s) (py_then (emit x) (reissue_loop emit described i n ks))" for x i n
      by (intro reset_rules emit Cons.IH)
    have body: "py_keeps (store_as s) (py_bind (of_store (\<lambda>st. dindex (st_entries st) u)) (\<lambda>e.
         py_bind (py_lift (muid_from_bytes (drop 16 k))) (\<lambda>describer_entry.
         py_bind (py_lift (normalize_entry_builder e describer_entry)) (\<lambda>e'.
         py_then (put_entry u e')
        (py_bind (py_lift (mk_muid 0 0 n)) (\<lambda>d.
         py_then (put_entry u (e'\<lparr>en_subject := SubDescribing (put_into d)\<rparr>))
        (py_then (emit (wrap_change (e'\<lparr>en_subject := SubDescribing (put_into d)\<rparr>)))
          (reissue_loop emit described i n ks))))))))" for u i n
      by (rule read_keeps, rule lift_at [where I = "store_as s"], assumption,
          rule rework_at [where s = s and g = "\<lambda>e' d. e'\<lparr>en_subject := SubDescribing (put_into d)\<rparr>"])
        (use rest normalized_reworked(3) in \<open>auto simp: dindex_Inr_iff\<close>)
    show ?case unfolding reissue_loop.simps by (intro body Cons.IH reset_rules)
  qed (simp add: py_keeps_basic)
  then show ?thesis unfolding reissue_properties_def by (intro reset_rules)
qed

lemma put_back_keeps:
  assumes "\<And>x. py_keeps (store_as s) (emit x)"
  shows "py_keeps (store_as s) (put_back E emit u p t)"
proof -
  have rest: "py_keeps (store_as s) (py_then (emit x) (py_when b (reissue_properties E emit d t)))" for x b d
    by (intro reset_rules reissue_keeps assms)
  show ?thesis unfolding put_back_def
    by (rule read_keeps, rule rework_at [where s = s and g = "\<lambda>e' n. e'\<lparr>en_effective := n\<rparr>"])
      (use rest normalized_reworked(2) in \<open>auto simp: dindex_Inr_iff\<close>)
qed

lemma ordered_keeps:
  assumes "\<And>x. py_keeps (store_as s) (emit x)" "\<And>u. py_keeps (store_as s) (recurse u)"
  shows "py_keeps (store_as s) (get_ordered_reset_changes E emit recurse c t beh)"
proof -
  have "py_keeps (store_as s) (ordered_reset_loop E emit recurse c t beh T T' bs)" for T T' bs
    by (induction bs) (auto simp: Let_def intro!: reset_rules recurse_keeps put_back_keeps assms)
  then show ?thesis unfolding get_ordered_reset_changes_def by (intro enter_keeps reset_rules)
qed

lemma container_keeps:
  assumes "\<And>x. py_keeps (store_as s) (emit x)"
  shows "py_keeps (store_as s) (container_reset_changes E emit t n c)"
proof (induction n arbitrary: c)
  case 0
  then show ?case by (simp add: py_keeps_basic)
next
  case (Suc n)
  have "py_keeps (store_as s) (get_vertex_reset_changes E emit c t)"
    unfolding get_vertex_reset_changes_def by (intro reset_rules assms)
  then show ?case
    unfolding container_reset_changes.simps by (intro reset_rules keyed_keeps ordered_keeps assms Suc.IH)
qed

lemma changes_keep:
  assumes "\<And>x. py_keeps (store_as s) (emit x)"
  shows "py_keeps (store_as s) (get_reset_changes E emit t c k recursive)"
  unfolding get_reset_changes_def by (intro reset_rules keyed_keeps container_keeps assms)


end
