(* ===== verification/Reset_Ends.thy ===== *)
theory Reset_Ends
  imports Reset_Loops
begin

text \<open>
  The resets end. \<open>Blocked\<close> is what a loop of the model gives that has used up its rounds, so a generator ends when
  it never gives \<open>Blocked\<close>: the loop over the keys of a container has rounds enough, and nothing else blocks.
\<close>

section \<open>What never blocks\<close>

named_theorems unblocked \<open>computations that return or raise\<close>

declare bindr_Inl_iff [unblocked]

lemma basics_unblocked [unblocked]:
  "dindex d k \<noteq> Inl Blocked" "mk_muid t m z \<noteq> Inl Blocked" "encode_muts n \<noteq> Inl Blocked" "decode_muts b \<noteq> Inl Blocked"
  "py_int base s \<noteq> Inl Blocked" "py_str_int i \<noteq> Inl Blocked" "encode_key k' \<noteq> Inl Blocked" "get_behavior st u \<noteq> Inl Blocked"
  "get_key p \<noteq> Inl Blocked" "get_queue_position p \<noteq> Inl Blocked" "require b' e \<noteq> Inl Blocked \<longleftrightarrow> b' \<or> e \<noteq> Blocked"
  by (auto simp: dindex_def mk_muid_eq encode_muts_def decode_muts_def py_int_def py_str_int_def encode_key_def get_behavior_def
      get_key_def get_queue_position_def require_def Let_def split: option.split ukey.split middle.split)

lemma codecs_unblocked [unblocked]:
  "muid_from_bytes b \<noteq> Inl Blocked" "muid_create ctx pb off \<noteq> Inl Blocked" "queue_from_bytes b \<noteq> Inl Blocked"
  "middle_bytes E m \<noteq> Inl Blocked" "placement_bytes E p \<noteq> Inl Blocked"
proof -
  show m: "middle_bytes E m \<noteq> Inl Blocked" for m by (cases m) (auto simp: unblocked)
  show "muid_from_bytes b \<noteq> Inl Blocked" by (auto simp: muid_from_bytes_def Let_def unblocked)
  show "muid_create ctx pb off \<noteq> Inl Blocked"
    by (cases ctx) (auto simp: muid_create_def Let_def unblocked split: muid_ctx.split)
  show "queue_from_bytes b \<noteq> Inl Blocked"
    by (auto simp: queue_from_bytes_def unblocked split: option.split)
  show "placement_bytes E p \<noteq> Inl Blocked" using m by (auto simp: placement_bytes_def unblocked)
qed

text \<open>Reading a serialized key, which is third-party code, returns or raises.\<close>

definition key_parse_ends :: "ext \<Rightarrow> bool" where
  "key_parse_ends E \<longleftrightarrow> (\<forall>b. x_key_parse E b \<noteq> Inl Blocked)"

lemma placement_unblocked [unblocked]: "key_parse_ends E \<Longrightarrow> placement_from_bytes E b beh \<noteq> Inl Blocked"
  by (auto simp: placement_from_bytes_def middle_from_bytes_def decode_key_bytes_def key_parse_ends_def Let_def unblocked)

lemma mapr_unblocked: "(\<And>x. x \<in> set xs \<Longrightarrow> f x \<noteq> Inl Blocked) \<Longrightarrow> mapr f xs \<noteq> Inl Blocked"
  by (induction xs) (auto simp: unblocked)

lemma value_unblocked [unblocked]: "decode_value E v \<noteq> Inl Blocked" "decode_items E ks vs d \<noteq> Inl Blocked"
  by (induction E v and E ks vs d rule: decode_value_decode_items.induct)
    (auto simp: unblocked mapr_unblocked split: option.split)

lemma occupant_unblocked [unblocked]: "decode_entry_occupant E u e \<noteq> Inl Blocked"
  by (auto simp: decode_entry_occupant_def unblocked split: contains_pb.split subject_pb.split)

lemma entries_unblocked [unblocked]:
  "create_deleting_entry c m beh \<noteq> Inl Blocked" "normalize_entry_builder e u \<noteq> Inl Blocked" "entry_of_placement st b \<noteq> Inl Blocked"
  by (auto simp: create_deleting_entry_def normalize_entry_builder_def normalize_subject_def normalize_contains_def
      entry_of_placement_def Let_def unblocked split: middle.split subject_pb.split contains_pb.split)

lemma clear_unblocked [unblocked]: "get_time_of_prior_clear E st c t \<noteq> Inl Blocked"
proof -
  have "clear_loop n ks \<noteq> Inl Blocked" for n ks by (induction ks arbitrary: n) (auto simp: unblocked)
  then show ?thesis by (auto simp: get_time_of_prior_clear_def Let_def unblocked)
qed

lemma total_unblocked [unblocked]: "get_billionths E st c t \<noteq> Inl Blocked" "get_accumulator_reset E st c t' \<noteq> Inl Blocked"
proof -
  have "sum_billionths st bs \<noteq> Inl Blocked" for bs by (induction bs) (auto simp: unblocked)
  then show sum: "get_billionths E st c t \<noteq> Inl Blocked" for t by (auto simp: get_billionths_def unblocked)
  show "get_accumulator_reset E st c t' \<noteq> Inl Blocked"
    by (auto simp: get_accumulator_reset_def unblocked sum)
qed

lemma resets_unblocked [unblocked]:
  assumes "key_parse_ends E"
  shows "vertex_reset E c t st \<noteq> Inl Blocked" "contained_then E st c m beh t b \<noteq> Inl Blocked"
    "key_reset E c t beh T b st \<noteq> Inl Blocked" "placement_at E st u beh t \<noteq> Inl Blocked"
    "undo_placing c u p q \<noteq> Inl Blocked"
proof -
  note place = placement_unblocked [OF assms]
  show "vertex_reset E c t st \<noteq> Inl Blocked"
    by (auto simp: vertex_reset_def deleted_at_def Let_def unblocked split: option.split)
  show held: "contained_then E st c m beh t b \<noteq> Inl Blocked" for m
    by (auto simp: contained_then_def unblocked place split: option.split)
  show "key_reset E c t beh T b st \<noteq> Inl Blocked"
    by (auto simp: key_reset_def unblocked place held)
  show "placement_at E st u beh t \<noteq> Inl Blocked"
    by (auto simp: placement_at_def get_location_def unblocked place split: option.split list.split)
  show "undo_placing c u p q \<noteq> Inl Blocked"
    by (auto simp: undo_placing_def Let_def unblocked split: option.split)
qed

section \<open>Generators that end\<close>

definition ends :: "('s \<Rightarrow> bool) \<Rightarrow> ('s, 'a) py \<Rightarrow> bool" where
  "ends I m \<longleftrightarrow> (\<forall>r. I r \<longrightarrow> fst (m r) \<noteq> Inl Blocked \<and> I (snd (m r)))"

named_theorems ending \<open>generators that end\<close>

lemma ends_basic [ending]:
  "ends I (py_return x)" "e \<noteq> Blocked \<Longrightarrow> ends I (py_raise e)" "w \<noteq> Inl Blocked \<Longrightarrow> ends I (py_lift w)"
  "ends I (py_read (\<lambda>r. Inr (g r)))"
  by (simp_all add: ends_def py_apply)

lemma ends_steps [ending]:
  "(\<And>st. f st \<noteq> Inl Blocked) \<Longrightarrow> ends I (of_store f)"
  "ends (store_as s) (py_modify (\<lambda>r. r\<lparr>rr_seen := cs r\<rparr>))" "ends (\<lambda>_. True) (put_entry u en)"
  by (simp_all add: ends_def of_store_def put_entry_def store_as_def py_apply)

lemma ends_run: "ends I m \<Longrightarrow> I r \<Longrightarrow> m r = (x, r') \<Longrightarrow> x \<noteq> Inl Blocked \<and> I r'"
  by (auto simp: ends_def dest!: spec [of _ r])

lemma ends_bind [ending]:
  assumes "ends I m" "\<And>x. ends I (f x)"
  shows "ends I (py_bind m f)"
  unfolding ends_def
proof (intro allI impI)
  fix r assume r: "I r"
  obtain x r1 where m: "m r = (x, r1)" by fastforce
  then show "fst (py_bind m f r) \<noteq> Inl Blocked \<and> I (snd (py_bind m f r))"
    using ends_run [OF assms(1) r m] assms(2) by (cases x) (simp_all add: py_bind_def ends_def)
qed

lemma ends_then [ending]: "ends I m \<Longrightarrow> ends I m' \<Longrightarrow> ends I (py_then m m')"
  by (simp add: py_then_def ends_bind)

lemma ends_when [ending]: "ends I m \<Longrightarrow> ends I (py_when b m)"
  by (simp add: py_when_def ends_basic)

lemma ends_if [ending]: "ends I m \<Longrightarrow> ends I m' \<Longrightarrow> ends I (if b then m else m')"
  by simp

lemma ends_option [ending]: "ends I m \<Longrightarrow> (\<And>x. ends I (f x)) \<Longrightarrow> ends I (case x of None \<Rightarrow> m | Some x \<Rightarrow> f x)"
  by (cases x) simp_all

lemma ends_each: "(\<And>x. ends I (f x)) \<Longrightarrow> ends I (py_each f xs)"
  by (induction xs) (auto intro!: ending)

lemma ends_keeping: "ends (\<lambda>_. True) m \<Longrightarrow> py_keeps (store_as s) m \<Longrightarrow> ends (store_as s) m"
  by (simp add: ends_def py_keeps_def)

lemma enter_ends: "ends (store_as s) body \<Longrightarrow> ends (store_as s) (enter_container c body)"
  unfolding enter_container_def by (intro ending)

lemma recurse_ends: "(\<And>u. ends (store_as s) (recurse u)) \<Longrightarrow> ends (store_as s) (recurse_on recurse occ)"
  unfolding recurse_on_def by (cases occ) (auto intro!: ending)

section \<open>The loop over the keys\<close>

text \<open>
  A table of placements is in order when each key is the byte form of a placement that a change made, of the kind of
  the container as the store knows it.
\<close>

abbreviation keyed_behaviors :: "int set" where
  "keyed_behaviors \<equiv> {DIRECTORY, BOX, GROUP, KEY_SET, PROPERTY, PAIR_MAP, PAIR_SET}"

definition placed_kinds :: "ext \<Rightarrow> mem_store \<Rightarrow> bool" where
  "placed_kinds E st \<longleftrightarrow> distinct (dkeys (st_placements st)) \<and>
    (\<forall>b \<in> set (dkeys (st_placements st)). \<exists>p. placement_bytes E p = Inr b \<and> placement_ok p \<and> change_muid (pl_placer p) \<and>
      (\<forall>u behavior. muid_bytes u = muid_bytes (pl_container p) \<and> get_behavior st u = Inr behavior \<and> behavior \<in> keyed_behaviors \<longrightarrow>
        behavior_kind behavior = Some (middle_kind (pl_middle p))))"

lemma key_reset_key:
  assumes E: "key_codec_ok E" and b: "b = place_key E p" "placement_ok p" "behavior_kind beh = Some (middle_kind (pl_middle p))"
    and k: "key_reset E c t beh T b st = Inr (ch, occ, k)"
  shows "k = pl_middle p"
proof -
  have "placement_from_bytes E b beh = Inr p" using placement_from_bytes_key [OF E b(2,3)] b(1) by simp
  then show ?thesis using k
    by (auto simp: key_reset_def get_key_def bindr_Inr_iff split: if_splits middle.splits)
qed

text \<open>Each round goes to a smaller key.\<close>

lemma next_smaller:
  assumes E: "scans_ok E" "key_codec_ok E" and p: "b = place_key E p" "placement_ok p" "change_muid (pl_placer p)"
    and d: "distinct (dkeys d)" "b \<in> set (dkeys d)"
    and limit: "placement_bytes E (Placement (pl_container p) (pl_middle p) (Muid 0 0 0) None) = Inr limit"
    and b': "get_last_key E d None (Some limit) = Some b'"
  shows "b' \<in> set (dkeys d)" "card {k \<in> set (dkeys d). k \<le> b'} < card {k \<in> set (dkeys d). k \<le> b}"
proof -
  note bb = last_key_in [OF E(1) d(1) b']
  have v: "valid_muid (pl_container p)" "middle_ok (pl_middle p)" "valid_muid (pl_placer p)"
    using p(2) by (simp_all add: placement_ok_def)
  have "limit = place_key E (Placement (pl_container p) (pl_middle p) (Muid 0 0 0) None)"
    using limit v by (simp add: placement_bytes_ok placement_ok_def valid_time_def)
  moreover have "muid_lt (Muid 0 0 0) (pl_placer p)"
    using epoch_least [OF v(3)] change_not_time [OF p(3), of 0] by auto
  ultimately have "limit < b"
    using p(1) v muid_codec.enc_append_less [OF valid_epoch v(3)] by (simp add: place_key_def)
  then have "b' < b" using bb(2) by (auto simp: in_bounds_def)
  then have "{k \<in> set (dkeys d). k \<le> b'} \<subseteq> {k \<in> set (dkeys d). k \<le> b}"
    "b \<in> {k \<in> set (dkeys d). k \<le> b} - {k \<in> set (dkeys d). k \<le> b'}" using d(2) by auto
  then have "{k \<in> set (dkeys d). k \<le> b'} \<subset> {k \<in> set (dkeys d). k \<le> b}" by blast
  then show "card {k \<in> set (dkeys d). k \<le> b'} < card {k \<in> set (dkeys d). k \<le> b}" by (simp add: psubset_card_mono)
qed (rule last_key_in(1) [OF E(1) d(1) b'])

lemma store_as_fields:
  assumes "store_as st r"
  shows "st_placements (rr_store r) = st_placements st" "get_behavior (rr_store r) u = get_behavior st u"
proof -
  have "(rr_store r)\<lparr>st_entries := []\<rparr> = st\<lparr>st_entries := []\<rparr>" using assms by (simp add: store_as_def)
  then have "st_placements ((rr_store r)\<lparr>st_entries := []\<rparr>) = st_placements (st\<lparr>st_entries := []\<rparr>)"
    "st_containers ((rr_store r)\<lparr>st_entries := []\<rparr>) = st_containers (st\<lparr>st_entries := []\<rparr>)" by simp_all
  then show "st_placements (rr_store r) = st_placements st" "get_behavior (rr_store r) u = get_behavior st u"
    by (simp_all add: get_behavior_def)
qed

lemma loop_ends:
  assumes E: "scans_ok E" "key_codec_ok E" "key_parse_ends E" and kinds: "placed_kinds E st"
    and beh: "get_behavior st c = Inr behavior" "behavior \<in> keyed_behaviors"
    and emit: "\<And>x. ends (store_as st) (emit x)" and rec: "\<And>u. ends (store_as st) (recurse u)"
  shows "store_as st r \<Longrightarrow> (case b of None \<Rightarrow> True | Some b' \<Rightarrow> b' \<in> set (dkeys (st_placements st)) \<and>
      card {k \<in> set (dkeys (st_placements st)). k \<le> b'} \<le> n) \<Longrightarrow>
    fst (keyed_reset_loop E emit recurse c t single behavior T n b r) \<noteq> Inl Blocked"
proof (induction n arbitrary: b r)
  case 0
  then show ?case by (cases b) (auto simp: py_apply)
next
  case (Suc n)
  let ?d = "st_placements st" and ?loop = "keyed_reset_loop E emit recurse c t single behavior T n"
  show ?case
  proof (cases "\<exists>b'. b = Some b' \<and> take 16 b' = muid_bytes c")
    case False
    then show ?thesis by (cases b) (auto simp: py_apply)
  next
    case True
    then obtain b' where b: "b = Some b'" "take 16 b' = muid_bytes c" by blast
    then have b': "b' \<in> set (dkeys ?d)" "card {k \<in> set (dkeys ?d). k \<le> b'} \<le> Suc n" using Suc.prems(2) by simp_all
    obtain p where p: "b' = place_key E p" "placement_ok p" "change_muid (pl_placer p)"
      "muid_bytes c = muid_bytes (pl_container p) \<longrightarrow> behavior_kind behavior = Some (middle_kind (pl_middle p))"
      using kinds b'(1) beh unfolding placed_kinds_def by (metis placement_bytes_Inr)
    have c: "muid_bytes c = muid_bytes (pl_container p)" using b(2) p(1) by (simp add: place_key_def)
    note kind = p(4) [rule_format, OF c]
    show ?thesis
    proof (cases "key_reset E c t behavior T b' (rr_store r)")
      case (Inl x)
      then show ?thesis using b resets_unblocked(3) [OF E(3)] by (auto simp: py_simps of_store_def)
    next
      case (Inr x)
      obtain ch occ key where x: "x = (ch, occ, key)" by (cases x)
      have key: "key = pl_middle p" by (rule key_reset_key [OF E(2) p(1,2) kind Inr [unfolded x]])
      let ?first = "case ch of None \<Rightarrow> py_return () | Some c \<Rightarrow> emit c"
      have first: "ends (store_as st) (py_then ?first (recurse_on recurse occ))"
        by (intro ending emit recurse_ends rec)
      obtain y r1 where r1: "py_then ?first (recurse_on recurse occ) r = (y, r1)" by fastforce
      note y = ends_run [OF first Suc.prems(1) r1]
      have place: "placement_bytes E (Placement c key (Muid 0 0 0) None) = placement_bytes E (Placement (pl_container p) (pl_middle p) (Muid 0 0 0) None)"
        using c key by (simp add: placement_bytes_def)
      have next_one: "fst (?loop (get_last_key E ?d None (Some limit)) r1) \<noteq> Inl Blocked"
        if limit: "placement_bytes E (Placement c key (Muid 0 0 0) None) = Inr limit" for limit
      proof (rule Suc.IH)
        show "store_as st r1" using y by simp
        show "case get_last_key E ?d None (Some limit) of None \<Rightarrow> True | Some b'' \<Rightarrow> b'' \<in> set (dkeys ?d) \<and>
            card {k \<in> set (dkeys ?d). k \<le> b''} \<le> n"
          using next_smaller [OF E(1,2) p(1-3) _ b'(1) limit [unfolded place]] kinds b'(2)
          by (fastforce simp: placed_kinds_def split: option.split)
      qed
      have "st_placements (rr_store r1) = ?d" using y by (simp add: store_as_fields)
      then have rest: "fst ((if single \<noteq> None then py_return ()
         else py_bind (py_lift (placement_bytes E (Placement c key (Muid 0 0 0) None))) (\<lambda>limit.
           py_bind (of_store (\<lambda>st. Inr (get_last_key E (st_placements st) None (Some limit)))) ?loop)) r1) \<noteq> Inl Blocked"
        using next_one codecs_unblocked(5) by (auto simp: py_simps of_store_def split: sum.split)
      have "keyed_reset_loop E emit recurse c t single behavior T (Suc n) b r =
          py_then (py_then ?first (recurse_on recurse occ)) (if single \<noteq> None then py_return ()
         else py_bind (py_lift (placement_bytes E (Placement c key (Muid 0 0 0) None))) (\<lambda>limit.
           py_bind (of_store (\<lambda>st. Inr (get_last_key E (st_placements st) None (Some limit)))) ?loop)) r"
        using b Inr x by (simp add: py_simps of_store_def split: prod.split sum.split)
      then show ?thesis using r1 y rest by (cases y) (simp_all only: py_then_apply prod.case sum.case fst_conv simp_thms)
    qed
  qed
qed

lemma keyed_ends:
  assumes E: "scans_ok E" "key_codec_ok E" "key_parse_ends E" and kinds: "placed_kinds E st"
    and beh: "get_behavior st c = Inr behavior" "behavior \<in> keyed_behaviors"
    and emit: "\<And>x. ends (store_as st) (emit x)" and rec: "\<And>u. ends (store_as st) (recurse u)"
  shows "ends (store_as st) (get_keyed_reset_changes E emit recurse c t k behavior)"
proof -
  let ?d = "st_placements st"
  have keeps: "\<And>x. py_keeps (store_as st) (emit x)" "\<And>u. py_keeps (store_as st) (recurse u)"
    using emit rec by (simp_all add: ends_def py_keeps_def)
  have d: "distinct (dkeys ?d)" using kinds by (simp add: placed_kinds_def)
  have "card {k \<in> set (dkeys ?d). k \<le> b} \<le> length ?d" for b
    using card_mono [of "set (dkeys ?d)" "{k \<in> set (dkeys ?d). k \<le> b}"] card_length [of "dkeys ?d"] by fastforce
  then have enough: "case get_last_key E ?d None hi of None \<Rightarrow> True | Some b \<Rightarrow> b \<in> set (dkeys ?d) \<and>
      card {k \<in> set (dkeys ?d). k \<le> b} \<le> length ?d" for hi
    using last_key_in(1) [OF E(1) d] by (simp split: option.split)
  have tail: "ends (store_as st) (py_bind (of_store (\<lambda>st. Inr (length (st_placements st)))) (\<lambda>n.
      py_bind (of_store (\<lambda>st. Inr (get_last_key E (st_placements st) None (Some hi))))
        (keyed_reset_loop E emit recurse c t single behavior T n)))" for hi single T
    using loop_ends [OF E kinds beh emit rec _ enough] keyed_loop_keeps [OF keeps]
    by (simp add: ends_def py_keeps_def py_simps of_store_def store_as_fields)
  show ?thesis
    unfolding get_keyed_reset_changes_def
    by (intro enter_ends tail ends_bind ends_steps ends_basic)
      (auto simp: unblocked split: option.split)
qed

section \<open>Sequences, and all containers\<close>

lemma put_back_ends:
  assumes E: "key_parse_ends E" and emit: "\<And>x. ends (\<lambda>_. True) (emit x)" "\<And>x. py_keeps (store_as s) (emit x)"
  shows "ends (store_as s) (put_back E emit u p t)"
proof (rule ends_keeping [OF _ put_back_keeps [OF emit(2)]])
  have "ends (\<lambda>_. True) (reissue_loop emit described issued off ks)" for described issued off ks
    by (induction ks arbitrary: issued off) (auto intro!: ending emit simp: unblocked)
  then show "ends (\<lambda>_. True) (put_back E emit u p t)"
    unfolding put_back_def reissue_properties_def by (intro ending emit) (simp_all add: unblocked)
qed

lemma ordered_ends:
  assumes E: "key_parse_ends E" and emit: "\<And>x. ends (\<lambda>_. True) (emit x)" "\<And>x. py_keeps (store_as s) (emit x)"
    and rec: "\<And>u. ends (store_as s) (recurse u)"
  shows "ends (store_as s) (get_ordered_reset_changes E emit recurse c t beh)"
proof -
  have e: "ends (store_as s) (emit x)" for x by (rule ends_keeping [OF emit])
  have "ends (store_as s) (ordered_reset_loop E emit recurse c t beh T T' bs)" for T T' bs
    by (induction bs)
      (auto simp: Let_def unblocked placement_unblocked [OF E] resets_unblocked [OF E]
        intro!: ending recurse_ends put_back_ends [OF E emit] e rec)
  then show ?thesis unfolding get_ordered_reset_changes_def by (intro enter_ends ending) (auto simp: unblocked)
qed

lemma container_ends:
  assumes E: "scans_ok E" "key_codec_ok E" "key_parse_ends E" and kinds: "placed_kinds E st"
    and emit: "\<And>x. ends (\<lambda>_. True) (emit x)" "\<And>x. py_keeps (store_as st) (emit x)"
  shows "ends (store_as st) (container_reset_changes E emit t n c)"
proof (induction n arbitrary: c)
  case 0
  then show ?case by (simp add: ends_basic)
next
  case (Suc n)
  have e: "ends (store_as st) (emit x)" for x by (rule ends_keeping [OF emit])
  let ?rest = "\<lambda>behavior. if behavior = VERTEX then get_vertex_reset_changes E emit c t
    else if behavior \<in> {DIRECTORY, BOX, GROUP, KEY_SET, PROPERTY, PAIR_MAP, PAIR_SET}
    then get_keyed_reset_changes E emit (container_reset_changes E emit t n) c t None behavior
    else if behavior = SEQUENCE \<or> behavior = EDGE_TYPE
    then get_ordered_reset_changes E emit (container_reset_changes E emit t n) c t behavior
    else if behavior = BRAID then py_return ()
    else if behavior = ACCUMULATOR then py_bind (of_store (\<lambda>st. get_accumulator_reset E st c t)) emit
    else py_raise NotImplementedError"
  have vertex: "ends (store_as st) (get_vertex_reset_changes E emit c t)"
    unfolding get_vertex_reset_changes_def by (intro ending e) (simp add: resets_unblocked [OF E(3)])
  have acc: "ends (store_as st) (py_bind (of_store (\<lambda>st. get_accumulator_reset E st c t)) emit)"
    by (intro ending e) (simp add: unblocked)
  have "ends (store_as st) (?rest behavior)" if "get_behavior st c = Inr behavior" for behavior
    using vertex acc keyed_ends [OF E kinds that _ e Suc.IH, where t = t and k = None] ordered_ends [OF E(3) emit Suc.IH] by (simp add: ends_basic)
  then show ?case
    unfolding ends_def container_reset_changes.simps
    by (auto simp: py_bind_apply of_store_def py_apply store_as_fields unblocked split: sum.split)
qed

text \<open>C22: Finding out what a reset has to write ends, for one key of a directory, for a container with or without the
  containers in it, or for everything: no loop over the keys of a container uses up as many rounds as the store has
  placements, since each round goes to a key before the last one. The placements of the store are those of changes,
  each of the kind of its container, and parsing a serialized key ends. The descent into contained containers is bounded
  in the model as in Python, where too deep a recursion raises.\<close>

theorem resets_end:
  assumes "scans_ok E" "key_codec_ok E" "key_parse_ends E" "placed_kinds E st"
    and "\<And>u. key \<noteq> None \<Longrightarrow> c = Some u \<Longrightarrow> get_behavior st u = Inr DIRECTORY"
  shows "fst (list_reset_changes E t c key recursive st) \<noteq> Inl Blocked"
proof -
  have emit: "ends (\<lambda>_. True) (collect x)" "py_keeps (store_as st) (collect x)" for x
    by (simp_all add: ends_def py_keeps_def collect_def store_as_def py_apply)
  have e: "ends (store_as st) (collect x)" for x by (rule ends_keeping [OF emit])
  have cont: "ends (store_as st) (container_reset_changes E collect t n u)" for n u
    by (rule container_ends [OF assms(1-4) emit])
  have keyed: "ends (store_as st) (get_keyed_reset_changes E collect (container_reset_changes E collect t n) u t (Some k) DIRECTORY)"
    if "key = Some k" "c = Some u" for u n k
    by (rule keyed_ends [OF assms(1-4) assms(5) [OF _ that(2)] _ e cont]) (simp_all add: that(1))
  have "ends (store_as st) (get_reset_changes E collect t c key recursive)"
    unfolding get_reset_changes_def
    by (cases c; cases "key = None")
      (auto intro!: ending ends_each cont simp: keyed unblocked)
  moreover have "store_as st \<lparr>rr_seen = None, rr_store = st, rr_out = []\<rparr>" by (simp add: store_as_def same_entries_refl)
  ultimately have "fst (get_reset_changes E collect t c key recursive \<lparr>rr_seen = None, rr_store = st, rr_out = []\<rparr>) \<noteq> Inl Blocked"
    by (simp add: ends_def)
  then show ?thesis by (auto simp: list_reset_changes_def split: prod.split sum.split)
qed

lemma resets_end_witness:
  "fst (list_reset_changes own_ext 1500 (Some demo_root) None True again_store) \<noteq> Inl Blocked \<and>
   length (st_placements again_store) = 2"
proof -
  have "wire_parse b \<noteq> Inl Blocked" for b
    by (auto simp: wire_parse_def split: option.split list.split)
  then have parse: "key_parse_ends own_ext" by (simp add: key_parse_ends_def own_world_def demo_ext_def ref_ext_def)
  have kind: "behavior_kind behavior = Some (Suc 0)"
    if h: "muid_bytes u = muid_bytes demo_root" "get_behavior again_store u = Inr behavior" "behavior \<in> keyed_behaviors" for u behavior
  proof -
    have "\<not> muid_lt u demo_root" "\<not> muid_lt demo_root u" using h(1) by (simp_all add: muid_bytes_less_iff [symmetric])
    then have "mu_offset u mod OFFSET_MOD = 4" by (auto simp: muid_lt_def muid_consts)
    moreover have "mu_timestamp u = -1" using h(2) by (simp add: get_behavior_def again_store_def empty_store_def split: if_splits)
    then have "behavior = mu_offset u" using h(2) by (simp add: get_behavior_def)
    ultimately show ?thesis using h(3) by (auto simp: behavior_defs behavior_kind_def muid_consts)
  qed
  have "\<exists>p. placement_bytes own_ext p = Inr b \<and> placement_ok p \<and> change_muid (pl_placer p) \<and>
      (\<forall>u behavior. muid_bytes u = muid_bytes (pl_container p) \<and> get_behavior again_store u = Inr behavior \<and> behavior \<in> keyed_behaviors \<longrightarrow>
        behavior_kind behavior = Some (middle_kind (pl_middle p)))" if b: "b \<in> set (dkeys (st_placements again_store))" for b
  proof -
    obtain v where "(b, v) \<in> set (st_placements again_store)" using b by force
    then obtain p where "b = place_key own_ext p" "placement_ok p" "change_muid (pl_placer p)" "pl_container p = demo_root"
      "pl_middle p = MidKey (KStr ''b'')" by (rule again_placed)
    then show ?thesis using kind by (intro exI [of _ p]) (simp add: placement_bytes_ok, blast)
  qed
  then have "placed_kinds own_ext again_store" using again_distinct by (simp add: placed_kinds_def)
  from resets_end [OF own_scans parse this, where key = None and c = "Some demo_root" and t = 1500 and recursive = True]
  show ?thesis by (simp add: again_store_def)
qed

end
