(* ===== verification/Reset_Defects.thy ===== *)
theory Reset_Defects
  imports Reset_Laws
begin

text \<open>
  What the reset of one key of a directory gets wrong: it takes a key that was set in the bundle which last cleared the
  directory for empty, and it resets another key in the place of one that was never written.
\<close>

section \<open>A key that was set along with a clearance\<close>

text \<open>C29: A reset forgets what was written in the bundle that last cleared the container: where a lookup as of the
  time finds an entry as old as the clearance, and the key was given something else at or after the time, the reset
  deletes the key.\<close>

theorem reset_forgets:
  assumes E: "scans_ok E" "key_codec_ok E" and st: "placed_ok E K st" "clears_ok st"
    and c: "valid_muid c" "K c = 1" and key: "valid_ukey key" "true_key (Some key) = Some key" and t: "time_ok t"
    and was: "get_entry_by_key E st c (MidKey key) t = Inr (Some (u, e))" "get_time_of_prior_clear E st c t = Inr (mu_timestamp u)"
    and now: "get_entry_by_key E st c (MidKey key) (-1) = Inr (Some (v, f))" "t \<le> mu_timestamp v"
      "decode_entry_occupant E v f = Inr x" "x \<noteq> OccDeletion"
  shows "\<exists>del. create_deleting_entry c (MidKey key) DIRECTORY = Inr del \<and>
    fst (list_reset_changes E t (Some c) (Some key) False st) = Inr [ChEntry del]"
proof -
  let ?k = "MidKey key"
  have k: "middle_ok ?k" "middle_kind ?k = K c" "middle_kind ?k \<noteq> 2" using key c by simp_all
  have beh: "behavior_kind DIRECTORY = Some (middle_kind ?k)" by (simp add: behavior_kind_def)
  have enc: "encode_key key = Inr (key_msg key)" "middle_enc E ?k = x_key_ser E (key_msg key)"
    using key by (simp_all add: encode_key_valid)
  obtain p where p: "get_last_key E (st_placements st) None (Some (muid_bytes c @ middle_enc E ?k @ FF16)) = Some (place_key E p)"
    "placement_ok p" "pl_container p = c" "pl_middle p = ?k" "pl_placer p = v" "change_muid v"
    "dget (st_placements st) (place_key E p) = Some v" "dget (st_entries st) v = Some f"
    by (rule key_now [OF E st c(1) k now(1)])
  obtain T where T: "get_time_of_prior_clear E st c (-1) = Inr T" "T \<le> mu_timestamp v"
  proof -
    obtain T where T: "get_time_of_prior_clear E st c (-1) = Inr T"
      using now(1) by (auto simp: get_entry_by_key_def bindr_Inr_iff)
    moreover have "T \<le> mu_timestamp v"
      using get_entry_by_key_spec [OF E st c(1) k, of "-1"] now(1) T by (auto simp: reads_def time_ok_def muid_consts split: if_splits)
    ultimately show ?thesis using that by blast
  qed
  have held: "contained_then E st c ?k DIRECTORY t (place_key E p) = Inr (OccDeletion, Some e)"
    using then_as_lookup [OF E st(1) c(1) k t beh p(3,4) was(2,1)] by simp
  obtain del where del: "create_deleting_entry c ?k DIRECTORY = Inr del"
    using key by (auto simp: create_deleting_entry_def encode_key_valid Let_def)
  have dec: "placement_from_bytes E (place_key E p) DIRECTORY = Inr p"
    using placement_from_bytes_key [OF E(2) p(2)] beh p(4) by simp
  have "key_reset E c t DIRECTORY T (place_key E p) st = Inr (Some (wrap_change del), OccDeletion, ?k)"
    using dec held del p(4,5,7,8) now(2-4) T(2)
    by (cases x) (simp_all add: key_reset_def entry_of_placement_def dindex_def get_key_def)
  moreover have "take 16 (place_key E p) = muid_bytes c" "st_placements st \<noteq> []" using p(3,7) by (auto simp: place_key_def)
  ultimately show ?thesis
    using single_key_lists [OF key(2) enc(1) T(1) p(1) [unfolded enc(2)]] del by (simp add: wrap_change_def)
qed

lemma reset_forgets_witness:
  "get_entry_by_key own_ext again_store demo_root (MidKey (KStr ''b'')) 1500 = Inr (Some (Muid 1000 77 2, own_entry)) \<and>
   fst (list_reset_changes own_ext 1500 (Some demo_root) (Some (KStr ''b'')) False again_store) = Inr [ChEntry gone_entry]"
proof -
  have key: "valid_ukey (KStr ''b'')" "true_key (Some (KStr ''b'')) = Some (KStr ''b'')" by code_simp+
  have del: "create_deleting_entry demo_root (MidKey (KStr ''b'')) DIRECTORY = Inr gone_entry" by code_simp
  have "\<exists>del. create_deleting_entry demo_root (MidKey (KStr ''b'')) DIRECTORY = Inr del \<and>
      fst (list_reset_changes own_ext 1500 (Some demo_root) (Some (KStr ''b'')) False again_store) = Inr [ChEntry del]"
    by (rule reset_forgets [OF own_scans again_sound _ _ key _ again_reads(1) _ again_reads(3) _ again_reads(4)])
      (simp_all add: valid_muid_def muid_consts time_ok_def again_reads(2))
  then show ?thesis using del again_reads(1) by simp
qed

section \<open>A key that was never written\<close>

text \<open>Whether the store has a placement of the key.\<close>

definition key_written :: "ext \<Rightarrow> mem_store \<Rightarrow> muid \<Rightarrow> ukey \<Rightarrow> bool" where
  "key_written E st c key \<longleftrightarrow> (\<exists>p b. placement_ok p \<and> placement_bytes E p = Inr b \<and> b \<in> set (dkeys (st_placements st)) \<and>
    pl_container p = c \<and> pl_middle p = MidKey key)"

abbreviation key_bytes :: "ext \<Rightarrow> ukey \<Rightarrow> bytes" where
  "key_bytes E key \<equiv> x_key_ser E (key_msg key)"

text \<open>The scan for a key that was not written ends at the written key before it.\<close>

lemma last_before:
  assumes E: "scans_ok E" "key_codec_ok E" and st: "placed_ok E K st" and c: "valid_muid c" "K c = 1"
    and valid: "valid_ukey k" "valid_ukey k'" and k: "key_written E st c k" "\<not> key_written E st c k'"
    and before: "key_bytes E k < key_bytes E k'"
    and between: "\<And>j. key_written E st c j \<Longrightarrow> key_bytes E j \<le> key_bytes E k \<or> key_bytes E k' < key_bytes E j"
  shows "get_last_key E (st_placements st) None (Some (muid_bytes c @ key_bytes E k' @ FF16)) =
    get_last_key E (st_placements st) None (Some (muid_bytes c @ key_bytes E k @ FF16))"
proof (rule last_key_cong [OF E(1)])
  show "distinct (dkeys (st_placements st))" using st by (simp add: placed_ok_def dict_ok_def)
  have free: "\<not> prefix (key_bytes E i) (key_bytes E j)" if "i \<noteq> j" "valid_ukey i" "valid_ukey j" for i j
  proof -
    have "key_msg i \<noteq> key_msg j" using that(1) by (simp add: key_msg_inj)
    then show ?thesis using E(2) by (simp add: key_codec_ok_def)
  qed
  have neq: "k \<noteq> k'" using before by auto
  fix b assume b: "b \<in> set (dkeys (st_placements st))"
  obtain q where q: "b = place_key E q" "placement_ok q" "change_muid (pl_placer q)" "middle_kind (pl_middle q) = K (pl_container q)"
    using st dkey_dget [OF b] unfolding placed_ok_def by metis
  have v: "valid_muid (pl_container q)" "valid_muid (pl_placer q)" using q(2) by (simp_all add: placement_ok_def)
  let ?tail = "muid_bytes (pl_placer q) @ muts_bytes (pl_expiry q)"
  have below: "?tail \<le> FF16"
    using muid_codec.enc_append_le [OF v(2) valid_all_ones, of "muts_bytes (pl_expiry q)" "[]"] below_all_ones [OF q(3)] all_ones by simp
  show "in_bounds id None (Some (muid_bytes c @ key_bytes E k' @ FF16)) b \<longleftrightarrow>
      in_bounds id None (Some (muid_bytes c @ key_bytes E k @ FF16)) b"
  proof (cases "pl_container q = c")
    case False
    then have "b \<le> muid_bytes c @ z \<longleftrightarrow> muid_lt (pl_container q) c" for z
      using muid_codec.enc_append_le [OF v(1) c(1)] q(1) by (simp add: place_key_def)
    then show ?thesis by (simp add: in_bounds_def)
  next
    case True
    then obtain j where j: "pl_middle q = MidKey j" "valid_ukey j"
      using q(2,4) c(2) by (cases "pl_middle q") (auto simp: placement_ok_def)
    have bj: "b = muid_bytes c @ key_bytes E j @ ?tail" using q(1) True j by (simp add: place_key_def)
    have "key_written E st c j" using q(1,2) b True j(1) placement_bytes_ok [OF q(2)] by (auto simp: key_written_def)
    then have j': "j \<noteq> k'" "key_bytes E j \<le> key_bytes E k \<or> key_bytes E k' < key_bytes E j" using k(2) between by auto
    have at: "key_bytes E j @ ?tail \<le> key_bytes E i @ FF16 \<longleftrightarrow> key_bytes E j < key_bytes E i \<or> j = i" if "valid_ukey i" for i
    proof (cases "j = i")
      case True
      then show ?thesis using below by simp
    next
      case ne: False
      note f = free [OF ne j(2) that] free [OF ne [symmetric] that j(2)]
      have "key_bytes E j @ ?tail \<noteq> key_bytes E i @ FF16" using f by (metis append_eq_append_conv2 prefixI)
      then show ?thesis using prefix_free_less [OF f] ne by (auto simp: le_less)
    qed
    have "key_bytes E j \<noteq> key_bytes E k" if "j \<noteq> k" using free [OF that j(2) valid(1)] by auto
    then show ?thesis
      using at [OF valid(1)] at [OF valid(2)] j' before unfolding bj by (auto simp: in_bounds_def)
  qed
qed

text \<open>C30: Resetting a key of a directory that was never written resets another key: the last of the written keys
  before it, in the order of their bytes. The changes are those of that key's reset.\<close>

theorem reset_hits_other:
  assumes E: "scans_ok E" "key_codec_ok E" and st: "placed_ok E K st" and c: "valid_muid c" "K c = 1"
    and valid: "valid_ukey k" "valid_ukey k'" "true_key (Some k) = Some k" "true_key (Some k') = Some k'"
    and k: "key_written E st c k" "\<not> key_written E st c k'"
    and before: "key_bytes E k < key_bytes E k'"
    and between: "\<And>j. key_written E st c j \<Longrightarrow> key_bytes E j \<le> key_bytes E k \<or> key_bytes E k' < key_bytes E j"
  shows "list_reset_changes E t (Some c) (Some k') recursive st = list_reset_changes E t (Some c) (Some k) recursive st"
proof -
  have loop: "keyed_reset_loop E emit recurse c t (Some k') beh T n b = keyed_reset_loop E emit recurse c t (Some k) beh T n b"
    for emit :: "change_pb \<Rightarrow> (reset_list, unit) py" and recurse beh T n b
    by (cases n; cases b) simp_all
  have enc: "encode_key k = Inr (key_msg k)" "encode_key k' = Inr (key_msg k')" using valid by (simp_all add: encode_key_valid)
  have "get_keyed_reset_changes E collect recurse c t (Some k') beh r = get_keyed_reset_changes E collect recurse c t (Some k) beh r"
    if "rr_store r = st" for recurse beh r
    using last_before [OF E st c valid(1,2) k before between] that enc valid(3,4)
    by (auto simp: get_keyed_reset_changes_def enter_container_def of_store_def py_simps loop split: option.split sum.split)
  then show ?thesis
    by (simp add: list_reset_changes_def get_reset_changes_def py_simps of_store_def)
qed

lemma reset_hits_other_witness:
  "fst (list_reset_changes gone_ext 500 (Some demo_root) (Some (KStr ''c'')) False kept_store) = Inr [ChEntry gone_entry]"
proof -
  have h: "holds gone_ext (\<lambda>_. 1) (all_changes gone_ext (map snd [(demo_clock, own_start)])) kept_store"
    by (rule received_holds [OF own_scans(2) _ kept_stored]) (use kept_changes(2) in simp)
  let ?p = "Placement demo_root (MidKey (KStr ''b'')) (Muid 1000 77 1) None"
  have p: "placement_ok ?p" "place_key gone_ext ?p = kept_place" by code_simp+
  have only: "j = KStr ''b''" if j: "key_written gone_ext kept_store demo_root j" for j
  proof -
    obtain q where q: "placement_ok q" "place_key gone_ext q = kept_place" "pl_container q = demo_root" "pl_middle q = MidKey j"
      using j placement_bytes_Inr by (fastforce simp: key_written_def kept_store_def)
    have "?p = q" by (rule place_key_inj [of gone_ext, OF own_scans(2) p(1) q(1)]) (use q p in simp_all)
    then show ?thesis using q(4) by auto
  qed
  have is_b: "key_written gone_ext kept_store demo_root (KStr ''b'')"
    using p placement_bytes_ok [OF p(1)] by (auto simp: key_written_def kept_store_def intro!: exI [of _ ?p])
  have valid: "valid_ukey (KStr ''b'')" "valid_ukey (KStr ''c'')" "true_key (Some (KStr ''b'')) = Some (KStr ''b'')"
    "true_key (Some (KStr ''c'')) = Some (KStr ''c'')" by code_simp+
  have "key_bytes gone_ext (KStr ''b'') < key_bytes gone_ext (KStr ''c'')" by code_simp
  then have "list_reset_changes gone_ext 500 (Some demo_root) (Some (KStr ''c'')) False kept_store =
      list_reset_changes gone_ext 500 (Some demo_root) (Some (KStr ''b'')) False kept_store"
    by (intro reset_hits_other [OF own_scans _ _ _ valid is_b, where K = "\<lambda>_. 1"])
      (use h only in \<open>auto simp: holds_def valid_muid_def muid_consts\<close>)
  moreover have "fst (list_reset_changes gone_ext 500 (Some demo_root) (Some (KStr ''b'')) False kept_store) = Inr [ChEntry gone_entry]"
    by code_simp
  ultimately show ?thesis by simp
qed

text \<open>A key that Python takes for false counts as no key at all: here the reset of the empty string deletes \<open>b\<close>.\<close>

lemma empty_key_hits_all:
  "fst (list_reset_changes gone_ext 500 (Some demo_root) (Some (KStr [])) False kept_store) = Inr [ChEntry gone_entry]"
  by code_simp

end
