(* ===== verification/Key_Sets.thy ===== *)
theory Key_Sets
  imports Directories
begin

text \<open>
  \<open>python/gink/impl/key_set.py\<close>: a set of keys. A Python set is a list without repetitions, in one of
  its possible orders; a generator that the code consumes step by step is the list of what is left of it.
\<close>

section \<open>Single keys\<close>

definition key_set_add :: "ext \<Rightarrow> (int \<Rightarrow> int) \<Rightarrow> container \<Rightarrow> ukey \<Rightarrow> nat option \<Rightarrow> string option \<Rightarrow> ref db" where
  "key_set_add E now self key bundler comment = add_simple_entry E now self (UserKey key) InclusionVal bundler comment"

definition key_set_discard :: "ext \<Rightarrow> (int \<Rightarrow> int) \<Rightarrow> container \<Rightarrow> ukey \<Rightarrow> nat option \<Rightarrow> string option \<Rightarrow> ref db" where
  "key_set_discard E now self key bundler comment = add_simple_entry E now self (UserKey key) DeletionVal bundler comment"

definition key_set_contains :: "ext \<Rightarrow> container \<Rightarrow> ukey \<Rightarrow> generic_ts \<Rightarrow> bool db" where
  "key_set_contains E self key as_of =
    py_bind (db_resolve E as_of) (\<lambda>t.
    py_bind (live_entry E self (MidKey key) t) (\<lambda>found. py_return (found \<noteq> None)))"

definition key_set_remove :: "ext \<Rightarrow> (int \<Rightarrow> int) \<Rightarrow> container \<Rightarrow> ukey \<Rightarrow> nat option \<Rightarrow> string option \<Rightarrow> ref db" where
  "key_set_remove E now self key bundler comment =
    py_bind (entry_now E self key) (\<lambda>found.
      if found = None then py_raise KeyError
      else add_simple_entry E now self (UserKey key) DeletionVal bundler comment)"

definition key_set_pop ::
  "ext \<Rightarrow> (int \<Rightarrow> int) \<Rightarrow> container \<Rightarrow> ukey \<Rightarrow> nat option \<Rightarrow> string option \<Rightarrow> ukey option db" where
  "key_set_pop E now self key bundler comment =
    py_bind (entry_now E self key) (\<lambda>found.
    case found of
      None \<Rightarrow> py_raise KeyError
    | Some (address, builder) \<Rightarrow>
        py_then (add_simple_entry E now self (UserKey key) DeletionVal bundler comment)
          (py_return (key_of_entry builder)))"

definition key_set_update ::
  "ext \<Rightarrow> (int \<Rightarrow> int) \<Rightarrow> container \<Rightarrow> ukey list \<Rightarrow> nat option \<Rightarrow> string option \<Rightarrow> unit db" where
  "key_set_update E now self keys bundler comment =
    py_bind (pick_bundler bundler comment) (\<lambda>nb.
    py_then (py_each (\<lambda>key. py_then (key_set_add E now self key (Some (fst nb)) None) (py_return ())) keys)
      (finish E now nb))"

definition key_set_init ::
  "ext \<Rightarrow> (int \<Rightarrow> int) \<Rightarrow> muid_arg \<Rightarrow> ukey list option \<Rightarrow> nat option \<Rightarrow> string option \<Rightarrow> container db" where
  "key_set_init E now arg contents bundler comment =
    py_bind (pick_bundler bundler comment) (\<lambda>nb.
    let keys = (case contents of None \<Rightarrow> [] | Some ks \<Rightarrow> ks)
    in construct E now KEY_SET arg nb
         (refill E now (fst nb) (keys \<noteq> []) (\<lambda>self. key_set_update E now self keys (Some (fst nb)) None)))"

section \<open>The keys of the set\<close>

definition live_keys :: "ext \<Rightarrow> container \<Rightarrow> int \<Rightarrow> ukey option list db" where
  "live_keys E self t = py_bind (live_entries E self t) (\<lambda>es. py_return (map (\<lambda>(_, e). key_of_entry e) es))"

definition key_set_items :: "ext \<Rightarrow> container \<Rightarrow> generic_ts \<Rightarrow> ukey list db" where
  "key_set_items E self as_of =
    py_bind (db_resolve E as_of) (\<lambda>t. py_bind (live_keys E self t) (\<lambda>ks.
      if None \<in> set ks then py_raise AssertionError else py_return (map the ks)))"

definition key_set_size :: "ext \<Rightarrow> container \<Rightarrow> generic_ts \<Rightarrow> int db" where
  "key_set_size E self as_of = keyed_size E self as_of"

fun issuperset :: "ext \<Rightarrow> container \<Rightarrow> ukey list \<Rightarrow> generic_ts \<Rightarrow> bool db" where
  "issuperset E self [] as_of = py_return True"
| "issuperset E self (element # elements) as_of =
    py_bind (key_set_contains E self element as_of) (\<lambda>c.
      if c then issuperset E self elements as_of else py_return False)"

definition issubset :: "ext \<Rightarrow> container \<Rightarrow> ukey list \<Rightarrow> generic_ts \<Rightarrow> bool db" where
  "issubset E self superset as_of =
    py_bind (db_resolve E as_of) (\<lambda>t. py_bind (live_keys E self t) (\<lambda>ks.
      py_return (list_all (\<lambda>k. k \<in> Some ` set superset) ks)))"

fun intersection :: "ext \<Rightarrow> container \<Rightarrow> ukey list \<Rightarrow> generic_ts \<Rightarrow> ukey list db" where
  "intersection E self [] as_of = py_return []"
| "intersection E self (element # s) as_of =
    py_bind (key_set_contains E self element as_of) (\<lambda>c.
    py_bind (intersection E self s as_of) (\<lambda>rest. py_return (if c then element # rest else rest)))"

definition isdisjoint :: "ext \<Rightarrow> container \<Rightarrow> ukey list \<Rightarrow> generic_ts \<Rightarrow> bool db" where
  "isdisjoint E self s as_of = py_bind (intersection E self s as_of) (\<lambda>both. py_return (both = []))"

definition difference :: "ext \<Rightarrow> container \<Rightarrow> ukey list \<Rightarrow> generic_ts \<Rightarrow> ukey option list db" where
  "difference E self s as_of =
    py_bind (db_resolve E as_of) (\<lambda>t. py_bind (live_keys E self t) (\<lambda>ks.
      py_return (List.filter (\<lambda>k. k \<notin> Some ` set s) ks)))"

definition union_of :: "ext \<Rightarrow> container \<Rightarrow> ukey list \<Rightarrow> generic_ts \<Rightarrow> ukey list db" where
  "union_of E self s as_of = py_bind (key_set_items E self as_of) (\<lambda>ks. py_return (remdups (ks @ s)))"

text \<open>\<open>elements.remove\<close> raises when the element is gone, as for the second of two equal keys.\<close>

fun take_common :: "ext \<Rightarrow> container \<Rightarrow> ukey list \<Rightarrow> generic_ts \<Rightarrow> ukey list \<Rightarrow> ukey list db" where
  "take_common E self [] as_of elements = py_return elements"
| "take_common E self (element # s) as_of elements =
    py_bind (key_set_contains E self element as_of) (\<lambda>c.
      if \<not> c then take_common E self s as_of elements
      else if element \<notin> set elements then py_raise KeyError
      else take_common E self s as_of (removeAll element elements))"

definition symmetric_difference :: "ext \<Rightarrow> container \<Rightarrow> ukey list \<Rightarrow> generic_ts \<Rightarrow> ukey list db" where
  "symmetric_difference E self s as_of =
    py_bind (union_of E self s as_of) (take_common E self s as_of)"

section \<open>Updates by a set\<close>

definition difference_update ::
  "ext \<Rightarrow> (int \<Rightarrow> int) \<Rightarrow> container \<Rightarrow> ukey list \<Rightarrow> nat option \<Rightarrow> string option \<Rightarrow> unit db" where
  "difference_update E now self s bundler comment =
    py_bind (pick_bundler bundler None) (\<lambda>nb.
    py_then (py_each (\<lambda>element.
        py_bind (key_set_contains E self element TsNone) (\<lambda>c.
          py_when c (py_then (key_set_remove E now self element (Some (fst nb)) comment) (py_return ())))) s)
      (finish E now nb))"

text \<open>
  \<open>key in intersection\<close> runs the generator until it yields the key: what it has passed is gone for the
  keys that are looked up later.
\<close>

fun in_generator :: "ext \<Rightarrow> container \<Rightarrow> ukey \<Rightarrow> ukey list \<Rightarrow> (bool \<times> ukey list) db" where
  "in_generator E self key [] = py_return (False, [])"
| "in_generator E self key (element # s) =
    py_bind (key_set_contains E self element TsNone) (\<lambda>c.
      if c \<and> element = key then py_return (True, s) else in_generator E self key s)"

text \<open>\<open>if key and ...\<close>: the number 0 and the empty key count as false.\<close>

definition truthy_key :: "ukey \<Rightarrow> bool" where
  "truthy_key k \<longleftrightarrow> k \<noteq> KInt 0 \<and> k \<noteq> KStr [] \<and> k \<noteq> KBytes []"

fun keep_common ::
  "ext \<Rightarrow> (int \<Rightarrow> int) \<Rightarrow> container \<Rightarrow> nat \<Rightarrow> string option \<Rightarrow> ukey option list \<Rightarrow> ukey list \<Rightarrow> unit db" where
  "keep_common E now self n comment [] s = py_return ()"
| "keep_common E now self n comment (None # ks) s = keep_common E now self n comment ks s"
| "keep_common E now self n comment (Some key # ks) s =
    (if \<not> truthy_key key then keep_common E now self n comment ks s
     else py_bind (in_generator E self key s) (\<lambda>(found, s').
       py_then (py_when (\<not> found)
           (py_then (add_simple_entry E now self (UserKey key) DeletionVal (Some n) comment) (py_return ())))
         (keep_common E now self n comment ks s')))"

definition intersection_update ::
  "ext \<Rightarrow> (int \<Rightarrow> int) \<Rightarrow> container \<Rightarrow> ukey list \<Rightarrow> nat option \<Rightarrow> string option \<Rightarrow> unit db" where
  "intersection_update E now self s bundler comment =
    py_bind (pick_bundler bundler comment) (\<lambda>nb.
    py_bind tick (\<lambda>t.
    py_bind (live_keys E self t) (\<lambda>ks.
    py_then (keep_common E now self (fst nb) comment ks s) (finish E now nb))))"

text \<open>
  With a bundler given. (Without one every removal is committed at once, while the store is still being
  read; that case is left out.)
\<close>

definition symmetric_difference_update ::
  "ext \<Rightarrow> (int \<Rightarrow> int) \<Rightarrow> container \<Rightarrow> ukey list \<Rightarrow> nat \<Rightarrow> string option \<Rightarrow> unit db" where
  "symmetric_difference_update E now self s n comment =
    py_bind (symmetric_difference E self s TsNone) (\<lambda>sym_diff.
    py_bind tick (\<lambda>t.
    py_bind (live_keys E self t) (\<lambda>ks.
    py_then (py_each (\<lambda>k. case k of
          None \<Rightarrow> py_return ()
        | Some key \<Rightarrow> py_when (truthy_key key \<and> key \<notin> set sym_diff)
            (py_then (key_set_remove E now self key (Some n) comment) (py_return ()))) ks)
      (key_set_update E now self sym_diff (Some n) comment))))"

end
