(* ===== verification/Described_Containers.thy ===== *)
theory Described_Containers
  imports Containers
begin

text \<open>
  The containers whose entries are about other objects: \<open>python/gink/impl/pair_map.py\<close>, \<open>pair_set.py\<close>,
  \<open>group.py\<close> and \<open>property.py\<close>. They take the bundler that they are given and never the active one.
\<close>

type_synonym pair = "ref \<times> ref"

section \<open>Pair maps\<close>

definition pair_map_set ::
  "ext \<Rightarrow> (int \<Rightarrow> int) \<Rightarrow> container \<Rightarrow> pair \<Rightarrow> entry_value \<Rightarrow> nat option \<Rightarrow> string option \<Rightarrow> ref db" where
  "pair_map_set E now self key val bundler comment =
    add_simple_entry E now self (PairKey (fst key) (snd key)) val bundler comment"

definition pair_map_delete ::
  "ext \<Rightarrow> (int \<Rightarrow> int) \<Rightarrow> container \<Rightarrow> pair \<Rightarrow> nat option \<Rightarrow> string option \<Rightarrow> ref db" where
  "pair_map_delete E now self key bundler comment =
    add_simple_entry E now self (PairKey (fst key) (snd key)) DeletionVal bundler comment"

text \<open>The contents replace what was there, also in a container that was just created.\<close>

definition pair_map_init ::
  "ext \<Rightarrow> (int \<Rightarrow> int) \<Rightarrow> muid_arg \<Rightarrow> (pair \<times> entry_value) list option \<Rightarrow> nat option \<Rightarrow> string option
    \<Rightarrow> container db" where
  "pair_map_init E now arg contents bundler comment =
    py_bind (own_bundler bundler comment) (\<lambda>nb.
    let kvs = (case contents of None \<Rightarrow> [] | Some kvs \<Rightarrow> kvs)
    in construct E now PAIR_MAP arg nb (\<lambda>self created.
         refill E now (fst nb) (kvs \<noteq> [])
           (\<lambda>self. py_each (\<lambda>(k, v). py_then (pair_map_set E now self k v (Some (fst nb)) None) (py_return ())) kvs)
           self False))"

definition live_pair :: "ext \<Rightarrow> container \<Rightarrow> pair \<Rightarrow> generic_ts \<Rightarrow> (muid \<times> entry_pb) option db" where
  "live_pair E self key as_of =
    py_bind (db_resolve E as_of) (\<lambda>t.
    py_bind (resolve_ref E (fst key)) (\<lambda>l.
    py_bind (resolve_ref E (snd key)) (\<lambda>r. live_entry E self (MidPair l r) t)))"

definition pair_map_get :: "ext \<Rightarrow> container \<Rightarrow> pair \<Rightarrow> generic_ts \<Rightarrow> item option db" where
  "pair_map_get E self key as_of =
    py_bind (live_pair E self key as_of) (\<lambda>found.
    case found of
      None \<Rightarrow> py_return None
    | Some (address, builder) \<Rightarrow> py_bind (get_occupant E builder (Some address)) (\<lambda>x. py_return (Some x)))"

definition pair_map_has :: "ext \<Rightarrow> container \<Rightarrow> pair \<Rightarrow> generic_ts \<Rightarrow> bool db" where
  "pair_map_has E self key as_of = py_bind (live_pair E self key as_of) (\<lambda>found. py_return (found \<noteq> None))"

definition vertex :: "muid \<Rightarrow> container" where
  "vertex u = \<lparr>ct_muid = RefMuid u, ct_behavior = VERTEX\<rparr>"

definition plain_muid :: "muid_pb \<Rightarrow> muid result" where
  "plain_muid pb = mk_muid (pb_timestamp pb) (pb_medallion pb) (pb_offset pb)"

fun pair_map_loop :: "ext \<Rightarrow> (muid \<times> entry_pb) list \<Rightarrow> ((container \<times> container) \<times> item) list db" where
  "pair_map_loop E [] = py_return []"
| "pair_map_loop E ((address, builder) # entries) =
    py_bind (py_lift (plain_muid (pair_left builder))) (\<lambda>l.
    py_bind (py_lift (plain_muid (pair_rite builder))) (\<lambda>r.
    py_bind (get_occupant E builder (Some address)) (\<lambda>x.
    py_bind (pair_map_loop E entries) (\<lambda>rest. py_return (((vertex l, vertex r), x) # rest)))))"

definition pair_map_items :: "ext \<Rightarrow> container \<Rightarrow> generic_ts \<Rightarrow> ((container \<times> container) \<times> item) list db" where
  "pair_map_items E self as_of =
    py_bind (db_resolve E as_of) (\<lambda>t. py_bind (live_entries E self t) (pair_map_loop E))"

text \<open>\<open>Muid.create(builder=...)\<close> without a context: only an absolute address will do.\<close>

fun by_one_loop ::
  "ext \<Rightarrow> ref \<Rightarrow> bool \<Rightarrow> bool \<Rightarrow> (muid \<times> entry_pb) list \<Rightarrow> ((container \<times> container) \<times> item) list db" where
  "by_one_loop E v left rite [] = py_return []"
| "by_one_loop E v left rite ((address, builder) # entries) =
    (let differs = (\<lambda>asked pb. if asked
           then py_bind (py_lift (muid_create CtxNone pb None)) (\<lambda>u. py_bind (resolve_ref E v) (\<lambda>w. py_return (u \<noteq> w)))
           else py_return False)
     in py_bind (differs left (pair_left builder)) (\<lambda>skip.
        if skip then by_one_loop E v left rite entries
        else py_bind (differs rite (pair_rite builder)) (\<lambda>skip.
        if skip \<or> deletion_of builder then by_one_loop E v left rite entries
        else py_bind (py_lift (muid_create CtxNone (pair_left builder) None)) (\<lambda>l.
             py_bind (py_lift (muid_create CtxNone (pair_rite builder) None)) (\<lambda>r.
             py_bind (get_occupant E builder (Some address)) (\<lambda>x.
             py_bind (by_one_loop E v left rite entries) (\<lambda>rest. py_return (((vertex l, vertex r), x) # rest))))))))"

definition by_one ::
  "ext \<Rightarrow> container \<Rightarrow> container \<Rightarrow> bool \<Rightarrow> bool \<Rightarrow> generic_ts \<Rightarrow> ((container \<times> container) \<times> item) list db" where
  "by_one E self v left rite as_of =
    py_bind (db_resolve E as_of) (\<lambda>t.
    py_bind (keyed_at E self PAIR_MAP t) (by_one_loop E (ct_muid v) left rite))"

definition pair_map_size :: "ext \<Rightarrow> container \<Rightarrow> generic_ts \<Rightarrow> int db" where
  "pair_map_size E self as_of = keyed_size E self as_of"

section \<open>Pair sets\<close>

definition pair_include :: "ext \<Rightarrow> (int \<Rightarrow> int) \<Rightarrow> container \<Rightarrow> pair \<Rightarrow> nat option \<Rightarrow> string option \<Rightarrow> ref db" where
  "pair_include E now self p bundler comment =
    add_simple_entry E now self (PairKey (fst p) (snd p)) InclusionVal bundler comment"

definition pair_exclude :: "ext \<Rightarrow> (int \<Rightarrow> int) \<Rightarrow> container \<Rightarrow> pair \<Rightarrow> nat option \<Rightarrow> string option \<Rightarrow> ref db" where
  "pair_exclude E now self p bundler comment =
    add_simple_entry E now self (PairKey (fst p) (snd p)) DeletionVal bundler comment"

text \<open>The contents of a set or group: a dictionary with the keys \<open>include\<close> and \<open>exclude\<close> at most.\<close>

definition include_exclude ::
  "ext \<Rightarrow> (int \<Rightarrow> int) \<Rightarrow> nat \<Rightarrow> (string \<times> 'x list) list option \<Rightarrow> (container \<Rightarrow> 'x \<Rightarrow> unit db)
    \<Rightarrow> (container \<Rightarrow> 'x \<Rightarrow> unit db) \<Rightarrow> container \<Rightarrow> bool \<Rightarrow> unit db" where
  "include_exclude E now n contents include exclude self created =
    (let d = (case contents of None \<Rightarrow> [] | Some d \<Rightarrow> d);
         part = (\<lambda>k. case map_of d k of None \<Rightarrow> [] | Some xs \<Rightarrow> xs)
     in py_when (d \<noteq> [])
          (py_then (py_lift (require (set (map fst d) \<subseteq> {''include'', ''exclude''}) AssertionError))
            (refill E now n True
              (\<lambda>self. py_then (py_each (include self) (part ''include'')) (py_each (exclude self) (part ''exclude'')))
              self created)))"

definition pair_set_init ::
  "ext \<Rightarrow> (int \<Rightarrow> int) \<Rightarrow> muid_arg \<Rightarrow> (string \<times> pair list) list option \<Rightarrow> nat option \<Rightarrow> string option
    \<Rightarrow> container db" where
  "pair_set_init E now arg contents bundler comment =
    py_bind (own_bundler bundler comment) (\<lambda>nb.
      construct E now PAIR_SET arg nb (include_exclude E now (fst nb) contents
        (\<lambda>self p. py_then (pair_include E now self p (Some (fst nb)) None) (py_return ()))
        (\<lambda>self p. py_then (pair_exclude E now self p (Some (fst nb)) None) (py_return ()))))"

definition pair_set_contains :: "ext \<Rightarrow> container \<Rightarrow> pair \<Rightarrow> generic_ts \<Rightarrow> bool db" where
  "pair_set_contains E self p as_of = py_bind (live_pair E self p as_of) (\<lambda>found. py_return (found \<noteq> None))"

definition get_pairs :: "ext \<Rightarrow> container \<Rightarrow> generic_ts \<Rightarrow> (muid \<times> muid) list db" where
  "get_pairs E self as_of =
    py_bind (db_resolve E as_of) (\<lambda>t.
    py_bind (live_entries E self t) (\<lambda>es.
      py_lift (bindr (mapr (\<lambda>(address, e).
          bindr (muid_create (CtxMuid address) (pair_left e) None) (\<lambda>l.
          bindr (muid_create (CtxMuid address) (pair_rite e) None) (\<lambda>r. Inr (l, r)))) es) (\<lambda>ps. Inr (remdups ps)))))"

definition pair_set_size :: "ext \<Rightarrow> container \<Rightarrow> generic_ts \<Rightarrow> int db" where
  "pair_set_size E self as_of = keyed_size E self as_of"

section \<open>Groups\<close>

text \<open>\<open>hasattr(what, "timestamp")\<close> raises for an address that its bundler has not given yet.\<close>

definition group_include :: "ext \<Rightarrow> (int \<Rightarrow> int) \<Rightarrow> container \<Rightarrow> ref \<Rightarrow> nat option \<Rightarrow> string option \<Rightarrow> ref db" where
  "group_include E now self what bundler comment =
    py_then (resolve_ref E what) (add_simple_entry E now self (RefKey what) InclusionVal bundler comment)"

definition group_exclude :: "ext \<Rightarrow> (int \<Rightarrow> int) \<Rightarrow> container \<Rightarrow> ref \<Rightarrow> nat option \<Rightarrow> string option \<Rightarrow> ref db" where
  "group_exclude E now self what bundler comment =
    py_then (resolve_ref E what) (add_simple_entry E now self (RefKey what) DeletionVal bundler comment)"

definition group_init ::
  "ext \<Rightarrow> (int \<Rightarrow> int) \<Rightarrow> muid_arg \<Rightarrow> (string \<times> ref list) list option \<Rightarrow> nat option \<Rightarrow> string option
    \<Rightarrow> container db" where
  "group_init E now arg contents bundler comment =
    py_bind (own_bundler bundler comment) (\<lambda>nb.
      construct E now GROUP arg nb (include_exclude E now (fst nb) contents
        (\<lambda>self r. py_then (group_include E now self r (Some (fst nb)) None) (py_return ()))
        (\<lambda>self r. py_then (group_exclude E now self r (Some (fst nb)) None) (py_return ()))))"

definition get_member_ids :: "ext \<Rightarrow> container \<Rightarrow> bool \<Rightarrow> generic_ts \<Rightarrow> muid list db" where
  "get_member_ids E self excluded as_of =
    py_bind (db_resolve E as_of) (\<lambda>t.
    py_bind (keyed_at E self GROUP t) (\<lambda>es.
      py_lift (mapr (\<lambda>(address, e). muid_create (CtxMuid address) (describing_of e) None)
        (List.filter (\<lambda>(_, e). excluded = deletion_of e) es))))"

definition get_members :: "ext \<Rightarrow> container \<Rightarrow> bool \<Rightarrow> generic_ts \<Rightarrow> container list db" where
  "get_members E self excluded as_of =
    py_bind (get_member_ids E self excluded as_of) (\<lambda>us.
      py_read (\<lambda>d. bindr (mapr (\<lambda>u. fst (get_container_object E u None d)) us) (\<lambda>cs. Inr (remdups cs))))"

text \<open>What is asked for is a container or an address; a container must have been bundled, as must the group.\<close>

definition group_contains :: "ext \<Rightarrow> container \<Rightarrow> ref \<Rightarrow> bool \<Rightarrow> generic_ts \<Rightarrow> bool db" where
  "group_contains E self what is_container as_of =
    py_bind (db_resolve E as_of) (\<lambda>t.
    py_then (if is_container
             then py_bind (resolve_ref E what) (\<lambda>w. py_lift (require (mu_timestamp w \<noteq> 0) AssertionError))
             else py_return ())
   (py_bind (resolve_ref E (ct_muid self)) (\<lambda>u.
    py_then (py_lift (require (mu_timestamp u \<noteq> 0) AssertionError))
   (py_bind (resolve_ref E what) (\<lambda>w.
    py_bind (live_entry E self (MidMuid w) t) (\<lambda>found. py_return (found \<noteq> None)))))))"

definition group_size :: "ext \<Rightarrow> container \<Rightarrow> generic_ts \<Rightarrow> int db" where
  "group_size E self as_of = keyed_size E self as_of"

section \<open>Properties\<close>

definition property_set ::
  "ext \<Rightarrow> (int \<Rightarrow> int) \<Rightarrow> container \<Rightarrow> ref \<Rightarrow> entry_value \<Rightarrow> nat option \<Rightarrow> string option \<Rightarrow> ref db" where
  "property_set E now self describing val bundler comment =
    add_simple_entry E now self (RefKey describing) val bundler comment"

definition property_delete ::
  "ext \<Rightarrow> (int \<Rightarrow> int) \<Rightarrow> container \<Rightarrow> ref \<Rightarrow> nat option \<Rightarrow> string option \<Rightarrow> ref db" where
  "property_delete E now self describing bundler comment =
    add_simple_entry E now self (RefKey describing) DeletionVal bundler comment"

definition property_update ::
  "ext \<Rightarrow> (int \<Rightarrow> int) \<Rightarrow> container \<Rightarrow> (ref \<times> entry_value) list \<Rightarrow> nat option \<Rightarrow> string option \<Rightarrow> unit db" where
  "property_update E now self from_what bundler comment =
    py_bind (own_bundler bundler comment) (\<lambda>nb.
    py_then (py_each (\<lambda>(k, v). py_then (property_set E now self k v (Some (fst nb)) None) (py_return ())) from_what)
      (finish E now nb))"

definition property_init ::
  "ext \<Rightarrow> (int \<Rightarrow> int) \<Rightarrow> muid_arg \<Rightarrow> (ref \<times> entry_value) list option \<Rightarrow> nat option \<Rightarrow> string option
    \<Rightarrow> container db" where
  "property_init E now arg contents bundler comment =
    py_bind (own_bundler bundler comment) (\<lambda>nb.
    let kvs = (case contents of None \<Rightarrow> [] | Some kvs \<Rightarrow> kvs)
    in construct E now PROPERTY arg nb
         (refill E now (fst nb) (kvs \<noteq> []) (\<lambda>self. property_update E now self kvs (Some (fst nb)) None)))"

text \<open>\<open>get\<close> takes only objects that have a \<open>_muid\<close>, so an address itself is refused.\<close>

definition property_get :: "ext \<Rightarrow> container \<Rightarrow> ref \<Rightarrow> bool \<Rightarrow> generic_ts \<Rightarrow> item option db" where
  "property_get E self describing is_addressable as_of =
    (if \<not> is_addressable then py_raise ValueError
     else py_bind (db_resolve E as_of) (\<lambda>t.
       py_bind (resolve_ref E describing) (\<lambda>w.
       py_bind (live_entry E self (MidMuid w) t) (\<lambda>found.
       case found of
         None \<Rightarrow> py_return None
       | Some (address, builder) \<Rightarrow> py_bind (get_occupant E builder (Some address)) (\<lambda>x. py_return (Some x))))))"

definition property_getitem :: "ext \<Rightarrow> container \<Rightarrow> ref \<Rightarrow> bool \<Rightarrow> item db" where
  "property_getitem E self key is_addressable =
    py_bind (property_get E self key is_addressable TsNone) (\<lambda>found.
      case found of None \<Rightarrow> py_raise KeyError | Some x \<Rightarrow> py_return x)"

fun property_loop :: "ext \<Rightarrow> (muid \<times> entry_pb) list \<Rightarrow> (muid \<times> item) list db" where
  "property_loop E [] = py_return []"
| "property_loop E ((address, builder) # entries) =
    py_bind (py_lift (muid_create (CtxMuid address) (describing_of builder) None)) (\<lambda>u.
    py_bind (get_occupant E builder (Some address)) (\<lambda>x.
    py_bind (property_loop E entries) (\<lambda>rest. py_return ((u, x) # rest))))"

definition property_items :: "ext \<Rightarrow> container \<Rightarrow> generic_ts \<Rightarrow> (muid \<times> item) list db" where
  "property_items E self as_of =
    py_bind (db_resolve E as_of) (\<lambda>t. py_bind (live_entries E self t) (property_loop E))"

definition property_size :: "ext \<Rightarrow> container \<Rightarrow> generic_ts \<Rightarrow> int db" where
  "property_size E self as_of = keyed_size E self as_of"

end
