(* ===== verification/Graphs.thy ===== *)
theory Graphs
  imports Described_Containers
begin

text \<open>
  \<open>python/gink/impl/graph.py\<close>: vertices, edge types, and the edges between vertices. An edge knows its
  type, its ends and its value (nothing for an inclusion). Vertices that are asked about have addresses.
\<close>

section \<open>Vertices\<close>

definition vertex_init :: "ext \<Rightarrow> (int \<Rightarrow> int) \<Rightarrow> muid_arg \<Rightarrow> nat option \<Rightarrow> string option \<Rightarrow> container db" where
  "vertex_init E now arg bundler comment =
    (case arg of
      ArgNone \<Rightarrow>
        py_bind (own_bundler bundler comment) (\<lambda>nb.
        py_bind (create_container VERTEX (fst nb)) (\<lambda>r.
        py_then (finish_if_any E now nb) (py_return \<lparr>ct_muid = r, ct_behavior = VERTEX\<rparr>)))
    | ArgText s \<Rightarrow> py_bind (py_lift (muid_from_str s)) (\<lambda>u. py_return (vertex u))
    | ArgMuid r \<Rightarrow> py_return \<lparr>ct_muid = r, ct_behavior = VERTEX\<rparr>)"

definition is_alive :: "ext \<Rightarrow> container \<Rightarrow> generic_ts \<Rightarrow> bool db" where
  "is_alive E self as_of =
    py_bind (db_resolve E as_of) (\<lambda>t.
    py_bind (resolve_ref E (ct_muid self)) (\<lambda>u.
    py_bind (py_read (\<lambda>d. Inr (get_container (rl_store d) u))) (\<lambda>known.
      if known = None then py_return False
      else py_bind (entry_at E u MidNone t) (\<lambda>found.
        py_return (case found of None \<Rightarrow> True | Some (a, e) \<Rightarrow> \<not> deletion_of e)))))"

definition vertex_remove ::
  "ext \<Rightarrow> (int \<Rightarrow> int) \<Rightarrow> container \<Rightarrow> bool \<Rightarrow> nat option \<Rightarrow> string option \<Rightarrow> ref db" where
  "vertex_remove E now self purge bundler comment =
    py_bind (own_bundler bundler comment) (\<lambda>nb.
    py_bind (pb_of_ref E (ct_muid self)) (\<lambda>pb.
    py_bind (add_change (fst nb) (SbChange (ChEntry (empty_entry\<lparr>en_behavior := VERTEX, en_container := Some pb,
        en_contains := ConDeletion True, en_purge := purge\<rparr>)))) (\<lambda>change_muid.
    py_then (finish E now nb) (py_return change_muid))))"

section \<open>Edges\<close>

record edge =
  eg_muid :: ref
  eg_action :: ref
  eg_source :: ref
  eg_target :: ref
  eg_valued :: "uvalue option"
  eg_effective :: "int option"

text \<open>The edge that an entry of the store describes.\<close>

definition existing_edge :: "ext \<Rightarrow> muid \<Rightarrow> entry_pb option \<Rightarrow> edge db" where
  "existing_edge E u given =
    py_bind (py_read (\<lambda>d. case given of
        Some e \<Rightarrow> Inr e
      | None \<Rightarrow> (case get_entry (rl_store d) u of None \<Rightarrow> Inl ValueError | Some e \<Rightarrow> Inr e))) (\<lambda>builder.
    py_lift (bindr (muid_create (CtxMuid u) (container_of builder) None) (\<lambda>action.
      bindr (muid_create (CtxMuid u) (pair_left builder) None) (\<lambda>source.
      bindr (muid_create (CtxMuid u) (pair_rite builder) None) (\<lambda>target.
      bindr (case en_contains builder of
               ConValue v \<Rightarrow> bindr (decode_value E v) (\<lambda>x. Inr (Some x))
             | _ \<Rightarrow> Inr None) (\<lambda>val.
        Inr \<lparr>eg_muid = RefMuid u, eg_action = RefMuid action, eg_source = RefMuid source, eg_target = RefMuid target,
             eg_valued = val, eg_effective = (if en_effective builder = 0 then None else Some (en_effective builder))\<rparr>))))))"

definition edge_contains :: "ext \<Rightarrow> uvalue option \<Rightarrow> contains_pb result" where
  "edge_contains E valued =
    (case valued of None \<Rightarrow> Inr ConNone | Some v \<Rightarrow> bindr (encode_value E v) (\<lambda>pb. Inr (ConValue pb)))"

definition new_edge ::
  "ext \<Rightarrow> (int \<Rightarrow> int) \<Rightarrow> ref \<Rightarrow> ref \<Rightarrow> ref \<Rightarrow> uvalue option \<Rightarrow> int option \<Rightarrow> nat option \<Rightarrow> bool \<Rightarrow> edge db" where
  "new_edge E now action source target valued effective bundler immediate =
    py_bind (own_bundler bundler None) (\<lambda>nb.
    py_bind (pb_of_ref E source) (\<lambda>left.
    py_bind (pb_of_ref E target) (\<lambda>rite.
    py_bind (pb_of_ref E action) (\<lambda>container.
    py_bind (py_lift (edge_contains E valued)) (\<lambda>contains.
    let eff = (if effective = Some 0 then None else effective) in
    py_bind (add_change (fst nb) (SbChange (ChEntry \<lparr>en_container = Some container, en_behavior = EDGE_TYPE,
        en_subject = SubPair left rite, en_contains = contains, en_expiry = 0,
        en_effective = (case eff of None \<Rightarrow> 0 | Some t \<Rightarrow> t), en_purge = False\<rparr>))) (\<lambda>r.
    py_then (finish E now (fst nb, snd nb \<or> immediate))
      (py_return \<lparr>eg_muid = r, eg_action = action, eg_source = source, eg_target = target, eg_valued = valued,
                  eg_effective = eff\<rparr>)))))))"

definition edge_init ::
  "ext \<Rightarrow> (int \<Rightarrow> int) \<Rightarrow> muid option \<Rightarrow> ref option \<Rightarrow> ref option \<Rightarrow> ref option \<Rightarrow> uvalue option \<Rightarrow> int option
    \<Rightarrow> nat option \<Rightarrow> entry_pb option \<Rightarrow> bool \<Rightarrow> edge db" where
  "edge_init E now muid action source target valued effective bundler builder immediate =
    (case (action, source, target) of
      (Some a, Some s, Some t) \<Rightarrow>
        if muid \<noteq> None then py_raise ValueError
        else new_edge E now a s t valued effective bundler immediate
    | _ \<Rightarrow> (case muid of None \<Rightarrow> py_raise ValueError | Some u \<Rightarrow> existing_edge E u builder))"

definition get_effective :: "ext \<Rightarrow> edge \<Rightarrow> int db" where
  "get_effective E self =
    (case eg_effective self of
      Some t \<Rightarrow> py_return t
    | None \<Rightarrow> py_bind (resolve_ref E (eg_muid self)) (\<lambda>u. py_return (mu_timestamp u)))"

definition edge_move ::
  "ext \<Rightarrow> (int \<Rightarrow> int) \<Rightarrow> edge \<Rightarrow> int option \<Rightarrow> bool \<Rightarrow> nat option \<Rightarrow> string option \<Rightarrow> ref db" where
  "edge_move E now self dest purge bundler comment =
    py_bind (own_bundler bundler comment) (\<lambda>nb.
    py_bind (pb_of_ref E (eg_action self)) (\<lambda>container.
    py_bind (pb_of_ref E (eg_muid self)) (\<lambda>entry.
    py_bind (add_change (fst nb) (SbChange (ChMovement \<lparr>mv_container = container, mv_entry = entry,
        mv_dest = (case dest of None \<Rightarrow> 0 | Some t \<Rightarrow> t), mv_purge = purge\<rparr>))) (\<lambda>change_muid.
    py_then (finish E now nb) (py_return change_muid)))))"

definition edge_remove :: "ext \<Rightarrow> (int \<Rightarrow> int) \<Rightarrow> edge \<Rightarrow> bool \<Rightarrow> nat option \<Rightarrow> string option \<Rightarrow> ref db" where
  "edge_remove E now self purge bundler comment = edge_move E now self None purge bundler comment"

section \<open>Edge types\<close>

text \<open>The contents of an edge type are restored by the constructors of its edges.\<close>

definition edge_type_init :: "ext \<Rightarrow> (int \<Rightarrow> int) \<Rightarrow> muid_arg \<Rightarrow> nat option \<Rightarrow> string option \<Rightarrow> container db" where
  "edge_type_init E now arg bundler comment =
    py_bind (own_bundler bundler comment) (\<lambda>nb. construct E now EDGE_TYPE arg nb (\<lambda>self created. py_return ()))"

definition create_edge ::
  "ext \<Rightarrow> (int \<Rightarrow> int) \<Rightarrow> container \<Rightarrow> container \<Rightarrow> container \<Rightarrow> uvalue option \<Rightarrow> int option \<Rightarrow> string option
    \<Rightarrow> nat option \<Rightarrow> edge db" where
  "create_edge E now self sub obj msg eff comment bundler =
    py_bind (own_bundler bundler comment) (\<lambda>nb.
      edge_init E now None (Some (ct_muid self)) (Some (ct_muid sub)) (Some (ct_muid obj)) msg eff (Some (fst nb))
        None (snd nb))"

fun edges_loop :: "ext \<Rightarrow> (muid \<times> entry_pb) list \<Rightarrow> edge list db" where
  "edges_loop E [] = py_return []"
| "edges_loop E ((u, e) # entries) =
    py_bind (existing_edge E u (Some e)) (\<lambda>x. py_bind (edges_loop E entries) (\<lambda>rest. py_return (x # rest)))"

definition edge_entries :: "ext \<Rightarrow> int \<Rightarrow> muid option \<Rightarrow> muid option \<Rightarrow> muid option \<Rightarrow> (muid \<times> entry_pb) list db" where
  "edge_entries E t edge_type source target =
    py_read (\<lambda>d. get_edge_entries E (rl_store d) t edge_type source target)"

definition get_edges :: "ext \<Rightarrow> container \<Rightarrow> muid option \<Rightarrow> muid option \<Rightarrow> generic_ts \<Rightarrow> edge list db" where
  "get_edges E self source target as_of =
    py_bind (db_resolve E as_of) (\<lambda>t.
    py_bind (resolve_ref E (ct_muid self)) (\<lambda>u.
    py_bind (edge_entries E t (Some u) source target) (edges_loop E)))"

definition edge_type_size :: "ext \<Rightarrow> container \<Rightarrow> generic_ts \<Rightarrow> int db" where
  "edge_type_size E self as_of = py_bind (get_edges E self None None as_of) (\<lambda>es. py_return (int (length es)))"

text \<open>The edges of a vertex, of whatever type; the memory store refuses to look for them.\<close>

definition get_edges_from :: "ext \<Rightarrow> muid \<Rightarrow> generic_ts \<Rightarrow> edge list db" where
  "get_edges_from E u as_of =
    py_bind (db_resolve E as_of) (\<lambda>t. py_bind (edge_entries E t None (Some u) None) (edges_loop E))"

definition get_edges_to :: "ext \<Rightarrow> muid \<Rightarrow> generic_ts \<Rightarrow> edge list db" where
  "get_edges_to E u as_of =
    py_bind (db_resolve E as_of) (\<lambda>t. py_bind (edge_entries E t None None (Some u)) (edges_loop E))"

definition edge_action :: "edge \<Rightarrow> container" where
  "edge_action self = \<lparr>ct_muid = eg_action self, ct_behavior = EDGE_TYPE\<rparr>"

definition edge_source :: "edge \<Rightarrow> container" where
  "edge_source self = \<lparr>ct_muid = eg_source self, ct_behavior = VERTEX\<rparr>"

definition edge_target :: "edge \<Rightarrow> container" where
  "edge_target self = \<lparr>ct_muid = eg_target self, ct_behavior = VERTEX\<rparr>"

end
