(* ===== verification/Mem_Replay.thy ===== *)
theory Mem_Replay
  imports Mem_Runs
begin

text \<open>
  A memory store does not depend on when it was given its bundles: a run that was accepted is accepted again
  at other readings of the clock, and leaves the same store, up to the records of what an entry replaced.
\<close>

section \<open>Stores that differ in the removals, claims and signing keys only\<close>

definition bare :: "mem_store \<Rightarrow> mem_store" where
  "bare s = s\<lparr>st_removals := [], st_claims := [], st_signing_keys := []\<rparr>"

definition alike :: "mem_store \<Rightarrow> mem_store \<Rightarrow> bool" where
  "alike s t \<longleftrightarrow> bare s = bare t"

lemma alike_refl [simp]: "alike s s"
  by (simp add: alike_def)

lemma alike_trans: "alike r s \<Longrightarrow> alike s t \<Longrightarrow> alike r t"
  by (simp add: alike_def)

lemma alike_sym: "alike s t \<Longrightarrow> alike t s"
  by (simp add: alike_def)

lemma alike_fields:
  assumes "alike s t"
  shows "st_bundles s = st_bundles t" "st_chain_infos s = st_chain_infos t" "st_entries s = st_entries t"
    "st_identities s = st_identities t" "st_placements s = st_placements t" "st_containers s = st_containers t"
    "st_locations s = st_locations t" "st_clearances s = st_clearances t" "st_by_name s = st_by_name t"
    "st_by_describing s = st_by_describing t" "st_verify_keys s = st_verify_keys t"
    "st_symmetric_keys s = st_symmetric_keys t" "st_totals s = st_totals t" "st_retaining s = st_retaining t"
  using assms [unfolded alike_def bare_def]
  by (cases s; cases t; simp)+

lemma alike_iff:
  "alike s t \<longleftrightarrow> st_bundles s = st_bundles t \<and> st_chain_infos s = st_chain_infos t \<and> st_entries s = st_entries t \<and>
    st_identities s = st_identities t \<and> st_placements s = st_placements t \<and> st_containers s = st_containers t \<and>
    st_locations s = st_locations t \<and> st_clearances s = st_clearances t \<and> st_by_name s = st_by_name t \<and>
    st_by_describing s = st_by_describing t \<and> st_verify_keys s = st_verify_keys t \<and>
    st_symmetric_keys s = st_symmetric_keys t \<and> st_totals s = st_totals t \<and> st_retaining s = st_retaining t"
  unfolding alike_def bare_def by (cases s; cases t) simp

definition py_alike :: "(mem_store, 'a) py \<Rightarrow> (mem_store, 'a) py \<Rightarrow> bool" where
  "py_alike m m' \<longleftrightarrow> (\<forall>s t. alike s t \<longrightarrow> fst (m s) = fst (m' t) \<and> alike (snd (m s)) (snd (m' t)))"

lemma py_alike_basic: "py_alike (py_return x) (py_return x)" "py_alike (py_raise e) (py_raise e)" "py_alike (py_lift r) (py_lift r)"
  by (simp_all add: py_alike_def py_apply)

lemma py_alike_read: "(\<And>s t. alike s t \<Longrightarrow> f s = f t) \<Longrightarrow> py_alike (py_read f) (py_read f)"
  by (simp add: py_alike_def py_apply)

lemma py_alike_modify: "(\<And>s t. alike s t \<Longrightarrow> alike (f s) (f t)) \<Longrightarrow> py_alike (py_modify f) (py_modify f)"
  by (simp add: py_alike_def py_apply)

lemma py_alike_bind: "py_alike m m' \<Longrightarrow> (\<And>x. py_alike (f x) (f' x)) \<Longrightarrow> py_alike (py_bind m f) (py_bind m' f')"
  unfolding py_alike_def py_bind_def
  by (auto split: prod.splits sum.splits) (metis fst_conv snd_conv sum.inject sum.simps(4))+

lemma py_alike_then: "py_alike m m' \<Longrightarrow> py_alike n n' \<Longrightarrow> py_alike (py_then m n) (py_then m' n')"
  by (simp add: py_then_def py_alike_bind)

lemma py_alike_when: "py_alike m m' \<Longrightarrow> py_alike (py_when b m) (py_when b m')"
  by (simp add: py_when_def py_alike_basic)

lemma py_alike_if: "py_alike m m' \<Longrightarrow> py_alike n n' \<Longrightarrow> py_alike (if b then m else n) (if b then m' else n')"
  by simp

lemma py_alike_option:
  "py_alike m m' \<Longrightarrow> (\<And>x. py_alike (f x) (f' x)) \<Longrightarrow>
    py_alike (case z of None \<Rightarrow> m | Some x \<Rightarrow> f x) (case z of None \<Rightarrow> m' | Some x \<Rightarrow> f' x)"
  by (cases z) simp_all

lemmas alike_rules = py_alike_bind py_alike_then py_alike_when py_alike_if py_alike_option py_alike_basic

lemma alike_run:
  assumes "py_alike m m'" "alike s t" "m s = (Inr x, s')"
  obtains t' where "m' t = (Inr x, t')" "alike s' t'"
  using assms unfolding py_alike_def by (metis fst_conv snd_conv prod.collapse)

section \<open>The operations on such stores\<close>

lemma bump_total_alike: "py_alike (bump_total e c) (bump_total e c)"
  unfolding bump_total_def by (intro alike_rules py_alike_modify py_alike_read) (simp_all add: alike_iff)

lemma store_entry_alike: "py_alike (store_entry e p b) (store_entry e p b)"
  unfolding store_entry_def by (intro py_alike_modify) (simp add: alike_iff)

lemma index_describing_alike: "py_alike (index_describing ts med e p) (index_describing ts med e p)"
  unfolding index_describing_def by (intro alike_rules py_alike_modify) (simp add: alike_iff)

lemma index_name_alike: "py_alike (index_name E ts med e p) (index_name E ts med e p)"
  unfolding index_name_def by (intro alike_rules py_alike_modify) (simp add: alike_iff)

lemma pop_describing_alike: "py_alike (py_pop st_by_describing set_by_describing k) (py_pop st_by_describing set_by_describing k)"
  by (auto simp: py_alike_def py_pop_def store_setters alike_iff split: sum.splits prod.splits)

lemma unindex_deleted_alike: "py_alike (unindex_deleted E ts med e p) (unindex_deleted E ts med e p)"
  unfolding unindex_deleted_def
  by (intro alike_rules py_alike_modify pop_describing_alike) (simp add: alike_iff split: list.split)

lemma add_clearance_alike: "py_alike (add_clearance ts med off b) (add_clearance ts med off b)"
  unfolding add_clearance_def by (intro alike_rules py_alike_modify) (simp add: alike_iff)

lemma get_location_alike: "alike s t \<Longrightarrow> get_location E s u as_of = get_location E t u as_of"
  unfolding get_location_def by (simp only: alike_fields(7) cong: list.case_cong)

lemma add_movement_alike: "py_alike (add_movement E ts med off b) (add_movement E ts med off b)"
  unfolding add_movement_def Let_def
  by (intro alike_rules py_alike_modify py_alike_read) (auto simp: get_location_alike, simp_all add: alike_iff)

lemma chain_verify_key_alike: "py_alike (chain_verify_key E pb i old) (chain_verify_key E pb i old)"
  unfolding chain_verify_key_def
  by (intro alike_rules py_alike_modify py_alike_read) (simp_all add: alike_iff)

lemma record_bundle_alike: "py_alike (record_bundle i b) (record_bundle i b)"
  unfolding record_bundle_def by (intro py_alike_modify) (simp add: alike_iff)

text \<open>Retiring what a key held reads the clock, and in a retaining store it only records a removal.\<close>

lemma retire_previous_run:
  assumes E: "scans_ok E" "key_codec_ok E" and st: "placed_ok E K s" "clears_ok s" "st_retaining s"
    and p: "valid_muid (pl_container p)" "middle_ok (pl_middle p)" "middle_kind (pl_middle p) = K (pl_container p)"
    and now: "time_ok now"
  shows "fst (retire_previous E now e p s) =
      (if new_entries_replace (en_behavior e) \<and> middle_kind (pl_middle p) = 2 then Inl AssertionError else Inr ())"
    "alike s (snd (retire_previous E now e p s))"
proof -
  have queue: "(case pl_middle p of MidQueue x \<Rightarrow> True | _ \<Rightarrow> False) \<longleftrightarrow> middle_kind (pl_middle p) = 2"
    by (cases "pl_middle p") simp_all
  have found: "\<exists>r. get_entry_by_key E s (pl_container p) (pl_middle p) now = Inr r" if "middle_kind (pl_middle p) \<noteq> 2"
    using get_entry_by_key_spec [OF E st(1,2) p that now] by blast
  have "case retire_previous E now e p s of (r, s') \<Rightarrow> alike s s' \<and>
      r = (if new_entries_replace (en_behavior e) \<and> middle_kind (pl_middle p) = 2 then Inl AssertionError else Inr ())"
  proof (cases "new_entries_replace (en_behavior e) \<and> middle_kind (pl_middle p) \<noteq> 2")
    case True
    then obtain r where "get_entry_by_key E s (pl_container p) (pl_middle p) now = Inr r" using found by blast
    with True st(3) show ?thesis
      unfolding retire_previous_def queue
      by (cases r) (auto simp: py_bind_apply py_then_apply py_when_apply py_apply alike_iff)
  next
    case False
    then show ?thesis
      unfolding retire_previous_def queue
      by (auto simp: py_bind_apply py_then_apply py_when_apply py_apply alike_iff)
  qed
  then show "fst (retire_previous E now e p s) =
      (if new_entries_replace (en_behavior e) \<and> middle_kind (pl_middle p) = 2 then Inl AssertionError else Inr ())"
    "alike s (snd (retire_previous E now e p s))"
    by (auto split: prod.splits)
qed

section \<open>Replaying changes at another clock\<close>

lemma add_entry_replayed:
  assumes E: "scans_ok E" "key_codec_ok E" and h: "holds E K ds s" "alike s t"
    and p: "\<And>p. placement_from_builder e ts med off = Inr p \<Longrightarrow> placement_ok p \<and> middle_kind (pl_middle p) = K (pl_container p)"
    and now: "time_ok now" "time_ok now'"
    and run: "add_entry E now ts med off e s = (Inr (), s')"
  obtains t' where "add_entry E now' ts med off e t = (Inr (), t')" "alike s' t'"
proof -
  have st: "placed_ok E K s" "clears_ok s" "st_retaining s" using h(1) by (simp_all add: holds_def)
  obtain p where pl: "placement_from_builder e ts med off = Inr p"
    using run by (auto simp: add_entry_def py_bind_Inr_iff py_apply)
  note ok = p [OF pl]
  obtain stop s1 where s1: "bump_total e (pl_container p) s = (Inr stop, s1)"
    using run pl by (auto simp: add_entry_def py_bind_Inr_iff py_apply)
  note b = bump_total_retaining [OF s1 st(3)]
  have eq1: "st_placements s1 = st_placements s" "st_entries s1 = st_entries s" "st_clearances s1 = st_clearances s"
    "st_retaining s1"
    using b st(3) by (auto split: if_splits)
  have st1: "placed_ok E K s1" "clears_ok s1"
    using st(1,2) placed_ok_cong [OF eq1(1,2)] clears_ok_cong [OF eq1(3)] by simp_all
  obtain t1 where t1: "bump_total e (pl_container p) t = (Inr stop, t1)" "alike s1 t1"
    using alike_run [OF bump_total_alike h(2) s1] by blast
  have st1': "placed_ok E K t1" "clears_ok t1" "st_retaining t1"
    using st1 eq1(4) placed_ok_cong [of t1 s1] clears_ok_cong [of t1 s1] alike_fields [OF t1(2)] by simp_all
  obtain encoded where enc: "placement_bytes E p = Inr encoded" using ok placement_bytes_ok by blast
  let ?tail = "py_then (store_entry e p encoded) (py_then (index_describing ts med e p)
     (py_then (index_name E ts med e p) (unindex_deleted E ts med e p)))"
  have rest: "py_alike ?tail ?tail"
    by (intro alike_rules store_entry_alike index_describing_alike index_name_alike unindex_deleted_alike)
  obtain s2 where s2: "retire_previous E now e p s1 = (Inr (), s2)" "?tail s2 = (Inr (), s')"
    using run pl s1 b enc by (auto simp: add_entry_def py_bind_apply py_apply py_then_unit_iff)
  have mid: "valid_muid (pl_container p)" "middle_ok (pl_middle p)" using ok by (simp_all add: placement_ok_def)
  note r = retire_previous_run [OF E st1 eq1(4) mid conjunct2 [OF ok] now(1), of e]
    and r' = retire_previous_run [OF E st1' mid conjunct2 [OF ok] now(2), of e]
  have "fst (retire_previous E now' e p t1) = Inr ()" using r(1) r'(1) s2(1) by simp
  then obtain t2 where t2: "retire_previous E now' e p t1 = (Inr (), t2)" by (metis prod.collapse)
  have "alike s2 t2" using r(2) r'(2) s2(1) t2 t1(2) alike_trans alike_sym by (metis snd_conv)
  then obtain t' where "?tail t2 = (Inr (), t')" "alike s' t'" using alike_run [OF rest _ s2(2)] by blast
  with that pl t1(1) b enc t2 show ?thesis
    by (simp add: add_entry_def py_bind_apply py_apply py_then_apply)
qed

definition at_clock :: "int \<Rightarrow> delivery \<Rightarrow> delivery" where
  "at_clock now d = Delivery now (dl_ts d) (dl_med d) (dl_off d) (dl_change d)"

lemma deliver_replayed:
  assumes E: "scans_ok E" "key_codec_ok E" and h: "holds E K ds s" "alike s t" and d: "in_order K d"
    and now: "time_ok (dl_now d)" "time_ok now'" and run: "deliver E d s = (Inr (), s')"
  obtains t' where "deliver E (at_clock now' d) t = (Inr (), t')" "alike s' t'"
proof (cases "dl_change d")
  case (ChEntry e)
  let ?c = "container_of e"
  obtain u where u: "mk_muid (pb_timestamp ?c) (pb_medallion ?c) (pb_offset ?c) = Inr u"
    using run ChEntry by (auto simp: deliver_def py_bind_Inr_iff py_apply)
  let ?f = "\<lambda>s. if mu_timestamp u \<noteq> -1 \<and> dget (st_containers s) u = None
      then s\<lparr>st_containers := dput u (en_behavior e) (st_containers s)\<rparr> else s"
  have add: "add_entry E (dl_now d) (dl_ts d) (dl_med d) (dl_off d) e (?f s) = (Inr (), s')"
    using run ChEntry u by (simp add: deliver_def py_bind_apply py_then_apply py_apply)
  have "same_core s (?f s)" by (simp add: same_core_def)
  note h' = holds_same_core [OF h(1) this]
  have a: "alike (?f s) (?f t)" using h(2) by (auto simp: alike_iff)
  have p: "placement_from_builder e (dl_ts d) (dl_med d) (dl_off d) = Inr p \<Longrightarrow>
      placement_ok p \<and> middle_kind (pl_middle p) = K (pl_container p)" for p
    using d ChEntry by (auto simp: in_order_def)
  obtain t' where "add_entry E now' (dl_ts d) (dl_med d) (dl_off d) e (?f t) = (Inr (), t')" "alike s' t'"
    by (rule add_entry_replayed [OF E h' a p now add])
  with that ChEntry u show ?thesis by (simp add: deliver_def at_clock_def py_bind_apply py_then_apply py_apply)
next
  case (ChContainer b)
  have "py_alike (deliver E d) (deliver E (at_clock now' d))"
    unfolding deliver_def at_clock_def ChContainer delivery.sel apply_change.simps
    by (intro alike_rules py_alike_modify) (simp add: alike_iff)
  from alike_run [OF this h(2) run] that show ?thesis by blast
next
  case (ChMovement m)
  have "py_alike (deliver E d) (deliver E (at_clock now' d))"
    unfolding deliver_def at_clock_def ChMovement delivery.sel apply_change.simps by (rule add_movement_alike)
  from alike_run [OF this h(2) run] that show ?thesis by blast
next
  case (ChClearance c)
  have "py_alike (deliver E d) (deliver E (at_clock now' d))"
    unfolding deliver_def at_clock_def ChClearance delivery.sel apply_change.simps by (rule add_clearance_alike)
  from alike_run [OF this h(2) run] that show ?thesis by blast
next
  case ChUnset
  with run show ?thesis by (simp add: deliver_def py_apply)
qed


text \<open>The same changes at two clocks.\<close>

fun same_changes :: "delivery list \<Rightarrow> delivery list \<Rightarrow> bool" where
  "same_changes [] [] = True"
| "same_changes (d # ds) (d' # ds') = (d' = at_clock (dl_now d') d \<and> time_ok (dl_now d) \<and> time_ok (dl_now d') \<and> same_changes ds ds')"
| "same_changes _ _ = False"

lemma same_deliveries:
  assumes "\<And>n. time_ok (now n)" "\<And>n. time_ok (now' n)"
  shows "same_changes (deliveries now ts med off cs) (deliveries now' ts med off cs)"
  using assms by (induction cs arbitrary: off) (simp_all add: at_clock_def)

lemma changes_replayed:
  assumes E: "scans_ok E" "key_codec_ok E"
  shows "same_changes ds1 ds2 \<Longrightarrow> holds E K ds s \<Longrightarrow> alike s t \<Longrightarrow> \<forall>d \<in> set (ds @ ds1). in_order K d \<Longrightarrow>
    distinct (map change_address_of (ds @ ds1)) \<Longrightarrow> py_each (deliver E) ds1 s = (Inr (), s') \<Longrightarrow>
    \<exists>t'. py_each (deliver E) ds2 t = (Inr (), t') \<and> alike s' t'"
proof (induction ds1 ds2 arbitrary: ds s t rule: same_changes.induct)
  case 1
  then show ?case by (simp add: py_apply)
next
  case (2 d ds1 d' ds2)
  obtain s1 where s1: "deliver E d s = (Inr (), s1)" "py_each (deliver E) ds1 s1 = (Inr (), s')"
    using "2.prems"(6) by (auto simp: py_then_unit_iff)
  have d: "in_order K d" "d' = at_clock (dl_now d') d" "time_ok (dl_now d)" "time_ok (dl_now d')" "same_changes ds1 ds2"
    using "2.prems"(1,4) by auto
  obtain t1 where t1: "deliver E d' t = (Inr (), t1)" "alike s1 t1"
    using deliver_replayed [OF E "2.prems"(2,3) d(1,3,4) s1(1)] d(2) by metis
  have "holds E K (ds @ [d]) s1"
    by (rule holds_run [OF E(2) "2.prems"(2)]) (use "2.prems"(4,5) s1(1) in \<open>auto simp: py_then_unit_iff py_apply\<close>)
  from "2.IH" [OF d(5) this t1(2) _ _ s1(2)] "2.prems"(4,5) t1(1)
  show ?case by (auto simp: py_then_unit_iff)
qed simp_all

section \<open>Replaying bundles\<close>

lemma deliveries_of_bundle:
  assumes "get_builder E b = Inr pb"
  shows "map change_address_of (deliveries now (bn_timestamp pb) (bn_medallion pb) 1 (bn_changes pb)) =
      map change_address_of (changes_of E b)"
    "(\<forall>d \<in> set (deliveries now (bn_timestamp pb) (bn_medallion pb) 1 (bn_changes pb)). in_order K d) \<longleftrightarrow>
      (\<forall>d \<in> set (changes_of E b). in_order K d)"
proof -
  have un: "changes_of E b = map unclock (deliveries now (bn_timestamp pb) (bn_medallion pb) 1 (bn_changes pb))"
    using assms by (simp add: changes_of_def deliveries_unclock)
  show "map change_address_of (deliveries now (bn_timestamp pb) (bn_medallion pb) 1 (bn_changes pb)) =
      map change_address_of (changes_of E b)"
    "(\<forall>d \<in> set (deliveries now (bn_timestamp pb) (bn_medallion pb) 1 (bn_changes pb)). in_order K d) \<longleftrightarrow>
      (\<forall>d \<in> set (changes_of E b). in_order K d)"
    unfolding un by simp_all
qed

definition clock_in_range :: "(int \<Rightarrow> int) \<Rightarrow> bool" where
  "clock_in_range now \<longleftrightarrow> (\<forall>n. time_ok (now n))"

lemma bundle_replayed:
  assumes E: "scans_ok E" "key_codec_ok E" and h: "holds E K ds s" "alike s t"
    and b: "plain_bundle E b" "\<forall>d \<in> set (ds @ changes_of E b). in_order K d"
      "distinct (map change_address_of (ds @ changes_of E b))"
    and now: "clock_in_range now" "clock_in_range now'"
    and run: "apply_bundle E now b s = (Inr True, s')"
  shows "\<exists>t'. apply_bundle E now' b t = (Inr True, t') \<and> alike s' t'" "holds E K (ds @ changes_of E b) s'"
proof -
  obtain pb where pb: "get_builder E b = Inr pb" "bn_encrypted pb = []"
    using b(1) by (auto simp: plain_bundle_def split: sum.splits)
  let ?i = "info_from_builder pb (bytes_hex (x_blake2b E b))"
  let ?old = "dget (st_chain_infos s) (get_chain ?i)"
  let ?ds = "\<lambda>now. deliveries now (bn_timestamp pb) (bn_medallion pb) 1 (bn_changes pb)"
  have i: "get_info E b = Inr ?i" "bi_timestamp ?i = bn_timestamp pb" "bi_medallion ?i = bn_medallion pb"
    using pb by (simp_all add: get_info_def info_from_builder_def)
  obtain s1 s2 vk where s1: "is_needed ?i ?old = Inr True" "chain_verify_key E pb ?i ?old s = (Inr vk, s1)"
    "x_verify E vk b = Inr ()" "record_bundle ?i b s1 = (Inr (), s2)"
    "apply_changes E now (bn_timestamp pb) (bn_medallion pb) 1 (bn_changes pb) s2 = (Inr (), s')"
    using run pb i
    by (auto simp: apply_bundle_def py_bind_Inr_iff py_then_unit_iff py_apply plain_builder_def split: if_splits)
  obtain t1 where t1: "chain_verify_key E pb ?i ?old t = (Inr vk, t1)" "alike s1 t1"
    using alike_run [OF chain_verify_key_alike h(2) s1(2)] by blast
  obtain t2 where t2: "record_bundle ?i b t1 = (Inr (), t2)" "alike s2 t2"
    using alike_run [OF record_bundle_alike t1(2) s1(4)] by blast
  have "same_core s s2"
    using keeps_core [OF chain_verify_key_core s1(2)] keeps_core [OF record_bundle_core s1(4)] by (rule same_core_trans)
  note h2 = holds_same_core [OF h(1) this]
  have each: "py_each (deliver E) (?ds now) s2 = (Inr (), s')" using s1(5) by (simp add: apply_changes_each)
  note ds = deliveries_of_bundle [OF pb(1), of now]
  have sound: "\<forall>d \<in> set (ds @ ?ds now). in_order K d" "distinct (map change_address_of (ds @ ?ds now))"
    using b(2,3) ds(1) ds(2) [of K] by (simp_all add: ball_Un) 
  obtain t' where t': "py_each (deliver E) (?ds now') t2 = (Inr (), t')" "alike s' t'"
    using changes_replayed [OF E same_deliveries [of now now'] h2 t2(2) sound each] now
    unfolding clock_in_range_def by blast
  have "dget (st_chain_infos t) (get_chain ?i) = ?old" using alike_fields(2) [OF h(2)] by simp
  then have "apply_bundle E now' b t = (Inr True, t')"
    using pb i s1(1,3) t1(1) t2(1) t'(1)
    by (simp add: apply_bundle_def py_bind_apply py_then_apply py_apply plain_builder_def apply_changes_each)
  then show "\<exists>t'. apply_bundle E now' b t = (Inr True, t') \<and> alike s' t'" using t'(2) by blast
  have "holds E K (ds @ ?ds now) s'" by (rule holds_run [OF E(2) h2 sound each])
  moreover have "map unclock (?ds now) = changes_of E b"
    using pb(1) by (simp add: changes_of_def deliveries_unclock)
  ultimately show "holds E K (ds @ changes_of E b) s'"
    using holds_unclock [of E K ds "?ds now" s'] by simp
qed

lemma apply_bundle_needed:
  assumes "apply_bundle E now b s = (Inr r, s')"
  obtains i where "get_info E b = Inr i" "is_needed i (dget (st_chain_infos s) (get_chain i)) = Inr r" "\<not> r \<longrightarrow> s' = s"
  using assms by (auto simp: apply_bundle_def py_bind_Inr_iff py_then_Inr_iff py_apply split: if_splits)


text \<open>A run of bundles that one store accepted is accepted by every store that is like it was.\<close>

lemma receive_replayed:
  assumes E: "scans_ok E" "key_codec_ok E"
  shows "receive_all E rs s = Some s' \<Longrightarrow> map snd rs' = map snd rs \<Longrightarrow> holds E K ds s \<Longrightarrow> alike s t \<Longrightarrow>
    \<forall>b \<in> set (map snd rs). plain_bundle E b \<Longrightarrow> \<forall>d \<in> set (ds @ all_changes E (map snd rs)). in_order K d \<Longrightarrow>
    distinct (map change_address_of (ds @ all_changes E (map snd rs))) \<Longrightarrow>
    \<forall>r \<in> set rs. clock_in_range (fst r) \<Longrightarrow> \<forall>r \<in> set rs'. clock_in_range (fst r) \<Longrightarrow>
    \<exists>t'. receive_all E rs' t = Some t' \<and> alike s' t'"
proof (induction rs arbitrary: rs' ds s t)
  case Nil
  then show ?case by simp
next
  case (Cons r rs)
  obtain now b where r: "r = (now, b)" by (cases r)
  obtain now' rs2 where rs': "rs' = (now', b) # rs2" "map snd rs2 = map snd rs"
    using Cons.prems(2) r by (cases rs') auto
  obtain s1 where s1: "apply_bundle E now b s = (Inr True, s1)" "receive_all E rs s1 = Some s'"
    using Cons.prems(1) r by (auto split: prod.splits sum.splits bool.splits)
  have b: "plain_bundle E b" "\<forall>d \<in> set (ds @ changes_of E b). in_order K d"
    "distinct (map change_address_of (ds @ changes_of E b))" "clock_in_range now" "clock_in_range now'"
    using Cons.prems(5-9) r rs' by (auto simp: all_changes_def)
  note step = bundle_replayed [OF E Cons.prems(3,4) b s1(1)]
  obtain t1 where t1: "apply_bundle E now' b t = (Inr True, t1)" "alike s1 t1" using step(1) by blast
  have "\<exists>t'. receive_all E rs2 t1 = Some t' \<and> alike s' t'"
    by (rule Cons.IH [OF s1(2) rs'(2) step(2) t1(2)])
      (use Cons.prems(5-9) r rs' in \<open>auto simp: all_changes_def\<close>)
  then show ?case using rs' t1(1) by simp
qed

end
