(* ===== verification/Log_Store.thy ===== *)
theory Log_Store
  imports Mem_Queries
begin

text \<open>
  \<open>python/gink/impl/log_backed_store.py\<close>: a memory store that is backed by an append-only file of serialized
  \<open>LogFile\<close> messages. Several processes may have the file open; each catches up with what the others appended
  before it reads or writes. The file is the list of its bytes, as flushed; \<open>ls_busy\<close> is whether another
  process holds the lock of the file, and waiting for it is \<open>Blocked\<close>. The calls of the callback are logged in
  \<open>ls_called\<close>.
\<close>

section \<open>The messages of the file\<close>

record log_file =
  lf_magic :: int
  lf_bundles :: "bytes list"
  lf_claims :: "claim list"
  lf_key_pairs :: "(bytes \<times> bytes) list"

definition empty_log :: log_file where
  "empty_log = \<lparr>lf_magic = 0, lf_bundles = [], lf_claims = [], lf_key_pairs = []\<rparr>"

text \<open>What parsing the concatenation of two serialized messages gives: protobuf merges them.\<close>

definition merge_log :: "log_file \<Rightarrow> log_file \<Rightarrow> log_file" where
  "merge_log a b = \<lparr>lf_magic = (if lf_magic b \<noteq> 0 then lf_magic b else lf_magic a),
     lf_bundles = lf_bundles a @ lf_bundles b, lf_claims = lf_claims a @ lf_claims b,
     lf_key_pairs = lf_key_pairs a @ lf_key_pairs b\<rparr>"

record log_ext =
  lx_ser :: "log_file \<Rightarrow> bytes"
  lx_parse :: "bytes \<Rightarrow> log_file result"

definition log_codec_ok :: "log_ext \<Rightarrow> bool" where
  "log_codec_ok L \<longleftrightarrow> (\<forall>ms. lx_parse L (concat (map (lx_ser L) ms)) = Inr (foldl merge_log empty_log ms)) \<and>
    (\<forall>m. m \<noteq> empty_log \<longrightarrow> lx_ser L m \<noteq> [])"

section \<open>The file\<close>

record log_store =
  ls_mem :: mem_store
  ls_file :: bytes
  ls_pos :: nat
  ls_processed :: nat
  ls_flocked :: bool
  ls_exclusive :: bool
  ls_closed :: bool
  ls_busy :: bool
  ls_called :: "bytes list"

type_synonym 'a lg = "(log_store, 'a) py"

text \<open>The handle, opened in mode \<open>ab+\<close>: it reads from its position and writes at the end.\<close>

definition if_open :: "'a lg \<Rightarrow> 'a lg" where
  "if_open m = (\<lambda>s. if ls_closed s then (Inl ValueError, s) else m s)"

definition file_write :: "bytes \<Rightarrow> unit lg" where
  "file_write data = if_open (py_modify (\<lambda>s. s\<lparr>ls_file := ls_file s @ data, ls_pos := length (ls_file s @ data)\<rparr>))"

definition file_read :: "bytes lg" where
  "file_read = if_open (\<lambda>s. (Inr (drop (ls_pos s) (ls_file s)), s\<lparr>ls_pos := max (ls_pos s) (length (ls_file s))\<rparr>))"

definition file_tell :: "nat lg" where
  "file_tell = if_open (py_read (\<lambda>s. Inr (ls_pos s)))"

definition file_seek :: "nat \<Rightarrow> unit lg" where
  "file_seek n = if_open (py_modify (\<lambda>s. s\<lparr>ls_pos := n\<rparr>))"

definition file_seek_end :: "unit lg" where
  "file_seek_end = if_open (py_modify (\<lambda>s. s\<lparr>ls_pos := length (ls_file s)\<rparr>))"

text \<open>\<open>truncate()\<close> cuts the file at the position of the handle.\<close>

definition file_truncate :: "unit lg" where
  "file_truncate = if_open (py_modify (\<lambda>s. s\<lparr>ls_file := take (ls_pos s) (ls_file s)\<rparr>))"

text \<open>\<open>flock\<close>, waiting for another process or not.\<close>

definition file_lock :: "unit lg" where
  "file_lock = if_open (py_read (\<lambda>s. if ls_busy s then Inl Blocked else Inr ()))"

definition file_try_lock :: "unit lg" where
  "file_try_lock = if_open (py_read (\<lambda>s. if ls_busy s then Inl OSError else Inr ()))"

definition set_flocked :: "bool \<Rightarrow> unit lg" where
  "set_flocked b = py_modify (\<lambda>s. s\<lparr>ls_flocked := b\<rparr>)"

definition advance :: "nat \<Rightarrow> unit lg" where
  "advance n = py_modify (\<lambda>s. s\<lparr>ls_processed := ls_processed s + n\<rparr>)"

definition in_mem :: "(mem_store, 'a) py \<Rightarrow> 'a lg" where
  "in_mem m = py_zoom ls_mem (\<lambda>t s. s\<lparr>ls_mem := t\<rparr>) m"

definition append_log :: "log_ext \<Rightarrow> log_file \<Rightarrow> unit lg" where
  "append_log L m = py_then (file_write (lx_ser L m)) (advance (length (lx_ser L m)))"

section \<open>Locks\<close>

definition log_acquire_lock :: "bool lg" where
  "log_acquire_lock =
    py_bind (py_read (\<lambda>s. Inr (ls_flocked s))) (\<lambda>flocked.
      if flocked then py_return False
      else py_then file_lock (py_then (set_flocked True) (py_return True)))"

definition log_release_lock :: "bool \<Rightarrow> unit lg" where
  "log_release_lock flocked_by_acquire =
    py_when flocked_by_acquire
      (py_bind (py_read (\<lambda>s. Inr (ls_flocked s))) (\<lambda>flocked.
        py_then (py_lift (require flocked AssertionError)) (set_flocked False)))"

section \<open>Catching up\<close>

definition call_bundle :: "bool \<Rightarrow> bytes \<Rightarrow> unit lg" where
  "call_bundle callback b = py_when callback (py_modify (\<lambda>s. s\<lparr>ls_called := ls_called s @ [b]\<rparr>))"

text \<open>\<open>MemoryStore.apply_bundle\<close> with its callback.\<close>

definition mem_apply :: "ext \<Rightarrow> (int \<Rightarrow> int) \<Rightarrow> bool \<Rightarrow> bytes \<Rightarrow> bool lg" where
  "mem_apply E now callback b =
    py_bind (in_mem (apply_bundle E now b)) (\<lambda>needed.
      py_then (py_when needed (call_bundle callback b)) (py_return needed))"

definition keep_claim :: "claim \<Rightarrow> unit lg" where
  "keep_claim c = py_modify (\<lambda>s. s\<lparr>ls_mem := (ls_mem s)\<lparr>st_claims := dput (cm_medallion c) c (st_claims (ls_mem s))\<rparr>\<rparr>)"

definition keep_key_pair :: "ext \<Rightarrow> bytes \<times> bytes \<Rightarrow> unit lg" where
  "keep_key_pair E kp =
    py_bind (py_lift (x_load_verify_key E (fst kp))) (\<lambda>vk.
      py_modify (\<lambda>s. s\<lparr>ls_mem := (ls_mem s)\<lparr>st_signing_keys := dput vk (snd kp) (st_signing_keys (ls_mem s))\<rparr>\<rparr>))"

definition log_refresh_helper :: "ext \<Rightarrow> log_ext \<Rightarrow> (int \<Rightarrow> int) \<Rightarrow> bool \<Rightarrow> nat lg" where
  "log_refresh_helper E L now callback =
    py_bind file_tell (\<lambda>at.
    py_bind (py_read (\<lambda>s. Inr (ls_processed s))) (\<lambda>processed.
    py_then (py_lift (require (at = processed) AssertionError))
   (py_bind file_read (\<lambda>file_bytes.
    if file_bytes = [] then py_return 0
    else py_bind (py_lift (lx_parse L file_bytes)) (\<lambda>parsed.
      py_then (py_each (\<lambda>b. py_then (mem_apply E now callback b) (py_return ())) (lf_bundles parsed))
     (py_then (py_each keep_claim (lf_claims parsed))
     (py_then (py_each (keep_key_pair E) (lf_key_pairs parsed))
     (py_then (advance (length file_bytes))
     (py_bind file_tell (\<lambda>at.
      py_bind (py_read (\<lambda>s. Inr (ls_processed s))) (\<lambda>processed.
      py_then (py_lift (require (at = processed) AssertionError))
        (py_return (length (lf_bundles parsed))))))))))))))"

definition log_refresh :: "ext \<Rightarrow> log_ext \<Rightarrow> (int \<Rightarrow> int) \<Rightarrow> bool \<Rightarrow> nat lg" where
  "log_refresh E L now callback =
    py_bind log_acquire_lock (\<lambda>lock.
    py_bind (log_refresh_helper E L now callback) (\<lambda>count.
    py_then (log_release_lock lock) (py_return count)))"

text \<open>What every read does first.\<close>

definition log_maybe_refresh :: "ext \<Rightarrow> log_ext \<Rightarrow> (int \<Rightarrow> int) \<Rightarrow> unit lg" where
  "log_maybe_refresh E L now =
    py_bind (py_read (\<lambda>s. Inr (ls_flocked s))) (\<lambda>flocked.
    if flocked then py_return ()
    else
      py_bind file_tell (\<lambda>current_location.
      py_bind (py_read (\<lambda>s. Inr (ls_processed s))) (\<lambda>processed.
      py_then (py_lift (require (current_location = processed) AssertionError))
     (py_then file_seek_end
     (py_bind file_tell (\<lambda>end_of_file.
      py_when (end_of_file \<noteq> processed)
        (py_then (file_seek processed)
        (py_then file_lock
        (py_then (set_flocked True)
        (py_bind (log_refresh_helper E L now False) (\<lambda>_. set_flocked False)))))))))))"

definition log_query :: "ext \<Rightarrow> log_ext \<Rightarrow> (int \<Rightarrow> int) \<Rightarrow> (mem_store \<Rightarrow> 'a result) \<Rightarrow> 'a lg" where
  "log_query E L now f = py_then (log_maybe_refresh E L now) (py_read (\<lambda>s. f (ls_mem s)))"

section \<open>Opening\<close>

definition log_init :: "ext \<Rightarrow> log_ext \<Rightarrow> (int \<Rightarrow> int) \<Rightarrow> bool \<Rightarrow> bool \<Rightarrow> unit lg" where
  "log_init E L now exclusive reset =
    py_then (py_when exclusive (py_then file_try_lock (set_flocked True)))
   (py_bind log_acquire_lock (\<lambda>flocked_by_acquire.
    py_then (py_when reset file_truncate)
   (py_then (py_modify (\<lambda>s. s\<lparr>ls_processed := 0\<rparr>))
   (py_then file_seek_end
   (py_bind file_tell (\<lambda>file_starting_size.
    py_then
      (if file_starting_size = 0
       then append_log L (empty_log\<lparr>lf_magic := 1263421767\<rparr>)
       else py_then (file_seek 0) (py_bind (log_refresh_helper E L now False) (\<lambda>_. py_return ())))
      (log_release_lock flocked_by_acquire)))))))"

text \<open>A store over a file: the handle of mode \<open>ab+\<close> starts at the end.\<close>

definition opened :: "bytes \<Rightarrow> bool \<Rightarrow> bool \<Rightarrow> log_store" where
  "opened file exclusive busy = \<lparr>ls_mem = empty_store True, ls_file = file, ls_pos = length file, ls_processed = 0,
     ls_flocked = False, ls_exclusive = exclusive, ls_closed = False, ls_busy = busy, ls_called = []\<rparr>"

definition open_log :: "ext \<Rightarrow> log_ext \<Rightarrow> (int \<Rightarrow> int) \<Rightarrow> bytes \<Rightarrow> bool \<Rightarrow> bool \<Rightarrow> bool \<Rightarrow> unit result \<times> log_store" where
  "open_log E L now file exclusive reset busy = log_init E L now exclusive reset (opened file exclusive busy)"

definition log_close :: "unit lg" where
  "log_close = py_modify (\<lambda>s. s\<lparr>ls_closed := True\<rparr>)"

definition is_binlog :: "bytes \<Rightarrow> bool" where
  "is_binlog file \<longleftrightarrow> take 5 file = [0x0D, 0x47, 0x49, 0x4E, 0x4B]"

section \<open>Writing\<close>

text \<open>\<open>_add_claim\<close>; the claim has the time and the process that it is made at and by.\<close>

definition log_add_claim :: "log_ext \<Rightarrow> int \<Rightarrow> int \<Rightarrow> chain \<Rightarrow> claim lg" where
  "log_add_claim L time pid c =
    py_bind (py_read (\<lambda>s. Inr (ls_flocked s))) (\<lambda>flocked.
    py_then (py_lift (require flocked AssertionError))
   (py_bind (in_mem (add_claim time pid c)) (\<lambda>claim.
    py_then (append_log L (empty_log\<lparr>lf_claims := [claim]\<rparr>)) (py_return claim))))"

definition log_apply_bundle ::
  "ext \<Rightarrow> log_ext \<Rightarrow> (int \<Rightarrow> int) \<Rightarrow> int \<Rightarrow> int \<Rightarrow> bool \<Rightarrow> bool \<Rightarrow> bytes \<Rightarrow> bool lg" where
  "log_apply_bundle E L now time pid callback claim_chain b =
    py_bind (py_read (\<lambda>s. Inr (ls_closed s))) (\<lambda>closed.
    if closed then py_raise AssertionError
    else
      py_bind (py_read (\<lambda>s. Inr (ls_flocked s))) (\<lambda>flocked.
      py_then (py_when (\<not> flocked) (py_then file_lock (set_flocked True)))
     (py_bind (log_refresh_helper E L now callback) (\<lambda>_.
      py_bind (mem_apply E now False b) (\<lambda>added.
      py_then (py_when added
        (py_bind (if claim_chain
            then py_bind (py_lift (get_info E b)) (\<lambda>info.
              let c = create_claim time pid (get_chain info) in py_then (keep_claim c) (py_return [c]))
            else py_return []) (\<lambda>claims.
          py_then (append_log L (empty_log\<lparr>lf_bundles := [b], lf_claims := claims\<rparr>)) (call_bundle callback b))))
     (py_then (py_when (\<not> flocked) (set_flocked False)) (py_return added)))))))"

definition log_save_signing_key :: "ext \<Rightarrow> log_ext \<Rightarrow> bytes \<Rightarrow> unit lg" where
  "log_save_signing_key E L signing_key =
    py_then (append_log L (empty_log\<lparr>lf_key_pairs := [(x_verify_key E signing_key, signing_key)]\<rparr>))
      (in_mem (save_signing_key E signing_key))"

end
