(* ===== verification/Log_Laws.thy ===== *)
theory Log_Laws
  imports Mem_Replay Log_Store
begin

text \<open>
  What the log of a store is worth: a process that opens it, or that had it open while another wrote, has the
  same store as the writer.
\<close>

section \<open>What a log says\<close>

definition log_of :: "log_file list \<Rightarrow> log_file" where
  "log_of ms = foldl merge_log empty_log ms"

lemma merge_log_empty [simp]: "merge_log empty_log m = m" "merge_log m empty_log = m"
  by (simp_all add: merge_log_def empty_log_def)

lemma merge_log_assoc: "merge_log (merge_log a b) c = merge_log a (merge_log b c)"
  by (simp add: merge_log_def)

lemma foldl_merge: "foldl merge_log a ms = merge_log a (log_of ms)"
proof (induction ms arbitrary: a)
  case Nil
  show ?case by (simp add: log_of_def)
next
  case (Cons m ms)
  have "log_of (m # ms) = foldl merge_log m ms" by (simp add: log_of_def)
  also have "\<dots> = merge_log m (log_of ms)" by (rule Cons)
  finally have "merge_log a (log_of (m # ms)) = merge_log (merge_log a m) (log_of ms)"
    by (simp only: merge_log_assoc)
  moreover have "foldl merge_log a (m # ms) = merge_log (merge_log a m) (log_of ms)" using Cons by simp
  ultimately show ?case by simp
qed

lemma log_of_append: "log_of (ms @ ms') = merge_log (log_of ms) (log_of ms')"
  unfolding log_of_def by (simp only: foldl_append foldl_merge [of "foldl merge_log empty_log ms"]) (simp add: log_of_def)

lemma log_of_Cons: "log_of (m # ms) = merge_log m (log_of ms)"
  unfolding foldl_merge [symmetric] by (simp add: log_of_def)

lemma log_of_Nil [simp]: "log_of [] = empty_log"
  by (simp add: log_of_def)

lemma log_fields:
  "lf_bundles (merge_log a b) = lf_bundles a @ lf_bundles b" "lf_claims (merge_log a b) = lf_claims a @ lf_claims b"
  "lf_key_pairs (merge_log a b) = lf_key_pairs a @ lf_key_pairs b"
  "lf_bundles empty_log = []" "lf_claims empty_log = []" "lf_key_pairs empty_log = []"
  by (simp_all add: merge_log_def empty_log_def)

definition claims_in :: "claim list \<Rightarrow> (int, claim) dict \<Rightarrow> (int, claim) dict" where
  "claims_in cs d = foldl (\<lambda>d c. dput (cm_medallion c) c d) d cs"

definition keys_in :: "(bytes \<times> bytes) list \<Rightarrow> (bytes, bytes) dict \<Rightarrow> (bytes, bytes) dict" where
  "keys_in ks d = foldl (\<lambda>d k. dput (fst k) (snd k) d) d ks"

text \<open>A store that has what a log says: its bundles in order, accepted at some clock, its claims and its keys.\<close>

definition in_step :: "ext \<Rightarrow> log_file \<Rightarrow> mem_store \<Rightarrow> bool" where
  "in_step E f m \<longleftrightarrow>
    (\<exists>rs m0. map snd rs = lf_bundles f \<and> (\<forall>r \<in> set rs. clock_in_range (fst r)) \<and>
      receive_all E rs (empty_store True) = Some m0 \<and> alike m0 m) \<and>
    st_claims m = claims_in (lf_claims f) [] \<and> st_signing_keys m = keys_in (lf_key_pairs f) []"

definition keys_loadable :: "ext \<Rightarrow> bool" where
  "keys_loadable E \<longleftrightarrow> (\<forall>sk. x_load_verify_key E (x_verify_key E sk) = Inr (x_verify_key E sk))"

definition own_keys :: "ext \<Rightarrow> log_file \<Rightarrow> bool" where
  "own_keys E f \<longleftrightarrow> (\<forall>k \<in> set (lf_key_pairs f). fst k = x_verify_key E (snd k))"

section \<open>Receiving keeps claims and keys\<close>

lemma apply_bundle_keys:
  assumes "apply_bundle E now b s = (r, s')"
  shows "st_claims s' = st_claims s" "st_signing_keys s' = st_signing_keys s"
proof -
  have "st_claims s1 = st_claims s \<and> st_signing_keys s1 = st_signing_keys s"
    if "chain_verify_key E pb i old s = (r1, s1)" for pb i old r1 s1
    using that by (auto simp: chain_verify_key_def py_simps split: sum.splits option.splits if_splits)
  then show "st_claims s' = st_claims s" "st_signing_keys s' = st_signing_keys s"
    using apply_bundle_log [OF assms] by (auto simp: same_log_def)
qed

lemma receive_all_keys:
  "receive_all E rs s = Some s' \<Longrightarrow> st_claims s' = st_claims s \<and> st_signing_keys s' = st_signing_keys s"
proof (induction E rs s rule: receive_all.induct)
  case (2 E now b rs s)
  obtain s1 where s1: "apply_bundle E now b s = (Inr True, s1)" "receive_all E rs s1 = Some s'"
    using "2.prems" by (auto split: prod.splits sum.splits bool.splits)
  from "2.IH" [OF s1(1) [symmetric] refl _ s1(2)] apply_bundle_keys [OF s1(1)] show ?case by simp
qed simp

lemma receive_all_app:
  "receive_all E (rs @ rs') s = (case receive_all E rs s of None \<Rightarrow> None | Some s1 \<Rightarrow> receive_all E rs' s1)"
  by (induction rs arbitrary: s) (auto split: prod.splits sum.splits bool.splits)

lemma each_apply:
  "receive_all E (map (Pair now) bs) (ls_mem s) = Some m \<Longrightarrow>
    py_each (\<lambda>b. py_then (mem_apply E now False b) (py_return ())) bs s = (Inr (), s\<lparr>ls_mem := m\<rparr>)"
proof (induction bs arbitrary: s)
  case Nil
  then show ?case by (simp add: py_apply)
next
  case (Cons b bs)
  obtain m1 where m1: "apply_bundle E now b (ls_mem s) = (Inr True, m1)" "receive_all E (map (Pair now) bs) m1 = Some m"
    using Cons.prems by (auto split: prod.splits sum.splits bool.splits)
  have "py_then (mem_apply E now False b) (py_return ()) s = (Inr (), s\<lparr>ls_mem := m1\<rparr>)"
    using m1(1) by (simp add: mem_apply_def in_mem_def py_zoom_def call_bundle_def py_bind_apply py_then_apply py_when_apply py_apply)
  with Cons.IH [of "s\<lparr>ls_mem := m1\<rparr>"] m1(2) show ?case by (simp add: py_then_apply)
qed

lemma each_claim: "py_each keep_claim cs s =
    (Inr (), s\<lparr>ls_mem := (ls_mem s)\<lparr>st_claims := claims_in cs (st_claims (ls_mem s))\<rparr>\<rparr>)"
  by (induction cs arbitrary: s) (simp_all add: py_apply py_then_apply keep_claim_def claims_in_def)

lemma each_key_pair:
  "keys_loadable E \<Longrightarrow> \<forall>k \<in> set ks. fst k = x_verify_key E (snd k) \<Longrightarrow>
    py_each (keep_key_pair E) ks s =
      (Inr (), s\<lparr>ls_mem := (ls_mem s)\<lparr>st_signing_keys := keys_in ks (st_signing_keys (ls_mem s))\<rparr>\<rparr>)"
  by (induction ks arbitrary: s)
    (simp_all add: py_apply py_then_apply py_bind_apply keep_key_pair_def keys_in_def keys_loadable_def)

section \<open>Catching up\<close>

lemma in_step_holds:
  assumes E: "key_codec_ok E" and s: "sound_bundles E K (lf_bundles f)" and m: "in_step E f m"
  shows "holds E K (all_changes E (lf_bundles f)) m"
proof -
  obtain rs m0 where rs: "map snd rs = lf_bundles f" "receive_all E rs (empty_store True) = Some m0" "alike m0 m"
    using m by (auto simp: in_step_def)
  have "holds E K (all_changes E (lf_bundles f)) m0"
    using received_holds [OF E _ rs(2), of K] s rs(1) by simp
  moreover have "same_core m0 m" using alike_fields [OF rs(3)] by (simp add: same_core_def)
  ultimately show ?thesis by (rule holds_same_core)
qed

lemma sound_prefix: "sound_bundles E K (bs @ bs') \<Longrightarrow> sound_bundles E K bs"
  by (auto simp: sound_bundles_def all_changes_def)

text \<open>A store in step with one part of the log accepts, at any clock, what the writer appended.\<close>

lemma accepts_appended:
  assumes E: "scans_ok E" "key_codec_ok E" and sound: "sound_bundles E K (lf_bundles (merge_log f g))"
    and m: "in_step E f m" and w: "in_step E (merge_log f g) w" and now: "clock_in_range now"
  obtains m' where "receive_all E (map (Pair now) (lf_bundles g)) m = Some m'" "alike w m'"
    "st_claims m' = st_claims m" "st_signing_keys m' = st_signing_keys m"
proof -
  obtain rs m0 where rs: "map snd rs = lf_bundles f" "\<forall>r \<in> set rs. clock_in_range (fst r)"
    "receive_all E rs (empty_store True) = Some m0" "alike m0 m"
    using m by (auto simp: in_step_def)
  obtain ws w0 where ws: "map snd ws = lf_bundles f @ lf_bundles g" "\<forall>r \<in> set ws. clock_in_range (fst r)"
    "receive_all E ws (empty_store True) = Some w0" "alike w0 w"
    using w by (auto simp: in_step_def log_fields)
  let ?n = "length (lf_bundles f)"
  have parts: "map snd (take ?n ws) = lf_bundles f" "map snd (drop ?n ws) = lf_bundles g" "ws = take ?n ws @ drop ?n ws"
    using ws(1) by (simp_all flip: take_map drop_map)
  obtain w1 where w1: "receive_all E (take ?n ws) (empty_store True) = Some w1" "receive_all E (drop ?n ws) w1 = Some w0"
    using ws(3) parts(3) receive_all_app [of E "take ?n ws" "drop ?n ws"] by (auto split: option.splits)
  have pre: "sound_bundles E K (lf_bundles f)" using sound sound_prefix by (simp add: log_fields)
  obtain m1 where "receive_all E rs (empty_store True) = Some m1" "alike w1 m1"
    using receive_replayed [OF E w1(1), of rs K "[]" "empty_store True"] parts(1) rs(1,2) ws(2) pre holds_empty
    by (auto simp: sound_bundles_def dest: in_set_takeD)
  then have a: "alike w1 m" using rs(3,4) alike_trans by auto
  have h: "holds E K (all_changes E (lf_bundles f)) w1"
    using received_holds [OF E(2) _ w1(1), of K] pre parts(1) by simp
  obtain m' where m': "receive_all E (map (Pair now) (lf_bundles g)) m = Some m'" "alike w0 m'"
    using receive_replayed [OF E w1(2) _ h a, of "map (Pair now) (lf_bundles g)"] parts(2) sound now ws(2)
    by (auto simp: sound_bundles_def all_changes_def log_fields comp_def dest: in_set_dropD)
  from that [OF m'(1)] m'(2) ws(4) receive_all_keys [OF m'(1)] show ?thesis
    using alike_trans alike_sym by blast
qed

definition at_end :: "log_store \<Rightarrow> bool" where
  "at_end s \<longleftrightarrow> ls_pos s = length (ls_file s) \<and> ls_processed s = length (ls_file s) \<and> \<not> ls_closed s"

lemma serialized_empty: "log_codec_ok L \<Longrightarrow> concat (map (lx_ser L) ms) = [] \<Longrightarrow> log_of ms = empty_log"
  by (induction ms) (auto simp: log_codec_ok_def log_of_Cons)

lemma refresh_appended:
  assumes laws: "scans_ok E" "key_codec_ok E" "log_codec_ok L" "keys_loadable E"
    and sound: "sound_bundles E K (lf_bundles (log_of (ms @ ms')))" and keys: "own_keys E (log_of (ms @ ms'))"
    and fl: "ls_file s = concat (map (lx_ser L) (ms @ ms'))" "ls_pos s = length (concat (map (lx_ser L) ms))"
      "ls_processed s = ls_pos s" "\<not> ls_closed s"
    and m: "in_step E (log_of ms) (ls_mem s)" and w: "in_step E (log_of (ms @ ms')) w" and now: "clock_in_range now"
  obtains n s' where "log_refresh_helper E L now False s = (Inr n, s')" "at_end s'" "ls_file s' = ls_file s"
    "ls_flocked s' = ls_flocked s" "ls_busy s' = ls_busy s" "in_step E (log_of (ms @ ms')) (ls_mem s')"
    "alike w (ls_mem s')"
proof -
  let ?f = "log_of ms" and ?g = "log_of ms'"
  have parse: "lx_parse L (concat (map (lx_ser L) ms')) = Inr ?g"
    using laws(3) by (simp add: log_codec_ok_def log_of_def)
  obtain m' where m': "receive_all E (map (Pair now) (lf_bundles ?g)) (ls_mem s) = Some m'" "alike w m'"
    "st_claims m' = st_claims (ls_mem s)" "st_signing_keys m' = st_signing_keys (ls_mem s)"
    using accepts_appended [OF laws(1,2) _ m _ now, of K ?g w] sound w by (auto simp: log_of_append)
  have read: "drop (ls_pos s) (ls_file s) = concat (map (lx_ser L) ms')" using fl by simp
  let ?m = "m'\<lparr>st_claims := claims_in (lf_claims ?g) (st_claims m'),
      st_signing_keys := keys_in (lf_key_pairs ?g) (st_signing_keys m')\<rparr>"
  have ks: "\<forall>k \<in> set (lf_key_pairs ?g). fst k = x_verify_key E (snd k)"
    using keys by (simp add: own_keys_def log_of_append log_fields ball_Un)
  have a: "alike w ?m" using m'(2) by (simp add: alike_iff)
  have step: "in_step E (log_of (ms @ ms')) ?m"
    using w m a m'(3,4) unfolding in_step_def
    by (auto simp: log_of_append log_fields claims_in_def keys_in_def intro: alike_trans)
  show ?thesis
  proof (cases "concat (map (lx_ser L) ms') = []")
    case True
    then have "?g = empty_log" by (rule serialized_empty [OF laws(3)])
    then have "m' = ls_mem s" "?m = ls_mem s" using m'(1) by (simp_all add: log_fields claims_in_def keys_in_def)
    moreover have "log_refresh_helper E L now False s = (Inr 0, s)"
      using fl True
      by (simp add: log_refresh_helper_def file_tell_def file_read_def if_open_def py_bind_apply py_then_apply py_apply)
    ultimately show ?thesis using that [of 0 s] fl True step a by (simp add: at_end_def)
  next
    case False
    let ?s = "s\<lparr>ls_pos := length (ls_file s)\<rparr>"
    let ?fin = "s\<lparr>ls_mem := ?m, ls_pos := length (ls_file s), ls_processed := length (ls_file s)\<rparr>"
    have each: "py_each (\<lambda>b. py_then (mem_apply E now False b) (py_return ())) (lf_bundles ?g) ?s = (Inr (), ?s\<lparr>ls_mem := m'\<rparr>)"
      using each_apply [of E now "lf_bundles ?g" ?s m'] m'(1) by simp
    have "log_refresh_helper E L now False s = (Inr (length (lf_bundles ?g)), ?fin)"
      using fl False parse each
      by (auto simp: log_refresh_helper_def file_tell_def file_read_def if_open_def py_bind_apply py_then_apply py_apply
          each_claim each_key_pair [OF laws(4) ks] advance_def)
    then show ?thesis using that [of "length (lf_bundles ?g)" ?fin] step a fl by (simp add: at_end_def)
  qed
qed

end
