(* ===== verification/Log_Runs.thy ===== *)
theory Log_Runs
  imports Log_Laws
begin

text \<open>
  A process that opens a new log and writes it, a process that opens what it wrote, and one that had the log open
  while it was written: all three have the same store.
\<close>

section \<open>A process that writes\<close>

datatype log_op =
    LogBundle "int \<Rightarrow> int" int int bool bool bytes
  | LogKey bytes

fun op_clock_ok :: "log_op \<Rightarrow> bool" where
  "op_clock_ok (LogBundle now time pid callback claim b) = clock_in_range now"
| "op_clock_ok (LogKey sk) = True"

fun run_log :: "ext \<Rightarrow> log_ext \<Rightarrow> log_op list \<Rightarrow> log_store \<Rightarrow> log_store option" where
  "run_log E L [] s = Some s"
| "run_log E L (LogBundle now time pid callback claim b # ops) s =
    (case log_apply_bundle E L now time pid callback claim b s of (Inr _, s') \<Rightarrow> run_log E L ops s' | _ \<Rightarrow> None)"
| "run_log E L (LogKey sk # ops) s =
    (case log_save_signing_key E L sk s of (Inr _, s') \<Rightarrow> run_log E L ops s' | _ \<Rightarrow> None)"

text \<open>The handle between two operations: the file is the messages \<open>ms\<close>, and all of it has been read.\<close>

definition settled :: "ext \<Rightarrow> log_ext \<Rightarrow> log_file list \<Rightarrow> log_store \<Rightarrow> bool" where
  "settled E L ms s \<longleftrightarrow> at_end s \<and> \<not> ls_busy s \<and> \<not> ls_flocked s \<and> ls_file s = concat (map (lx_ser L) ms) \<and>
    own_keys E (log_of ms)"

lemma refresh_nothing:
  assumes "at_end s"
  shows "log_refresh_helper E L now callback s = (Inr 0, s)"
proof -
  have "s\<lparr>ls_pos := length (ls_file s)\<rparr> = s" using assms by (cases s) (simp add: at_end_def)
  then show ?thesis
    using assms
    by (simp add: at_end_def log_refresh_helper_def file_tell_def file_read_def if_open_def py_bind_apply py_then_apply py_apply)
qed

lemmas log_ops = py_bind_apply py_then_apply py_apply py_when_apply file_lock_def if_open_def set_flocked_def
  mem_apply_def in_mem_def py_zoom_def append_log_def file_write_def advance_def call_bundle_def keep_claim_def

text \<open>An exception while the store applies the bundle leaves the file locked.\<close>

lemma refused_stays_locked:
  assumes "at_end s" "\<not> ls_busy s" "\<not> ls_flocked s" "apply_bundle E now b (ls_mem s) = (Inl x, m)"
  shows "log_apply_bundle E L now time pid callback claim b s = (Inl x, s\<lparr>ls_flocked := True, ls_mem := m\<rparr>)"
proof -
  have "at_end (s\<lparr>ls_flocked := True\<rparr>)" using assms(1) by (simp add: at_end_def)
  from refresh_nothing [OF this] show ?thesis
    using assms by (simp add: log_apply_bundle_def log_ops at_end_def)
qed

lemma unneeded_unwritten:
  assumes "at_end s" "\<not> ls_busy s" "\<not> ls_flocked s" "apply_bundle E now b (ls_mem s) = (Inr False, m)"
  shows "log_apply_bundle E L now time pid callback claim b s = (Inr False, s\<lparr>ls_mem := m\<rparr>)"
proof -
  have "at_end (s\<lparr>ls_flocked := True\<rparr>)" using assms(1) by (simp add: at_end_def)
  from refresh_nothing [OF this] show ?thesis
    using assms by (cases s) (simp add: log_apply_bundle_def log_ops at_end_def)
qed

lemma added_appended:
  fixes claim time pid i b
  defines "cs \<equiv> if claim then [create_claim time pid (get_chain i)] else []"
  defines "data \<equiv> \<lambda>L. lx_ser L (empty_log\<lparr>lf_bundles := [b], lf_claims := cs\<rparr>)"
  assumes at: "at_end s" "\<not> ls_busy s" "\<not> ls_flocked s" and run: "apply_bundle E now b (ls_mem s) = (Inr True, m)"
    and i: "get_info E b = Inr i"
  shows "log_apply_bundle E L now time pid callback claim b s =
    (Inr True, s\<lparr>ls_mem := m\<lparr>st_claims := claims_in cs (st_claims m)\<rparr>, ls_file := ls_file s @ data L,
      ls_pos := length (ls_file s @ data L), ls_processed := length (ls_file s @ data L),
      ls_called := ls_called s @ (if callback then [b] else [])\<rparr>)"
proof -
  have "at_end (s\<lparr>ls_flocked := True\<rparr>)" using at(1) by (simp add: at_end_def)
  from refresh_nothing [OF this] show ?thesis
    using at run i
    by (cases s) (auto simp: log_apply_bundle_def log_ops at_end_def Let_def cs_def data_def claims_in_def)
qed

lemma apply_settled:
  assumes s: "settled E L ms s" and run: "log_apply_bundle E L now time pid callback claim b s = (Inr added, s')"
  obtains m where "apply_bundle E now b (ls_mem s) = (Inr False, m)" "ls_mem s' = m" "settled E L ms s'" "\<not> added"
  | m cs where "apply_bundle E now b (ls_mem s) = (Inr True, m)" "added"
      "ls_mem s' = m\<lparr>st_claims := claims_in cs (st_claims m)\<rparr>"
      "settled E L (ms @ [empty_log\<lparr>lf_bundles := [b], lf_claims := cs\<rparr>]) s'"
proof -
  have at: "at_end s" "\<not> ls_busy s" "\<not> ls_flocked s" using s by (simp_all add: settled_def)
  consider x m where "apply_bundle E now b (ls_mem s) = (Inl x, m)" | m where "apply_bundle E now b (ls_mem s) = (Inr False, m)"
    | m where "apply_bundle E now b (ls_mem s) = (Inr True, m)"
    by (cases "apply_bundle E now b (ls_mem s)") (metis (full_types) old.sum.exhaust)
  then show ?thesis
  proof cases
    case 1
    then show ?thesis using run refused_stays_locked [OF at 1] by simp
  next
    case (2 m)
    have "s' = s\<lparr>ls_mem := m\<rparr>" "\<not> added" using run unneeded_unwritten [OF at 2] by simp_all
    then show ?thesis using that(1) [OF 2] s by (simp add: settled_def at_end_def)
  next
    case (3 m)
    obtain i where i: "get_info E b = Inr i" using apply_bundle_needed [OF 3] by blast
    let ?cs = "if claim then [create_claim time pid (get_chain i)] else []"
    have "settled E L (ms @ [empty_log\<lparr>lf_bundles := [b], lf_claims := ?cs\<rparr>]) s'"
      "ls_mem s' = m\<lparr>st_claims := claims_in ?cs (st_claims m)\<rparr>" added
      using run added_appended [OF at 3 i] s
      by (auto simp: settled_def at_end_def own_keys_def log_of_append log_of_Cons log_fields)
    then show ?thesis using that(2) [OF 3] by blast
  qed
qed

lemma save_settled:
  assumes s: "settled E L ms s" and run: "log_save_signing_key E L sk s = (Inr u, s')"
  shows "ls_mem s' = (ls_mem s)\<lparr>st_signing_keys := keys_in [(x_verify_key E sk, sk)] (st_signing_keys (ls_mem s))\<rparr>"
    "settled E L (ms @ [empty_log\<lparr>lf_key_pairs := [(x_verify_key E sk, sk)]\<rparr>]) s'"
proof -
  have "s' = s\<lparr>ls_mem := (ls_mem s)\<lparr>st_signing_keys := dput (x_verify_key E sk) sk (st_signing_keys (ls_mem s))\<rparr>,
      ls_file := ls_file s @ lx_ser L (empty_log\<lparr>lf_key_pairs := [(x_verify_key E sk, sk)]\<rparr>),
      ls_pos := length (ls_file s @ lx_ser L (empty_log\<lparr>lf_key_pairs := [(x_verify_key E sk, sk)]\<rparr>)),
      ls_processed := ls_processed s + length (lx_ser L (empty_log\<lparr>lf_key_pairs := [(x_verify_key E sk, sk)]\<rparr>))\<rparr>"
    using run s
    by (auto simp: log_save_signing_key_def append_log_def file_write_def if_open_def advance_def in_mem_def py_zoom_def
        save_signing_key_def py_then_apply py_apply settled_def at_end_def)
  then show "ls_mem s' = (ls_mem s)\<lparr>st_signing_keys := keys_in [(x_verify_key E sk, sk)] (st_signing_keys (ls_mem s))\<rparr>"
    "settled E L (ms @ [empty_log\<lparr>lf_key_pairs := [(x_verify_key E sk, sk)]\<rparr>]) s'"
    using s by (simp_all add: keys_in_def settled_def at_end_def own_keys_def log_of_append log_of_Cons log_fields empty_log_def
        ball_Un)
qed

lemma in_step_bundle:
  assumes E: "scans_ok E" "key_codec_ok E" and m: "in_step E f m" and now: "clock_in_range now"
    and sound: "sound_bundles E K (lf_bundles f @ [b])" and run: "apply_bundle E now b m = (Inr True, m')"
  shows "in_step E (merge_log f (empty_log\<lparr>lf_bundles := [b], lf_claims := cs\<rparr>)) (m'\<lparr>st_claims := claims_in cs (st_claims m')\<rparr>)"
proof -
  obtain rs m0 where rs: "map snd rs = lf_bundles f" "\<forall>r \<in> set rs. clock_in_range (fst r)"
    "receive_all E rs (empty_store True) = Some m0" "alike m0 m"
    "st_claims m = claims_in (lf_claims f) []" "st_signing_keys m = keys_in (lf_key_pairs f) []"
    using m by (auto simp: in_step_def)
  have h: "holds E K (all_changes E (lf_bundles f)) m"
    by (rule in_step_holds [OF E(2) sound_prefix [OF sound] m])
  have b: "plain_bundle E b" "\<forall>d \<in> set (all_changes E (lf_bundles f) @ changes_of E b). in_order K d"
    "distinct (map change_address_of (all_changes E (lf_bundles f) @ changes_of E b))"
    using sound by (simp_all add: sound_bundles_def all_changes_def)
  obtain m1 where m1: "apply_bundle E now b m0 = (Inr True, m1)" "alike m' m1"
    using bundle_replayed(1) [OF E h alike_sym [OF rs(4)] b now now run] by blast
  have "receive_all E (rs @ [(now, b)]) (empty_store True) = Some m1" using rs(3) m1(1) by (simp add: receive_all_app)
  moreover have "alike m1 (m'\<lparr>st_claims := claims_in cs (st_claims m')\<rparr>)" using alike_sym [OF m1(2)] by (simp add: alike_iff)
  moreover have "st_claims m' = st_claims m" "st_signing_keys m' = st_signing_keys m" using apply_bundle_keys [OF run] .
  ultimately show ?thesis
    unfolding in_step_def
    using rs(1,2,5,6) now
    by (intro conjI exI [of _ "rs @ [(now, b)]"] exI [of _ m1]) (auto simp: merge_log_def empty_log_def claims_in_def keys_in_def)
qed

lemma in_step_key:
  "in_step E f m \<Longrightarrow> in_step E (merge_log f (empty_log\<lparr>lf_key_pairs := ks\<rparr>))
    (m\<lparr>st_signing_keys := keys_in ks (st_signing_keys m)\<rparr>)"
  unfolding in_step_def by (fastforce simp: merge_log_def empty_log_def keys_in_def alike_iff)

lemma apply_unneeded_same: "apply_bundle E now b s = (Inr False, s') \<Longrightarrow> s' = s"
  by (erule apply_bundle_needed) simp

lemma sound_log_prefix:
  "sound_bundles E K (lf_bundles (log_of (ms @ ms'))) \<Longrightarrow> sound_bundles E K (lf_bundles (log_of ms))"
  using sound_prefix [of E K "lf_bundles (log_of ms)"] by (simp add: log_of_append log_fields)

lemma run_log_settled:
  "run_log E L ops s = Some s' \<Longrightarrow> settled E L ms s \<Longrightarrow> scans_ok E \<Longrightarrow> key_codec_ok E \<Longrightarrow>
    \<exists>ms'. settled E L (ms @ ms') s' \<and>
      ((\<exists>K. sound_bundles E K (lf_bundles (log_of (ms @ ms')))) \<longrightarrow> (\<forall>p \<in> set ops. op_clock_ok p) \<longrightarrow>
        in_step E (log_of ms) (ls_mem s) \<longrightarrow> in_step E (log_of (ms @ ms')) (ls_mem s'))"
proof (induction E L ops s arbitrary: ms rule: run_log.induct)
  case (1 E L s)
  then show ?case by (intro exI [of _ "[]"]) simp
next
  case (2 E L now time pid callback claim b ops s)
  obtain added s1 where s1: "log_apply_bundle E L now time pid callback claim b s = (Inr added, s1)"
    "run_log E L ops s1 = Some s'"
    using "2.prems"(1) by (auto split: prod.splits sum.splits)
  note IH = "2.IH" [OF s1(1) [symmetric] refl s1(2)]
  show ?case
  proof (rule apply_settled [OF "2.prems"(2) s1(1)])
    fix m assume "apply_bundle E now b (ls_mem s) = (Inr False, m)" "ls_mem s1 = m" "settled E L ms s1"
    with apply_unneeded_same IH [of ms] "2.prems"(3,4) show ?thesis by fastforce
  next
    fix m cs
    assume m: "apply_bundle E now b (ls_mem s) = (Inr True, m)" "ls_mem s1 = m\<lparr>st_claims := claims_in cs (st_claims m)\<rparr>"
      "settled E L (ms @ [empty_log\<lparr>lf_bundles := [b], lf_claims := cs\<rparr>]) s1"
    let ?m = "empty_log\<lparr>lf_bundles := [b], lf_claims := cs\<rparr>"
    obtain ms' where ms': "settled E L (ms @ ?m # ms') s'"
      "(\<exists>K. sound_bundles E K (lf_bundles (log_of (ms @ ?m # ms')))) \<longrightarrow> (\<forall>p \<in> set ops. op_clock_ok p) \<longrightarrow>
        in_step E (log_of (ms @ [?m])) (ls_mem s1) \<longrightarrow> in_step E (log_of (ms @ ?m # ms')) (ls_mem s')"
      using IH [OF m(3) "2.prems"(3,4)] by (simp only: append_assoc append_Cons append_Nil) blast
    have "in_step E (log_of (ms @ [?m])) (ls_mem s1)"
      if "sound_bundles E K (lf_bundles (log_of (ms @ ?m # ms')))" "clock_in_range now" "in_step E (log_of ms) (ls_mem s)" for K
    proof -
      have "sound_bundles E K (lf_bundles (log_of ms) @ [b])"
        using sound_log_prefix [of E K "ms @ [?m]" ms'] that(1) by (simp add: log_of_append log_of_Cons log_fields)
      from in_step_bundle [OF "2.prems"(3,4) that(3,2) this m(1), of cs] show ?thesis
        using m(2) by (simp add: log_of_append log_of_Cons)
    qed
    with ms' show ?thesis by (intro exI [of _ "?m # ms'"]) auto
  qed
next
  case (3 E L sk ops s)
  obtain u s1 where s1: "log_save_signing_key E L sk s = (Inr u, s1)" "run_log E L ops s1 = Some s'"
    using "3.prems"(1) by (auto split: prod.splits sum.splits)
  let ?m = "empty_log\<lparr>lf_key_pairs := [(x_verify_key E sk, sk)]\<rparr>"
  note m = save_settled [OF "3.prems"(2) s1(1)]
  obtain ms' where ms': "settled E L (ms @ ?m # ms') s'"
    "(\<exists>K. sound_bundles E K (lf_bundles (log_of (ms @ ?m # ms')))) \<longrightarrow> (\<forall>p \<in> set ops. op_clock_ok p) \<longrightarrow>
      in_step E (log_of (ms @ [?m])) (ls_mem s1) \<longrightarrow> in_step E (log_of (ms @ ?m # ms')) (ls_mem s')"
    using "3.IH" [OF s1(1) [symmetric] refl s1(2) m(2) "3.prems"(3,4)] by (simp only: append_assoc append_Cons append_Nil) blast
  have "in_step E (log_of (ms @ [?m])) (ls_mem s1)" if "in_step E (log_of ms) (ls_mem s)"
    using in_step_key [OF that, of "[(x_verify_key E sk, sk)]"] m(1) by (simp add: log_of_append log_of_Cons)
  with ms' show ?case by (intro exI [of _ "?m # ms'"]) auto
qed

section \<open>Opening the file\<close>

lemma in_step_empty: "in_step E empty_log (empty_store True)"
  unfolding in_step_def by (intro conjI exI [of _ "[]"] exI [of _ "empty_store True"])
    (simp_all add: empty_log_def claims_in_def keys_in_def empty_store_def)

abbreviation magic_log :: log_file where
  "magic_log \<equiv> empty_log\<lparr>lf_magic := 1263421767\<rparr>"

lemma open_new:
  assumes "log_codec_ok L"
  obtains s where "open_log E L now [] False False False = (Inr (), s)" "settled E L [magic_log] s"
    "in_step E (log_of [magic_log]) (ls_mem s)"
proof -
  let ?s = "(opened (lx_ser L magic_log) False False)\<lparr>ls_processed := length (lx_ser L magic_log)\<rparr>"
  have "open_log E L now [] False False False = (Inr (), ?s)"
    by (simp add: open_log_def log_init_def opened_def log_ops log_acquire_lock_def log_release_lock_def file_seek_end_def
        file_tell_def)
  moreover have "settled E L [magic_log] ?s"
    by (simp add: settled_def at_end_def opened_def own_keys_def log_of_Cons log_fields)
  moreover have "in_step E (log_of [magic_log]) (ls_mem ?s)"
    using in_step_empty [of E] by (simp add: in_step_def opened_def log_of_Cons)
  ultimately show ?thesis by (rule that)
qed

lemma open_again:
  assumes laws: "scans_ok E" "key_codec_ok E" "log_codec_ok L" "keys_loadable E"
    and s: "settled E L ms s" "ms \<noteq> []" "hd ms = magic_log" "in_step E (log_of ms) (ls_mem s)"
    and sound: "sound_bundles E K (lf_bundles (log_of ms))" and now: "clock_in_range now"
  obtains s' where "open_log E L now (ls_file s) False False False = (Inr (), s')" "settled E L ms s'"
    "in_step E (log_of ms) (ls_mem s')" "alike (ls_mem s) (ls_mem s')"
proof -
  let ?o = "(opened (ls_file s) False False)\<lparr>ls_flocked := True, ls_pos := 0\<rparr>"
  have fl: "ls_file ?o = concat (map (lx_ser L) ([] @ ms))" using s(1) by (simp add: opened_def settled_def)
  have "concat (map (lx_ser L) ms) \<noteq> []"
    using laws(3) s(2,3) by (cases ms) (auto simp: log_codec_ok_def empty_log_def)
  then have ne: "ls_file s \<noteq> []" using s(1) by (simp add: settled_def)
  have keys: "own_keys E (log_of ms)" using s(1) by (simp add: settled_def)
  obtain n s' where s': "log_refresh_helper E L now False ?o = (Inr n, s')" "at_end s'" "ls_file s' = ls_file ?o"
    "ls_flocked s' = ls_flocked ?o" "ls_busy s' = ls_busy ?o" "in_step E (log_of ms) (ls_mem s')" "alike (ls_mem s) (ls_mem s')"
    by (rule refresh_appended [OF laws _ _ fl, of K "ls_mem s" now])
      (use sound keys s(4) now in_step_empty in \<open>simp_all add: opened_def\<close>)
  have "open_log E L now (ls_file s) False False False = (Inr (), s'\<lparr>ls_flocked := False\<rparr>)"
    using s'(1,4) ne
    by (simp add: open_log_def log_init_def opened_def log_ops log_acquire_lock_def log_release_lock_def file_seek_end_def
        file_tell_def file_seek_def)
  moreover have "settled E L ms (s'\<lparr>ls_flocked := False\<rparr>)"
    using s'(2,3,5) s(1) by (simp add: settled_def at_end_def opened_def)
  ultimately show ?thesis using that s'(6,7) by simp
qed

text \<open>Opening with \<open>reset\<close> truncates at the position of the handle, which is the end.\<close>

lemma reset_keeps_everything: "open_log E L now data False True False = open_log E L now data False False False"
  by (simp add: open_log_def log_init_def log_ops log_acquire_lock_def file_truncate_def opened_def)

lemma in_step_same:
  "in_step E f m \<Longrightarrow> in_step E f m' \<Longrightarrow> st_claims m = st_claims m' \<and> st_signing_keys m = st_signing_keys m'"
  by (simp add: in_step_def)

lemma parse_settled: "log_codec_ok L \<Longrightarrow> settled E L ms s \<Longrightarrow> lx_parse L (ls_file s) = Inr f \<Longrightarrow> f = log_of ms"
  by (simp add: log_codec_ok_def settled_def log_of_def)

lemma written_from_new:
  assumes laws: "scans_ok E" "key_codec_ok E" "log_codec_ok L"
    and run: "run_log E L ops (snd (open_log E L now0 [] False False False)) = Some s"
    and clocks: "\<forall>p \<in> set ops. op_clock_ok p"
  obtains ms where "settled E L (magic_log # ms) s"
    "(\<exists>K. sound_bundles E K (lf_bundles (log_of (magic_log # ms)))) \<longrightarrow> in_step E (log_of (magic_log # ms)) (ls_mem s)"
proof -
  obtain s0 where s0: "open_log E L now0 [] False False False = (Inr (), s0)" "settled E L [magic_log] s0"
    "in_step E (log_of [magic_log]) (ls_mem s0)" by (rule open_new [OF laws(3)])
  have "run_log E L ops s0 = Some s" using run s0(1) by simp
  from run_log_settled [OF this s0(2) laws(1,2)] obtain ms where ms: "settled E L (magic_log # ms) s"
    "(\<exists>K. sound_bundles E K (lf_bundles (log_of (magic_log # ms)))) \<longrightarrow> (\<forall>p \<in> set ops. op_clock_ok p) \<longrightarrow>
      in_step E (log_of [magic_log]) (ls_mem s0) \<longrightarrow> in_step E (log_of (magic_log # ms)) (ls_mem s)"
    by (simp only: append_Cons append_Nil) blast
  from ms(2) s0(3) clocks show ?thesis by (intro that [OF ms(1)]) blast
qed

lemma reopened:
  assumes laws: "scans_ok E" "key_codec_ok E" "log_codec_ok L" "keys_loadable E"
    and run: "run_log E L ops (snd (open_log E L now0 [] False False False)) = Some s"
    and clocks: "\<forall>p \<in> set ops. op_clock_ok p" "clock_in_range now"
    and sound: "lx_parse L (ls_file s) = Inr f" "sound_bundles E K (lf_bundles f)"
  shows "\<exists>s'. open_log E L now (ls_file s) False False False = (Inr (), s') \<and> ls_file s' = ls_file s \<and> at_end s' \<and>
    alike (ls_mem s) (ls_mem s') \<and> st_claims (ls_mem s) = st_claims (ls_mem s') \<and>
    st_signing_keys (ls_mem s) = st_signing_keys (ls_mem s')"
proof -
  obtain ms where ms: "settled E L (magic_log # ms) s"
    "(\<exists>K. sound_bundles E K (lf_bundles (log_of (magic_log # ms)))) \<longrightarrow> in_step E (log_of (magic_log # ms)) (ls_mem s)"
    by (rule written_from_new [OF laws(1-3) run clocks(1)])
  have f: "f = log_of (magic_log # ms)" by (rule parse_settled [OF laws(3) ms(1) sound(1)])
  have w: "in_step E (log_of (magic_log # ms)) (ls_mem s)" using ms(2) sound(2) f by blast
  obtain s' where "open_log E L now (ls_file s) False False False = (Inr (), s')" "settled E L (magic_log # ms) s'"
    "in_step E (log_of (magic_log # ms)) (ls_mem s')" "alike (ls_mem s) (ls_mem s')"
    by (rule open_again [OF laws ms(1) _ _ w]) (use sound f clocks in auto)
  then show ?thesis using in_step_same [OF w] ms(1) by (auto simp: settled_def)
qed

section \<open>A process that reads what another writes\<close>

lemma query_appended:
  assumes laws: "scans_ok E" "key_codec_ok E" "log_codec_ok L" "keys_loadable E"
    and r: "settled E L ms r" "in_step E (log_of ms) (ls_mem r)"
    and w: "settled E L (ms @ ms') s" "in_step E (log_of (ms @ ms')) (ls_mem s)"
    and sound: "sound_bundles E K (lf_bundles (log_of (ms @ ms')))" and now: "clock_in_range now"
    and q: "\<And>m m'. alike m m' \<Longrightarrow> q m = q m'"
  shows "fst (log_query E L now q (r\<lparr>ls_file := ls_file s\<rparr>)) = q (ls_mem s)"
proof -
  let ?r = "r\<lparr>ls_file := ls_file s\<rparr>"
  let ?o = "r\<lparr>ls_file := ls_file s, ls_flocked := True\<rparr>"
  have fl: "ls_file ?o = concat (map (lx_ser L) (ms @ ms'))" using w(1) by (simp add: settled_def)
  have pos: "ls_pos ?o = length (concat (map (lx_ser L) ms))" "ls_processed ?o = ls_pos ?o" "\<not> ls_closed ?o" "\<not> ls_busy r"
    "\<not> ls_flocked r"
    using r(1) by (simp_all add: settled_def at_end_def)
  have keys: "own_keys E (log_of (ms @ ms'))" using w(1) by (simp add: settled_def)
  obtain n r' where r': "log_refresh_helper E L now False ?o = (Inr n, r')" "alike (ls_mem s) (ls_mem r')"
  proof (rule refresh_appended [OF laws sound keys fl pos(1-3) _ w(2) now])
    show "in_step E (log_of ms) (ls_mem ?o)" using r(2) by simp
  qed (rule that)
  show ?thesis
  proof (cases "length (ls_file s) = length (ls_file r)")
    case True
    have "at_end r" using r(1) by (simp add: settled_def)
    with True have "at_end ?o" by (simp add: at_end_def)
    from trans [OF r'(1) [symmetric] refresh_nothing [OF this]] have "r' = ?o" by (simp only: prod.inject)
    then have "alike (ls_mem s) (ls_mem r)" using r'(2) by simp
    moreover have "log_query E L now q ?r = (q (ls_mem r), ?r)"
      using True r(1) by (cases r) (auto simp: log_query_def log_maybe_refresh_def log_ops file_tell_def file_seek_end_def
          settled_def at_end_def)
    ultimately show ?thesis using q by simp
  next
    case False
    have "?r\<lparr>ls_pos := ls_processed r, ls_flocked := True\<rparr> = ?o" using pos by (cases r) simp
    then have "log_query E L now q ?r = (q (ls_mem r'), r'\<lparr>ls_flocked := False\<rparr>)"
      using False r'(1) r(1)
      by (cases r) (auto simp: log_query_def log_maybe_refresh_def log_ops file_tell_def file_seek_end_def file_seek_def
          settled_def at_end_def)
    then show ?thesis using q [OF r'(2)] by simp
  qed
qed

lemma followed:
  assumes laws: "scans_ok E" "key_codec_ok E" "log_codec_ok L" "keys_loadable E"
    and run: "run_log E L ops (snd (open_log E L now0 [] False False False)) = Some s1" "run_log E L ops' s1 = Some s2"
    and clocks: "\<forall>p \<in> set (ops @ ops'). op_clock_ok p" "clock_in_range now1" "clock_in_range now2"
    and sound: "lx_parse L (ls_file s2) = Inr f" "sound_bundles E K (lf_bundles f)"
    and reader: "open_log E L now1 (ls_file s1) False False False = (opened_as, r)"
    and q: "\<And>m m'. alike m m' \<Longrightarrow> q m = q m'"
  shows "fst (log_query E L now2 q (r\<lparr>ls_file := ls_file s2\<rparr>)) = q (ls_mem s2)"
proof -
  obtain ms where ms: "settled E L (magic_log # ms) s1"
    "(\<exists>K. sound_bundles E K (lf_bundles (log_of (magic_log # ms)))) \<longrightarrow> in_step E (log_of (magic_log # ms)) (ls_mem s1)"
    by (rule written_from_new [OF laws(1-3) run(1)]) (use clocks(1) in auto)
  obtain ms' where ms': "settled E L ((magic_log # ms) @ ms') s2"
    "(\<exists>K. sound_bundles E K (lf_bundles (log_of ((magic_log # ms) @ ms')))) \<longrightarrow> (\<forall>p \<in> set ops'. op_clock_ok p) \<longrightarrow>
      in_step E (log_of (magic_log # ms)) (ls_mem s1) \<longrightarrow> in_step E (log_of ((magic_log # ms) @ ms')) (ls_mem s2)"
    using run_log_settled [OF run(2) ms(1) laws(1,2)] by blast
  have f: "f = log_of ((magic_log # ms) @ ms')" by (rule parse_settled [OF laws(3) ms'(1) sound(1)])
  have all: "sound_bundles E K (lf_bundles (log_of ((magic_log # ms) @ ms')))" using sound(2) f by simp
  note part = sound_log_prefix [OF all]
  have w1: "in_step E (log_of (magic_log # ms)) (ls_mem s1)" using ms(2) part by blast
  have w2: "in_step E (log_of ((magic_log # ms) @ ms')) (ls_mem s2)" using ms'(2) all w1 clocks(1) by auto
  obtain r' where r': "open_log E L now1 (ls_file s1) False False False = (Inr (), r')" "settled E L (magic_log # ms) r'"
    "in_step E (log_of (magic_log # ms)) (ls_mem r')"
    by (rule open_again [OF laws ms(1) _ _ w1 part clocks(2)]) simp_all
  have "r = r'" using r'(1) reader by simp
  then show ?thesis using query_appended [OF laws r'(2,3) ms'(1) w2 all clocks(3) q] by simp
qed

end
