(* ===== verification/Log_Recovery.thy ===== *)
theory Log_Recovery
  imports Log_Runs Demo
begin

text \<open>
  Two processes over one log: what the file keeps, and what an exception does to its lock. A format for the messages of the log, in which the theorems about the log are exercised: every field is a tag
  and a text, whose bytes are escaped by a 1 and which a 0 ends.
\<close>

section \<open>Fields\<close>

definition end_field :: "bytes \<Rightarrow> bytes" where
  "end_field f = concat (map (\<lambda>b. [1, b]) f) @ [0]"

fun split_fields :: "bytes \<Rightarrow> bytes list" where
  "split_fields [] = []"
| "split_fields [b] = (if b = 0 then [[]] else [])"
| "split_fields (b # c # r) =
    (if b = 0 then [] # split_fields (c # r)
     else (case split_fields r of [] \<Rightarrow> [[c]] | f # fs \<Rightarrow> (c # f) # fs))"

lemma split_end_field: "split_fields (end_field f @ r) = f # split_fields r"
proof (induction f)
  case Nil
  show ?case by (cases r) (simp_all add: end_field_def)
qed (simp add: end_field_def)

lemma split_fields_all: "split_fields (concat (map end_field fs)) = fs"
  by (induction fs) (simp_all add: split_end_field)

function int_digits :: "int \<Rightarrow> bytes" where
  "int_digits n = (if n \<le> 0 then [] else word_of_int n # int_digits (n div 256))"
  by auto
termination by (relation "measure nat") auto

declare int_digits.simps [simp del]

definition digits_int :: "bytes \<Rightarrow> int" where
  "digits_int ds = foldr (\<lambda>b n. uint b + 256 * n) ds 0"

lemma digits_int_digits: "digits_int (int_digits n) = max 0 n"
proof (induction n rule: int_digits.induct)
  case (1 n)
  show ?case
  proof (cases "n \<le> 0")
    case True
    then show ?thesis by (simp add: int_digits.simps [of n] digits_int_def)
  next
    case False
    have "digits_int (int_digits n) = n mod 256 + 256 * digits_int (int_digits (n div 256))"
      using False by (simp add: int_digits.simps [of n] digits_int_def uint_word_of_int)
    also have "\<dots> = n mod 256 + 256 * (n div 256)" using 1 False by (simp add: div_int_pos_iff max_def)
    finally show ?thesis using False by simp
  qed
qed

definition field_of_int :: "int \<Rightarrow> bytes" where
  "field_of_int n = (if n < 0 then 1 else 0) # int_digits \<bar>n\<bar>"

fun int_of_field :: "bytes \<Rightarrow> int result" where
  "int_of_field [] = Inl ValueError"
| "int_of_field (s # ds) = Inr (if s = 0 then digits_int ds else - digits_int ds)"

lemma int_of_field_of_int [simp]: "int_of_field (field_of_int n) = Inr n"
  by (simp add: field_of_int_def digits_int_digits)

section \<open>Messages\<close>

definition claim_field :: "claim \<Rightarrow> bytes" where
  "claim_field c = 3 # concat (map end_field (map field_of_int
     [cm_medallion c, cm_chain_start c, cm_process_id c, cm_claim_time c]))"

definition read_claim :: "bytes \<Rightarrow> claim result" where
  "read_claim f = (case map int_of_field (split_fields f) of
     [Inr m, Inr s, Inr p, Inr t] \<Rightarrow> Inr \<lparr>cm_medallion = m, cm_chain_start = s, cm_process_id = p, cm_claim_time = t\<rparr>
   | _ \<Rightarrow> Inl ValueError)"

definition key_field :: "bytes \<times> bytes \<Rightarrow> bytes" where
  "key_field k = 4 # concat (map end_field [fst k, snd k])"

definition read_key :: "bytes \<Rightarrow> (bytes \<times> bytes) result" where
  "read_key f = (case split_fields f of [v, s] \<Rightarrow> Inr (v, s) | _ \<Rightarrow> Inl ValueError)"

definition log_fields_of :: "log_file \<Rightarrow> bytes list" where
  "log_fields_of m = (if lf_magic m = 0 then [] else [1 # field_of_int (lf_magic m)]) @ map (Cons 2) (lf_bundles m) @
     map claim_field (lf_claims m) @ map key_field (lf_key_pairs m)"

fun read_field :: "bytes \<Rightarrow> log_file result" where
  "read_field [] = Inl ValueError"
| "read_field (t # f) =
    (if t = 1 then bindr (int_of_field f) (\<lambda>n. Inr (empty_log\<lparr>lf_magic := n\<rparr>))
     else if t = 2 then Inr (empty_log\<lparr>lf_bundles := [f]\<rparr>)
     else if t = 3 then bindr (read_claim f) (\<lambda>c. Inr (empty_log\<lparr>lf_claims := [c]\<rparr>))
     else bindr (read_key f) (\<lambda>k. Inr (empty_log\<lparr>lf_key_pairs := [k]\<rparr>)))"

fun read_fields :: "bytes list \<Rightarrow> log_file result" where
  "read_fields [] = Inr empty_log"
| "read_fields (f # fs) = bindr (read_field f) (\<lambda>m. bindr (read_fields fs) (\<lambda>n. Inr (merge_log m n)))"

definition demo_log :: log_ext where
  "demo_log = \<lparr>lx_ser = (\<lambda>m. concat (map end_field (log_fields_of m))), lx_parse = (\<lambda>bs. read_fields (split_fields bs))\<rparr>"

section \<open>Messages are read back\<close>

lemma read_bundles: "read_fields fs = Inr m \<Longrightarrow>
    read_fields (map (Cons 2) bs @ fs) = Inr (merge_log (empty_log\<lparr>lf_bundles := bs\<rparr>) m)"
  by (induction bs) (simp_all add: merge_log_def empty_log_def)

lemma read_claim_field: "read_field (claim_field c) = Inr (empty_log\<lparr>lf_claims := [c]\<rparr>)"
  unfolding claim_field_def read_field.simps read_claim_def by (simp only: split_fields_all) simp

lemma read_key_field: "read_field (key_field k) = Inr (empty_log\<lparr>lf_key_pairs := [k]\<rparr>)"
  unfolding key_field_def read_field.simps read_key_def by (simp only: split_fields_all) simp

lemma read_claims: "read_fields fs = Inr m \<Longrightarrow>
    read_fields (map claim_field cs @ fs) = Inr (merge_log (empty_log\<lparr>lf_claims := cs\<rparr>) m)"
  by (induction cs) (simp_all add: merge_log_def empty_log_def read_claim_field)

lemma read_keys: "read_fields fs = Inr m \<Longrightarrow>
    read_fields (map key_field ks @ fs) = Inr (merge_log (empty_log\<lparr>lf_key_pairs := ks\<rparr>) m)"
  by (induction ks) (simp_all add: merge_log_def empty_log_def read_key_field)

lemma read_message: "read_fields fs = Inr m \<Longrightarrow> read_fields (log_fields_of f @ fs) = Inr (merge_log f m)"
  by (simp add: log_fields_of_def read_bundles read_claims read_keys) (auto simp: merge_log_def empty_log_def)

lemma demo_log_ok: "log_codec_ok demo_log"
proof -
  have "read_fields (concat (map log_fields_of ms)) = Inr (log_of ms)" for ms
    by (induction ms) (simp_all add: read_message log_of_Cons)
  moreover have "concat (map end_field (log_fields_of m)) \<noteq> []" if "m \<noteq> empty_log" for m
  proof -
    have "log_fields_of m \<noteq> []" using that by (cases m) (simp add: log_fields_of_def empty_log_def split: if_splits)
    then show ?thesis by (cases "log_fields_of m") (simp_all add: end_field_def)
  qed
  moreover have "concat (map (\<lambda>m. concat (map end_field (log_fields_of m))) ms) =
      concat (map end_field (concat (map log_fields_of ms)))" for ms
    by (induction ms) simp_all
  ultimately show ?thesis by (simp add: log_codec_ok_def demo_log_def split_fields_all log_of_def)
qed

section \<open>Two processes over one log\<close>

lemma get_entry_alike: "alike m m' \<Longrightarrow> get_entry_by_key E m c k t = get_entry_by_key E m' c k t"
  unfolding get_entry_by_key_def get_time_of_prior_clear_def by (simp only: alike_fields cong: list.case_cong)

lemma run_log_append:
  "run_log E L (ops @ ops') s = (case run_log E L ops s of None \<Rightarrow> None | Some s1 \<Rightarrow> run_log E L ops' s1)"
  by (induction E L ops s rule: run_log.induct) (auto split: prod.splits sum.splits)

definition demo_now :: "int \<Rightarrow> int" where
  "demo_now n = 5000 + n mod 1000"

abbreviation demo_ops :: "log_op list" where
  "demo_ops \<equiv> [LogBundle demo_now 6000 12 False True demo_b1, LogKey [7]]"

abbreviation demo_more :: "log_op list" where
  "demo_more \<equiv> [LogBundle demo_now 7000 12 True False demo_b2]"

abbreviation demo_opened :: log_store where
  "demo_opened \<equiv> snd (open_log demo_ext demo_log demo_now [] False False False)"

lemma demo_now_range: "clock_in_range demo_now"
proof -
  have "n mod 1000 < (1000 :: int)" for n by simp
  then have "n mod 1000 < (4503599627365495 :: int)" for n by (rule less_trans) simp
  then show ?thesis by (simp add: clock_in_range_def demo_now_def time_ok_def muid_consts)
qed

lemma demo_loadable: "keys_loadable demo_ext"
  by (simp add: keys_loadable_def demo_ext_def ref_ext_def)

lemma demo_written: "(case run_log demo_ext demo_log (demo_ops @ demo_more) demo_opened of
    Some s \<Rightarrow> (case lx_parse demo_log (ls_file s) of Inr f \<Rightarrow> lf_bundles f = [demo_b1, demo_b2] | Inl _ \<Rightarrow> False)
  | None \<Rightarrow> False)"
  by code_simp

lemma demo_two_phases:
  obtains s1 s2 f where "run_log demo_ext demo_log demo_ops demo_opened = Some s1" "run_log demo_ext demo_log demo_more s1 = Some s2"
    "run_log demo_ext demo_log (demo_ops @ demo_more) demo_opened = Some s2"
    "lx_parse demo_log (ls_file s2) = Inr f" "lf_bundles f = [demo_b1, demo_b2]"
proof -
  obtain s2 f where s2: "run_log demo_ext demo_log (demo_ops @ demo_more) demo_opened = Some s2"
    "lx_parse demo_log (ls_file s2) = Inr f" "lf_bundles f = [demo_b1, demo_b2]"
    using demo_written by (auto split: option.splits sum.splits)
  then obtain s1 where "run_log demo_ext demo_log demo_ops demo_opened = Some s1" "run_log demo_ext demo_log demo_more s1 = Some s2"
    unfolding run_log_append by (auto simp del: run_log.simps split: option.splits)
  then show ?thesis using that s2 by blast
qed

text \<open>C13: Durability: a process that opens the file that another process wrote, bundle by bundle and key by key, has
  the bundles, entries, placements, totals, claims and keys of the writer, and everything in the file is read.\<close>

lemma log_reopened:
  assumes "scans_ok E" "key_codec_ok E" "log_codec_ok L" "keys_loadable E"
    and "run_log E L ops (snd (open_log E L now0 [] False False False)) = Some s"
    and "\<forall>p \<in> set ops. op_clock_ok p" "clock_in_range now"
    and "lx_parse L (ls_file s) = Inr f" "sound_bundles E K (lf_bundles f)"
  shows "\<exists>s'. open_log E L now (ls_file s) False False False = (Inr (), s') \<and> ls_file s' = ls_file s \<and> at_end s' \<and>
    alike (ls_mem s) (ls_mem s') \<and> st_claims (ls_mem s) = st_claims (ls_mem s') \<and>
    st_signing_keys (ls_mem s) = st_signing_keys (ls_mem s')"
  by (rule reopened [OF assms])

lemma log_reopened_witness:
  "\<exists>s s'. run_log demo_ext demo_log (demo_ops @ demo_more) demo_opened = Some s \<and>
    open_log demo_ext demo_log demo_now (ls_file s) False False False = (Inr (), s') \<and> alike (ls_mem s) (ls_mem s')"
proof (rule demo_two_phases)
  fix s1 s2 f
  assume s2: "run_log demo_ext demo_log (demo_ops @ demo_more) demo_opened = Some s2"
    "lx_parse demo_log (ls_file s2) = Inr f" "lf_bundles f = [demo_b1, demo_b2]"
  have "sound_bundles demo_ext (\<lambda>_. 1) (lf_bundles f)" using demo_sound s2(3) by simp
  from log_reopened [OF demo_scans demo_keys demo_log_ok demo_loadable s2(1) _ demo_now_range s2(2) this]
  show ?thesis using s2(1) demo_now_range by auto
qed

text \<open>C14: Two processes: one that opened the log when the other had done the first part of its work answers, whatever
  the other appended since, a lookup with what the other has now, for it reads the rest of the file first.\<close>

lemma log_followed:
  assumes "scans_ok E" "key_codec_ok E" "log_codec_ok L" "keys_loadable E"
    and "run_log E L ops (snd (open_log E L now0 [] False False False)) = Some s1" "run_log E L ops' s1 = Some s2"
    and "\<forall>p \<in> set (ops @ ops'). op_clock_ok p" "clock_in_range now1" "clock_in_range now2"
    and "lx_parse L (ls_file s2) = Inr f" "sound_bundles E K (lf_bundles f)"
    and "open_log E L now1 (ls_file s1) False False False = (opened_as, r)"
  shows "fst (log_query E L now2 (\<lambda>m. get_entry_by_key E m c k t) (r\<lparr>ls_file := ls_file s2\<rparr>)) =
    get_entry_by_key E (ls_mem s2) c k t"
  using followed [OF assms, of "\<lambda>m. get_entry_by_key E m c k t"] get_entry_alike by blast

lemma log_followed_witness:
  "\<exists>s1 s2. run_log demo_ext demo_log demo_ops demo_opened = Some s1 \<and> run_log demo_ext demo_log demo_more s1 = Some s2 \<and>
    fst (log_query demo_ext demo_log demo_now (\<lambda>m. get_entry_by_key demo_ext m demo_root (MidKey (KStr ''a'')) 9000)
      ((snd (open_log demo_ext demo_log demo_now (ls_file s1) False False False))\<lparr>ls_file := ls_file s2\<rparr>)) =
    get_entry_by_key demo_ext (ls_mem s2) demo_root (MidKey (KStr ''a'')) 9000"
proof (rule demo_two_phases)
  fix s1 s2 f
  assume s: "run_log demo_ext demo_log demo_ops demo_opened = Some s1" "run_log demo_ext demo_log demo_more s1 = Some s2"
    "lx_parse demo_log (ls_file s2) = Inr f" "lf_bundles f = [demo_b1, demo_b2]"
  have "sound_bundles demo_ext (\<lambda>_. 1) (lf_bundles f)" using demo_sound s(4) by simp
  from log_followed [OF demo_scans demo_keys demo_log_ok demo_loadable s(1,2) _ demo_now_range demo_now_range s(3) this]
  show ?thesis using s(1,2) demo_now_range
    by (cases "open_log demo_ext demo_log demo_now (ls_file s1) False False False") auto
qed

text \<open>C27: An exception while a bundle is applied leaves the file locked by this process: it keeps every other process
  out, and its own reads never look at the file again, whatever is in it.\<close>

lemma refused_leaves_lock:
  assumes "at_end s" "\<not> ls_busy s" "\<not> ls_flocked s" "apply_bundle E now b (ls_mem s) = (Inl x, m)"
  shows "\<exists>s'. log_apply_bundle E L now time pid callback claim b s = (Inl x, s') \<and> ls_flocked s' \<and>
    ls_file s' = ls_file s \<and> ls_mem s' = m \<and>
    (\<forall>data. log_maybe_refresh E L later (s'\<lparr>ls_file := data\<rparr>) = (Inr (), s'\<lparr>ls_file := data\<rparr>))"
  using refused_stays_locked [OF assms] by (simp add: log_maybe_refresh_def py_bind_apply py_apply)

lemma refused_leaves_lock_witness:
  "\<exists>s'. log_apply_bundle demo_ext demo_log demo_now 6000 12 False False [1, 2] demo_opened = (Inl ValueError, s') \<and> ls_flocked s'"
proof -
  have "apply_bundle demo_ext demo_now [1, 2] (ls_mem demo_opened) = (Inl ValueError, ls_mem demo_opened)"
    by (simp add: apply_bundle_def py_bind_apply py_apply get_builder_def demo_ext_def)
  moreover have "at_end demo_opened \<and> \<not> ls_busy demo_opened \<and> \<not> ls_flocked demo_opened"
    using open_new [OF demo_log_ok, of demo_ext demo_now] by (metis settled_def snd_conv)
  ultimately show ?thesis
    using refused_leaves_lock [of demo_opened demo_ext demo_now "[1, 2]" ValueError] by blast
qed

end
