(* ===== verification/Spec2Isabelle.thy ===== *)
theory Spec2Isabelle
  imports Lmdb_Reset_Laws Reset_Ends Reset_Defects Key_Sets Graphs Log_Recovery
begin

text \<open>
  Gink is a replicated, versioned database. Every change is part of a signed \<^emph>\<open>bundle\<close>; the bundles of one
  author form a \<^emph>\<open>chain\<close>, in which each carries the hash of the one before. Replicas exchange bundles over
  websockets and derive from them what their containers (directories, boxes, accumulators, sequences, ...)
  hold at any time. This development models the Python implementation, \<open>src/python/gink/impl\<close>.

  \<^bold>\<open>Conventions.\<close> A Python integer is an \<open>int\<close>, a byte string a list of \<open>8 word\<close>, a dictionary an association
  list in insertion order (\<open>dget\<close>, \<open>dput\<close>, \<open>dpop\<close>), an exception a value of \<open>py_error\<close> and a method that
  may raise a state transformer \<open>('s, 'a) py\<close> whose state survives an exception, so that what was done
  before a \<open>raise\<close> stays done. Third-party code is the record \<open>ext\<close>, an argument of what uses it: the
  protobuf serializers, nacl's signatures and hashes, sortedcontainers' range scans, the parsing of dates,
  the shortest decimal of a float. What the proofs need of it are named hypotheses: \<open>scans_ok\<close> (a scan
  yields the keys in its bounds, in order), \<open>key_codec_ok\<close> (the serialization of keys can be read back and no
  key is a prefix of another's), \<open>key_parse_ends\<close> (reading such bytes gives a key or raises) and \<open>sealed\<close> (a signed
  serialized bundle reads back). The two stores on disk have
  parameters of their own: \<open>log_ext\<close> with \<open>log_codec_ok\<close> (concatenated log messages read back merged) and
  \<open>lmdb_ext\<close> with \<open>lmdb_ok\<close> (the cursor visits the keys in order, entries, containers and claims read back).
  \<open>ref_ext\<close>, \<open>demo_ext\<close>, \<open>own_world\<close>, \<open>demo_log\<close> and \<open>demo_lmdb\<close> are concrete instances, on which every
  theorem with a hypothesis is applied.
  A text is the list of its UTF-8 bytes as characters. \<open>int\<close> and the pattern of the amounts read every decimal digit of
  Unicode, and \<open>int\<close> and \<open>str\<close> refuse numbers of more than 4300 digits, as CPython does from 3.11 on
  (\<open>MAX_STR_DIGITS\<close>; \<open>py_int\<close> and \<open>py_str_int\<close> raise \<open>ValueError\<close>).
  The clock, fresh keys, medallions and random numbers are supplies in the state of the database; a supply
  that is used up, like a lock that is never released, is the value \<open>Blocked\<close>.

  \<^bold>\<open>Theories and code.\<close>
  \<^item> \<open>Prelude\<close>, \<open>Bytes\<close>, \<open>Py_Text\<close>, \<open>Py_Numbers\<close>: results, dictionaries, the method monad with its invariants
    (\<open>py_keeps\<close>), big-endian numbers, Python's text of numbers, decimals with 28 digits and doubles.
  \<^item> \<open>Muids\<close> (\<open>muid.py\<close>, \<open>typedefs.py\<close>): addresses; \<open>Messages\<close> (\<open>builders.py\<close>): the protobuf messages as
    datatypes; \<open>External\<close>: the parameters; \<open>Codings\<close>, \<open>Entry_Values\<close> (\<open>coding.py\<close>): keys, placements, times
    and values; \<open>Infos\<close> (\<open>bundle_info.py\<close>), \<open>Has_Maps\<close> (\<open>has_map.py\<close>).
  \<^item> \<open>Bundle_Rules\<close> (\<open>utilities.py\<close>, \<open>decomposition.py\<close>): signing, combining, which bundle is needed next.
  \<^item> \<open>Mem_Store\<close>, \<open>Mem_Queries\<close> (\<open>memory_store.py\<close>): the writing and the reading half of \<open>MemoryStore\<close>; its
    fifteen tables are the fields of \<open>mem_store\<close>.
  \<^item> \<open>Mem_Reading\<close>, \<open>Mem_Convergence\<close>, \<open>Keyed_Spec\<close>, \<open>Mem_Chains\<close>, \<open>Mem_Runs\<close>: what a store holds after a
    run, as a function of the set of changes it accepted (\<open>contributions\<close>, \<open>holds\<close>), the last-writer-wins
    specification of a keyed container (\<open>spec_lookup\<close>), the invariant of the bundle log (\<open>linked\<close>) and the
    store as a state machine (\<open>mem_step\<close>, \<open>mem_reachable\<close>).
  \<^item> \<open>Mem_Replay\<close>, \<open>Log_Store\<close>, \<open>Log_Laws\<close>, \<open>Log_Runs\<close>, \<open>Log_Recovery\<close> (\<open>log_backed_store.py\<close>): the memory
    store with an append-only file, shared by processes that follow each other's writes; what a second process
    has after reading the file.
  \<^item> \<open>Lmdb_Tables\<close>, \<open>Lmdb_Queries\<close>, \<open>Lmdb_Store\<close> (\<open>lmdb_store.py\<close>, \<open>lmdb_utilities.py\<close>): the store over the
    ordered tables of lmdb, in transactions; \<open>Lmdb_Laws\<close>: what its cursors find and what an operation may write
    (the locale \<open>table_invariant\<close>, interpreted for what is committed, for the tables that lookups read and for the
    setting \<open>apply_changes\<close>); \<open>Lmdb_Refinement\<close>: the tables always mirror a memory store that holds the same changes
    (\<open>mirrors\<close>, \<open>stands\<close>); \<open>Lmdb_Reading\<close>, \<open>Lmdb_Runs\<close>: lookups against the specification.
  \<^item> \<open>Connections\<close> (\<open>connection.py\<close>), \<open>Relay\<close> (\<open>relay.py\<close>), \<open>Sync\<close>: websocket events, greetings, relaying;
    the exchange of bundles as a locale over any ordered source of bundles, interpreted on the store.
  \<^item> \<open>Database\<close> (\<open>database.py\<close>, \<open>bundler.py\<close>, \<open>abstract_store.py\<close>), \<open>Commits\<close>: times, the chain that is
    appended to, the lock, bundlers; what one commit writes and leaves behind.
  \<^item> \<open>Containers\<close> (\<open>container.py\<close>, \<open>addressable.py\<close>), \<open>Directories\<close>, \<open>Simple_Containers\<close> (box, accumulator,
    braid), \<open>Key_Sets\<close>, \<open>Described_Containers\<close> (pair map, pair set, group, property), \<open>Sequences\<close>, \<open>Graphs\<close>,
    \<open>Attributions\<close>: one operation per method; \<open>Container_Laws\<close>: what they promise.
  \<^item> \<open>Mem_Reset\<close> (\<open>get_reset_changes\<close> of \<open>memory_store.py\<close>), \<open>Resets\<close> (\<open>reset\<close> of \<open>container.py\<close> and
    \<open>database.py\<close>): generators as functions of the loop that consumes them; \<open>Reset_Laws\<close>: the reset of one key
    against lookups, through the commit; \<open>Reset_Loops\<close>: what the generators leave alone; \<open>Reset_Ends\<close>: that they
    end; \<open>Reset_Defects\<close>: what they get wrong; \<open>Lmdb_Reset\<close> (\<open>lmdb_store.py\<close>), \<open>Lmdb_Reset_Laws\<close>: the same over
    the tables, and that the stores agree.
  \<^item> \<open>Demo\<close>, \<open>Demo_Database\<close>, \<open>Demo_Resets\<close>: the concrete inputs of the witnesses.

  \<^bold>\<open>What is shown.\<close> A lookup in a store that accepted any run of bundles is the last writer's entry, for the
  memory store (C1) and for LMDB (C3); stores that accepted the same bundles in any order agree, whether both are
  memory stores (C2) or one of each kind (C4, which needs that a container was cleared at most once, since the two
  stores take different clearances for the prior one: C40). No run of operations breaks the bundle log (C5), a
  bundle that is refused by the LMDB store leaves nothing behind (C6), later bundles do not alter the past (C7),
  totals are exact sums (C8); the exchange of bundles is complete, free of repetitions and in order (C10 to C12). A
  log file that is opened again or followed by another process gives the writer's store (C13, C14). Through
  the whole of the database: a value that is set is what is read (C15), clearing an accumulator zeroes it (C16),
  resetting a key of a directory restores the plain value that it held (C17), with the same change on both stores
  (C18), promised addresses are kept (C19), an added bundle reaches every callback once and every peer that lacks it
  once (C20). Histories end (C21) and so does every reset, which never runs out of the rounds of the model (C22);
  finding out what to reset alters no index and adds or removes no entry, though it may rewrite what an entry is
  placed under (C23); sequences are indexed like lists (C24). The other properties are round trips, bounds and error
  cases of the codecs and rules. Five properties state defects: C26 and C27 (locks that are never released), C28 (a
  reader who writes), C29 and C30 (resets that delete what they should keep).

  \<^bold>\<open>Loops and bounds.\<close> Every loop is structural recursion but \<open>history_loop\<close>, a partial function whose
  termination is C21, and \<open>generate_timestamp\<close>, which runs over the readings of the clock;
  the loops of the LMDB store that seek again after each step (\<open>lmdb_keyed_loop\<close>, \<open>drop_prefix\<close>, \<open>drop_entries\<close>)
  and \<open>keyed_reset_loop\<close>, \<open>lmdb_keyed_reset_loop\<close> take the size of their table as fuel, since each step goes to a
  smaller key or deletes one; one that had used it up would give \<open>Blocked\<close>, which C22 excludes for the memory store.
  \<open>container_reset_changes\<close> takes the number of entries as the depth of its recursion, since it descends only into
  containers that it has not seen, and raises \<open>RuntimeError\<close> beyond that, as Python's \<open>RecursionError\<close> is one. Times are below
  \<open>2 ^ 52 - 1\<close> (\<open>time_ok\<close>), as the packed form of an address requires.

  \<^bold>\<open>Not modelled.\<close> The wire format and generated classes of protobuf, the cryptography, sockets, selectors
  and files (third-party code and the operating system); printing (\<open>dump\<close>, \<open>dumps\<close>, \<open>show_log\<close>), the
  command line, consoles and benchmarks; the fixed depth at which Python gives up a recursion; digits beyond ASCII in the
  pattern of a target's port. A database stands on the memory store in this development; the laws of the
  LMDB and the log-backed store relate them to it.
\<close>

section \<open>Whole runs of a replica\<close>

text \<open>C1: A lookup by key in a retaining memory store, after any run of accepted bundles, returns
  what the abstract last-writer-wins specification computes from the changes of these bundles alone:
  the entry with the greatest address before the time asked for, unless it is older than the clearance
  that \<open>_get_time_of_prior_clear\<close> reports.\<close>

theorem lookup_correct:
  assumes "scans_ok E" "key_codec_ok E" "sound_bundles E K (map snd rs)"
    and "receive_all E rs (empty_store True) = Some s"
    and "valid_muid c" "middle_ok k" "middle_kind k = K c" "K c \<noteq> 2" "time_ok t"
  shows "get_entry_by_key E s c k t = Inr (spec_lookup (all_changes E (map snd rs)) c k t)"
  using lookup_refines [OF assms(1,2) received_holds [OF assms(2-4)] _ assms(5-9)] assms(3)
  by (simp add: sound_bundles_def)

lemma lookup_correct_witness:
  "\<exists>s. receive_all demo_ext demo_runs (empty_store True) = Some s \<and>
    get_entry_by_key demo_ext s demo_root (MidKey (KStr ''a'')) (-1) =
      Inr (Some (Muid 2000 88 1, demo_entry ''a'' ''2''))"
proof -
  obtain s where s: "receive_all demo_ext demo_runs (empty_store True) = Some s" using demo_runs_ok by blast
  have "spec_lookup (all_changes demo_ext (map snd demo_runs)) demo_root (MidKey (KStr ''a'')) (-1) =
      Some (Muid 2000 88 1, demo_entry ''a'' ''2'')" by code_simp
  then show ?thesis
    using s lookup_correct [OF demo_scans demo_keys, where K = "\<lambda>_. 1" and rs = demo_runs and c = demo_root
        and k = "MidKey (KStr ''a'')" and t = "-1", OF _ s _ demo_middle] demo_sound
    by (simp add: time_ok_def muid_consts valid_muid_def)
qed

text \<open>C2: Two replicas that accepted the same bundles, in whatever order each of them received
  these and at whatever local times, answer every keyed lookup and every accumulator total alike.\<close>

theorem replicas_converge:
  assumes "scans_ok E" "key_codec_ok E" "sound_bundles E K (map snd rs)"
    and "mset (map snd rs) = mset (map snd rs')"
    and "receive_all E rs (empty_store True) = Some s" "receive_all E rs' (empty_store True) = Some s'"
    and "valid_muid c" "middle_ok k" "middle_kind k = K c" "K c \<noteq> 2" "time_ok t"
  shows "get_entry_by_key E s c k t = get_entry_by_key E s' c k t \<and>
    get_billionths E s c (-1) = get_billionths E s' c (-1)"
proof (rule conjI)
  have sound': "sound_bundles E K (map snd rs')" by (rule sound_bundles_perm [OF assms(4,3)])
  note perm = all_changes_perm [OF assms(4), of E]
  note h = received_holds [OF assms(2,3,5)] and h' = received_holds [OF assms(2) sound' assms(6)]
  have same: "set (all_changes E (map snd rs)) = set (all_changes E (map snd rs'))"
    using perm by (metis set_mset_mset)
  show "get_entry_by_key E s c k t = get_entry_by_key E s' c k t"
    by (rule reads_agree [OF assms(1,2) h h' _ _ assms(7-11)])
      (use assms(3) sound' same in \<open>simp_all add: sound_bundles_def contributions_def\<close>)
  show "get_billionths E s c (-1) = get_billionths E s' c (-1)"
    unfolding total_of_holds [OF h assms(7)] total_of_holds [OF h' assms(7)]
    using perm by (metis mset_map sum_mset_sum_list)
qed

lemma replicas_converge_witness:
  "\<exists>s s'. receive_all demo_ext demo_runs (empty_store True) = Some s \<and>
    receive_all demo_ext demo_swapped (empty_store True) = Some s' \<and>
    get_entry_by_key demo_ext s demo_root (MidKey (KStr ''a'')) (-1) =
    get_entry_by_key demo_ext s' demo_root (MidKey (KStr ''a'')) (-1)"
proof -
  obtain s s' where s: "receive_all demo_ext demo_runs (empty_store True) = Some s"
    "receive_all demo_ext demo_swapped (empty_store True) = Some s'" using demo_runs_ok demo_swapped_ok by blast
  then show ?thesis
    using replicas_converge [OF demo_scans demo_keys, where K = "\<lambda>_. 1" and rs = demo_runs and c = demo_root
        and k = "MidKey (KStr ''a'')" and t = "-1", OF _ _ s _ demo_middle] demo_sound
    by (simp add: time_ok_def muid_consts valid_muid_def)
qed

text \<open>C7: Accepting further bundles whose changes are not older than \<open>t\<close> does not alter what a
  keyed lookup as of \<open>t\<close> returns: the past of a store is stable.\<close>

theorem past_reads_stable:
  assumes "scans_ok E" "key_codec_ok E" "sound_bundles E K (map snd (rs @ rs'))"
    and "receive_all E rs (empty_store True) = Some s" "receive_all E rs' s = Some s'"
    and "\<forall>d \<in> set (all_changes E (map snd rs')). t \<le> dl_ts d" "0 \<le> t"
    and "valid_muid c" "middle_ok k" "middle_kind k = K c" "K c \<noteq> 2" "time_ok t"
  shows "get_entry_by_key E s' c k t = get_entry_by_key E s c k t"
proof -
  have app: "all_changes E (map snd (rs @ rs')) = all_changes E (map snd rs) @ all_changes E (map snd rs')"
    by (simp add: all_changes_def)
  have parts: "sound_bundles E K (map snd rs)" "\<forall>d \<in> set (all_changes E (map snd rs)). in_order K d"
    "\<forall>d \<in> set (all_changes E (map snd rs')). in_order K d"
    using assms(3) unfolding sound_bundles_def app by auto
  note h = received_holds [OF assms(2) parts(1) assms(4)]
  have h': "holds E K (all_changes E (map snd rs) @ all_changes E (map snd rs')) s'"
    by (rule holds_receive [OF assms(2) h _ _ _ assms(5)])
      (use assms(3) app in \<open>auto simp: sound_bundles_def\<close>)
  have "before t (all_changes E (map snd rs) @ all_changes E (map snd rs')) = before t (all_changes E (map snd rs))"
    using before_later [of "all_changes E (map snd rs')" K t] parts(3) assms(6,7,12) by blast
  then have "spec_lookup (all_changes E (map snd rs) @ all_changes E (map snd rs')) c k t
      = spec_lookup (all_changes E (map snd rs)) c k t" by (rule spec_lookup_before)
  moreover have "get_entry_by_key E s' c k t
      = Inr (spec_lookup (all_changes E (map snd rs) @ all_changes E (map snd rs')) c k t)"
    by (rule lookup_refines [OF assms(1,2) h' _ assms(8-12)]) (use parts(2,3) in auto)
  ultimately show ?thesis using lookup_refines [OF assms(1,2) h parts(2) assms(8-12)] by simp
qed

lemma past_reads_stable_witness:
  "\<exists>s s'. receive_all demo_ext [(demo_clock, demo_b1)] (empty_store True) = Some s \<and>
    receive_all demo_ext [(demo_clock, demo_b2)] s = Some s' \<and>
    get_entry_by_key demo_ext s' demo_root (MidKey (KStr ''a'')) 1500 =
    get_entry_by_key demo_ext s demo_root (MidKey (KStr ''a'')) 1500"
proof -
  have "receive_all demo_ext demo_runs (empty_store True) \<noteq> None" by (rule demo_runs_ok)
  then obtain s s' where s: "receive_all demo_ext [(demo_clock, demo_b1)] (empty_store True) = Some s"
    "receive_all demo_ext [(demo_clock, demo_b2)] s = Some s'"
    by (auto split: prod.splits sum.splits bool.splits)
  then show ?thesis
    using past_reads_stable [OF demo_scans demo_keys, where K = "\<lambda>_. 1" and c = demo_root
        and k = "MidKey (KStr ''a'')" and t = "1500", OF _ s _ _ _ demo_middle] demo_sound
    by (simp add: time_ok_def muid_consts valid_muid_def all_changes_def demo_changes)
qed

text \<open>C8: The running total of an accumulator is the exact sum of the amounts that the accepted
  bundles added to it, each counted once.\<close>

theorem total_correct:
  assumes "key_codec_ok E" "sound_bundles E K (map snd rs)"
    and "receive_all E rs (empty_store True) = Some s" "valid_muid c"
  shows "get_billionths E s c (-1) = Inr (\<Sum>d\<leftarrow>all_changes E (map snd rs). amount_of c d)"
  using received_holds [OF assms(1-3)] assms(4) by (rule total_of_holds)

lemma total_correct_witness:
  "\<exists>s. receive_all demo_ext demo_sums (empty_store True) = Some s \<and>
    get_billionths demo_ext s demo_adder (-1) = Inr 42"
proof -
  obtain s where s: "receive_all demo_ext demo_sums (empty_store True) = Some s" using demo_sums_ok by blast
  have "(\<Sum>d\<leftarrow>all_changes demo_ext (map snd demo_sums). amount_of demo_adder d) = 42" by code_simp
  then show ?thesis
    using s total_correct [OF demo_keys, where K = "\<lambda>_. 0" and rs = demo_sums and c = demo_adder, OF _ s]
      demo_sums_sound
    by (simp add: valid_muid_def muid_consts)
qed

section \<open>The bundle log and its exchange\<close>

text \<open>C5: In every state that a memory store reaches, each stored bundle is signed by its chain's
  key, each but the first of its chain carries the hash of the one it follows, and no chain has a gap or a
  fork, whichever bundles were offered to the store, accepted or not.\<close>

lemma log_invariant:
  assumes "mem_reachable E s"
  shows "linked E s"
  using assms by induction (auto intro: mem_step_linked)

lemma log_invariant_witness:
  "linked demo_ext (snd (apply_bundle demo_ext demo_clock demo_b1 (empty_store True)))"
proof (rule log_invariant)
  show "mem_reachable demo_ext (snd (apply_bundle demo_ext demo_clock demo_b1 (empty_store True)))"
    by (rule mem_reachable.Stepped [OF mem_reachable.Opened mem_step.Apply]) (simp add: prod_eq_iff)
qed

text \<open>C9: A bundle that the store already has leaves it exactly as it was, and the caller is told
  so: applying is idempotent.\<close>

lemma apply_not_needed:
  assumes "get_info E b = Inr i" "dget (st_chain_infos s) (get_chain i) = Some old"
    and "get_chain old = get_chain i" "bi_timestamp i \<le> bi_timestamp old"
  shows "apply_bundle E now b s = (Inr False, s)"
proof -
  obtain pb where "get_builder E b = Inr pb" using assms(1) by (auto simp: get_info_def result_simps)
  moreover have "is_needed i (Some old) = Inr False" using assms by (simp add: is_needed_False)
  ultimately show ?thesis
    using assms(1,2) by (simp add: apply_bundle_def py_simps)
qed

lemma apply_not_needed_witness:
  "\<exists>s. receive_all demo_ext demo_runs (empty_store True) = Some s \<and>
    apply_bundle demo_ext demo_clock demo_b1 s = (Inr False, s)"
proof -
  obtain s where s: "receive_all demo_ext demo_runs (empty_store True) = Some s"
    "get_bundles demo_ext s None = [demo_b1, demo_b2]" "sound_store demo_ext s" by (rule demo_stored)
  have "bundle_info_of demo_ext demo_b1 \<in> set (stored_infos demo_ext s)"
    using get_bundles_infos(1) [OF s(3)] s(2) by (metis list.set_intros(1) list.simps(9))
  then obtain x where x: "dget (st_bundles s) (essential (bundle_info_of demo_ext demo_b1)) = Some (bundle_info_of demo_ext demo_b1, x)"
    using stored_infos_mem [OF s(3)] by blast
  have l: "linked demo_ext s" using s(3) by (simp add: sound_store_def)
  obtain final where f: "dget (st_chain_infos s) (get_chain (bundle_info_of demo_ext demo_b1)) = Some final"
    "bi_timestamp (bundle_info_of demo_ext demo_b1) \<le> bi_timestamp final"
    using linked_bundle(2) [OF l x] by (auto simp: bundle_linked_def)
  have "get_info demo_ext demo_b1 = Inr (bundle_info_of demo_ext demo_b1)" by code_simp
  from apply_not_needed [OF this f(1) linked_final(1) [OF l f(1)] f(2)] s(1) show ?thesis by blast
qed

text \<open>C10: The answer to a greeting sends exactly the stored bundles that the peer lacks, in the
  order of the store and without raising, and the tracker afterwards says that the peer has every stored
  bundle.\<close>

lemma greeting_answered:
  assumes s: "sound_store E st" and c: "ready c" "cn_tracker c = Some h" and h: "on_chains (stored_infos E st) h"
  shows "py_each (send_bundle E) (get_bundles E st None) c = (Inr (), c\<lparr>
    cn_tracker := Some (foldl mark_as_having h (stored_infos E st)),
    cn_sent := cn_sent c @ map (\<lambda>b. FrBytes (x_sync_ser E (MsgBundle b)))
      (List.filter (\<lambda>b. \<not> has_info h (bundle_info_of E b)) (get_bundles E st None))\<rparr>)"
  using send_bundles [OF get_bundles_infos(2) [OF s] c mem_source.offer_complete [OF s h get_bundles_infos(1) [OF s]]]
    get_bundles_infos(1) [OF s] by simp

lemma greeting_answered_witness:
  "\<exists>s. py_each (send_bundle demo_ext) (get_bundles demo_ext s None)
      ((new_connection False)\<lparr>cn_tracker := Some [], cn_ws_connected := True\<rparr>) =
    (Inr (), (new_connection False)\<lparr>cn_tracker := Some (foldl mark_as_having [] (stored_infos demo_ext s)),
      cn_ws_connected := True,
      cn_sent := map (\<lambda>b. FrBytes (x_sync_ser demo_ext (MsgBundle b)))
        (List.filter (\<lambda>b. \<not> has_info [] (bundle_info_of demo_ext b)) [demo_b1, demo_b2])\<rparr>)"
proof -
  obtain s where s: "get_bundles demo_ext s None = [demo_b1, demo_b2]" "sound_store demo_ext s"
    using demo_stored by blast
  then show ?thesis
    using greeting_answered [of demo_ext s "(new_connection False)\<lparr>cn_tracker := Some [], cn_ws_connected := True\<rparr>" "[]"]
    by (intro exI [of _ s]) (simp add: ready_def new_connection_def on_chains_def seen_def)
qed

text \<open>C11: Every bundle that the answer to a greeting sends is, when its turn comes, the one that a
  peer that recorded the ones before it needs next.\<close>

lemma sent_in_order:
  assumes s: "sound_store E st" and peer: "finals_ok d" "tracks h d" and on: "on_chains (stored_infos E st) h"
    and sent: "List.filter (\<lambda>b. \<not> has_info h (bundle_info_of E b)) (get_bundles E st None) = xs @ b # ys"
  shows "is_needed (bundle_info_of E b)
    (dget (record_all d (map (bundle_info_of E) xs)) (get_chain (bundle_info_of E b))) = Inr True"
proof -
  let ?inf = "bundle_info_of E"
  have offer: "offer_all ?inf h (get_bundles E st None)
      = Inr (xs @ b # ys, foldl mark_as_having h (map ?inf (get_bundles E st None)))"
    using mem_source.offer_complete [OF s on get_bundles_infos(1) [OF s]] sent by simp
  note turns = offer_turns [OF offer]
  have known: "\<exists>x. dget (st_bundles st) (essential (?inf a)) = Some (?inf a, x)" if "a \<in> set (xs @ b # ys)" for a
  proof -
    have "a \<in> set (get_bundles E st None)"
      using that unfolding sent [symmetric] by (rule subsetD [OF filter_is_subset])
    then have "?inf a \<in> set (stored_infos E st)"
      unfolding get_bundles_infos(1) [OF s, symmetric] set_map by (rule imageI)
    then show ?thesis using stored_infos_mem [OF s] by blast
  qed
  have l: "linked E st" using s by (simp add: sound_store_def)
  have facts: "0 < bi_timestamp (?inf a) \<and> bi_chain_start (?inf a) \<le> bi_timestamp (?inf a) \<and>
      (bi_timestamp (?inf a) = bi_chain_start (?inf a) \<longrightarrow> bi_previous (?inf a) = 0)"
    if a: "a \<in> set (xs @ b # ys)" for a
  proof -
    obtain x where "dget (st_bundles st) (essential (?inf a)) = Some (?inf a, x)" using known [OF a] by blast
    from linked_bundle(2) [OF l this] show ?thesis
      by (auto simp: bundle_linked_def link_ok_def split: if_splits)
  qed
  have "tracks (foldl mark_as_having h (map ?inf xs)) (record_all d (map ?inf xs))"
    using turns by (intro tracks_all [OF _ peer(2)]) (auto simp: map_eq_append_conv map_eq_Cons_conv)
  moreover have "finals_ok (record_all d (map ?inf xs))"
    using facts by (intro finals_all [OF peer(1)]) auto
  ultimately show ?thesis
    using turns facts [of b] by (intro tracked_is_needed) auto
qed

lemma sent_in_order_witness:
  "is_needed (bundle_info_of demo_ext demo_b2)
    (dget (record_all [] [bundle_info_of demo_ext demo_b1]) (get_chain (bundle_info_of demo_ext demo_b2))) = Inr True"
proof -
  obtain s where s: "get_bundles demo_ext s None = [demo_b1, demo_b2]" "sound_store demo_ext s"
    using demo_stored by blast
  then show ?thesis
    using sent_in_order [of demo_ext s "[]" "[]" "[demo_b1]" demo_b2 "[]"]
    by (simp add: finals_ok_def tracks_def on_chains_def seen_def has_info_def demo_infos)
qed

text \<open>C12: The greeting that a store sends, its own has-map, names for each chain exactly the time of
  the last bundle that the store has of it.\<close>

theorem own_greeting:
  assumes "sound_store E st"
  shows "dget (get_has_map E st None) c = map_option bi_timestamp (dget (st_chain_infos st) c)"
  using get_has_map_tracks [OF assms] by (simp add: tracks_def)

lemma own_greeting_witness:
  "\<exists>s. get_bundles demo_ext s None = [demo_b1, demo_b2] \<and>
    dget (get_has_map demo_ext s None) (Chain 77 1000) = map_option bi_timestamp (dget (st_chain_infos s) (Chain 77 1000))"
proof -
  obtain s where "get_bundles demo_ext s None = [demo_b1, demo_b2]" "sound_store demo_ext s"
    using demo_stored by blast
  then show ?thesis using own_greeting [of demo_ext s] by blast
qed

section \<open>Databases and their containers\<close>

text \<open>C15: A value that is set under a key of a directory, with a bundle of its own, is what the directory
  gives for the key from then on, read back through the whole way: bundler, commit, signed bundle, store, last
  writer, decoding. The store has accepted sound bundles no newer than the clock; the database has a chain.\<close>

theorem set_then_get:
  assumes E: "scans_ok E" "key_codec_ok E"
    and store: "receive_all E rs (empty_store True) = Some (rl_store d)" "sound_bundles E K (map snd rs)"
    and old: "\<forall>y \<in> set (all_changes E (map snd rs)). dl_ts y \<le> fst (db_clock d)" "clock_ok d"
    and self: "ct_muid self = RefMuid c" "ct_behavior self = DIRECTORY" "K c = 1"
    and c: "valid_muid c" "mu_timestamp c \<noteq> 0" "mu_medallion c \<noteq> 0" "0 \<le> mu_offset c"
    and key: "valid_ukey key" "\<not> blank_key key" and val: "encodable v" "dicts_ok v"
    and link: "db_last_link d = Some link" "db_signing_key d = Some sk" "bi_hex_hash link = Some h"
      "0 < bi_medallion link" "bi_medallion link < MEDALLION_MOD - 1"
    and law: "\<And>t pb. 0 < t \<Longrightarrow> time_ok t \<Longrightarrow> encode_value E v = Inr pb \<Longrightarrow>
      sealed E sk (next_bundle link h [ChEntry (set_entry c key pb)] comment t)"
    and active: "db_active d = None"
    and run: "directory_set E now self (OneKey key) (UserVal v) None comment d = (Inr r, d')"
    and later: "fst (tick d') = Inr T"
  shows "fst (directory_get E self (OneKey key) TsNone d') = Inr (Some (ItemValue (read_back E v)))"
proof -
  obtain pb where pb: "encode_value E v = Inr pb" "decode_value E pb = Inr (read_back E v)"
    using value_reads_back [OF val] by blast
  obtain n b d1 t1 where d1: "commit E now True n d1 = (Inr (), d')" "dget (db_bundlers d1) n = Some b"
    "bb_changes b = [ChEntry (set_entry c key pb)]" "bb_comment b = comment"
    "rl_store d1 = rl_store d" "db_last_link d1 = db_last_link d" "db_signing_key d1 = db_signing_key d"
    "fst (tick d) = Inr t1" "db_clock d1 = db_clock (snd (tick d))"
    by (rule set_runs [OF run self(1,2) key(1) pb(1) active])
  have "tick d = (Inr t1, snd (tick d))" using d1(8) by (metis prod.collapse)
  note ok1 = tick_ok [OF old(2) this]
  have clock1: "clock_ok d1" "fst (db_clock d) < fst (db_clock d1)" using ok1 d1(9) by (simp_all add: clock_ok_def)
  have kind: "behavior_kind (en_behavior (set_entry c key pb)) = Some (middle_kind (MidKey key))"
    by (simp add: set_entry_def behavior_kind_def)
  have placed: "placement_from_builder (set_entry c key pb) t (bi_medallion link) 1 =
      Inr (Placement c (MidKey key) (Muid t (bi_medallion link) 1) None)"
    if "change_muid (Muid t (bi_medallion link) 1)" for t
    using set_entry_placed [OF c key(1) that] .
  have older: "\<forall>y \<in> set (all_changes E (map snd rs)). dl_ts y \<le> fst (db_clock d1)" using old(1) clock1(2) by auto
  have law': "sealed E sk (next_bundle link h [ChEntry (set_entry c key pb)] (bb_comment b) t)" if "0 < t" "time_ok t" for t
    using law [OF that pb(1)] d1(4) by simp
  note after = entry_committed [OF E _ store(2) older clock1(1) _ _ link(3-5) d1(1-3) law' c(1) _ _ _ kind placed]
  have clock': "clock_ok d'" by (rule after(1)) (use store d1 link key self in simp_all)
  obtain d2 where tick: "tick d' = (Inr T, d2)" using later by (metis prod.collapse)
  have "\<exists>u. get_entry_by_key E (rl_store d') c (MidKey key) T = Inr (Some (u, set_entry c key pb))"
    by (rule after(2)) (use store d1 link key self tick_ok [OF clock' tick] in simp_all)
  then obtain u where found: "get_entry_by_key E (rl_store d') c (MidKey key) T = Inr (Some (u, set_entry c key pb))" by blast
  show ?thesis
    using tick tick_fields [OF tick] found key(2) self pb(2)
    by (simp add: directory_get_def py_bind_apply py_apply is_directory_def live_entry_def resolve_ref_def entry_at_def
        get_occupant_def set_entry_def deletion_of_def)
qed

lemma set_then_get_witness:
  "\<exists>r d'. directory_set own_ext demo_clock get_root (OneKey (KStr ''b'')) (UserVal (UInt 5)) None None own_database = (Inr r, d') \<and>
    fst (directory_get own_ext get_root (OneKey (KStr ''b'')) TsNone d') = Inr (Some (ItemValue (UInt 5)))"
proof -
  obtain r d' where run: "directory_set own_ext demo_clock get_root (OneKey (KStr ''b'')) (UserVal (UInt 5)) None None own_database
      = (Inr r, d')" "fst (tick d') = Inr 4000"
    using own_set by (auto split: prod.splits sum.splits)
  have law: "sealed own_ext [7] (next_bundle own_link [] [ChEntry (set_entry demo_root (KStr ''b'') pb)] None t)"
    if "0 < t" "time_ok t" "encode_value own_ext (UInt 5) = Inr pb" for t pb
  proof -
    have "py_str_int 5 = Inr ''5''" by code_simp
    then have "pb = ValInteger ''5''" using that(3) by simp
    then show ?thesis using own_sealed [of t] that by (simp add: world_bundle_def own_entry_def)
  qed
  have fits: "fits_text 5" by (rule fits_small [of _ 1]) (simp_all add: MAX_STR_DIGITS_def)
  have "fst (directory_get own_ext get_root (OneKey (KStr ''b'')) TsNone d') =
      Inr (Some (ItemValue (read_back own_ext (UInt 5))))"
  proof (rule set_then_get [where K = "\<lambda>_. 1" and rs = "[(demo_clock, own_start)]" and c = demo_root and link = own_link
        and sk = "[7]" and h = "[]" and comment = None, OF own_scans _ _ _ _ _ _ _ _ _ _ _ _ _ _ _ _ _ _ _ _ _ _ run])
    show "valid_ukey (KStr ''b'')" "\<not> blank_key (KStr ''b'')" by code_simp+
    show "valid_muid demo_root" by (simp add: valid_muid_def muid_consts)
  qed (use own_stored own_start_changes own_fields law in
      \<open>simp_all add: own_link_def get_root_def behavior_defs muid_consts fits\<close>)
  then show ?thesis using run(1) by auto
qed

text \<open>C16: Clearing an accumulator, with a bundle of its own, leaves the total zero, whatever bundles
  the store had accepted: the decimal arithmetic on the way (the total as a decimal, its opposite, that in
  billionths) is exact as long as the total has at most 28 digits.\<close>

theorem accumulator_cleared:
  assumes E: "key_codec_ok E"
    and store: "receive_all E rs (empty_store True) = Some (rl_store d)" "sound_bundles E K (map snd rs)"
    and old: "\<forall>y \<in> set (all_changes E (map snd rs)). dl_ts y \<le> fst (db_clock d)" "clock_ok d"
    and self: "ct_muid self = RefMuid c" "ct_behavior self = ACCUMULATOR" "K c = 0"
    and c: "valid_muid c" "mu_timestamp c \<noteq> 0" "mu_medallion c \<noteq> 0" "0 \<le> mu_offset c"
    and small: "get_billionths E (rl_store d) c (-1) = Inr n" "\<bar>n\<bar> < 10 ^ 28"
    and link: "db_last_link d = Some link" "db_signing_key d = Some sk" "bi_hex_hash link = Some h"
      "0 < bi_medallion link" "bi_medallion link < MEDALLION_MOD - 1"
    and law: "\<And>t. 0 < t \<Longrightarrow> time_ok t \<Longrightarrow>
      sealed E sk (next_bundle link h [ChEntry (amount_entry c (- n))] comment t)"
    and active: "db_active d = None"
    and run: "accumulator_clear E now self None comment d = (Inr r, d')"
  shows "fst (accumulator_get E self TsNone d') = Inr (0, -9)"
proof -
  have fits: "fits_text (- n)" by (rule fits_small [of _ 28]) (use small(2) in \<open>simp_all add: MAX_STR_DIGITS_def\<close>)
  then have val: "encode_value E (UInt (- n)) = Inr (ValInteger (decimal_text (- n)))" by (simp add: py_str_int_def)
  obtain m b d1 where d1: "commit E now True m d1 = (Inr (), d')" "dget (db_bundlers d1) m = Some b" "bb_comment b = comment"
    "bb_changes b = [ChEntry (amount_entry c (- n))]"
    "rl_store d1 = rl_store d" "db_last_link d1 = db_last_link d" "db_signing_key d1 = db_signing_key d"
    "db_clock d1 = db_clock d"
    using run [unfolded cleared_amount [OF small self(1)] self(1,2)] amount_entry_def
    by (metis entry_runs [OF _ val active])
  have clock1: "clock_ok d1" using old(2) d1(8) by (simp add: clock_ok_def)
  let ?pb = "next_bundle link h (bb_changes b) (bb_comment b)"
  have tk: "tick d1 = (Inr t, snd (tick d1))" if "fst (tick d1) = Inr t" for t using that by (metis prod.collapse)
  have law': "fst (tick d1) = Inr t \<Longrightarrow> sealed E sk (?pb t)" for t
    using tick_ok [OF clock1 tk] law d1 clock1 by (simp add: clock_ok_def)
  obtain t bs where bs: "bs = x_sign E sk (x_bundle_ser E (?pb t))"
    "apply_bundle E now bs (rl_store d) = (Inr True, rl_store d')" "fst (tick d1) = Inr t"
  proof (rule commit_runs [OF d1(1) _ _ link(3) d1(2) _ law'])
    show "db_last_link d1 = Some link" "db_signing_key d1 = Some sk" "bb_changes b \<noteq> []" using d1 link by simp_all
  qed (use that d1(5) in simp_all)
  note ok = tick_ok [OF clock1 tk [OF bs(3)]]
  let ?x = "Delivery 0 t (bi_medallion link) 1 (ChEntry (amount_entry c (- n)))"
  have new: "changes_of E bs = [?x]" "plain_bundle E bs"
    using law' [OF bs(3)] bs(1) d1(4)
    by (simp_all add: changes_of_def plain_bundle_def sealed_def next_bundle_def empty_bundle_def)
  have change: "change_muid (Muid t (bi_medallion link) 1)"
    using ok(1,2) old(2) d1(8) link(4,5)
    by (simp add: change_muid_def valid_muid_def time_ok_def muid_consts clock_ok_def)
  note placed = amount_entry_placed [OF c change, of "- n"]
  have x: "in_order K ?x" "amount_of c ?x = - n"
    using placed change c(1) self(3) fits
    by (simp_all add: in_order_def amount_of_def entry_of_def placement_ok_def change_muid_def valid_time_def
        behavior_kind_def amount_entry_def integer_text_def value_of_def py_int_py_str_int behavior_defs)
  have older: "\<forall>y \<in> set (all_changes E (map snd rs)). dl_ts y < t" using old(1) ok(1) d1(8) by auto
  note after = one_more [OF store older bs(2) new x(1)]
  have "get_billionths E (rl_store d') c (-1) = Inr 0"
    using total_of_holds [OF received_holds [OF E after(2,1)] c(1)] total_of_holds [OF received_holds [OF E store(2,1)] c(1)]
      after(3) small(1) x(2) by simp
  moreover have "dec_round (0, -9) = (0, -9)" by (rule dec_round_exact) simp
  ultimately show ?thesis
    using self(1) by (simp add: accumulator_get_def accumulator_size_def py_bind_apply py_apply resolve_ref_def)
qed


lemma accumulator_cleared_witness:
  "\<exists>r d'. accumulator_clear sum_ext demo_clock sum_adder None None sum_database = (Inr r, d') \<and>
    fst (accumulator_get sum_ext sum_adder TsNone d') = Inr (0, -9)"
proof -
  obtain r d' where run: "accumulator_clear sum_ext demo_clock sum_adder None None sum_database = (Inr r, d')"
    using sum_cleared by blast
  have law: "sealed sum_ext [7] (next_bundle own_link [] [ChEntry (amount_entry demo_adder (- 42))] None t)"
    if "0 < t" "time_ok t" for t using own_sealed [of t] that by (simp add: world_bundle_def)
  have "fst (accumulator_get sum_ext sum_adder TsNone d') = Inr (0, -9)"
    by (rule accumulator_cleared [where K = "\<lambda>_. 0" and rs = "[(demo_clock, own_start)]" and c = demo_adder
        and link = own_link and sk = "[7]" and h = "[]" and comment = None and n = 42, OF own_scans(2) _ _ _ _ _ _ _ _ _ _ _ _ _ _ _ _ _ _ _ _ run])
      (use sum_stored sum_changes sum_fields law in
        \<open>simp_all add: own_link_def sum_adder_def behavior_defs muid_consts valid_muid_def\<close>)
  then show ?thesis using run by auto
qed

text \<open>C19: The address that a bundler gives for a change is, once the bundler is committed, the address of
  that change: the bundle is stored as the next one of the database's chain, it has the change at that position,
  and the database goes on from it, unlocked.\<close>

theorem added_change_addressed:
  assumes add: "add_change n sb d = (Inr r, d1)"
    and b: "dget (db_bundlers d) n = Some b" "bb_count b = int (length (bb_changes b))" "bb_count b + 1 < OFFSET_MOD div 2"
    and link: "db_last_link d = Some link" "db_signing_key d = Some sk" "bi_hex_hash link = Some h"
    and law: "\<And>t change. fst (tick d1) = Inr t \<Longrightarrow> as_change (bb_count b + 1) sb = Inr change \<Longrightarrow>
      sealed E sk (next_bundle link h (bb_changes b @ [change]) (bb_comment b) t)"
    and commit: "commit E now True n d1 = (Inr (), d2)"
  shows "\<exists>i bs pb change. db_last_link d2 = Some i \<and> dget (st_bundles (rl_store d2)) (essential i) = Some (i, bs) \<and>
    get_chain i = get_chain link \<and> bi_previous i = bi_timestamp link \<and> get_builder E bs = Inr pb \<and>
    bn_changes pb = bb_changes b @ [change] \<and> as_change (bb_count b + 1) sb = Inr change \<and>
    fst (resolve_ref E r d2) = Inr (Muid (bi_timestamp i) (bi_medallion i) (int (length (bb_changes b)) + 1)) \<and>
    \<not> db_locked d2"
proof -
  obtain change where c: "as_change (bb_count b + 1) sb = Inr change" "r = RefNew n (bb_count b + 1)"
    "dget (db_bundlers d1) n = Some (b\<lparr>bb_count := bb_count b + 1, bb_changes := bb_changes b @ [change]\<rparr>)"
    "rl_store d1 = rl_store d" "db_last_link d1 = db_last_link d" "db_signing_key d1 = db_signing_key d"
    by (rule add_change_runs [OF add b])
  let ?b = "b\<lparr>bb_count := bb_count b + 1, bb_changes := bb_changes b @ [change]\<rparr>"
  let ?pb = "next_bundle link h (bb_changes ?b) (bb_comment ?b)"
  have law': "fst (tick d1) = Inr t \<Longrightarrow> sealed E sk (?pb t)" for t using law [OF _ c(1)] by simp
  show ?thesis
  proof (rule commit_runs [OF commit _ _ link(3) c(3) _ law'])
    fix t bs
    assume bs: "bs = x_sign E sk (x_bundle_ser E (?pb t))" "fst (tick d1) = Inr t" "\<not> db_locked d2"
      "apply_bundle E now bs (rl_store d1) = (Inr True, rl_store d2)" "db_last_link d2 = Some (info_of_bundle E bs (?pb t))"
      "dget (db_bundlers d2) n = Some (?b\<lparr>bb_decomposition := Some bs\<rparr>)"
    note i = info_sealed [OF law' [OF bs(2)] bs(1)]
    have pb: "get_builder E bs = Inr (?pb t)" using law' [OF bs(2)] bs(1) by (simp add: sealed_def)
    show ?thesis
      using bs(3,5,6) recorded [OF bs(4) i] i pb c(1,2) b(2)
      by (simp add: resolve_ref_def py_apply view_of_def) (simp add: next_bundle_def)
  qed (use c link in simp_all)
qed

lemma added_change_addressed_witness:
  "\<exists>r d1 d2 i. add_change 0 (SbEntry own_entry) open_database = (Inr r, d1) \<and>
    commit own_ext demo_clock True 0 d1 = (Inr (), d2) \<and> db_last_link d2 = Some i \<and> bi_previous i = 1000 \<and>
    fst (resolve_ref own_ext r d2) = Inr (Muid (bi_timestamp i) (bi_medallion i) 1)"
proof -
  obtain r d1 d2 where run: "add_change 0 (SbEntry own_entry) open_database = (Inr r, d1)"
    "commit own_ext demo_clock True 0 d1 = (Inr (), d2)"
    using own_commit by (auto split: prod.splits sum.splits)
  have b: "dget (db_bundlers open_database) 0 = Some own_bundler" by (simp add: open_database_def)
  have c: "db_clock d1 = db_clock open_database"
    using run(1) by (auto simp: add_change_def set_bundler_def get_bundler_def py_bind_apply py_then_apply py_apply
        split: sum.splits if_splits option.splits)
  have law: "sealed own_ext [7] (next_bundle own_link [] (bb_changes own_bundler @ [change]) (bb_comment own_bundler) t)"
    if "fst (tick d1) = Inr t" "as_change (bb_count own_bundler + 1) (SbEntry own_entry) = Inr change" for t change
  proof -
    have "time_ok t" "0 \<le> t" using that(1) c
      by (simp_all add: tick_def open_database_def own_database_def new_database_def py_bind_apply py_apply time_ok_def muid_consts)
    moreover have "as_change 1 (SbEntry own_entry) = Inr (ChEntry own_entry)" by code_simp
    ultimately show ?thesis using own_sealed [of t] that(2) by (auto simp: world_bundle_def own_bundler_def)
  qed
  show ?thesis
    using added_change_addressed [OF run(1) b _ _ _ _ _ law run(2)] run
    by (auto simp: open_database_def own_fields own_bundler_def own_link_def muid_consts)
qed

text \<open>C26: When a database cannot be entered (for instance because it may not start a chain), its lock stays
  taken: every later commit of a bundler with changes waits for ever.\<close>

theorem failed_enter_blocks:
  assumes "db_enter E now d = (Inl e, d')" "dget (db_bundlers d') n = Some b" "bb_open b" "bb_changes b \<noteq> []"
  shows "commit E' now' skip n d' = (Inl Blocked, d')"
  using failed_enter [OF assms(1)] assms(2-4)
  by (simp add: commit_def with_database_def db_enter_def get_bundler_def dindex_def py_bind_apply py_apply)

lemma failed_enter_blocks_witness:
  "\<exists>d'. db_enter own_ext demo_clock closed_database = (Inl RuntimeError, d') \<and>
    fst (commit own_ext demo_clock True 0 d') = Inl Blocked"
proof -
  obtain d' where d': "db_enter own_ext demo_clock closed_database = (Inl RuntimeError, d')"
    using closed_enter(1) by (metis prod.collapse)
  obtain b where "dget (db_bundlers d') 0 = Some b" "bb_open b" "bb_changes b \<noteq> []"
    using closed_enter(2) d' by (auto split: option.splits)
  then show ?thesis using failed_enter_blocks [OF d'] d' by simp
qed

section \<open>A relay and its peers\<close>


definition peer_relay :: relay where
  "peer_relay = (new_relay (empty_store True))\<lparr>rl_callbacks := [3],
     rl_conns := [(0, (new_connection False)\<lparr>cn_tracker := Some [], cn_ws_connected := True\<rparr>)]\<rparr>"

lemma peer_receives: "case relay_receive demo_ext demo_clock (relay_on_bundle demo_ext) demo_b1 peer_relay of
    (Inr True, r') \<Rightarrow> True | _ \<Rightarrow> False"
  by code_simp


definition reader_relay :: relay where
  "reader_relay = (new_relay (empty_store True))\<lparr>
     rl_conns := [(0, (new_connection True)\<lparr>cn_perms := AUTH_READ, cn_ws_connected := True\<rparr>)]\<rparr>"

definition bundle_frame :: incoming where
  "bundle_frame = InEvents [EvBytes (10 # demo_b1) True]"

text \<open>C28: A peer that was only allowed to read can still write: a valid bundle that it sends over its open
  connection leaves the store as \<open>apply_bundle\<close> does, whatever the relay and the store hold.\<close>

theorem reader_writes:
  assumes "dget (rl_conns r) n = Some c" "cn_perms c = AUTH_READ" "\<not> cn_closed c" "cn_message_buffer c = []"
    and "x_sync_parse E data = Inr (MsgBundle b)" "get_builder E b = Inr pb" "validate_bundle pb = Inr ()"
    and "apply_bundle E now b (rl_store r) = (Inr needed, s')"
  shows "rl_store (snd (on_connection_ready E now (relay_on_bundle E) n (InEvents [EvBytes data True]) r)) = s'"
  using assms by (intro bundle_arrives)

lemma reader_writes_witness:
  "dkeys (st_bundles (rl_store (snd (on_connection_ready demo_ext demo_clock (relay_on_bundle demo_ext) 0 bundle_frame reader_relay))))
    = [[1000, 77, 1000]]"
proof -
  let ?c = "(new_connection True)\<lparr>cn_perms := AUTH_READ, cn_ws_connected := True\<rparr>"
  have c: "dget (rl_conns reader_relay) 0 = Some ?c" "cn_perms ?c = AUTH_READ" "\<not> cn_closed ?c" "cn_message_buffer ?c = []"
    "rl_store reader_relay = empty_store True"
    by (simp_all add: reader_relay_def new_relay_def new_connection_def)
  have data: "x_sync_parse demo_ext (10 # demo_b1) = Inr (MsgBundle demo_b1)" by (simp add: demo_ext_def ref_ext_def)
  have valid: "get_builder demo_ext demo_b1 = Inr demo_first" "validate_bundle demo_first = Inr ()" by code_simp+
  have "case apply_bundle demo_ext demo_clock demo_b1 (empty_store True) of (Inr True, s) \<Rightarrow> dkeys (st_bundles s) = [[1000, 77, 1000]] | _ \<Rightarrow> False"
    by code_simp
  then obtain s where s: "apply_bundle demo_ext demo_clock demo_b1 (empty_store True) = (Inr True, s)" "dkeys (st_bundles s) = [[1000, 77, 1000]]"
    by (auto split: prod.splits sum.splits bool.splits)
  show ?thesis
    using reader_writes [OF c(1-4) data valid s(1) [folded c(5)]] s(2) by (simp add: bundle_frame_def)
qed

end
